(* ===== verification/Goatza_Prelude.thy ===== *)
theory Goatza_Prelude
  imports Main "HOL-Library.Multiset"
begin

text \<open>
  The vocabulary the components share: identifiers and instants, the exceptions a service
  raises, the sequencing of fallible steps, and row tables.

  A service method that raises is a function into \<open>error + 'a\<close>. Every write method of the
  services runs under \<open>transaction.atomic\<close>, so an exception leaves the database as it was:
  \<open>Inl e\<close> carries no state.

  UUID primary keys are natural numbers. An instant is a number of microseconds since the Unix
  epoch in UTC, a calendar day the number of days since 1970-01-01: both are what a Python
  \<open>datetime\<close> and \<open>date\<close> compare by.

  A table is the list of its rows. The laws a client of a table relies on are the locale
  \<open>row_store\<close>: a lookup after a write, and how a write moves the number of rows with a property.
  The second is what every denormalised counter of the program is about.
\<close>

section \<open>Identifiers, instants and exceptions\<close>

type_synonym uid = nat
type_synonym oid = nat
type_synonym instant = int
type_synonym day = int

datatype error =
    ValidationError string
  | PermissionDenied string
  | BlockedError
  | IntegrityError
  | DoesNotExist
  | RuntimeError string
  | ValueError string
  | OrgMemberError string int
  | AgeGateError string
  | GuardianConsentError string
  | MessageError string
  | PublicationError string
  | MediaJobError string
  | UsernameTaken string
  | AssertionError
  | NotFoundError string
  | TransactionManagementError
  | DatabaseError
  | PyException string

type_synonym 'a result = "error + 'a"

definition res_bind :: "'a result \<Rightarrow> ('a \<Rightarrow> 'b result) \<Rightarrow> 'b result" where
  "res_bind m f = (case m of Inl e \<Rightarrow> Inl e | Inr x \<Rightarrow> f x)"

lemma res_bind_simps [simp]:
  "res_bind (Inl e) f = Inl e"
  "res_bind (Inr x) f = f x"
  by (simp_all add: res_bind_def)

lemma res_bind_eq_Inr: "res_bind m f = Inr y \<longleftrightarrow> (\<exists>x. m = Inr x \<and> f x = Inr y)"
  by (cases m) auto

lemma res_bind_eq_Inl:
  "res_bind m f = Inl e \<longleftrightarrow> m = Inl e \<or> (\<exists>x. m = Inr x \<and> f x = Inl e)"
  by (cases m) auto

lemma if_Inl_eq_Inr [simp]:
  "(if b then Inl e else m) = Inr x \<longleftrightarrow> \<not> b \<and> m = Inr x"
  by simp

text \<open>Facts that take a successful run of a service method apart.\<close>

named_theorems run_ok

lemmas [run_ok] = res_bind_eq_Inr

section \<open>Generic lemmas\<close>

lemma length_filter_map_if:
  "length (filter P xs) = (\<Sum>x \<leftarrow> xs. if P x then 1 else 0)"
  by (induction xs) auto

lemma find_eq_Some_conv:
  "find P xs = Some x \<Longrightarrow> x \<in> set xs \<and> P x"
  by (auto simp: find_Some_iff)

lemma find_None_conv: "find P xs = None \<longleftrightarrow> (\<forall>x \<in> set xs. \<not> P x)"
  by (induction xs) auto

lemma find_at_end: "find P xs = None \<Longrightarrow> P x \<Longrightarrow> find P (xs @ [x]) = Some x"
  by (induction xs) (auto split: if_splits)

lemma find_unique: "x \<in> set xs \<Longrightarrow> P x \<Longrightarrow> (\<And>y. y \<in> set xs \<Longrightarrow> P y \<Longrightarrow> y = x) \<Longrightarrow> find P xs = Some x"
proof (cases "find P xs")
  case None
  assume "x \<in> set xs" "P x"
  with None show ?thesis by (simp add: find_None_conv)
next
  case (Some y)
  assume "\<And>y. y \<in> set xs \<Longrightarrow> P y \<Longrightarrow> y = x"
  with Some find_eq_Some_conv [OF Some] show ?thesis by simp
qed

section \<open>Python strings\<close>

text \<open>
  A \<open>str\<close> is a list of characters, code points below 256. On those, \<open>strip\<close> removes the characters
  Python's \<open>isspace\<close> accepts and \<open>lower\<close> maps the Latin-1 capitals.
\<close>

definition py_isspace :: "char \<Rightarrow> bool" where
  "py_isspace c =
     (let n = (of_char c :: nat)
      in (9 \<le> n \<and> n \<le> 13) \<or> (28 \<le> n \<and> n \<le> 32) \<or> n = 133 \<or> n = 160)"

definition py_strip :: "string \<Rightarrow> string" where
  "py_strip s = rev (dropWhile py_isspace (rev (dropWhile py_isspace s)))"

definition py_lower_char :: "char \<Rightarrow> char" where
  "py_lower_char c =
     (let n = (of_char c :: nat)
      in if (65 \<le> n \<and> n \<le> 90) \<or> (192 \<le> n \<and> n \<le> 222 \<and> n \<noteq> 215)
         then char_of (n + 32) else c)"

definition py_lower :: "string \<Rightarrow> string" where
  "py_lower s = map py_lower_char s"

text \<open>\<open>str(n)\<close>.\<close>

fun decimal :: "nat \<Rightarrow> string" where
  "decimal n = (if n < 10 then [char_of (48 + n)] else decimal (n div 10) @ [char_of (48 + n mod 10)])"

declare decimal.simps [simp del]

definition is_digit_char :: "char \<Rightarrow> bool" where "is_digit_char c \<longleftrightarrow> c \<in> set ''0123456789''"

lemma decimal_digits: "list_all is_digit_char (decimal n) \<and> decimal n \<noteq> []"
proof (induction n rule: less_induct)
  case (less n)
  have digit: "is_digit_char (char_of (48 + d))" if "d < 10" for d :: nat
  proof -
    have "list_all (\<lambda>d. is_digit_char (char_of (48 + d :: nat))) [0..<10]" by code_simp
    with that show ?thesis by (simp add: list_all_iff)
  qed
  show ?case
    by (cases "n < 10") (use less [of "n div 10"] digit in \<open>auto simp: decimal.simps [of n]\<close>)
qed

lemma decimal_length: "n < 10 ^ k \<Longrightarrow> 0 < k \<Longrightarrow> length (decimal n) \<le> k"
proof (induction k arbitrary: n)
  case (Suc k)
  show ?case
  proof (cases "n < 10")
    case False
    then have "0 < k" using Suc.prems(1) by (cases k) auto
    moreover have "n div 10 < 10 ^ k" using Suc.prems(1) by (simp add: less_mult_imp_div_less)
    ultimately show ?thesis using Suc.IH [of "n div 10"] False by (subst decimal.simps) simp
  qed (subst decimal.simps, simp)
qed simp

lemma digit_char_inj:
  assumes "a < 10" "b < 10" "(char_of (48 + a :: nat) :: char) = char_of (48 + b)"
  shows "a = b"
proof -
  have "list_all (\<lambda>a. list_all (\<lambda>b. (char_of (48 + a :: nat) :: char) = char_of (48 + b) \<longrightarrow> a = b) [0..<10]) [0..<10]"
    by code_simp
  with assms show ?thesis by (auto simp: list_all_iff)
qed

lemma decimal_inj: "decimal m = decimal n \<Longrightarrow> m = n"
proof (induction m arbitrary: n rule: less_induct)
  case (less m)
  have one: "length (decimal k) = 1 \<longleftrightarrow> k < 10" for k
    using decimal_digits [of "k div 10"] by (simp add: decimal.simps [of k])
  show ?case
  proof (cases "m < 10")
    case True
    then have "n < 10" using one [of m] one [of n] less.prems by simp
    with True less.prems show ?thesis using digit_char_inj by (simp add: decimal.simps [of m] decimal.simps [of n])
  next
    case False
    then have "\<not> n < 10" using one [of m] one [of n] less.prems by simp
    with False less.prems have eq: "decimal (m div 10) = decimal (n div 10)"
        "(char_of (48 + m mod 10) :: char) = char_of (48 + n mod 10)"
      by (simp_all add: decimal.simps [of m] decimal.simps [of n])
    have "m div 10 = n div 10" using less.IH [OF _ eq(1)] False by simp
    moreover have "m mod 10 = n mod 10" using digit_char_inj [OF _ _ eq(2)] by simp
    ultimately show ?thesis by (metis div_mult_mod_eq)
  qed
qed

definition startswith :: "string \<Rightarrow> string \<Rightarrow> bool" where
  "startswith s p \<longleftrightarrow> take (length p) s = p"

definition endswith :: "string \<Rightarrow> string \<Rightarrow> bool" where
  "endswith s p \<longleftrightarrow> drop (length s - length p) s = p"

text \<open>\<open>s.partition(sep)\<close>: what precedes the first \<open>sep\<close>, whether there is one, what follows it.\<close>

fun py_partition :: "string \<Rightarrow> string \<Rightarrow> string \<times> bool \<times> string" where
  "py_partition sep [] = (if sep = [] then ([], True, []) else ([], False, []))"
| "py_partition sep (c # cs) =
     (if startswith (c # cs) sep then ([], True, drop (length sep) (c # cs))
      else let (a, found, b) = py_partition sep cs in (c # a, found, b))"

section \<open>Row tables\<close>

definition tbl_get :: "('r \<Rightarrow> 'k) \<Rightarrow> 'r list \<Rightarrow> 'k \<Rightarrow> 'r option" where
  "tbl_get key rows k = find (\<lambda>r. key r = k) rows"

definition tbl_save :: "('r \<Rightarrow> 'k) \<Rightarrow> 'r \<Rightarrow> 'r list \<Rightarrow> 'r list" where
  "tbl_save key r rows = map (\<lambda>x. if key x = key r then r else x) rows"

definition tbl_insert :: "'r \<Rightarrow> 'r list \<Rightarrow> 'r list" where
  "tbl_insert r rows = rows @ [r]"

definition tbl_count :: "('r \<Rightarrow> bool) \<Rightarrow> 'r list \<Rightarrow> nat" where
  "tbl_count P rows = length (filter P rows)"

definition tbl_ok :: "('r \<Rightarrow> 'k) \<Rightarrow> 'r list \<Rightarrow> bool" where
  "tbl_ok key rows = distinct (map key rows)"

lemma tbl_get_key: "tbl_get key rows k = Some r \<Longrightarrow> key r = k"
  by (auto simp: tbl_get_def dest: find_eq_Some_conv)

lemma tbl_get_in: "tbl_get key rows k = Some r \<Longrightarrow> r \<in> set rows"
  by (auto simp: tbl_get_def dest: find_eq_Some_conv)

lemma tbl_get_None_iff: "tbl_get key rows k = None \<longleftrightarrow> k \<notin> key ` set rows"
  by (auto simp: tbl_get_def find_None_conv)

lemma tbl_get_eq_Some:
  "tbl_ok key rows \<Longrightarrow> tbl_get key rows k = Some r \<longleftrightarrow> r \<in> set rows \<and> key r = k"
  by (induction rows) (auto simp: tbl_get_def tbl_ok_def)

lemma tbl_keys_save [simp]: "map key (tbl_save key r rows) = map key rows"
  by (induction rows) (auto simp: tbl_save_def)

lemma tbl_ok_save [simp]: "tbl_ok key (tbl_save key r rows) = tbl_ok key rows"
  by (simp add: tbl_ok_def)

lemma tbl_ok_insert [simp]:
  "tbl_ok key (tbl_insert r rows) \<longleftrightarrow> tbl_ok key rows \<and> tbl_get key rows (key r) = None"
  by (auto simp: tbl_ok_def tbl_insert_def tbl_get_None_iff)

lemma tbl_get_map:
  "(\<And>x. key (f x) = key x) \<Longrightarrow> tbl_get key (map f rows) k = map_option f (tbl_get key rows k)"
  by (induction rows) (auto simp: tbl_get_def)

lemma tbl_get_save_same:
  "tbl_get key rows (key r) \<noteq> None \<Longrightarrow> tbl_get key (tbl_save key r rows) (key r) = Some r"
  by (induction rows) (auto simp: tbl_get_def tbl_save_def)

lemma tbl_get_save_other:
  "k \<noteq> key r \<Longrightarrow> tbl_get key (tbl_save key r rows) k = tbl_get key rows k"
  by (induction rows) (auto simp: tbl_get_def tbl_save_def)

lemma tbl_get_save:
  "tbl_get key rows (key r) \<noteq> None \<Longrightarrow>
   tbl_get key (tbl_save key r rows) k = (if k = key r then Some r else tbl_get key rows k)"
  by (simp add: tbl_get_save_same tbl_get_save_other)

lemma tbl_get_insert:
  "tbl_get key rows (key r) = None \<Longrightarrow>
   tbl_get key (tbl_insert r rows) k = (if k = key r then Some r else tbl_get key rows k)"
  by (induction rows) (auto simp: tbl_get_def tbl_insert_def split: if_splits)

lemma tbl_save_absent: "key r \<notin> key ` set rows \<Longrightarrow> tbl_save key r rows = rows"
  by (induction rows) (auto simp: tbl_save_def)

lemma tbl_count_Nil [simp]: "tbl_count P [] = 0"
  by (simp add: tbl_count_def)

lemma tbl_count_Cons [simp]: "tbl_count P (r # rows) = of_bool (P r) + tbl_count P rows"
  by (simp add: tbl_count_def)

lemma tbl_count_insert [simp]: "tbl_count P (tbl_insert r rows) = tbl_count P rows + of_bool (P r)"
  by (simp add: tbl_count_def tbl_insert_def)

lemma tbl_save_Cons:
  "tbl_save key r (x # rows) = (if key x = key r then r else x) # tbl_save key r rows"
  by (simp add: tbl_save_def)

lemma tbl_count_save:
  "tbl_ok key rows \<Longrightarrow> tbl_get key rows (key r) = Some r0 \<Longrightarrow>
   tbl_count P (tbl_save key r rows) + of_bool (P r0) = tbl_count P rows + of_bool (P r)"
proof (induction rows)
  case Nil
  then show ?case by (simp add: tbl_get_def)
next
  case (Cons x rows)
  show ?case
  proof (cases "key x = key r")
    case True
    with Cons.prems have "x = r0" and "key r \<notin> key ` set rows"
      by (auto simp: tbl_get_def tbl_ok_def)
    with True show ?thesis by (simp add: tbl_save_Cons tbl_save_absent)
  next
    case False
    with Cons.prems have "tbl_ok key rows" "tbl_get key rows (key r) = Some r0"
      by (auto simp: tbl_get_def tbl_ok_def)
    from Cons.IH [OF this] False show ?thesis by (simp add: tbl_save_Cons)
  qed
qed

lemma tbl_count_pos: "tbl_get key rows k = Some r \<Longrightarrow> P r \<Longrightarrow> 0 < tbl_count P rows"
  using tbl_get_in [of key rows k r] by (auto simp: tbl_count_def filter_empty_conv)

section \<open>The interface of a table\<close>

text \<open>
  What a service relies on when it reads a row, saves it and moves a counter kept elsewhere.
\<close>

locale row_store =
  fixes lookup :: "'s \<Rightarrow> 'k \<Rightarrow> 'r option"
    and save :: "'r \<Rightarrow> 's \<Rightarrow> 's"
    and insert_row :: "'r \<Rightarrow> 's \<Rightarrow> 's"
    and count_rows :: "('r \<Rightarrow> bool) \<Rightarrow> 's \<Rightarrow> nat"
    and key :: "'r \<Rightarrow> 'k"
    and ok :: "'s \<Rightarrow> bool"
  assumes lookup_key: "lookup s k = Some r \<Longrightarrow> key r = k"
    and lookup_save: "lookup s (key r) \<noteq> None \<Longrightarrow>
      lookup (save r s) k = (if k = key r then Some r else lookup s k)"
    and lookup_insert: "lookup s (key r) = None \<Longrightarrow>
      lookup (insert_row r s) k = (if k = key r then Some r else lookup s k)"
    and count_save: "ok s \<Longrightarrow> lookup s (key r) = Some r0 \<Longrightarrow>
      count_rows P (save r s) + of_bool (P r0) = count_rows P s + of_bool (P r)"
    and count_insert: "count_rows P (insert_row r s) = count_rows P s + of_bool (P r)"
    and count_pos: "lookup s k = Some r \<Longrightarrow> P r \<Longrightarrow> 0 < count_rows P s"
    and ok_save: "ok s \<Longrightarrow> ok (save r s)"
    and ok_insert: "ok s \<Longrightarrow> lookup s (key r) = None \<Longrightarrow> ok (insert_row r s)"
begin

lemma count_save_int:
  "ok s \<Longrightarrow> lookup s (key r) = Some r0 \<Longrightarrow>
   int (count_rows P (save r s)) = int (count_rows P s) + of_bool (P r) - of_bool (P r0)"
  using count_save [of s r r0 P] by (auto simp: of_bool_def split: if_splits)

lemma count_save_same:
  "ok s \<Longrightarrow> lookup s (key r) = Some r0 \<Longrightarrow> P r = P r0 \<Longrightarrow> count_rows P (save r s) = count_rows P s"
  using count_save [of s r r0 P] by simp

lemma count_save_drop:
  "ok s \<Longrightarrow> lookup s (key r) = Some r0 \<Longrightarrow> P r0 \<Longrightarrow> \<not> P r \<Longrightarrow>
   count_rows P (save r s) = count_rows P s - 1"
  using count_save [of s r r0 P] by simp

text \<open>A counter that is in step with the rows stays in step when it moves by the change of the row.\<close>

lemma counter_in_step:
  assumes "ok s" and "lookup s (key r) = Some r0" and "c = int (count_rows P s)"
  shows "c + of_bool (P r) - of_bool (P r0) = int (count_rows P (save r s))"
  using count_save_int [OF assms(1,2), of P] assms(3) by simp

lemma lookup_save_other:
  "lookup s (key r) \<noteq> None \<Longrightarrow> k \<noteq> key r \<Longrightarrow> lookup (save r s) k = lookup s k"
  by (simp add: lookup_save)

end

text \<open>Every list of rows with distinct keys is such a table.\<close>

lemma row_store_tbl:
  "row_store (tbl_get key) (tbl_save key) tbl_insert tbl_count key (tbl_ok key)"
proof (unfold_locales, goal_cases)
  case 1 then show ?case by (rule tbl_get_key)
next
  case 2 then show ?case by (rule tbl_get_save)
next
  case 3 then show ?case by (rule tbl_get_insert)
next
  case 4 then show ?case by (rule tbl_count_save)
next
  case 5 show ?case by (rule tbl_count_insert)
next
  case 6 then show ?case by (rule tbl_count_pos)
next
  case 7 then show ?case by simp
next
  case 8 then show ?case by simp
qed

section \<open>The interface of a component with an invariant\<close>

text \<open>
  A component is its start states and its steps; the contract is that an invariant holds at the
  start and survives every step. The runs of the component are the reflexive transitive closure.
\<close>

locale safe_machine =
  fixes init :: "'s \<Rightarrow> bool"
    and step :: "'s \<Rightarrow> 's \<Rightarrow> bool"
    and inv :: "'s \<Rightarrow> bool"
  assumes inv_init: "init s \<Longrightarrow> inv s"
    and inv_step: "inv s \<Longrightarrow> step s t \<Longrightarrow> inv t"
begin

lemma inv_run: "step\<^sup>*\<^sup>* s t \<Longrightarrow> inv s \<Longrightarrow> inv t"
  by (induction rule: rtranclp_induct) (auto intro: inv_step)

lemma inv_reachable: "init s \<Longrightarrow> step\<^sup>*\<^sup>* s t \<Longrightarrow> inv t"
  by (blast intro: inv_run inv_init)

end

end
