(* ===== verification/Actors.thy ===== *)
theory Actors
  imports Goatza_Prelude
begin

text \<open>
  Who acts: accounts, organizations, membership rows, the permission catalog
  (\<open>apps/organization/permissions.py\<close>, \<open>apps/organization/models.py\<close>) and the actor a request
  resolves to (\<open>core/actor.py\<close>).

  An actor that speaks for an organization carries the membership row as it was when the request
  began: \<open>organization_member\<close> is a copy, not a reference into the table.
  The columns of \<open>User\<close> and \<open>Organization\<close> here are the ones the modelled services read.
\<close>

section \<open>Accounts, organizations, members\<close>

record user =
  user_id :: uid
  user_email :: string
  user_is_active :: bool
  user_is_email_verified :: bool
  user_deletion_requested_at :: "instant option"

record organization =
  org_id :: oid
  org_is_active :: bool
  org_is_suspended :: bool

datatype member_role = Owner | Coach | Staff

datatype member_status = MemberActive | MemberRemoved | MemberLeft

datatype org_permission =
    MembersView | MembersManage | OrgPrivacy | RecruitmentsSpeak
  | VerificationsReview | OrgBlock | OrgReceiveAlerts

record overrides =
  grant :: "org_permission list"
  revoke :: "org_permission list"

definition no_overrides :: overrides where
  "no_overrides = \<lparr>grant = [], revoke = []\<rparr>"

record member =
  member_id :: nat
  member_org :: oid
  member_user :: uid
  member_role :: member_role
  member_status :: member_status
  member_joined_at :: instant
  member_added_by :: "nat option"
  member_removed_at :: "instant option"
  member_removed_by :: "nat option"
  member_overrides :: overrides

definition is_former :: "member \<Rightarrow> bool" where
  "is_former m = (member_status m \<noteq> MemberActive)"

text \<open>\<open>OrganizationMember.objects\<close>: the default manager hides former members.\<close>

definition active_members :: "member list \<Rightarrow> member list" where
  "active_members ms = filter (\<lambda>m. member_status m = MemberActive) ms"

section \<open>Permissions\<close>

definition all_permissions :: "org_permission list" where
  "all_permissions =
     [MembersView, MembersManage, OrgPrivacy, RecruitmentsSpeak,
      VerificationsReview, OrgBlock, OrgReceiveAlerts]"

fun role_permissions :: "member_role \<Rightarrow> org_permission list" where
  "role_permissions Owner = all_permissions"
| "role_permissions Coach = [MembersView]"
| "role_permissions Staff = [MembersView]"

fun denied_message :: "org_permission \<Rightarrow> string" where
  "denied_message MembersView = ''You don't have access to this organization's members.''"
| "denied_message MembersManage = ''Only the organization's owners can manage members.''"
| "denied_message OrgPrivacy = ''Only the organization's owners can change this.''"
| "denied_message RecruitmentsSpeak = ''Only the organization's owners can do this on a recruitment.''"
| "denied_message VerificationsReview = ''Only the organization's owners can review verifications.''"
| "denied_message OrgBlock = ''Only the organization's owners can block accounts.''"
| "denied_message OrgReceiveAlerts = ''You don't receive this organization's alerts.''"

definition not_org_actor_message :: string where
  "not_org_actor_message = ''Switch to your organization account to do this.''"

text \<open>\<open>member_permissions\<close>: role defaults, plus grants, minus revokes, for an active member.\<close>

definition member_permissions :: "member option \<Rightarrow> org_permission set" where
  "member_permissions mo =
     (case mo of
        None \<Rightarrow> {}
      | Some m \<Rightarrow>
          if member_status m \<noteq> MemberActive then {}
          else
            let granted = set (role_permissions (member_role m)) \<union> set (grant (member_overrides m));
                permissions = granted - set (revoke (member_overrides m))
            in if member_role m = Owner then permissions \<union> {MembersManage} else permissions)"

definition has_org_permission :: "member option \<Rightarrow> org_permission \<Rightarrow> bool" where
  "has_org_permission m perm = (perm \<in> member_permissions m)"

text \<open>
  \<open>members_with_permission\<close>: the same rule as a query, over the role defaults, the grant and the
  revoke columns, with the owner's \<open>members.manage\<close> exempt from the revoke.
\<close>

definition members_with_permission :: "oid \<Rightarrow> org_permission \<Rightarrow> member list \<Rightarrow> member list" where
  "members_with_permission oi perm ms =
     (let default_roles = filter (\<lambda>r. perm \<in> set (role_permissions r)) [Owner, Coach, Staff];
          revoked = (\<lambda>m. perm \<in> set (revoke (member_overrides m))
                         \<and> (perm = MembersManage \<longrightarrow> member_role m \<noteq> Owner))
      in filter (\<lambda>m. (member_role m \<in> set default_roles \<or> perm \<in> set (grant (member_overrides m)))
                     \<and> member_org m = oi \<and> \<not> revoked m)
           (active_members ms))"

section \<open>The actor of a request\<close>

datatype actor = UserActor uid | OrgActor oid "member option"

definition is_user :: "actor \<Rightarrow> bool" where
  "is_user a = (case a of UserActor _ \<Rightarrow> True | OrgActor _ _ \<Rightarrow> False)"

definition is_org :: "actor \<Rightarrow> bool" where
  "is_org a = (case a of UserActor _ \<Rightarrow> False | OrgActor _ _ \<Rightarrow> True)"

text \<open>
  \<open>resolve_actor\<close>. \<open>parse_uuid\<close> is Python's \<open>uuid.UUID\<close> on the header text (\<open>is_valid_uuid\<close>), \<open>u\<close> the
  authenticated user if there is one, \<open>actor_type\<close> the \<open>X-Actor-Type\<close> header.
\<close>

definition resolve_actor ::
  "(string \<Rightarrow> oid option) \<Rightarrow> organization list \<Rightarrow> member list \<Rightarrow> uid option \<Rightarrow> string option
   \<Rightarrow> string option \<Rightarrow> actor option result" where
  "resolve_actor parse_uuid orgs ms u actor_type_header org_id_header =
     (case u of
        None \<Rightarrow> Inr None
      | Some ui \<Rightarrow>
          let actor_type = (case actor_type_header of None \<Rightarrow> ''user'' | Some t \<Rightarrow> t)
          in if actor_type = ''user'' then Inr (Some (UserActor ui))
             else if actor_type = ''organization'' then
               (case Option.bind org_id_header parse_uuid of
                  None \<Rightarrow> Inl (PermissionDenied ''Organization ID Not found or Invalid'')
                | Some oi \<Rightarrow>
                    (case find (\<lambda>m. member_user m = ui \<and> member_org m = oi
                                    \<and> member_status m = MemberActive) ms of
                       None \<Rightarrow> Inl (PermissionDenied ''You are not part of this organization'')
                     | Some m \<Rightarrow>
                         (case tbl_get org_id orgs oi of
                            None \<Rightarrow> Inl DoesNotExist
                          | Some org \<Rightarrow>
                              if org_is_suspended org
                              then Inl (PermissionDenied
                                ''This organization is suspended and cannot be used'')
                              else Inr (Some (OrgActor oi (Some m))))))
             else Inl (PermissionDenied ''Invalid actor type''))"

definition require_org_permission ::
  "actor option \<Rightarrow> org_permission \<Rightarrow> string option \<Rightarrow> member result" where
  "require_org_permission ao perm message =
     (case ao of
        Some (OrgActor oi mo) \<Rightarrow>
          (case mo of
             Some m \<Rightarrow>
               if has_org_permission (Some m) perm then Inr m
               else Inl (PermissionDenied (case message of Some t \<Rightarrow> t | None \<Rightarrow> denied_message perm))
           | None \<Rightarrow> Inl (PermissionDenied (case message of Some t \<Rightarrow> t | None \<Rightarrow> denied_message perm)))
      | _ \<Rightarrow> Inl (PermissionDenied not_org_actor_message))"

section \<open>Lemmas\<close>

lemma active_members_set [simp]:
  "m \<in> set (active_members ms) \<longleftrightarrow> m \<in> set ms \<and> member_status m = MemberActive"
  by (simp add: active_members_def)

lemma has_org_permission_active:
  "has_org_permission (Some m) perm \<Longrightarrow> member_status m = MemberActive"
  by (auto simp: has_org_permission_def member_permissions_def split: if_splits)

lemma has_org_permission_None [simp]: "\<not> has_org_permission None perm"
  by (simp add: has_org_permission_def member_permissions_def)

lemma owner_has_manage:
  "member_status m = MemberActive \<Longrightarrow> member_role m = Owner \<Longrightarrow>
   has_org_permission (Some m) MembersManage"
  by (simp add: has_org_permission_def member_permissions_def Let_def)

lemma require_org_permission_Inr:
  "require_org_permission ao perm msg = Inr m \<longleftrightarrow>
   (\<exists>oi. ao = Some (OrgActor oi (Some m))) \<and> has_org_permission (Some m) perm"
  by (auto simp: require_org_permission_def split: option.splits actor.splits if_splits)

lemma in_all_permissions [simp]: "perm \<in> set all_permissions"
  by (cases perm) (simp_all add: all_permissions_def)

lemma role_in_default_roles:
  "r \<in> set (filter (\<lambda>r. perm \<in> set (role_permissions r)) [Owner, Coach, Staff])
   \<longleftrightarrow> perm \<in> set (role_permissions r)"
  by (cases r) auto

text \<open>
  The query and the in-memory rule give the same audience. This is the equivalence the two
  spellings of the permission rule have to keep.
\<close>

lemma members_with_permission_iff:
  "m \<in> set (members_with_permission oi perm ms) \<longleftrightarrow>
   m \<in> set ms \<and> member_org m = oi \<and> has_org_permission (Some m) perm"
  unfolding members_with_permission_def has_org_permission_def member_permissions_def Let_def
    set_filter mem_Collect_eq role_in_default_roles
  by (cases "member_role m") (auto split: if_splits)

end
