(* ===== verification/Social_Graph.thy ===== *)
theory Social_Graph
  imports Actors
begin

text \<open>
  Follows and blocks: \<open>apps/connections/services/follow_services.py\<close>,
  \<open>apps/moderation/services/block_services.py\<close> and \<open>block_guard.py\<close>.

  A \<open>Follow\<close> or \<open>Block\<close> row has two pairs of nullable columns, of which check constraints make
  exactly one of each pair non-null: an \<open>identity\<close>. The counters of \<open>UserProfile\<close> and
  \<open>OrganizationProfile\<close> are one table keyed by identity (an organization has no
  \<open>connections_count\<close>, that counter stays 0 there); \<open>update\<close> on a missing profile is a no-op, and
  a counter below zero violates the column type. Every caller of \<open>follow\<close> and \<open>unfollow\<close> passes
  exactly one target. The cache may lose an entry at any moment (\<open>evict\<close>).
\<close>

section \<open>State\<close>

datatype identity = UserId uid | OrgId oid

datatype counter = Followers | Following | Connections

type_synonym profile_counts = "counter \<Rightarrow> int"

datatype notification = FollowNote identity identity | FollowBackNote uid uid

record social =
  follow_rows :: "(identity \<times> identity) list"
  counts :: "identity \<Rightarrow> profile_counts option"
  block_rows :: "(identity \<times> identity) list"
  blocked_cache :: "identity \<Rightarrow> (uid set \<times> oid set) option"
  sent_notes :: "notification list"

definition identity_of :: "actor \<Rightarrow> identity" where
  "identity_of a = (case a of UserActor u \<Rightarrow> UserId u | OrgActor oi _ \<Rightarrow> OrgId oi)"

definition as_actor :: "identity \<Rightarrow> actor" where
  "as_actor i = (case i of UserId u \<Rightarrow> UserActor u | OrgId oi \<Rightarrow> OrgActor oi None)"

text \<open>\<open>\<dots>Profile.objects.filter(\<dots>).update(c=F(c) + d)\<close> on an unsigned column.\<close>

definition add_count :: "identity \<Rightarrow> counter \<Rightarrow> int \<Rightarrow> social \<Rightarrow> social result" where
  "add_count i k d s =
     (case counts s i of
        None \<Rightarrow> Inr s
      | Some c \<Rightarrow>
          if c k + d < 0 then Inl IntegrityError
          else Inr (s\<lparr>counts := (counts s)(i \<mapsto> c(k := c k + d))\<rparr>))"

section \<open>Blocks: the reads\<close>

definition is_blocked_between :: "social \<Rightarrow> identity \<Rightarrow> identity \<Rightarrow> bool" where
  "is_blocked_between s a t = ((a, t) \<in> set (block_rows s) \<or> (t, a) \<in> set (block_rows s))"

definition is_blocked_between_directed :: "social \<Rightarrow> identity \<Rightarrow> identity \<Rightarrow> bool" where
  "is_blocked_between_directed s a t = ((a, t) \<in> set (block_rows s))"

definition is_blocked :: "social \<Rightarrow> actor option \<Rightarrow> identity option \<Rightarrow> bool" where
  "is_blocked s ao io =
     (case (ao, io) of (Some a, Some i) \<Rightarrow> is_blocked_between s (identity_of a) i | _ \<Rightarrow> False)"

definition require_not_blocked :: "social \<Rightarrow> actor option \<Rightarrow> identity option \<Rightarrow> unit result" where
  "require_not_blocked s a i = (if is_blocked s a i then Inl BlockedError else Inr ())"

definition user_ids_of :: "identity list \<Rightarrow> uid set" where
  "user_ids_of xs = set (List.map_filter (\<lambda>i. case i of UserId u \<Rightarrow> Some u | OrgId _ \<Rightarrow> None) xs)"

definition org_ids_of :: "identity list \<Rightarrow> oid set" where
  "org_ids_of xs = set (List.map_filter (\<lambda>i. case i of UserId _ \<Rightarrow> None | OrgId oi \<Rightarrow> Some oi) xs)"

text \<open>Each row that touches \<open>me\<close> contributes its other end.\<close>

definition other_ends :: "(identity \<times> identity) list \<Rightarrow> identity \<Rightarrow> identity list" where
  "other_ends rows me =
     map (\<lambda>(blocker, blocked). if blocker = me then blocked else blocker)
       (filter (\<lambda>(blocker, blocked). blocker = me \<or> blocked = me) rows)"

definition compute_blocked_ids :: "social \<Rightarrow> identity \<Rightarrow> uid set \<times> oid set" where
  "compute_blocked_ids s me =
     (user_ids_of (other_ends (block_rows s) me), org_ids_of (other_ends (block_rows s) me))"

definition blocked_ids :: "social \<Rightarrow> actor option \<Rightarrow> (uid set \<times> oid set) \<times> social" where
  "blocked_ids s ao =
     (case ao of
        None \<Rightarrow> (({}, {}), s)
      | Some a \<Rightarrow>
          let me = identity_of a in
          (case blocked_cache s me of
             Some cached \<Rightarrow> (cached, s)
           | None \<Rightarrow>
               let r = compute_blocked_ids s me
               in (r, s\<lparr>blocked_cache := (blocked_cache s)(me \<mapsto> r)\<rparr>)))"

definition invalidate_blocked_ids :: "identity \<Rightarrow> social \<Rightarrow> social" where
  "invalidate_blocked_ids i s = s\<lparr>blocked_cache := (blocked_cache s)(i := None)\<rparr>"

section \<open>Follows\<close>

datatype follow_out = Refused string | FollowDone bool bool
  \<comment> \<open>the flags \<open>is_following\<close> and \<open>is_connected\<close> of the answer\<close>

definition get_following_ids :: "social \<Rightarrow> actor option \<Rightarrow> uid set \<times> oid set" where
  "get_following_ids s ao =
     (case ao of
        None \<Rightarrow> ({}, {})
      | Some a \<Rightarrow>
          let targets = map snd (filter (\<lambda>e. fst e = identity_of a) (follow_rows s))
          in (user_ids_of targets, org_ids_of targets))"

text \<open>
  The count and notification half of \<open>follow\<close> after the row exists (lines 97 to 163).
\<close>

definition follow_counts :: "identity \<Rightarrow> identity \<Rightarrow> social \<Rightarrow> (follow_out \<times> social) result" where
  "follow_counts a t s =
     res_bind (add_count a Following 1 s) (\<lambda>s.
     res_bind (add_count t Followers 1 s) (\<lambda>s.
       (case (a, t) of
          (UserId u, UserId v) \<Rightarrow>
            if (t, a) \<in> set (follow_rows s) then
              res_bind (add_count a Connections 1 s) (\<lambda>s.
              res_bind (add_count t Connections 1 s) (\<lambda>s.
                Inr (FollowDone True True, s\<lparr>sent_notes := sent_notes s @ [FollowBackNote u v]\<rparr>)))
            else Inr (FollowDone True False, s\<lparr>sent_notes := sent_notes s @ [FollowNote a t]\<rparr>)
        | _ \<Rightarrow> Inr (FollowDone True False, s\<lparr>sent_notes := sent_notes s @ [FollowNote a t]\<rparr>))))"

definition follow :: "actor \<Rightarrow> identity \<Rightarrow> social \<Rightarrow> (follow_out \<times> social) result" where
  "follow actor t s =
     (let a = identity_of actor in
      if is_user actor \<and> t = a then Inr (Refused ''Cannot follow yourself'', s)
      else if is_org actor \<and> t = a then Inr (Refused ''Cannot follow your own organization'', s)
      else res_bind (require_not_blocked s (Some actor) (Some t)) (\<lambda>_.
        if (a, t) \<in> set (follow_rows s) then Inr (Refused ''Already following'', s)
        else follow_counts a t (s\<lparr>follow_rows := follow_rows s @ [(a, t)]\<rparr>)))"

text \<open>The count half of \<open>unfollow\<close> after the row is deleted (lines 187 to 228).\<close>

definition unfollow_counts :: "identity \<Rightarrow> identity \<Rightarrow> social \<Rightarrow> (follow_out \<times> social) result" where
  "unfollow_counts a t s =
     res_bind (add_count a Following (- 1) s) (\<lambda>s.
     res_bind (add_count t Followers (- 1) s) (\<lambda>s.
       (case (a, t) of
          (UserId u, UserId v) \<Rightarrow>
            if (t, a) \<in> set (follow_rows s) then
              res_bind (add_count a Connections (- 1) s) (\<lambda>s.
              res_bind (add_count t Connections (- 1) s) (\<lambda>s.
                Inr (FollowDone False False, s)))
            else Inr (FollowDone False False, s)
        | _ \<Rightarrow> Inr (FollowDone False False, s))))"

definition unfollow :: "actor \<Rightarrow> identity \<Rightarrow> social \<Rightarrow> (follow_out \<times> social) result" where
  "unfollow actor t s =
     (let a = identity_of actor in
      if (a, t) \<notin> set (follow_rows s) then Inr (Refused ''Not following'', s)
      else unfollow_counts a t (s\<lparr>follow_rows := filter (\<lambda>e. e \<noteq> (a, t)) (follow_rows s)\<rparr>))"

record relationship =
  is_me :: bool
  rel_following :: bool
  rel_followed_by :: bool
  rel_connected :: bool
  rel_blocked :: bool
  rel_blocked_by_me :: bool

definition anonymous_response :: relationship where
  "anonymous_response = \<lparr>is_me = False, rel_following = False, rel_followed_by = False,
     rel_connected = False, rel_blocked = False, rel_blocked_by_me = False\<rparr>"

definition self_response :: relationship where
  "self_response = anonymous_response\<lparr>is_me := True\<rparr>"

definition block_state :: "social \<Rightarrow> actor \<Rightarrow> identity \<Rightarrow> (bool \<times> bool) \<times> social" where
  "block_state s actor t =
     (let (ids, s') = blocked_ids s (Some actor);
          blocked = (case t of UserId u \<Rightarrow> u \<in> fst ids | OrgId oi \<Rightarrow> oi \<in> snd ids)
      in if \<not> blocked then ((False, False), s')
         else ((True, is_blocked_between_directed s' (identity_of actor) t), s'))"

definition get_relationship :: "social \<Rightarrow> actor option \<Rightarrow> identity \<Rightarrow> relationship \<times> social" where
  "get_relationship s ao t =
     (case ao of
        None \<Rightarrow> (anonymous_response, s)
      | Some actor \<Rightarrow>
          let a = identity_of actor in
          if a = t then (self_response, s)
          else
            let relations = filter (\<lambda>e. e = (a, t) \<or> e = (t, a)) (follow_rows s);
                is_following = list_ex (\<lambda>e. fst e = a) relations;
                is_followed_by = list_ex (\<lambda>e. fst e \<noteq> a) relations;
                ((blocked, by_me), s') = block_state s actor t
            in (\<lparr>is_me = False, rel_following = is_following, rel_followed_by = is_followed_by,
                  rel_connected = (is_following \<and> is_followed_by),
                  rel_blocked = blocked, rel_blocked_by_me = by_me\<rparr>, s'))"

definition is_mutual_follow :: "social \<Rightarrow> identity \<Rightarrow> identity \<Rightarrow> bool" where
  "is_mutual_follow s a t =
     (case (a, t) of
        (UserId _, UserId _) \<Rightarrow> (a, t) \<in> set (follow_rows s) \<and> (t, a) \<in> set (follow_rows s)
      | (OrgId _, OrgId _) \<Rightarrow> (a, t) \<in> set (follow_rows s) \<and> (t, a) \<in> set (follow_rows s)
      | _ \<Rightarrow> (a, t) \<in> set (follow_rows s))"

section \<open>Blocks: the writes\<close>

definition require_block_permission :: "actor option \<Rightarrow> unit result" where
  "require_block_permission ao =
     (case ao of
        Some (OrgActor oi mo) \<Rightarrow>
          res_bind (require_org_permission (Some (OrgActor oi mo)) OrgBlock None) (\<lambda>_. Inr ())
      | _ \<Rightarrow> Inr ())"

definition validate_target :: "actor option \<Rightarrow> identity option \<Rightarrow> string option" where
  "validate_target ao to =
     (case (ao, to) of
        (None, _) \<Rightarrow> Some ''Authentication required''
      | (Some actor, None) \<Rightarrow> Some ''Target is required''
      | (Some actor, Some t) \<Rightarrow>
          if is_user actor \<and> t = identity_of actor then Some ''Cannot block yourself''
          else if is_org actor \<and> t = identity_of actor
               then Some ''Cannot block your own organization''
          else None)"

datatype block_out = BlockRefused string | BlockDone bool bool
  \<comment> \<open>\<open>is_blocked\<close>, and \<open>already_blocked\<close> or \<open>was_blocked\<close>\<close>

definition unfollow_both_ways :: "actor \<Rightarrow> identity \<Rightarrow> social \<Rightarrow> social result" where
  "unfollow_both_ways actor t s =
     res_bind (unfollow actor t s) (\<lambda>(_, s).
     res_bind (unfollow (as_actor t) (identity_of actor) s) (\<lambda>(_, s). Inr s))"

definition block :: "actor option \<Rightarrow> identity option \<Rightarrow> social \<Rightarrow> (block_out \<times> social) result" where
  "block ao to s =
     (case validate_target ao to of
        Some e \<Rightarrow> Inr (BlockRefused e, s)
      | None \<Rightarrow>
          (case (ao, to) of
             (Some actor, Some t) \<Rightarrow>
               let a = identity_of actor; created = ((a, t) \<notin> set (block_rows s)) in
               res_bind (require_block_permission ao) (\<lambda>_.
               res_bind
                 (if created
                  then unfollow_both_ways actor t (s\<lparr>block_rows := block_rows s @ [(a, t)]\<rparr>)
                  else Inr s) (\<lambda>s.
                 Inr (BlockDone True (\<not> created),
                      invalidate_blocked_ids t (invalidate_blocked_ids a s))))
           | _ \<Rightarrow> Inl (ValueError '''')))"

definition unblock :: "actor option \<Rightarrow> identity option \<Rightarrow> social \<Rightarrow> (block_out \<times> social) result" where
  "unblock ao to s =
     (case validate_target ao to of
        Some e \<Rightarrow> Inr (BlockRefused e, s)
      | None \<Rightarrow>
          (case (ao, to) of
             (Some actor, Some t) \<Rightarrow>
               let a = identity_of actor; deleted = ((a, t) \<in> set (block_rows s)) in
               res_bind (require_block_permission ao) (\<lambda>_.
                 Inr (BlockDone False deleted,
                      invalidate_blocked_ids t (invalidate_blocked_ids a
                        (s\<lparr>block_rows := filter (\<lambda>e. e \<noteq> (a, t)) (block_rows s)\<rparr>))))
           | _ \<Rightarrow> Inl (ValueError '''')))"

end
