(* ===== verification/Social_Laws.thy ===== *)
theory Social_Laws
  imports Social_Graph
begin

text \<open>
  What keeps the follow graph, its counters, the blocks and the blocked-ids cache consistent:
  the counters equal the counts over the rows, no pair is both blocked and following, and a
  cached blocked set is the set the rows give. Each write is shown to keep all of it, and the
  step relation \<open>social_step\<close> collects the writes for the reachable states.
\<close>

section \<open>The counters the rows stand for\<close>

fun true_count :: "(identity \<times> identity) set \<Rightarrow> identity \<Rightarrow> counter \<Rightarrow> int" where
  "true_count F i Followers = int (card {x. (x, i) \<in> F})"
| "true_count F i Following = int (card {x. (i, x) \<in> F})"
| "true_count F (UserId u) Connections =
     int (card {v. (UserId u, UserId v) \<in> F \<and> (UserId v, UserId u) \<in> F})"
| "true_count F (OrgId oi) Connections = 0"

definition counts_agree :: "(identity \<Rightarrow> counter \<Rightarrow> int) \<Rightarrow> social \<Rightarrow> bool" where
  "counts_agree G s \<longleftrightarrow> (\<forall>i c. counts s i = Some c \<longrightarrow> c = G i)"

definition bump ::
  "identity \<Rightarrow> counter \<Rightarrow> int \<Rightarrow> (identity \<Rightarrow> counter \<Rightarrow> int) \<Rightarrow> identity \<Rightarrow> counter \<Rightarrow> int" where
  "bump i k d G = G(i := (G i)(k := G i k + d))"

definition both_users :: "identity \<Rightarrow> identity \<Rightarrow> bool" where
  "both_users a b = (case (a, b) of (UserId _, UserId _) \<Rightarrow> True | _ \<Rightarrow> False)"

text \<open>How one edge moves the counters; \<open>m\<close> says that the edge closes a connection.\<close>

definition edge_delta ::
  "int \<Rightarrow> bool \<Rightarrow> identity \<Rightarrow> identity \<Rightarrow> (identity \<Rightarrow> counter \<Rightarrow> int) \<Rightarrow> identity \<Rightarrow> counter \<Rightarrow> int" where
  "edge_delta d m a b G =
     (let G' = bump b Followers d (bump a Following d G)
      in if m then bump b Connections d (bump a Connections d G') else G')"

lemma true_count_nonneg [simp]: "0 \<le> true_count F i k"
  by (cases k; cases i) auto

lemma bump_apply: "bump i k d G j l = G j l + (if j = i \<and> l = k then d else 0)"
  by (simp add: bump_def)

lemma edge_delta_inverse: "edge_delta (- d) m a b (edge_delta d m a b G) = G"
  by (intro ext) (simp add: edge_delta_def bump_apply Let_def)

lemma finite_sources: "finite F \<Longrightarrow> finite {x. (x, i) \<in> F}"
  by (rule finite_surj [of F _ fst]) force+

lemma finite_targets: "finite F \<Longrightarrow> finite {x. (i, x) \<in> F}"
  by (rule finite_surj [of F _ snd]) force+

lemma finite_mutual: "finite F \<Longrightarrow> finite {v. (i, UserId v) \<in> F \<and> (UserId v, i) \<in> F}"
  by (rule finite_surj [of F _ "\<lambda>e. case snd e of UserId v \<Rightarrow> v | OrgId v \<Rightarrow> v"]) force+

lemma followers_insert:
  assumes "finite F" "(a, b) \<notin> F"
  shows "true_count (insert (a, b) F) i Followers
    = true_count F i Followers + (if i = b then 1 else 0)"
proof (cases "i = b")
  case True
  have "{x. (x, b) \<in> insert (a, b) F} = insert a {x. (x, b) \<in> F}" by auto
  with assms True show ?thesis by (simp add: finite_sources)
qed simp

lemma following_insert:
  assumes "finite F" "(a, b) \<notin> F"
  shows "true_count (insert (a, b) F) i Following
    = true_count F i Following + (if i = a then 1 else 0)"
proof (cases "i = a")
  case True
  have "{x. (a, x) \<in> insert (a, b) F} = insert b {x. (a, x) \<in> F}" by auto
  with assms True show ?thesis by (simp add: finite_targets)
qed simp

lemma connections_insert:
  assumes "finite F" "(a, b) \<notin> F" "a \<noteq> b"
  shows "true_count (insert (a, b) F) i Connections
    = true_count F i Connections
      + (if both_users a b \<and> (b, a) \<in> F \<and> (i = a \<or> i = b) then 1 else 0)"
proof (cases i)
  case (OrgId oi)
  then show ?thesis by (auto simp: both_users_def split: identity.splits)
next
  case (UserId w)
  let ?M = "\<lambda>F. {v. (UserId w, UserId v) \<in> F \<and> (UserId v, UserId w) \<in> F}"
  have "?M (insert (a, b) F) =
    ?M F \<union> {v. a = UserId w \<and> b = UserId v \<and> (b, a) \<in> F}
        \<union> {v. b = UserId w \<and> a = UserId v \<and> (b, a) \<in> F}"
    using assms(3) by auto
  moreover have "card \<dots> = card (?M F)
      + (if both_users a b \<and> (b, a) \<in> F \<and> (i = a \<or> i = b) then 1 else 0)"
  proof (cases "both_users a b \<and> (b, a) \<in> F \<and> (i = a \<or> i = b)")
    case False
    then have "{v. a = UserId w \<and> b = UserId v \<and> (b, a) \<in> F} = {}"
      and "{v. b = UserId w \<and> a = UserId v \<and> (b, a) \<in> F} = {}"
      using UserId by (auto simp: both_users_def)
    then show ?thesis by (simp only: False Un_empty_right if_False add_0_right)
  next
    case True
    then obtain u v where uv: "a = UserId u" "b = UserId v" "(b, a) \<in> F"
      by (auto simp: both_users_def split: identity.splits)
    with True UserId assms(3) have w: "w = u \<and> w \<noteq> v \<or> w = v \<and> w \<noteq> u" by auto
    from uv w have "\<exists>x. x \<notin> ?M F \<and>
      ?M F \<union> {v. a = UserId w \<and> b = UserId v \<and> (b, a) \<in> F}
           \<union> {v. b = UserId w \<and> a = UserId v \<and> (b, a) \<in> F} = insert x (?M F)"
    proof (elim disjE conjE, goal_cases)
      case 1
      with uv assms(2) show ?case by (intro exI [of _ v]) auto
    next
      case 2
      with uv assms(2) show ?case by (intro exI [of _ u]) auto
    qed
    with True assms(1) show ?thesis by (auto simp: finite_mutual)
  qed
  ultimately show ?thesis using UserId by simp
qed

lemma true_count_insert:
  assumes "finite F" "(a, b) \<notin> F" "a \<noteq> b"
  shows "true_count (insert (a, b) F) = edge_delta 1 (both_users a b \<and> (b, a) \<in> F) a b (true_count F)"
proof (intro ext)
  fix i k
  show "true_count (insert (a, b) F) i k
      = edge_delta 1 (both_users a b \<and> (b, a) \<in> F) a b (true_count F) i k"
    using assms
    by (cases k)
      (simp_all add: followers_insert following_insert connections_insert
        edge_delta_def bump_apply Let_def del: true_count.simps)
qed

lemma true_count_remove:
  assumes "finite F" "(a, b) \<in> F" "a \<noteq> b"
  shows "true_count (F - {(a, b)})
    = edge_delta (- 1) (both_users a b \<and> (b, a) \<in> F) a b (true_count F)"
proof -
  have "insert (a, b) (F - {(a, b)}) = F" using assms(2) by auto
  with true_count_insert [of "F - {(a, b)}" a b] assms
  have "true_count F
      = edge_delta 1 (both_users a b \<and> (b, a) \<in> F) a b (true_count (F - {(a, b)}))"
    by simp
  then show ?thesis by (simp add: edge_delta_inverse)
qed

section \<open>The count statements\<close>

lemma add_count_ok:
  assumes "counts_agree G s" "0 \<le> G i k + d"
  obtains cs where "add_count i k d s = Inr (s\<lparr>counts := cs\<rparr>)"
    and "counts_agree (bump i k d G) (s\<lparr>counts := cs\<rparr>)"
proof (cases "counts s i")
  case None
  show ?thesis
  proof (rule that)
    show "add_count i k d s = Inr (s\<lparr>counts := counts s\<rparr>)"
      using None by (simp add: add_count_def)
    show "counts_agree (bump i k d G) (s\<lparr>counts := counts s\<rparr>)"
      using None assms(1) by (auto simp: counts_agree_def bump_def)
  qed
next
  case (Some c)
  with assms(1) have c: "c = G i" by (simp add: counts_agree_def)
  show ?thesis
  proof (rule that)
    show "add_count i k d s
        = Inr (s\<lparr>counts := (counts s)(i \<mapsto> (G i)(k := G i k + d))\<rparr>)"
      using Some c assms(2) by (simp add: add_count_def)
    show "counts_agree (bump i k d G) (s\<lparr>counts := (counts s)(i \<mapsto> (G i)(k := G i k + d))\<rparr>)"
      using assms(1) by (simp add: counts_agree_def bump_def)
  qed
qed

lemma follow_counts_ok:
  assumes "counts_agree G s" and nonneg: "\<And>i k. 0 \<le> G i k" and "a \<noteq> t"
  obtains out cs ns where "follow_counts a t s = Inr (out, s\<lparr>counts := cs, sent_notes := ns\<rparr>)"
    and "counts_agree (edge_delta 1 (both_users a t \<and> (t, a) \<in> set (follow_rows s)) a t G)
           (s\<lparr>counts := cs, sent_notes := ns\<rparr>)"
    and "out = FollowDone True (both_users a t \<and> (t, a) \<in> set (follow_rows s))"
proof -
  have nn: "0 \<le> G i k + 1" for i k using nonneg [of i k] by linarith
  obtain c1 where c1: "add_count a Following 1 s = Inr (s\<lparr>counts := c1\<rparr>)"
    "counts_agree (bump a Following 1 G) (s\<lparr>counts := c1\<rparr>)"
    using add_count_ok [OF assms(1) nn] by blast
  obtain c2 where c2: "add_count t Followers 1 (s\<lparr>counts := c1\<rparr>) = Inr (s\<lparr>counts := c2\<rparr>)"
    "counts_agree (bump t Followers 1 (bump a Following 1 G)) (s\<lparr>counts := c2\<rparr>)"
    using add_count_ok [OF c1(2), of t Followers 1] nn by (auto simp: bump_apply)
  show ?thesis
  proof (cases "both_users a t \<and> (t, a) \<in> set (follow_rows s)")
    case False
    have b: "(both_users a t \<and> (t, a) \<in> set (follow_rows s)) = False"
      using False by simp
    show ?thesis
    proof (rule that)
      show "follow_counts a t s = Inr (FollowDone True False, s\<lparr>counts := c2, sent_notes := sent_notes s @ [FollowNote a t]\<rparr>)"
        using False c1(1) c2(1) by (auto simp: follow_counts_def both_users_def split: identity.splits)
      show "counts_agree (edge_delta 1 (both_users a t \<and> (t, a) \<in> set (follow_rows s)) a t G)
          (s\<lparr>counts := c2, sent_notes := sent_notes s @ [FollowNote a t]\<rparr>)"
        unfolding b using c2(2) by (simp add: edge_delta_def counts_agree_def)
      show "FollowDone True False
          = FollowDone True (both_users a t \<and> (t, a) \<in> set (follow_rows s))"
        using b by simp
    qed
  next
    case True
    then obtain u v where uv: "a = UserId u" "t = UserId v" "(t, a) \<in> set (follow_rows s)"
      by (auto simp: both_users_def split: identity.splits)
    obtain c3 where c3: "add_count a Connections 1 (s\<lparr>counts := c2\<rparr>) = Inr (s\<lparr>counts := c3\<rparr>)"
      "counts_agree (bump a Connections 1 (bump t Followers 1 (bump a Following 1 G)))
         (s\<lparr>counts := c3\<rparr>)"
      using add_count_ok [OF c2(2), of a Connections 1] nn by (auto simp: bump_apply)
    obtain c4 where c4: "add_count t Connections 1 (s\<lparr>counts := c3\<rparr>) = Inr (s\<lparr>counts := c4\<rparr>)"
      "counts_agree (bump t Connections 1 (bump a Connections 1
         (bump t Followers 1 (bump a Following 1 G)))) (s\<lparr>counts := c4\<rparr>)"
      using add_count_ok [OF c3(2), of t Connections 1] nn \<open>a \<noteq> t\<close> by (auto simp: bump_apply)
    have b: "(both_users a t \<and> (t, a) \<in> set (follow_rows s)) = True"
      using True by simp
    show ?thesis
    proof (rule that)
      show "follow_counts a t s = Inr (FollowDone True True, s\<lparr>counts := c4, sent_notes := sent_notes s @ [FollowBackNote u v]\<rparr>)"
        using uv c1(1) c2(1) c3(1) c4(1) by (simp add: follow_counts_def)
      show "counts_agree (edge_delta 1 (both_users a t \<and> (t, a) \<in> set (follow_rows s)) a t G)
          (s\<lparr>counts := c4, sent_notes := sent_notes s @ [FollowBackNote u v]\<rparr>)"
        unfolding b using c4(2) by (simp add: edge_delta_def counts_agree_def)
      show "FollowDone True True
          = FollowDone True (both_users a t \<and> (t, a) \<in> set (follow_rows s))"
        using b by simp
    qed
  qed
qed

lemma unfollow_counts_ok:
  assumes "counts_agree G s" and "a \<noteq> t"
    and final: "\<And>i k. 0 \<le> edge_delta (- 1) (both_users a t \<and> (t, a) \<in> set (follow_rows s)) a t G i k"
  obtains cs where "unfollow_counts a t s = Inr (FollowDone False False, s\<lparr>counts := cs\<rparr>)"
    and "counts_agree (edge_delta (- 1) (both_users a t \<and> (t, a) \<in> set (follow_rows s)) a t G)
           (s\<lparr>counts := cs\<rparr>)"
proof -
  note nn = final [unfolded edge_delta_def Let_def]
  have "0 \<le> G a Following + - 1" "0 \<le> G t Followers + - 1"
    using nn [of a Following] nn [of t Followers] by (simp_all add: bump_apply split: if_splits)
  note nn0 = this
  obtain c1 where c1: "add_count a Following (- 1) s = Inr (s\<lparr>counts := c1\<rparr>)"
    "counts_agree (bump a Following (- 1) G) (s\<lparr>counts := c1\<rparr>)"
    using add_count_ok [OF assms(1) nn0(1)] by blast
  have "0 \<le> bump a Following (- 1) G t Followers + - 1" using nn0(2) by (simp add: bump_apply)
  from add_count_ok [OF c1(2) this]
  obtain c2 where c2: "add_count t Followers (- 1) (s\<lparr>counts := c1\<rparr>) = Inr (s\<lparr>counts := c2\<rparr>)"
    "counts_agree (bump t Followers (- 1) (bump a Following (- 1) G)) (s\<lparr>counts := c2\<rparr>)"
    by auto
  show ?thesis
  proof (cases "both_users a t \<and> (t, a) \<in> set (follow_rows s)")
    case False
    with c1 c2 show ?thesis
      by (intro that [of c2])
        (auto simp: unfollow_counts_def both_users_def edge_delta_def split: identity.splits)
  next
    case True
    then obtain u v where uv: "a = UserId u" "t = UserId v" "(t, a) \<in> set (follow_rows s)"
      by (auto simp: both_users_def split: identity.splits)
    let ?G2 = "bump t Followers (- 1) (bump a Following (- 1) G)"
    from nn [of a Connections] nn [of t Connections] True \<open>a \<noteq> t\<close>
    have nn1: "0 \<le> ?G2 a Connections + - 1"
      "0 \<le> bump a Connections (- 1) ?G2 t Connections + - 1"
      by (simp_all add: bump_apply)
    from add_count_ok [OF c2(2) nn1(1)]
    obtain c3 where c3: "add_count a Connections (- 1) (s\<lparr>counts := c2\<rparr>) = Inr (s\<lparr>counts := c3\<rparr>)"
      "counts_agree (bump a Connections (- 1) ?G2) (s\<lparr>counts := c3\<rparr>)"
      by auto
    from add_count_ok [OF c3(2) nn1(2)]
    obtain c4 where c4: "add_count t Connections (- 1) (s\<lparr>counts := c3\<rparr>) = Inr (s\<lparr>counts := c4\<rparr>)"
      "counts_agree (bump t Connections (- 1) (bump a Connections (- 1) ?G2)) (s\<lparr>counts := c4\<rparr>)"
      by auto
    from True uv c1 c2 c3 c4 show ?thesis
      by (intro that [of c4]) (simp_all add: unfollow_counts_def edge_delta_def)
  qed
qed

section \<open>Invariants\<close>

definition graph_ok :: "social \<Rightarrow> bool" where
  "graph_ok s \<longleftrightarrow> distinct (follow_rows s) \<and> (\<forall>(a, b) \<in> set (follow_rows s). a \<noteq> b)
     \<and> counts_agree (true_count (set (follow_rows s))) s"

definition separated :: "social \<Rightarrow> bool" where
  "separated s \<longleftrightarrow> (\<forall>a b. is_blocked_between s a b \<longrightarrow> (a, b) \<notin> set (follow_rows s))"

definition cache_ok :: "social \<Rightarrow> bool" where
  "cache_ok s \<longleftrightarrow> (\<forall>i r. blocked_cache s i = Some r \<longrightarrow> r = compute_blocked_ids s i)"

definition social_ok :: "social \<Rightarrow> bool" where
  "social_ok s \<longleftrightarrow> graph_ok s \<and> separated s \<and> cache_ok s \<and> distinct (block_rows s)"

lemma is_blocked_between_sym: "is_blocked_between s a b = is_blocked_between s b a"
  by (auto simp: is_blocked_between_def)

lemma require_not_blocked_Inr:
  "require_not_blocked s (Some actor) (Some t) = Inr x
   \<longleftrightarrow> \<not> is_blocked_between s (identity_of actor) t"
  by (simp add: require_not_blocked_def is_blocked_def)

text \<open>The frame of a write to the follow graph: what blocks and the cache look like after it.\<close>

definition same_blocks :: "social \<Rightarrow> social \<Rightarrow> bool" where
  "same_blocks s s' \<longleftrightarrow> block_rows s' = block_rows s \<and> blocked_cache s' = blocked_cache s"

lemma same_blocks_cong:
  assumes "same_blocks s s'"
  shows "is_blocked_between s' = is_blocked_between s"
    and "compute_blocked_ids s' = compute_blocked_ids s"
    and "cache_ok s' = cache_ok s"
  using assms
  by (auto simp: same_blocks_def is_blocked_between_def compute_blocked_ids_def cache_ok_def fun_eq_iff)

subsection \<open>Follow\<close>

lemma follow_new_edge:
  assumes ok: "graph_ok s" and new: "(a, t) \<notin> set (follow_rows s)" and "a \<noteq> t"
  obtains out s' where
    "follow_counts a t (s\<lparr>follow_rows := follow_rows s @ [(a, t)]\<rparr>) = Inr (out, s')"
    and "out = FollowDone True (both_users a t \<and> (t, a) \<in> set (follow_rows s))"
    and "graph_ok s'" and "follow_rows s' = follow_rows s @ [(a, t)]" and "same_blocks s s'"
proof -
  let ?s1 = "s\<lparr>follow_rows := follow_rows s @ [(a, t)]\<rparr>"
  have agree: "counts_agree (true_count (set (follow_rows s))) ?s1"
    using ok by (simp add: graph_ok_def counts_agree_def)
  have mut: "(t, a) \<in> set (follow_rows ?s1) \<longleftrightarrow> (t, a) \<in> set (follow_rows s)"
    using \<open>a \<noteq> t\<close> by auto
  obtain out cs ns where r: "follow_counts a t ?s1 = Inr (out, ?s1\<lparr>counts := cs, sent_notes := ns\<rparr>)"
    "counts_agree (edge_delta 1 (both_users a t \<and> (t, a) \<in> set (follow_rows s)) a t
       (true_count (set (follow_rows s)))) (?s1\<lparr>counts := cs, sent_notes := ns\<rparr>)"
    "out = FollowDone True (both_users a t \<and> (t, a) \<in> set (follow_rows s))"
    using follow_counts_ok [OF agree true_count_nonneg \<open>a \<noteq> t\<close>] unfolding mut by blast
  show ?thesis
  proof (rule that [OF r(1) r(3)])
    show "graph_ok (?s1\<lparr>counts := cs, sent_notes := ns\<rparr>)"
      using ok new \<open>a \<noteq> t\<close> r(2) true_count_insert [OF finite_set new \<open>a \<noteq> t\<close>]
      by (auto simp: graph_ok_def)
  qed (simp_all add: same_blocks_def)
qed

lemma follow_cases:
  assumes ok: "graph_ok s"
  shows "(\<exists>msg. follow actor t s = Inr (Refused msg, s)
            \<and> (t = identity_of actor \<or> (identity_of actor, t) \<in> set (follow_rows s)))
    \<or> follow actor t s = Inl BlockedError \<and> is_blocked_between s (identity_of actor) t
    \<or> (\<exists>c s'. follow actor t s = Inr (FollowDone True c, s')
        \<and> c = (both_users (identity_of actor) t \<and> (t, identity_of actor) \<in> set (follow_rows s))
        \<and> \<not> is_blocked_between s (identity_of actor) t
        \<and> follow_rows s' = follow_rows s @ [(identity_of actor, t)]
        \<and> graph_ok s' \<and> same_blocks s s')"
proof -
  let ?a = "identity_of actor"
  have kind: "is_user actor \<or> is_org actor"
    by (simp add: is_user_def is_org_def split: actor.splits)
  consider "t = ?a" | "t \<noteq> ?a" "is_blocked_between s ?a t"
    | "t \<noteq> ?a" "\<not> is_blocked_between s ?a t" "(?a, t) \<in> set (follow_rows s)"
    | "t \<noteq> ?a" "\<not> is_blocked_between s ?a t" "(?a, t) \<notin> set (follow_rows s)"
    by blast
  then show ?thesis
  proof cases
    case 1
    with kind show ?thesis by (auto simp: follow_def Let_def)
  next
    case 2
    then show ?thesis
      by (simp add: follow_def Let_def require_not_blocked_def is_blocked_def)
  next
    case 3
    then show ?thesis
      by (simp add: follow_def Let_def require_not_blocked_def is_blocked_def)
  next
    case 4
    then have f: "follow actor t s = follow_counts ?a t (s\<lparr>follow_rows := follow_rows s @ [(?a, t)]\<rparr>)"
      by (simp add: follow_def Let_def require_not_blocked_def is_blocked_def)
    from 4 show ?thesis
      using follow_new_edge [OF ok 4(3)] unfolding f by metis
  qed
qed

lemma follow_done:
  assumes "graph_ok s" "follow actor t s = Inr (out, s')"
  obtains (refused) msg where "out = Refused msg" "s' = s"
    | (edge) c where "out = FollowDone True c"
      "c = (both_users (identity_of actor) t \<and> (t, identity_of actor) \<in> set (follow_rows s))"
      "\<not> is_blocked_between s (identity_of actor) t"
      "follow_rows s' = follow_rows s @ [(identity_of actor, t)]"
      "graph_ok s'" "same_blocks s s'"
  using follow_cases [OF assms(1), of actor t] assms(2) by fastforce

lemma follow_ok:
  assumes "social_ok s" "follow actor t s = Inr (out, s')"
  shows "social_ok s'"
proof -
  from assms(1) have "graph_ok s" by (simp add: social_ok_def)
  from this assms(2) show ?thesis
  proof (cases rule: follow_done)
    case refused
    with assms(1) show ?thesis by simp
  next
    case (edge c)
    with assms(1) show ?thesis
      by (auto simp: social_ok_def separated_def same_blocks_cong [OF edge(6)] same_blocks_def)
  qed
qed

subsection \<open>Unfollow\<close>

lemma unfollow_total:
  assumes ok: "graph_ok s"
  obtains out s' where "unfollow actor t s = Inr (out, s')" and "graph_ok s'"
    and "follow_rows s' = filter (\<lambda>e. e \<noteq> (identity_of actor, t)) (follow_rows s)"
    and "same_blocks s s'"
proof (cases "(identity_of actor, t) \<in> set (follow_rows s)")
  case False
  then have "filter (\<lambda>e. e \<noteq> (identity_of actor, t)) (follow_rows s) = follow_rows s"
    by (auto simp: filter_id_conv)
  with False ok that [of "Refused ''Not following''" s] show ?thesis
    by (simp add: unfollow_def same_blocks_def)
next
  case True
  let ?a = "identity_of actor" and ?F = "set (follow_rows s)"
  let ?s1 = "s\<lparr>follow_rows := filter (\<lambda>e. e \<noteq> (?a, t)) (follow_rows s)\<rparr>"
  from ok True have "?a \<noteq> t" by (auto simp: graph_ok_def)
  have F': "set (follow_rows ?s1) = ?F - {(?a, t)}" by auto
  have mut: "(t, ?a) \<in> set (follow_rows ?s1) \<longleftrightarrow> (t, ?a) \<in> ?F"
    using \<open>?a \<noteq> t\<close> by auto
  have agree: "counts_agree (true_count ?F) ?s1"
    using ok by (simp add: graph_ok_def counts_agree_def)
  note rem = true_count_remove [OF finite_set True \<open>?a \<noteq> t\<close>]
  have nn: "0 \<le> edge_delta (- 1) (both_users ?a t \<and> (t, ?a) \<in> ?F) ?a t (true_count ?F) i k" for i k
    unfolding rem [symmetric] by (rule true_count_nonneg)
  obtain cs where r: "unfollow_counts ?a t ?s1 = Inr (FollowDone False False, ?s1\<lparr>counts := cs\<rparr>)"
    "counts_agree (true_count (?F - {(?a, t)})) (?s1\<lparr>counts := cs\<rparr>)"
    using unfollow_counts_ok [OF agree \<open>?a \<noteq> t\<close>] nn unfolding mut rem by blast
  show ?thesis
  proof (rule that)
    show "unfollow actor t s = Inr (FollowDone False False, ?s1\<lparr>counts := cs\<rparr>)"
      using True r(1) by (simp add: unfollow_def Let_def)
    show "graph_ok (?s1\<lparr>counts := cs\<rparr>)"
      using ok r(2) F' by (auto simp: graph_ok_def)
  qed (simp_all add: same_blocks_def)
qed

lemma unfollow_ok:
  assumes "social_ok s" "unfollow actor t s = Inr (out, s')"
  shows "social_ok s'"
proof -
  from assms(1) have "graph_ok s" by (simp add: social_ok_def)
  from unfollow_total [OF this, of actor t] assms(2)
  have *: "graph_ok s'" "follow_rows s' = filter (\<lambda>e. e \<noteq> (identity_of actor, t)) (follow_rows s)"
    "same_blocks s s'"
    by auto
  with assms(1) show ?thesis
    by (auto simp: social_ok_def separated_def same_blocks_cong [OF *(3)] same_blocks_def)
qed

subsection \<open>Block and unblock\<close>

lemma other_ends_append:
  "i \<noteq> a \<Longrightarrow> i \<noteq> t \<Longrightarrow> other_ends (rows @ [(a, t)]) i = other_ends rows i"
  by (simp add: other_ends_def)

lemma other_ends_remove:
  "i \<noteq> a \<Longrightarrow> i \<noteq> t \<Longrightarrow> other_ends (filter (\<lambda>e. e \<noteq> (a, t)) rows) i = other_ends rows i"
  by (induction rows) (auto simp: other_ends_def)

lemma invalidate_fields [simp]:
  "follow_rows (invalidate_blocked_ids i s) = follow_rows s"
  "block_rows (invalidate_blocked_ids i s) = block_rows s"
  "counts (invalidate_blocked_ids i s) = counts s"
  "blocked_cache (invalidate_blocked_ids i s) = (blocked_cache s)(i := None)"
  by (simp_all add: invalidate_blocked_ids_def)

text \<open>
  A block row that appears or goes away changes the blocked sets of its two ends only, and both
  keys are dropped.
\<close>

lemma cache_ok_after_write:
  assumes "cache_ok s" and rows: "\<And>i. i \<noteq> a \<Longrightarrow> i \<noteq> t \<Longrightarrow>
      other_ends (block_rows s') i = other_ends (block_rows s) i"
    and "blocked_cache s' = blocked_cache s"
  shows "cache_ok (invalidate_blocked_ids t (invalidate_blocked_ids a s'))"
  using assms by (auto simp: cache_ok_def compute_blocked_ids_def)

lemma identity_of_as_actor [simp]: "identity_of (as_actor i) = i"
  by (simp add: identity_of_def as_actor_def split: identity.splits)

lemma validate_target_None:
  "validate_target (Some actor) (Some t) = None \<longleftrightarrow> t \<noteq> identity_of actor"
  by (auto simp: validate_target_def is_user_def is_org_def split: actor.splits)

lemma unfollow_both_ways_total:
  assumes "graph_ok s"
  obtains s' where "unfollow_both_ways actor t s = Inr s'" and "graph_ok s'"
    and "set (follow_rows s') = set (follow_rows s) - {(identity_of actor, t), (t, identity_of actor)}"
    and "same_blocks s s'"
proof -
  let ?a = "identity_of actor"
  obtain o1 s1 where 1: "unfollow actor t s = Inr (o1, s1)" "graph_ok s1"
    "follow_rows s1 = filter (\<lambda>e. e \<noteq> (?a, t)) (follow_rows s)" "same_blocks s s1"
    using unfollow_total [OF assms, of actor t] by blast
  obtain o2 s2 where 2: "unfollow (as_actor t) ?a s1 = Inr (o2, s2)" "graph_ok s2"
    "follow_rows s2 = filter (\<lambda>e. e \<noteq> (t, ?a)) (follow_rows s1)" "same_blocks s1 s2"
    using unfollow_total [OF 1(2), of "as_actor t" ?a] by auto
  show ?thesis
  proof (rule that)
    show "unfollow_both_ways actor t s = Inr s2"
      using 1(1) 2(1) by (simp add: unfollow_both_ways_def)
    show "set (follow_rows s2) = set (follow_rows s) - {(?a, t), (t, ?a)}"
      using 1(3) 2(3) by auto
    show "same_blocks s s2" using 1(4) 2(4) by (simp add: same_blocks_def)
  qed (rule 2(2))
qed

lemma block_new_row:
  assumes ok: "social_ok s" and new: "(identity_of actor, t) \<notin> set (block_rows s)"
  obtains s' where
    "unfollow_both_ways actor t (s\<lparr>block_rows := block_rows s @ [(identity_of actor, t)]\<rparr>) = Inr s'"
    and "social_ok (invalidate_blocked_ids t (invalidate_blocked_ids (identity_of actor) s'))"
    and "block_rows s' = block_rows s @ [(identity_of actor, t)]"
proof -
  let ?a = "identity_of actor"
  let ?s1 = "s\<lparr>block_rows := block_rows s @ [(?a, t)]\<rparr>"
  have "graph_ok ?s1" using ok by (simp add: social_ok_def graph_ok_def counts_agree_def)
  from unfollow_both_ways_total [OF this] obtain s' where
    s': "unfollow_both_ways actor t ?s1 = Inr s'" "graph_ok s'"
    "set (follow_rows s') = set (follow_rows ?s1) - {(?a, t), (t, ?a)}" "same_blocks ?s1 s'" .
  let ?s2 = "invalidate_blocked_ids t (invalidate_blocked_ids ?a s')"
  have rows: "block_rows s' = block_rows s @ [(?a, t)]" "blocked_cache s' = blocked_cache s"
    using s'(4) by (simp_all add: same_blocks_def)
  have "cache_ok ?s2"
    by (rule cache_ok_after_write [of s])
      (use ok rows in \<open>simp_all add: social_ok_def other_ends_append\<close>)
  moreover have "graph_ok ?s2"
    using s'(2) by (simp add: graph_ok_def counts_agree_def)
  moreover have "separated ?s2"
    using ok s'(3) rows by (auto simp: social_ok_def separated_def is_blocked_between_def)
  moreover have "distinct (block_rows ?s2)"
    using ok new rows by (simp add: social_ok_def)
  ultimately show ?thesis
    using that s'(1) rows(1) by (simp add: social_ok_def)
qed

lemma block_done:
  assumes ok: "social_ok s" and run: "block ao to s = Inr (out, s')"
  obtains (refused) msg where "out = BlockRefused msg" "s' = s"
    | (stands) actor t where "ao = Some actor" "to = Some t"
      "out = BlockDone True ((identity_of actor, t) \<in> set (block_rows s))"
      "(identity_of actor, t) \<in> set (block_rows s')" "social_ok s'"
proof (cases "validate_target ao to")
  case (Some e)
  with run show ?thesis by (intro refused [of e]) (simp_all add: block_def)
next
  case None
  then obtain actor t where at: "ao = Some actor" "to = Some t"
    by (auto simp: validate_target_def split: option.splits)
  let ?a = "identity_of actor"
  show ?thesis
  proof (cases "(?a, t) \<in> set (block_rows s)")
    case True
    with run None at have "out = BlockDone True True"
      and s': "s' = invalidate_blocked_ids t (invalidate_blocked_ids ?a s)"
      by (auto simp: block_def Let_def res_bind_eq_Inr)
    moreover have "cache_ok s'"
      unfolding s' by (rule cache_ok_after_write [of s]) (use ok in \<open>simp_all add: social_ok_def\<close>)
    ultimately show ?thesis using True at ok
      by (intro stands [of actor t])
        (auto simp: social_ok_def graph_ok_def counts_agree_def separated_def is_blocked_between_def)
  next
    case False
    obtain s2 where s2: "unfollow_both_ways actor t (s\<lparr>block_rows := block_rows s @ [(?a, t)]\<rparr>) = Inr s2"
      "social_ok (invalidate_blocked_ids t (invalidate_blocked_ids ?a s2))"
      "block_rows s2 = block_rows s @ [(?a, t)]"
      using block_new_row [OF ok False] .
    with run None at False have "out = BlockDone True False"
      and "s' = invalidate_blocked_ids t (invalidate_blocked_ids ?a s2)"
      by (auto simp: block_def Let_def res_bind_eq_Inr)
    with s2 at False show ?thesis by (intro stands [of actor t]) auto
  qed
qed

lemma block_ok:
  assumes "social_ok s" "block ao to s = Inr (out, s')"
  shows "social_ok s'"
  using assms by (cases rule: block_done) (use assms in auto)

lemma unblock_ok:
  assumes ok: "social_ok s" and run: "unblock ao to s = Inr (out, s')"
  shows "social_ok s'"
proof (cases "validate_target ao to")
  case (Some e)
  with assms show ?thesis by (simp add: unblock_def)
next
  case None
  then obtain actor t where at: "ao = Some actor" "to = Some t"
    by (auto simp: validate_target_def split: option.splits)
  let ?a = "identity_of actor"
  let ?s1 = "s\<lparr>block_rows := filter (\<lambda>e. e \<noteq> (?a, t)) (block_rows s)\<rparr>"
  from run None at have s': "s' = invalidate_blocked_ids t (invalidate_blocked_ids ?a ?s1)"
    by (auto simp: unblock_def Let_def res_bind_eq_Inr)
  have "cache_ok s'"
    unfolding s' by (rule cache_ok_after_write [of s])
      (use ok in \<open>simp_all add: social_ok_def other_ends_remove\<close>)
  with ok show ?thesis
    by (auto simp: s' social_ok_def graph_ok_def counts_agree_def separated_def is_blocked_between_def)
qed

section \<open>The read that fills the cache\<close>

lemma blocked_ids_correct:
  assumes "cache_ok s"
  shows "fst (blocked_ids s (Some actor)) = compute_blocked_ids s (identity_of actor)"
  using assms by (auto simp: blocked_ids_def cache_ok_def Let_def split: option.splits)

lemma blocked_ids_ok:
  assumes "social_ok s"
  shows "social_ok (snd (blocked_ids s ao))"
  using assms
  by (auto simp: blocked_ids_def Let_def social_ok_def graph_ok_def counts_agree_def separated_def
      cache_ok_def is_blocked_between_def compute_blocked_ids_def split: option.splits)

lemma compute_blocked_ids_iff:
  "u \<in> fst (compute_blocked_ids s me) \<longleftrightarrow> is_blocked_between s me (UserId u)"
  "oi \<in> snd (compute_blocked_ids s me) \<longleftrightarrow> is_blocked_between s me (OrgId oi)"
  by (force simp: compute_blocked_ids_def user_ids_of_def org_ids_of_def other_ends_def
      is_blocked_between_def List.map_filter_def split: identity.splits if_splits)+

section \<open>Runs\<close>

text \<open>
  Every write of the two services, the read that fills the cache, an entry the cache backend
  loses, and a profile row created for an identity nobody follows yet.
\<close>

inductive social_step :: "social \<Rightarrow> social \<Rightarrow> bool" where
  step_follow: "follow actor t s = Inr (out, s') \<Longrightarrow> social_step s s'"
| step_unfollow: "unfollow actor t s = Inr (out, s') \<Longrightarrow> social_step s s'"
| step_block: "block ao to s = Inr (bout, s') \<Longrightarrow> social_step s s'"
| step_unblock: "unblock ao to s = Inr (bout, s') \<Longrightarrow> social_step s s'"
| step_read: "social_step s (snd (blocked_ids s ao))"
| step_evict: "social_step s (s\<lparr>blocked_cache := (blocked_cache s)(i := None)\<rparr>)"
| step_profile: "counts s i = None \<Longrightarrow> (\<forall>e \<in> set (follow_rows s). fst e \<noteq> i \<and> snd e \<noteq> i) \<Longrightarrow>
    social_step s (s\<lparr>counts := (counts s)(i \<mapsto> (\<lambda>_. 0))\<rparr>)"

definition social_init :: "social \<Rightarrow> bool" where
  "social_init s \<longleftrightarrow> follow_rows s = [] \<and> block_rows s = [] \<and>
     (\<forall>i. counts s i = None) \<and> (\<forall>i. blocked_cache s i = None)"

lemma true_count_no_edges:
  assumes "\<forall>e \<in> F. fst e \<noteq> i \<and> snd e \<noteq> i"
  shows "true_count F i k = 0"
proof -
  have "{x. (x, i) \<in> F} = {}" "{x. (i, x) \<in> F} = {}" using assms by auto
  moreover from this have "{v. (i, UserId v) \<in> F \<and> (UserId v, i) \<in> F} = {}" by blast
  ultimately show ?thesis by (cases k; cases i) simp_all
qed

lemma evict_ok:
  "social_ok s \<Longrightarrow> social_ok (s\<lparr>blocked_cache := (blocked_cache s)(i := None)\<rparr>)"
  by (auto simp: social_ok_def graph_ok_def counts_agree_def separated_def is_blocked_between_def
      cache_ok_def compute_blocked_ids_def)

lemma profile_ok:
  assumes "social_ok s" "\<forall>e \<in> set (follow_rows s). fst e \<noteq> i \<and> snd e \<noteq> i"
  shows "social_ok (s\<lparr>counts := (counts s)(i \<mapsto> (\<lambda>_. 0))\<rparr>)"
proof -
  have "true_count (set (follow_rows s)) i = (\<lambda>_. 0)"
    using true_count_no_edges [OF assms(2)] by (simp add: fun_eq_iff)
  with assms(1) show ?thesis
    by (auto simp: social_ok_def graph_ok_def counts_agree_def separated_def is_blocked_between_def
        cache_ok_def compute_blocked_ids_def)
qed

lemma social_step_ok:
  assumes "social_step s s'" "social_ok s"
  shows "social_ok s'"
  using assms
  by (induction rule: social_step.induct)
    (blast intro: follow_ok unfollow_ok block_ok unblock_ok blocked_ids_ok evict_ok profile_ok)+

lemma social_init_ok: "social_init s \<Longrightarrow> social_ok s"
  by (auto simp: social_init_def social_ok_def graph_ok_def counts_agree_def separated_def
      cache_ok_def is_blocked_between_def)

interpretation social: safe_machine social_init social_step social_ok
  by unfold_locales (auto intro: social_init_ok social_step_ok)

section \<open>Properties\<close>

text \<open>
  A small run for the witnesses: profiles for users 11 and 12, then each follows the other.
\<close>

definition demo0 :: social where
  "demo0 = \<lparr>follow_rows = [], counts = (\<lambda>_. None), block_rows = [],
     blocked_cache = (\<lambda>_. None), sent_notes = []\<rparr>"

definition demo1 :: social where
  "demo1 = demo0\<lparr>counts := [UserId 11 \<mapsto> (\<lambda>_. 0)]\<rparr>"

definition demo2 :: social where
  "demo2 = demo1\<lparr>counts := (counts demo1)(UserId 12 \<mapsto> (\<lambda>_. 0))\<rparr>"

definition run_to :: "(follow_out \<times> social) result \<Rightarrow> social" where
  "run_to r = (case r of Inr (_, s) \<Rightarrow> s | Inl _ \<Rightarrow> demo0)"

definition demo3 :: social where
  "demo3 = run_to (follow (UserActor 11) (UserId 12) demo2)"

definition demo4 :: social where
  "demo4 = run_to (follow (UserActor 12) (UserId 11) demo3)"

definition demo5 :: social where
  "demo5 = (case block (Some (UserActor 11)) (Some (UserId 12)) demo4 of
     Inr (_, s) \<Rightarrow> s | Inl _ \<Rightarrow> demo0)"

lemmas demo_defs = demo0_def demo1_def demo2_def run_to_def
lemmas social_eval =
  follow_def follow_counts_def unfollow_def unfollow_counts_def add_count_def
  require_not_blocked_def is_blocked_def is_blocked_between_def identity_of_def is_user_def
  is_org_def as_actor_def Let_def

lemma demo3_run: "follow (UserActor 11) (UserId 12) demo2 = Inr (FollowDone True False, demo3)"
  unfolding demo3_def by (simp add: social_eval demo_defs)

lemma demo3_rows: "follow_rows demo3 = [(UserId 11, UserId 12)]" "block_rows demo3 = []"
  unfolding demo3_def by (simp_all add: social_eval demo_defs)

lemma demo4_run: "follow (UserActor 12) (UserId 11) demo3 = Inr (FollowDone True True, demo4)"
  unfolding demo4_def demo3_def by (simp add: social_eval demo_defs)

lemma demo4_state:
  "follow_rows demo4 = [(UserId 11, UserId 12), (UserId 12, UserId 11)]"
  "counts demo4 (UserId 11) = Some ((\<lambda>_. 0)(Following := 1, Followers := 1, Connections := 1))"
  unfolding demo4_def demo3_def by (simp_all add: social_eval demo_defs fun_eq_iff)

lemma demo5_run: "block (Some (UserActor 11)) (Some (UserId 12)) demo4 = Inr (BlockDone True False, demo5)"
  unfolding demo5_def demo4_def demo3_def
  by (simp add: block_def validate_target_def require_block_permission_def unfollow_both_ways_def
      social_eval demo_defs)

lemma demo5_rows:
  "follow_rows demo5 = []" "block_rows demo5 = [(UserId 11, UserId 12)]"
  unfolding demo5_def demo4_def demo3_def
  by (simp_all add: block_def validate_target_def require_block_permission_def unfollow_both_ways_def
      social_eval demo_defs)

lemma demo_reach:
  "social_init demo0" "social_step\<^sup>*\<^sup>* demo0 demo4" "social_step\<^sup>*\<^sup>* demo0 demo5"
proof -
  have 1: "social_step demo0 demo1"
    using step_profile [of demo0 "UserId 11"] by (simp add: demo1_def demo0_def)
  have 2: "social_step demo1 demo2"
    using step_profile [of demo1 "UserId 12"] by (simp add: demo2_def demo1_def demo0_def)
  have 3: "social_step demo2 demo3" by (rule step_follow [OF demo3_run])
  have 4: "social_step demo3 demo4" by (rule step_follow [OF demo4_run])
  have 5: "social_step demo4 demo5" by (rule step_block [OF demo5_run])
  show "social_init demo0" by (simp add: social_init_def demo0_def)
  show r4: "social_step\<^sup>*\<^sup>* demo0 demo4"
    using 1 2 3 4 by (meson r_into_rtranclp rtranclp_trans)
  show "social_step\<^sup>*\<^sup>* demo0 demo5" using r4 5 by (meson rtranclp.rtrancl_into_rtrancl)
qed

text \<open>
  Property C8. In every state the follow, unfollow, block and unblock services can reach, the
  denormalised followers, following and connections counters of every profile are the numbers of
  rows they stand for: sources, targets and mutual follows between users.
\<close>

theorem follow_counters_in_step:
  assumes "social_init s0" and "social_step\<^sup>*\<^sup>* s0 s" and "counts s i = Some c"
  shows "c k = true_count (set (follow_rows s)) i k"
  using social.inv_reachable [OF assms(1,2)] assms(3)
  by (auto simp: social_ok_def graph_ok_def counts_agree_def)

theorem follow_counters_in_step_witness:
  "\<exists>c. counts demo4 (UserId 11) = Some c \<and> c Connections = 1
     \<and> true_count (set (follow_rows demo4)) (UserId 11) Connections = 1"
  using follow_counters_in_step [OF demo_reach(1) demo_reach(2) demo4_state(2), of Connections]
  by (simp add: demo4_state(2))

text \<open>
  Property C5. In every reachable state two identities with a block between them, in either
  direction, do not follow each other, in either direction: blocking tears the follow graph down
  and the guard of \<open>follow\<close> keeps it down.
\<close>

theorem blocked_pairs_never_follow:
  assumes "social_init s0" and "social_step\<^sup>*\<^sup>* s0 s" and "is_blocked_between s a b"
  shows "(a, b) \<notin> set (follow_rows s) \<and> (b, a) \<notin> set (follow_rows s)"
  using social.inv_reachable [OF assms(1,2)] assms(3) is_blocked_between_sym [of s a b]
  by (auto simp: social_ok_def separated_def)

theorem blocked_pairs_never_follow_witness:
  "is_blocked_between demo5 (UserId 12) (UserId 11)
   \<and> (UserId 11, UserId 12) \<notin> set (follow_rows demo5)"
proof -
  have b: "is_blocked_between demo5 (UserId 12) (UserId 11)"
    by (simp add: is_blocked_between_def demo5_rows)
  from blocked_pairs_never_follow [OF demo_reach(1) demo_reach(3) b] b show ?thesis by simp
qed

text \<open>
  Blocking is symmetric in effect: once a block went through, a follow by either side
  is refused with the one generic \<open>BlockedError\<close>, whoever made the block.
\<close>

theorem block_refuses_follow_both_ways:
  assumes "social_ok s" and "block (Some actor) (Some t) s = Inr (BlockDone b already, s')"
  shows "follow actor t s' = Inl BlockedError
    \<and> follow (as_actor t) (identity_of actor) s' = Inl BlockedError"
proof -
  from assms(2) have ne: "t \<noteq> identity_of actor"
    by (auto simp: block_def validate_target_None [symmetric] split: option.splits)
  from assms have "(identity_of actor, t) \<in> set (block_rows s')"
    by (cases rule: block_done) auto
  then show ?thesis using ne
    by (auto simp: follow_def Let_def require_not_blocked_def is_blocked_def is_blocked_between_def)
qed

theorem block_refuses_follow_both_ways_witness:
  "follow (UserActor 12) (UserId 11) demo5 = Inl BlockedError"
  using block_refuses_follow_both_ways [OF _ demo5_run] social.inv_reachable [OF demo_reach(1,2)]
  by (simp add: as_actor_def identity_of_def)

text \<open>
  Unfollowing never fails in a reachable state: no counter is taken below zero, and
  afterwards the row is gone and no other row has moved.
\<close>

theorem unfollow_never_raises:
  assumes "social_init s0" and "social_step\<^sup>*\<^sup>* s0 s"
  shows "\<exists>out s'. unfollow actor t s = Inr (out, s')
    \<and> set (follow_rows s') = set (follow_rows s) - {(identity_of actor, t)}"
proof -
  from social.inv_reachable [OF assms] have "graph_ok s" by (simp add: social_ok_def)
  from unfollow_total [OF this, of actor t] show ?thesis by (metis set_minus_filter_out)
qed

theorem unfollow_never_raises_witness:
  "\<exists>out s'. unfollow (UserActor 11) (UserId 12) demo4 = Inr (out, s')
    \<and> set (follow_rows s') = {(UserId 12, UserId 11)}"
  using unfollow_never_raises [OF demo_reach(1,2), of "UserActor 11" "UserId 12"]
  by (auto simp: demo4_state identity_of_def)

text \<open>
  Whatever the cache held, \<open>blocked_ids\<close> answers in every reachable state with exactly
  the identities that have a block with the actor, in either direction.
\<close>

theorem blocked_ids_exact:
  assumes "social_init s0" and "social_step\<^sup>*\<^sup>* s0 s"
  shows "(u \<in> fst (fst (blocked_ids s (Some actor)))
           \<longleftrightarrow> is_blocked_between s (identity_of actor) (UserId u))
    \<and> (oi \<in> snd (fst (blocked_ids s (Some actor)))
           \<longleftrightarrow> is_blocked_between s (identity_of actor) (OrgId oi))"
proof -
  from social.inv_reachable [OF assms] have "cache_ok s" by (simp add: social_ok_def)
  then show ?thesis by (simp add: blocked_ids_correct compute_blocked_ids_iff)
qed

theorem blocked_ids_exact_witness:
  "11 \<in> fst (fst (blocked_ids demo5 (Some (UserActor 12))))"
  using blocked_ids_exact [OF demo_reach(1,3), THEN conjunct1, of 11 "UserActor 12"]
  by (simp add: is_blocked_between_def demo5_rows identity_of_def)

end
