(* ===== verification/Org_Members.thy ===== *)
theory Org_Members
  imports Social_Laws
begin

text \<open>
  Who is in an organization: \<open>apps/organization/services/organization_member_service.py\<close> over the
  membership and invite tables of \<open>apps/organization/models.py\<close>.

  The tables are lists of rows. \<open>now\<close> is the clock of the request. Each write locks the member
  rows of its organization first, so one write runs at a time and a model of the sequence of writes
  is a model of the interleavings; the actor, loaded before the lock, may be older than the state
  it acts on. \<open>fresh\<close> supplies primary keys (UUIDs, never handed out twice). SHA-256, Django's email
  validator and the parser of UUIDs are parameters. Callbacks run after commit are the list
  \<open>effects\<close>; the names and masked addresses they carry for display are left out.
\<close>

section \<open>State\<close>

datatype invite_status = InvPending | InvAccepted | InvDeclined | InvCancelled | InvExpired

record org_invite =
  inv_id :: nat
  inv_org :: oid
  inv_role :: member_role
  inv_invited_by :: "nat option"
  inv_invited_user :: "uid option"
  inv_email :: string
  inv_token_hash :: string
  inv_status :: invite_status
  inv_expires_at :: instant
  inv_responded_at :: "instant option"
  inv_accepted_member :: "nat option"

datatype org_effect =
    AnnounceMembership uid oid string member_role bool
  | OrgInviteNote nat uid
  | OrgInviteEmail nat string
  | OrgInviteAccepted uid oid uid member_role
  | OrgInviteDeclined oid uid
  | OrgRoleChanged oid uid member_role
  | OrgOwnerChanged uid oid uid uid
  | OrgMemberRemoved oid uid

record org_state =
  organizations :: "organization list"
  users :: "user list"
  members :: "member list"
  invites :: "org_invite list"
  social_part :: social
  fresh :: nat
  effects :: "org_effect list"

definition max_active_members :: nat where "max_active_members = 50"
definition max_pending_invites :: nat where "max_pending_invites = 20"
definition invite_ttl :: instant where "invite_ttl = 14 * 24 * 60 * 60 * 1000000"

definition invite_is_open :: "instant \<Rightarrow> org_invite \<Rightarrow> bool" where
  "invite_is_open now i = (inv_status i = InvPending \<and> inv_expires_at i > now)"

definition emit :: "org_effect list \<Rightarrow> org_state \<Rightarrow> org_state" where
  "emit es s = s\<lparr>effects := effects s @ es\<rparr>"

definition cannot_invite :: error where "cannot_invite = OrgMemberError ''cannot_invite'' 400"
definition already_invited :: error where "already_invited = OrgMemberError ''already_invited'' 400"
definition invite_gone :: error where "invite_gone = OrgMemberError ''not_found'' 404"
definition invite_closed :: error where "invite_closed = OrgMemberError ''invite_not_pending'' 400"
definition last_owner :: error where "last_owner = OrgMemberError ''last_owner'' 400"
definition member_not_found :: error where "member_not_found = OrgMemberError ''not_found'' 404"
definition member_limit :: error where "member_limit = OrgMemberError ''member_limit'' 400"

definition manager_lost :: error where
  "manager_lost = PermissionDenied ''You can no longer manage members of this organization.''"
definition owners_only :: error where
  "owners_only = PermissionDenied ''Only an owner can make or remove owners.''"

section \<open>Shared checks\<close>

text \<open>The acting member and \<open>actor.organization\<close>, which the methods read after the permission check.\<close>

definition acting_member :: "actor option \<Rightarrow> org_permission \<Rightarrow> (oid \<times> member) result" where
  "acting_member ao perm =
     res_bind (require_org_permission ao perm None) (\<lambda>m.
       case ao of
         Some (OrgActor oi _) \<Rightarrow> Inr (oi, m)
       | _ \<Rightarrow> Inl (PermissionDenied not_org_actor_message))"

definition org_is_usable :: "org_state \<Rightarrow> oid \<Rightarrow> bool" where
  "org_is_usable s oi =
     (case tbl_get org_id (organizations s) oi of
        None \<Rightarrow> False
      | Some org \<Rightarrow> org_is_active org \<and> \<not> org_is_suspended org)"

definition lock_members :: "org_state \<Rightarrow> oid \<Rightarrow> member list" where
  "lock_members s oi =
     sort_key member_id (filter (\<lambda>m. member_org m = oi) (active_members (members s)))"

definition active_count :: "org_state \<Rightarrow> oid \<Rightarrow> nat" where
  "active_count s oi = tbl_count (\<lambda>m. member_org m = oi \<and> member_status m = MemberActive) (members s)"

definition is_organization_member :: "org_state \<Rightarrow> oid \<Rightarrow> uid \<Rightarrow> bool" where
  "is_organization_member s oi u =
     list_ex (\<lambda>m. member_org m = oi \<and> member_user m = u \<and> member_status m = MemberActive) (members s)"

definition require_manager_after_lock :: "member list \<Rightarrow> member \<Rightarrow> member result" where
  "require_manager_after_lock locked manager =
     (case find (\<lambda>m. member_id m = member_id manager \<and> has_org_permission (Some m) MembersManage) locked of
        Some m \<Rightarrow> Inr m
      | None \<Rightarrow> Inl manager_lost)"

definition require_owner_for_ownership :: "member \<Rightarrow> unit result" where
  "require_owner_for_ownership manager =
     (if member_role manager \<noteq> Owner then Inl owners_only else Inr ())"

definition user_row :: "org_state \<Rightarrow> uid \<Rightarrow> user option" where
  "user_row s u = tbl_get user_id (users s) u"

definition user_active :: "org_state \<Rightarrow> uid \<Rightarrow> bool" where
  "user_active s u = (case user_row s u of None \<Rightarrow> False | Some r \<Rightarrow> user_is_active r)"

definition inviter_still_stands :: "org_state \<Rightarrow> org_invite \<Rightarrow> member list \<Rightarrow> bool" where
  "inviter_still_stands s i locked =
     (case find (\<lambda>m. inv_invited_by i = Some (member_id m)) locked of
        None \<Rightarrow> False
      | Some inviter \<Rightarrow>
          user_active s (member_user inviter) \<and> has_org_permission (Some inviter) MembersManage
          \<and> (inv_role i \<noteq> Owner \<or> member_role inviter = Owner))"

definition cancel_invites_sent_by :: "nat \<Rightarrow> instant \<Rightarrow> org_state \<Rightarrow> org_state" where
  "cancel_invites_sent_by mid now s =
     s\<lparr>invites := map (\<lambda>i. if inv_invited_by i = Some mid \<and> inv_status i = InvPending
         then i\<lparr>inv_status := InvCancelled, inv_responded_at := Some now\<rparr> else i) (invites s)\<rparr>"

text \<open>An owner who could run the organization: active, on an active account not being deleted.\<close>

definition usable_owner :: "org_state \<Rightarrow> oid \<Rightarrow> member \<Rightarrow> bool" where
  "usable_owner s oi m =
     (member_org m = oi \<and> member_role m = Owner \<and> member_status m = MemberActive \<and>
      (case user_row s (member_user m) of
         None \<Rightarrow> False
       | Some u \<Rightarrow> user_is_active u \<and> user_deletion_requested_at u = None))"

definition has_another_owner :: "org_state \<Rightarrow> oid \<Rightarrow> member \<Rightarrow> bool" where
  "has_another_owner s oi m =
     list_ex (\<lambda>m'. usable_owner s oi m' \<and> member_id m' \<noteq> member_id m) (members s)"

definition announce :: "member \<Rightarrow> string \<Rightarrow> bool \<Rightarrow> org_effect" where
  "announce m status close =
     AnnounceMembership (member_user m) (member_org m) status (member_role m) close"

definition notify_remaining_owners :: "member \<Rightarrow> member \<Rightarrow> org_state \<Rightarrow> org_effect list" where
  "notify_remaining_owners manager departed s =
     map (\<lambda>m. OrgOwnerChanged (member_user manager) (member_org departed) (member_user m)
                (member_user departed))
       (filter (\<lambda>m. member_org m = member_org departed \<and> member_role m = Owner
                 \<and> member_user m \<notin> {member_user manager, member_user departed})
          (active_members (members s)))"

section \<open>Reads\<close>

definition list_members :: "org_state \<Rightarrow> actor option \<Rightarrow> member list result" where
  "list_members s ao =
     res_bind (acting_member ao MembersView) (\<lambda>(oi, _).
       Inr (sort_key (\<lambda>m. (if member_role m = Owner then 0 else 1 :: nat))
              (sort_key member_joined_at
                (filter (\<lambda>m. member_org m = oi) (active_members (members s))))))"

definition list_pending_invites :: "org_state \<Rightarrow> instant \<Rightarrow> actor option \<Rightarrow> org_invite list result" where
  "list_pending_invites s now ao =
     res_bind (acting_member ao MembersManage) (\<lambda>(oi, _).
       Inr (filter (\<lambda>i. invite_is_open now i \<and> inv_org i = oi) (rev (invites s))))"

definition my_invites :: "org_state \<Rightarrow> instant \<Rightarrow> uid \<Rightarrow> org_invite list" where
  "my_invites s now u =
     filter (\<lambda>i. invite_is_open now i \<and> inv_invited_user i = Some u \<and> org_is_usable s (inv_org i))
       (rev (invites s))"

definition open_invite_by_token ::
  "(string \<Rightarrow> string) \<Rightarrow> org_state \<Rightarrow> instant \<Rightarrow> string \<Rightarrow> org_invite result" where
  "open_invite_by_token hash s now raw_token =
     (case find (\<lambda>i. inv_token_hash i = hash raw_token) (invites s) of
        None \<Rightarrow> Inl invite_gone
      | Some i \<Rightarrow>
          if \<not> invite_is_open now i \<or> \<not> org_is_usable s (inv_org i) then Inl invite_gone
          else Inr i)"

section \<open>Sending an invite\<close>

text \<open>
  \<open>_live_pending\<close> stamps the pending rows that are past their date and then reads what is left.
\<close>

definition stamp_expired :: "instant \<Rightarrow> oid \<Rightarrow> (org_invite \<Rightarrow> bool) \<Rightarrow> org_state \<Rightarrow> org_state" where
  "stamp_expired now oi target s =
     s\<lparr>invites := map (\<lambda>i. if inv_org i = oi \<and> inv_status i = InvPending \<and> target i
           \<and> inv_expires_at i \<le> now
         then i\<lparr>inv_status := InvExpired\<rparr> else i) (invites s)\<rparr>"

definition pending_for :: "oid \<Rightarrow> (org_invite \<Rightarrow> bool) \<Rightarrow> org_state \<Rightarrow> org_invite list" where
  "pending_for oi target s =
     filter (\<lambda>i. inv_org i = oi \<and> inv_status i = InvPending \<and> target i) (invites s)"

definition resolve_invite_target ::
  "(string \<Rightarrow> uid option) \<Rightarrow> org_state \<Rightarrow> oid \<Rightarrow> member \<Rightarrow> string \<Rightarrow> string
   \<Rightarrow> (uid option \<times> bool) result" where
  "resolve_invite_target parse_uuid s oi inviter raw_user_id email =
     (if email \<noteq> '''' then
        (case find (\<lambda>u. py_lower (user_email u) = py_lower email) (users s) of
           None \<Rightarrow> Inr (None, True)
         | Some account \<Rightarrow>
             if user_id account = member_user inviter then Inl cannot_invite
             else if \<not> (user_is_active account \<and> user_is_email_verified account)
             then Inr (None, True)
             else if is_blocked (social_part s) (Some (UserActor (user_id account))) (Some (OrgId oi))
             then Inr (None, False)
             else Inr (Some (user_id account), True))
      else
        (case Option.bind (parse_uuid raw_user_id) (user_row s) of
           None \<Rightarrow> Inl cannot_invite
         | Some account \<Rightarrow>
             if user_id account = member_user inviter \<or> \<not> user_is_active account
                \<or> user_deletion_requested_at account \<noteq> None
                \<or> is_blocked (social_part s) (Some (UserActor (user_id account))) (Some (OrgId oi))
             then Inl cannot_invite
             else Inr (Some (user_id account), True)))"

definition settle_typed_address ::
  "instant \<Rightarrow> oid \<Rightarrow> uid option \<Rightarrow> bool \<Rightarrow> string \<Rightarrow> org_state
   \<Rightarrow> ((uid option \<times> bool) \<times> org_state) result" where
  "settle_typed_address now oi target deliver email s =
     (let by_email = (\<lambda>i. inv_email i = email);
          s1 = stamp_expired now oi by_email s
      in if pending_for oi by_email s1 \<noteq> [] then Inl already_invited
         else case target of
           None \<Rightarrow> Inr ((None, deliver), s1)
         | Some u \<Rightarrow>
             if is_organization_member s1 oi u then Inr ((None, False), s1)
             else
               let by_user = (\<lambda>i. inv_invited_user i = Some u);
                   s2 = stamp_expired now oi by_user s1
               in if pending_for oi by_user s2 \<noteq> [] then Inr ((None, False), s2)
                  else Inr ((Some u, deliver), s2))"

definition refuse_duplicate_by_id :: "instant \<Rightarrow> oid \<Rightarrow> uid \<Rightarrow> org_state \<Rightarrow> org_state result" where
  "refuse_duplicate_by_id now oi u s =
     (if is_organization_member s oi u then Inl (OrgMemberError ''already_member'' 400)
      else
        let by_user = (\<lambda>i. inv_invited_user i = Some u);
            s1 = stamp_expired now oi by_user s
        in if filter (\<lambda>i. inv_email i = '''') (pending_for oi by_user s1) \<noteq> []
           then Inl already_invited
           else Inr (s1\<lparr>invites := map (\<lambda>i. if inv_org i = oi \<and> inv_status i = InvPending \<and> by_user i
                       then i\<lparr>inv_invited_user := None\<rparr> else i) (invites s1)\<rparr>))"

text \<open>
  The insert, under the constraints of \<open>organization_invites\<close>: the unique token hash and at most one
  pending invite per organization and account, and per organization and typed address.
\<close>

definition insert_invite :: "org_invite \<Rightarrow> org_state \<Rightarrow> org_state result" where
  "insert_invite i s =
     (if list_ex (\<lambda>j. inv_token_hash j = inv_token_hash i) (invites s)
         \<or> inv_invited_user i = None \<and> inv_email i = ''''
         \<or> list_ex (\<lambda>j. inv_org j = inv_org i \<and> inv_status j = InvPending
             \<and> (inv_invited_user i \<noteq> None \<and> inv_invited_user j = inv_invited_user i
                \<or> inv_email i \<noteq> '''' \<and> inv_email j = inv_email i)) (invites s)
      then Inl IntegrityError
      else Inr (s\<lparr>invites := tbl_insert i (invites s), fresh := Suc (fresh s)\<rparr>))"

definition deliver_invite :: "org_invite \<Rightarrow> string \<Rightarrow> org_effect list" where
  "deliver_invite i raw_token =
     (case inv_invited_user i of None \<Rightarrow> [] | Some u \<Rightarrow> [OrgInviteNote (inv_id i) u])
     @ [OrgInviteEmail (inv_id i) raw_token]"

text \<open>The part of \<open>invite\<close> inside the transaction, after the target is resolved.\<close>

definition invite_locked ::
  "(string \<Rightarrow> string) \<Rightarrow> instant \<Rightarrow> oid \<Rightarrow> member \<Rightarrow> member_role \<Rightarrow> string \<Rightarrow> string
   \<Rightarrow> uid option \<times> bool \<Rightarrow> org_state \<Rightarrow> (org_invite \<times> org_state) result" where
  "invite_locked hash now oi inviter0 role email raw_token td s =
     res_bind (require_manager_after_lock (lock_members s oi) inviter0) (\<lambda>inviter.
     res_bind (if role = Owner then require_owner_for_ownership inviter else Inr ()) (\<lambda>_.
     res_bind
       (if email \<noteq> '''' then settle_typed_address now oi (fst td) (snd td) email s
        else case fst td of
               None \<Rightarrow> Inl cannot_invite
             | Some u \<Rightarrow> res_bind (refuse_duplicate_by_id now oi u s) (\<lambda>s. Inr (td, s))) (\<lambda>((target, deliver), s).
       if max_active_members \<le> active_count s oi then Inl member_limit
       else if max_pending_invites
                 \<le> tbl_count (\<lambda>i. invite_is_open now i \<and> inv_org i = oi) (invites s)
       then Inl (OrgMemberError ''invite_limit'' 400)
       else
         let i = \<lparr>inv_id = fresh s, inv_org = oi, inv_role = role,
                  inv_invited_by = Some (member_id inviter), inv_invited_user = target,
                  inv_email = email, inv_token_hash = hash raw_token, inv_status = InvPending,
                  inv_expires_at = now + invite_ttl, inv_responded_at = None,
                  inv_accepted_member = None\<rparr>
         in case insert_invite i s of
              Inl _ \<Rightarrow> Inl already_invited
            | Inr s \<Rightarrow> Inr (i, if deliver then emit (deliver_invite i raw_token) s else s))))"

definition invite ::
  "(string \<Rightarrow> string) \<Rightarrow> (string \<Rightarrow> uid option) \<Rightarrow> (string \<Rightarrow> bool) \<Rightarrow> instant \<Rightarrow> actor option
   \<Rightarrow> string \<Rightarrow> string \<Rightarrow> member_role option \<Rightarrow> string \<Rightarrow> org_state \<Rightarrow> (org_invite \<times> org_state) result" where
  "invite hash parse_uuid valid_email now ao raw_user_id raw_email role raw_token s =
     res_bind (acting_member ao MembersManage) (\<lambda>(oi, inviter).
       case role of
         None \<Rightarrow> Inl (OrgMemberError ''invalid_role'' 400)
       | Some role \<Rightarrow>
           let email = py_lower (py_strip raw_email) in
           if (raw_user_id \<noteq> '''') = (email \<noteq> '''') then Inl (OrgMemberError ''invalid_target'' 400)
           else if email \<noteq> '''' \<and> \<not> valid_email email then Inl (OrgMemberError ''invalid_email'' 400)
           else res_bind (resolve_invite_target parse_uuid s oi inviter raw_user_id email) (\<lambda>td.
             invite_locked hash now oi inviter role email raw_token td s))"

definition cancel_invite ::
  "instant \<Rightarrow> actor option \<Rightarrow> nat \<Rightarrow> org_state \<Rightarrow> org_state result" where
  "cancel_invite now ao iid s =
     res_bind (acting_member ao MembersManage) (\<lambda>(oi, manager).
     res_bind (require_manager_after_lock (lock_members s oi) manager) (\<lambda>_.
       case find (\<lambda>i. inv_id i = iid \<and> inv_org i = oi) (invites s) of
         None \<Rightarrow> Inl invite_gone
       | Some i \<Rightarrow>
           if \<not> invite_is_open now i then Inl invite_closed
           else Inr (s\<lparr>invites := tbl_save inv_id
                  (i\<lparr>inv_status := InvCancelled, inv_responded_at := Some now\<rparr>) (invites s)\<rparr>)))"

section \<open>Answering an invite\<close>

definition own_invite :: "org_state \<Rightarrow> uid \<Rightarrow> nat \<Rightarrow> org_invite result" where
  "own_invite s u iid =
     (case find (\<lambda>i. inv_id i = iid \<and> inv_invited_user i = Some u) (invites s) of
        None \<Rightarrow> Inl invite_gone
      | Some i \<Rightarrow> Inr i)"

definition require_invitee :: "org_invite \<Rightarrow> user \<Rightarrow> unit result" where
  "require_invitee i u =
     (if inv_invited_user i = Some (user_id u)
         \<or> (inv_email i \<noteq> '''' \<and> user_is_email_verified u \<and> py_lower (user_email u) = inv_email i)
      then Inr ()
      else Inl (OrgMemberError ''email_mismatch'' 403))"

text \<open>The membership row an accepted invite writes: a new one, or the reactivated old one.\<close>

definition accepted_member :: "instant \<Rightarrow> org_invite \<Rightarrow> uid \<Rightarrow> nat \<Rightarrow> member option \<Rightarrow> member" where
  "accepted_member now i u new_id mo =
     (case mo of
        None \<Rightarrow>
          \<lparr>member_id = new_id, member_org = inv_org i, member_user = u, member_role = inv_role i,
           member_status = MemberActive, member_joined_at = now, member_added_by = inv_invited_by i,
           member_removed_at = None, member_removed_by = None, member_overrides = no_overrides\<rparr>
      | Some m \<Rightarrow>
          m\<lparr>member_role := inv_role i, member_status := MemberActive, member_joined_at := now,
            member_added_by := inv_invited_by i, member_removed_at := None,
            member_removed_by := None, member_overrides := no_overrides\<rparr>)"

definition save_accepted :: "member option \<Rightarrow> member \<Rightarrow> org_state \<Rightarrow> org_state" where
  "save_accepted old m s =
     (case old of
        None \<Rightarrow> s\<lparr>members := tbl_insert m (members s), fresh := Suc (fresh s)\<rparr>
      | Some _ \<Rightarrow> s\<lparr>members := tbl_save member_id m (members s)\<rparr>)"

text \<open>
  The invite becomes accepted, and every other pending invite of the organization for this person,
  by account or by address, is cancelled.
\<close>

definition settle_invites :: "instant \<Rightarrow> org_invite \<Rightarrow> user \<Rightarrow> nat \<Rightarrow> org_state \<Rightarrow> org_state" where
  "settle_invites now i u mid s =
     s\<lparr>invites := map (\<lambda>j.
         if inv_id j = inv_id i
         then j\<lparr>inv_status := InvAccepted, inv_responded_at := Some now,
                inv_accepted_member := Some mid, inv_invited_user := Some (user_id u)\<rparr>
         else if inv_org j = inv_org i \<and> inv_status j = InvPending
              \<and> (inv_invited_user j = Some (user_id u)
                 \<or> user_email u \<noteq> '''' \<and> inv_email j = py_lower (user_email u))
         then j\<lparr>inv_status := InvCancelled, inv_responded_at := Some now\<rparr>
         else j) (invites s)\<rparr>"

definition after_accept :: "member \<Rightarrow> org_state \<Rightarrow> org_effect list" where
  "after_accept m s =
     map (\<lambda>manager. OrgInviteAccepted (member_user m) (member_org m) (member_user manager) (member_role m))
       (filter (\<lambda>manager. member_user manager \<noteq> member_user m)
          (members_with_permission (member_org m) MembersManage (members s)))"

definition accept :: "instant \<Rightarrow> nat \<Rightarrow> user \<Rightarrow> error \<Rightarrow> org_state \<Rightarrow> (member \<times> org_state) result" where
  "accept now iid u unavailable s =
     (case tbl_get inv_id (invites s) iid of
        None \<Rightarrow> Inl DoesNotExist
      | Some i \<Rightarrow>
          let oi = inv_org i; locked = lock_members s oi in
          if \<not> invite_is_open now i \<or> \<not> org_is_usable s oi
             \<or> is_blocked (social_part s) (Some (UserActor (user_id u))) (Some (OrgId oi))
             \<or> \<not> inviter_still_stands s i locked
          then Inl unavailable
          else
            let old = find (\<lambda>m. member_org m = oi \<and> member_user m = user_id u) (members s) in
            if (case old of None \<Rightarrow> False | Some m \<Rightarrow> \<not> is_former m)
            then Inl (OrgMemberError ''already_member'' 400)
            else if max_active_members \<le> active_count s oi then Inl member_limit
            else
              let m = accepted_member now i (user_id u) (fresh s) old;
                  s1 = settle_invites now i u (member_id m) (save_accepted old m s)
              in Inr (m, emit (announce m ''active'' False # after_accept m s1) s1))"

definition after_decline :: "org_invite \<Rightarrow> org_state \<Rightarrow> org_effect list" where
  "after_decline i s =
     (case Option.bind (inv_invited_by i) (tbl_get member_id (members s)) of
        None \<Rightarrow> []
      | Some inviter \<Rightarrow>
          if is_former inviter then [] else [OrgInviteDeclined (inv_org i) (member_user inviter)])"

definition decline :: "instant \<Rightarrow> nat \<Rightarrow> error \<Rightarrow> org_state \<Rightarrow> org_state result" where
  "decline now iid unavailable s =
     (case tbl_get inv_id (invites s) iid of
        None \<Rightarrow> Inl DoesNotExist
      | Some i \<Rightarrow>
          if \<not> invite_is_open now i \<or> \<not> org_is_usable s (inv_org i) then Inl unavailable
          else
            let s1 = s\<lparr>invites := tbl_save inv_id
                  (i\<lparr>inv_status := InvDeclined, inv_responded_at := Some now\<rparr>) (invites s)\<rparr>
            in Inr (emit (after_decline i s1) s1))"

definition accept_invite :: "instant \<Rightarrow> user \<Rightarrow> nat \<Rightarrow> org_state \<Rightarrow> (member \<times> org_state) result" where
  "accept_invite now u iid s =
     res_bind (own_invite s (user_id u) iid) (\<lambda>i. accept now (inv_id i) u invite_closed s)"

definition decline_invite :: "instant \<Rightarrow> user \<Rightarrow> nat \<Rightarrow> org_state \<Rightarrow> org_state result" where
  "decline_invite now u iid s =
     res_bind (own_invite s (user_id u) iid) (\<lambda>i. decline now (inv_id i) invite_closed s)"

definition accept_invite_by_token ::
  "(string \<Rightarrow> string) \<Rightarrow> instant \<Rightarrow> user \<Rightarrow> string \<Rightarrow> org_state \<Rightarrow> (member \<times> org_state) result" where
  "accept_invite_by_token hash now u raw_token s =
     res_bind (open_invite_by_token hash s now raw_token) (\<lambda>i.
     res_bind (require_invitee i u) (\<lambda>_. accept now (inv_id i) u invite_gone s))"

definition decline_invite_by_token ::
  "(string \<Rightarrow> string) \<Rightarrow> instant \<Rightarrow> user \<Rightarrow> string \<Rightarrow> org_state \<Rightarrow> org_state result" where
  "decline_invite_by_token hash now u raw_token s =
     res_bind (open_invite_by_token hash s now raw_token) (\<lambda>i.
     res_bind (require_invitee i u) (\<lambda>_. decline now (inv_id i) invite_gone s))"

section \<open>An email became verified\<close>

definition claim_one :: "nat \<Rightarrow> uid \<Rightarrow> org_state \<Rightarrow> bool \<times> org_state" where
  "claim_one iid u s =
     (case tbl_get inv_id (invites s) iid of
        None \<Rightarrow> (False, s)
      | Some i \<Rightarrow>
          let oi = inv_org i in
          if \<not> org_is_usable s oi
             \<or> is_blocked (social_part s) (Some (UserActor u)) (Some (OrgId oi))
             \<or> is_organization_member s oi u
          then (False, s)
          else if inv_invited_user i \<noteq> None \<or> inv_status i \<noteq> InvPending then (False, s)
          else if pending_for oi (\<lambda>j. inv_invited_user j = Some u) s \<noteq> [] then (False, s)
          else (True, emit [OrgInviteNote iid u]
                 (s\<lparr>invites := tbl_save inv_id (i\<lparr>inv_invited_user := Some u\<rparr>) (invites s)\<rparr>)))"

fun claim_each :: "nat list \<Rightarrow> uid \<Rightarrow> org_state \<Rightarrow> nat \<times> org_state" where
  "claim_each [] u s = (0, s)"
| "claim_each (iid # rest) u s =
     (let (ok, s1) = claim_one iid u s; (n, s2) = claim_each rest u s1
      in (if ok then Suc n else n, s2))"

definition claim_email_invites :: "instant \<Rightarrow> user \<Rightarrow> org_state \<Rightarrow> nat \<times> org_state" where
  "claim_email_invites now u s =
     (let email = py_lower (py_strip (user_email u)) in
      if email = '''' \<or> \<not> user_is_email_verified u then (0, s)
      else claim_each
        (map inv_id (filter (\<lambda>i. invite_is_open now i \<and> inv_email i = email
                               \<and> inv_invited_user i = None) (invites s)))
        (user_id u) s)"

section \<open>Changing a member\<close>

definition locked_member :: "member list \<Rightarrow> nat \<Rightarrow> member result" where
  "locked_member locked mid =
     (case find (\<lambda>m. member_id m = mid) locked of
        None \<Rightarrow> Inl member_not_found
      | Some m \<Rightarrow> Inr m)"

definition save_member :: "member \<Rightarrow> org_state \<Rightarrow> org_state" where
  "save_member m s = s\<lparr>members := tbl_save member_id m (members s)\<rparr>"

definition change_role ::
  "instant \<Rightarrow> actor option \<Rightarrow> nat \<Rightarrow> member_role option \<Rightarrow> org_state
   \<Rightarrow> (member \<times> org_state) result" where
  "change_role now ao mid role s =
     res_bind (acting_member ao MembersManage) (\<lambda>(oi, manager0).
       case role of
         None \<Rightarrow> Inl (OrgMemberError ''invalid_role'' 400)
       | Some role \<Rightarrow>
           let locked = lock_members s oi in
           res_bind (require_manager_after_lock locked manager0) (\<lambda>manager.
           res_bind (locked_member locked mid) (\<lambda>m.
             if member_id m = member_id manager
             then Inl (OrgMemberError ''cannot_change_own_role'' 400)
             else if member_role m = role then Inr (m, s)
             else
               let was_owner = (member_role m = Owner) in
               res_bind (if was_owner \<or> role = Owner then require_owner_for_ownership manager
                         else Inr ()) (\<lambda>_.
                 if was_owner \<and> \<not> has_another_owner s oi m then Inl last_owner
                 else
                   let m1 = m\<lparr>member_role := role\<rparr>;
                       s1 = save_member m1 s;
                       s2 = (if was_owner then cancel_invites_sent_by mid now s1 else s1)
                   in Inr (m1, emit
                        (announce m1 ''role_changed'' False
                         # OrgRoleChanged oi (member_user m1) role
                         # (if was_owner then notify_remaining_owners manager m1 s2 else [])) s2)))))"

definition remove_member ::
  "instant \<Rightarrow> actor option \<Rightarrow> nat \<Rightarrow> org_state \<Rightarrow> org_state result" where
  "remove_member now ao mid s =
     res_bind (acting_member ao MembersManage) (\<lambda>(oi, manager0).
       let locked = lock_members s oi in
       res_bind (require_manager_after_lock locked manager0) (\<lambda>manager.
       res_bind (locked_member locked mid) (\<lambda>m.
         if member_id m = member_id manager
         then Inl (OrgMemberError ''cannot_remove_self'' 400)
         else
           let was_owner = (member_role m = Owner) in
           res_bind (if was_owner then require_owner_for_ownership manager else Inr ()) (\<lambda>_.
             if was_owner \<and> \<not> has_another_owner s oi m then Inl last_owner
             else
               let m1 = m\<lparr>member_status := MemberRemoved, member_removed_at := Some now,
                          member_removed_by := Some (member_id manager)\<rparr>;
                   s2 = cancel_invites_sent_by mid now (save_member m1 s)
               in Inr (emit
                    (announce m1 ''removed'' True
                     # OrgMemberRemoved oi (member_user m1)
                     # (if was_owner then notify_remaining_owners manager m1 s2 else [])) s2)))))"

definition leave :: "instant \<Rightarrow> actor option \<Rightarrow> org_state \<Rightarrow> org_state result" where
  "leave now ao s =
     (case ao of
        Some (OrgActor oi (Some me)) \<Rightarrow>
          res_bind (locked_member (lock_members s oi) (member_id me)) (\<lambda>m.
            if member_role m = Owner \<and> \<not> has_another_owner s oi m then Inl last_owner
            else
              let m1 = m\<lparr>member_status := MemberLeft, member_removed_at := Some now\<rparr>
              in Inr (emit [announce m1 ''left'' True]
                   (cancel_invites_sent_by (member_id m) now (save_member m1 s))))
      | _ \<Rightarrow> Inl (PermissionDenied not_org_actor_message))"

end
