(* ===== verification/Org_Laws.thy ===== *)
theory Org_Laws
  imports Org_Members
begin

text \<open>
  The laws of the membership service. The tables keep their keys, an organization never passes
  50 active members, an organization that has an owner able to run it never loses the last one, and
  an invite that was answered, cancelled or expired never changes again. Every write is either an
  update of one active member row, an accepted invite, or leaves the member table alone; the
  invariants are shown once for each of the three shapes.
\<close>

interpretation member_rows: row_store "tbl_get member_id" "tbl_save member_id" tbl_insert tbl_count
  member_id "tbl_ok member_id"
  by (rule row_store_tbl)

interpretation invite_rows: row_store "tbl_get inv_id" "tbl_save inv_id" tbl_insert tbl_count
  inv_id "tbl_ok inv_id"
  by (rule row_store_tbl)

section \<open>Invariants\<close>

definition below :: "nat \<Rightarrow> nat list \<Rightarrow> bool" where
  "below n xs \<longleftrightarrow> (\<forall>x \<in> set xs. x < n)"

definition member_pair :: "member \<Rightarrow> oid \<times> uid" where
  "member_pair m = (member_org m, member_user m)"

definition org_ok :: "org_state \<Rightarrow> bool" where
  "org_ok s \<longleftrightarrow>
     distinct (map member_id (members s)) \<and> distinct (map inv_id (invites s))
     \<and> distinct (map member_pair (members s))
     \<and> below (fresh s) (map member_id (members s)) \<and> below (fresh s) (map inv_id (invites s))
     \<and> (\<forall>oi. active_count s oi \<le> max_active_members)"

definition has_usable_owner :: "oid \<Rightarrow> org_state \<Rightarrow> bool" where
  "has_usable_owner oi s \<longleftrightarrow> (\<exists>m \<in> set (members s). usable_owner s oi m)"

definition settled_kept :: "org_state \<Rightarrow> org_state \<Rightarrow> bool" where
  "settled_kept s s' \<longleftrightarrow>
     (\<forall>i \<in> set (invites s). inv_status i \<noteq> InvPending \<longrightarrow> i \<in> set (invites s'))"

section \<open>The three shapes of a write\<close>

text \<open>The member table is untouched; at most an invite row is new.\<close>

definition members_kept :: "org_state \<Rightarrow> org_state \<Rightarrow> bool" where
  "members_kept s s' \<longleftrightarrow> members s' = members s \<and> users s' = users s
     \<and> (map inv_id (invites s') = map inv_id (invites s) \<and> fresh s' = fresh s
        \<or> map inv_id (invites s') = map inv_id (invites s) @ [fresh s] \<and> fresh s' = Suc (fresh s))"

text \<open>One active row is updated, and if it was an owner's there is another owner.\<close>

definition member_updated :: "member \<Rightarrow> member \<Rightarrow> org_state \<Rightarrow> org_state \<Rightarrow> bool" where
  "member_updated m m1 s s' \<longleftrightarrow>
     m \<in> set (members s) \<and> member_status m = MemberActive
     \<and> member_id m1 = member_id m \<and> member_org m1 = member_org m \<and> member_user m1 = member_user m
     \<and> members s' = tbl_save member_id m1 (members s) \<and> users s' = users s \<and> fresh s' = fresh s
     \<and> map inv_id (invites s') = map inv_id (invites s)
     \<and> (member_role m = Owner \<longrightarrow> has_another_owner s (member_org m) m)"

text \<open>A membership row is created or reactivated below the cap.\<close>

definition member_joined :: "member option \<Rightarrow> member \<Rightarrow> org_state \<Rightarrow> org_state \<Rightarrow> bool" where
  "member_joined old m s s' \<longleftrightarrow>
     old = find (\<lambda>x. member_org x = member_org m \<and> member_user x = member_user m) (members s)
     \<and> (case old of None \<Rightarrow> member_id m = fresh s
                  | Some x \<Rightarrow> is_former x \<and> member_id m = member_id x)
     \<and> member_status m = MemberActive \<and> active_count s (member_org m) < max_active_members
     \<and> members s' = members (save_accepted old m s) \<and> fresh s' = fresh (save_accepted old m s)
     \<and> users s' = users s \<and> map inv_id (invites s') = map inv_id (invites s)"

lemma members_kept_refl: "members_kept s s"
  by (simp add: members_kept_def)

lemma user_row_cong: "users s' = users s \<Longrightarrow> user_row s' = user_row s"
  by (simp add: user_row_def fun_eq_iff)

lemma usable_owner_cong: "users s' = users s \<Longrightarrow> usable_owner s' oi m = usable_owner s oi m"
  by (drule user_row_cong) (simp add: usable_owner_def)

lemma below_simps [simp]:
  "below n []" "below n (x # xs) \<longleftrightarrow> x < n \<and> below n xs"
  "below n (xs @ ys) \<longleftrightarrow> below n xs \<and> below n ys"
  by (auto simp: below_def)

lemma below_Suc [simp]: "below n xs \<Longrightarrow> below (Suc n) xs"
  by (auto simp: below_def)

lemma below_notin [simp]: "below n xs \<Longrightarrow> n \<notin> set xs"
  by (auto simp: below_def)

lemma org_ok_tbl: "org_ok s \<Longrightarrow> tbl_ok member_id (members s)"
  "org_ok s \<Longrightarrow> tbl_ok inv_id (invites s)"
  by (simp_all add: org_ok_def tbl_ok_def)

lemma members_kept_ok:
  assumes ok: "org_ok s" and kept: "members_kept s s'"
  shows "org_ok s'"
proof -
  from kept have ms: "members s' = members s" by (simp add: members_kept_def)
  then have "active_count s' = active_count s" by (simp add: active_count_def fun_eq_iff)
  moreover have "distinct (map inv_id (invites s')) \<and> below (fresh s') (map inv_id (invites s'))
      \<and> below (fresh s') (map member_id (members s))"
    using kept ok unfolding members_kept_def org_ok_def
    by (elim conjE disjE) (simp_all del: set_map)
  ultimately show ?thesis using ok ms by (simp add: org_ok_def del: set_map)
qed

lemma members_kept_owner:
  "members_kept s s' \<Longrightarrow> has_usable_owner oi s' = has_usable_owner oi s"
  by (simp add: members_kept_def has_usable_owner_def usable_owner_cong [of s' s])

lemma map_save_same:
  assumes "\<And>x. x \<in> set rows \<Longrightarrow> key x = key r \<Longrightarrow> f x = f r"
  shows "map f (tbl_save key r rows) = map f rows"
  using assms by (simp add: tbl_save_def)

lemma tbl_get_member:
  "tbl_ok key rows \<Longrightarrow> r \<in> set rows \<Longrightarrow> tbl_get key rows (key r) = Some r"
  by (simp add: tbl_get_eq_Some)

lemma in_tbl_save:
  "x \<in> set (tbl_save key r rows) \<longleftrightarrow>
   (x \<in> set rows \<and> key x \<noteq> key r) \<or> (x = r \<and> key r \<in> key ` set rows)"
  by (auto simp: tbl_save_def image_iff) metis+

lemma tbl_row_unique:
  "tbl_ok key rows \<Longrightarrow> x \<in> set rows \<Longrightarrow> y \<in> set rows \<Longrightarrow> key x = key y \<Longrightarrow> x = y"
  by (metis option.inject tbl_get_member)

text \<open>
  A saved row keeps the identifying columns of the row it replaces; the tables stay well formed when
  the number of active members does not pass the cap.
\<close>

lemma save_row_ok:
  assumes ok: "org_ok s" and m: "m \<in> set (members s)" "member_id m1 = member_id m"
    "member_pair m1 = member_pair m"
    and s': "members s' = tbl_save member_id m1 (members s)" "fresh s' = fresh s"
    "map inv_id (invites s') = map inv_id (invites s)"
    and cap: "\<And>oi. active_count s' oi \<le> max_active_members"
  shows "org_ok s'"
proof -
  have "map member_pair (tbl_save member_id m1 (members s)) = map member_pair (members s)"
  proof (rule map_save_same)
    fix x assume "x \<in> set (members s)" "member_id x = member_id m1"
    then have "x = m" using tbl_row_unique [OF org_ok_tbl(1) [OF ok]] m by simp
    then show "member_pair x = member_pair m1" by (simp add: m)
  qed
  then show ?thesis using ok s' cap by (simp add: org_ok_def del: set_map)
qed

lemma active_count_save:
  assumes ok: "org_ok s" and m: "m \<in> set (members s)" "member_id m1 = member_id m"
    and s': "members s' = tbl_save member_id m1 (members s)"
  shows "active_count s' oi + of_bool (member_org m = oi \<and> member_status m = MemberActive)
    = active_count s oi + of_bool (member_org m1 = oi \<and> member_status m1 = MemberActive)"
proof -
  have "tbl_get member_id (members s) (member_id m1) = Some m"
    using tbl_get_member [OF org_ok_tbl(1) [OF ok] m(1)] m(2) by simp
  from member_rows.count_save [OF org_ok_tbl(1) [OF ok] this,
      of "\<lambda>m. member_org m = oi \<and> member_status m = MemberActive"]
  show ?thesis by (simp only: active_count_def s')
qed

lemma member_updated_ok:
  assumes ok: "org_ok s" and upd: "member_updated m m1 s s'"
  shows "org_ok s'"
proof (rule save_row_ok [OF ok])
  show m: "m \<in> set (members s)" and id: "member_id m1 = member_id m"
    and "member_pair m1 = member_pair m"
    and new: "members s' = tbl_save member_id m1 (members s)" and "fresh s' = fresh s"
    and "map inv_id (invites s') = map inv_id (invites s)"
    using upd by (simp_all add: member_updated_def member_pair_def)
  fix oi
  have "active_count s' oi \<le> active_count s oi"
    using active_count_save [OF ok m id new, of oi] upd
    by (auto simp: member_updated_def of_bool_def split: if_splits)
  also have "\<dots> \<le> max_active_members" using ok by (simp add: org_ok_def)
  finally show "active_count s' oi \<le> max_active_members" .
qed

lemma usable_ownerI:
  "v \<in> set (members s') \<Longrightarrow> usable_owner s oi v \<Longrightarrow> users s' = users s \<Longrightarrow> has_usable_owner oi s'"
  by (auto simp: has_usable_owner_def usable_owner_cong [of s' s])

lemma member_updated_owner:
  assumes ok: "org_ok s" and upd: "member_updated m m1 s s'" and "has_usable_owner oi s"
  shows "has_usable_owner oi s'"
proof -
  from upd have m: "m \<in> set (members s)" "member_id m1 = member_id m"
    and new: "members s' = tbl_save member_id m1 (members s)" "users s' = users s"
    and other: "member_role m = Owner \<Longrightarrow> has_another_owner s (member_org m) m"
    by (simp_all add: member_updated_def)
  from assms(3) obtain w where w: "w \<in> set (members s)" "usable_owner s oi w"
    by (auto simp: has_usable_owner_def)
  have "\<exists>v \<in> set (members s). usable_owner s oi v \<and> member_id v \<noteq> member_id m"
  proof (cases "member_id w = member_id m")
    case False
    with w show ?thesis by blast
  next
    case True
    then have "w = m" using tbl_row_unique [OF org_ok_tbl(1) [OF ok]] w m by simp
    with w(2) other have "has_another_owner s oi m" by (auto simp: usable_owner_def)
    then show ?thesis by (auto simp: has_another_owner_def list_ex_iff)
  qed
  then obtain v where v: "v \<in> set (members s)" "usable_owner s oi v" "member_id v \<noteq> member_id m"
    by blast
  then have "v \<in> set (members s')" by (simp add: new in_tbl_save m)
  with v(2) new(2) show ?thesis by (blast intro: usable_ownerI)
qed

text \<open>What the joined row replaces, in both cases of \<open>update_or_create\<close>.\<close>

lemma member_joined_cases:
  assumes "member_joined old m s s'"
  obtains (New) "old = None" "member_pair m \<notin> member_pair ` set (members s)" "member_id m = fresh s"
      "members s' = members s @ [m]" "fresh s' = Suc (fresh s)"
  | (Back) x where "old = Some x" "x \<in> set (members s)" "member_pair x = member_pair m"
      "is_former x" "member_id m = member_id x"
      "members s' = tbl_save member_id m (members s)" "fresh s' = fresh s"
proof (cases old)
  case None
  then have none: "find (\<lambda>x. member_org x = member_org m \<and> member_user x = member_user m) (members s) = None"
    using assms by (simp add: member_joined_def)
  show ?thesis
  proof (rule New)
    show "member_pair m \<notin> member_pair ` set (members s)"
      using none by (auto simp: find_None_conv member_pair_def)
  qed (use None assms in \<open>simp_all add: member_joined_def save_accepted_def tbl_insert_def\<close>)
next
  case (Some x)
  then have found: "find (\<lambda>x. member_org x = member_org m \<and> member_user x = member_user m) (members s) = Some x"
    using assms by (simp add: member_joined_def)
  show ?thesis
  proof (rule Back [OF Some])
    show "x \<in> set (members s)" "member_pair x = member_pair m"
      using find_eq_Some_conv [OF found] by (simp_all add: member_pair_def)
  qed (use Some assms in \<open>simp_all add: member_joined_def save_accepted_def\<close>)
qed

lemma member_joined_fields:
  assumes "member_joined old m s s'"
  shows "member_status m = MemberActive" "active_count s (member_org m) < max_active_members"
    "users s' = users s" "map inv_id (invites s') = map inv_id (invites s)"
  using assms by (simp_all add: member_joined_def)

lemma member_joined_ok:
  assumes ok: "org_ok s" and join: "member_joined old m s s'"
  shows "org_ok s'"
  using join
proof (cases rule: member_joined_cases)
  case New
  have "active_count s' oi \<le> max_active_members" for oi
    using ok member_joined_fields [OF join] New
    by (auto simp: active_count_def org_ok_def tbl_count_def)
  then show ?thesis
    using ok New member_joined_fields [OF join] by (simp add: org_ok_def del: set_map)
      (simp add: below_def)
next
  case (Back x)
  have "active_count s' oi \<le> max_active_members" for oi
    using active_count_save [OF ok Back(2) Back(5) Back(6), of oi] ok
      member_joined_fields [OF join] Back(4)
    by (cases "oi = member_org m") (auto simp: org_ok_def is_former_def Suc_le_eq)
  with Back show ?thesis
    by (intro save_row_ok [OF ok Back(2)]) (simp_all add: member_joined_fields [OF join])
qed

lemma member_joined_owner:
  assumes ok: "org_ok s" and join: "member_joined old m s s'" and "has_usable_owner oi s"
  shows "has_usable_owner oi s'"
proof -
  from assms(3) obtain w where w: "w \<in> set (members s)" "usable_owner s oi w"
    by (auto simp: has_usable_owner_def)
  have "w \<in> set (members s')"
    using join
  proof (cases rule: member_joined_cases)
    case New
    with w show ?thesis by simp
  next
    case (Back x)
    have "member_id w \<noteq> member_id m"
    proof
      assume "member_id w = member_id m"
      then have "w = x" using tbl_row_unique [OF org_ok_tbl(1) [OF ok]] w Back by simp
      with w(2) Back(4) show False by (simp add: usable_owner_def is_former_def)
    qed
    with w Back show ?thesis by (simp add: in_tbl_save)
  qed
  with w(2) show ?thesis using member_joined_fields(3) [OF join] by (blast intro: usable_ownerI)
qed

section \<open>What a write does to the invites\<close>

text \<open>
  Rows keep their place and their key, and only a pending row may change.
\<close>

definition pending_only :: "org_invite list \<Rightarrow> org_invite list \<Rightarrow> bool" where
  "pending_only = list_all2 (\<lambda>i j. inv_id j = inv_id i \<and> (inv_status i \<noteq> InvPending \<longrightarrow> j = i))"

lemma pending_only_refl [simp]: "pending_only is1 is1"
  by (simp add: pending_only_def list_all2_same)

lemma pending_only_trans:
  "pending_only is1 is2 \<Longrightarrow> pending_only is2 is3 \<Longrightarrow> pending_only is1 is3"
  unfolding pending_only_def by (erule (1) list_all2_trans [rotated]) auto

lemma pending_only_map [intro]:
  "(\<And>i. inv_id (f i) = inv_id i) \<Longrightarrow> (\<And>i. inv_status i \<noteq> InvPending \<Longrightarrow> f i = i) \<Longrightarrow>
   pending_only is1 (map f is1)"
  by (simp add: pending_only_def list_all2_map2 list_all2_same)

lemma pending_only_ids: "pending_only is1 is2 \<Longrightarrow> map inv_id is2 = map inv_id is1"
  unfolding pending_only_def by (induction rule: list_all2_induct) auto

lemma pending_only_settled:
  "pending_only is1 is2 \<Longrightarrow> i \<in> set is1 \<Longrightarrow> inv_status i \<noteq> InvPending \<Longrightarrow> i \<in> set is2"
  unfolding pending_only_def by (induction rule: list_all2_induct) auto

lemma pending_only_save:
  assumes "tbl_ok inv_id is1" "i \<in> set is1" "inv_status i = InvPending" "inv_id j = inv_id i"
  shows "pending_only is1 (tbl_save inv_id j is1)"
  using tbl_row_unique [OF assms(1) _ assms(2)] assms(3,4)
  by (auto simp: pending_only_def tbl_save_def list_all2_map2 intro!: list_all2_all_nthI dest!: nth_mem)

text \<open>Only the invite table moved.\<close>

definition invites_moved :: "org_state \<Rightarrow> org_state \<Rightarrow> bool" where
  "invites_moved s s' \<longleftrightarrow> members s' = members s \<and> users s' = users s \<and> fresh s' = fresh s
     \<and> organizations s' = organizations s \<and> social_part s' = social_part s
     \<and> pending_only (invites s) (invites s')"

lemma invites_moved_refl [simp]: "invites_moved s s"
  by (simp add: invites_moved_def)

lemma invites_moved_trans:
  "invites_moved s s1 \<Longrightarrow> invites_moved s1 s2 \<Longrightarrow> invites_moved s s2"
  by (auto simp: invites_moved_def intro: pending_only_trans)

lemma invites_moved_emit [simp]: "invites_moved s (emit es s') = invites_moved s s'"
  by (simp add: invites_moved_def emit_def)

lemma invites_moved_kept: "invites_moved s s' \<Longrightarrow> members_kept s s'"
  by (simp add: invites_moved_def members_kept_def pending_only_ids)

lemma invites_moved_settled: "invites_moved s s' \<Longrightarrow> settled_kept s s'"
  by (auto simp: invites_moved_def settled_kept_def intro: pending_only_settled)

lemma invites_moved_map:
  "(\<And>i. inv_id (f i) = inv_id i) \<Longrightarrow> (\<And>i. inv_status i \<noteq> InvPending \<Longrightarrow> f i = i) \<Longrightarrow>
   invites_moved s (s\<lparr>invites := map f (invites s)\<rparr>)"
  by (auto simp: invites_moved_def)

lemma stamp_expired_moved: "invites_moved s (stamp_expired now oi target s)"
  unfolding stamp_expired_def by (rule invites_moved_map) auto

lemma cancel_invites_sent_by_moved: "invites_moved s (cancel_invites_sent_by mid now s)"
  unfolding cancel_invites_sent_by_def by (rule invites_moved_map) auto

lemma settle_typed_address_moved:
  "settle_typed_address now oi target deliver email s = Inr (td, s') \<Longrightarrow> invites_moved s s'"
  by (auto simp: settle_typed_address_def Let_def split: if_splits option.splits
      intro: stamp_expired_moved invites_moved_trans)

lemma refuse_duplicate_by_id_moved:
  assumes "refuse_duplicate_by_id now oi u s = Inr s'"
  shows "invites_moved s s'"
proof -
  let ?s1 = "stamp_expired now oi (\<lambda>i. inv_invited_user i = Some u) s"
  have "s' = ?s1\<lparr>invites := map (\<lambda>i. if inv_org i = oi \<and> inv_status i = InvPending
      \<and> inv_invited_user i = Some u then i\<lparr>inv_invited_user := None\<rparr> else i) (invites ?s1)\<rparr>"
    using assms by (simp add: refuse_duplicate_by_id_def Let_def split: if_splits)
  moreover have "invites_moved ?s1 \<dots>" by (rule invites_moved_map) auto
  ultimately show ?thesis using stamp_expired_moved invites_moved_trans by metis
qed

lemma save_invite_moved:
  assumes "org_ok s" "i \<in> set (invites s)" "inv_status i = InvPending" "inv_id j = inv_id i"
  shows "invites_moved s (s\<lparr>invites := tbl_save inv_id j (invites s)\<rparr>)"
  using pending_only_save [OF org_ok_tbl(2) [OF assms(1)] assms(2-)] by (simp add: invites_moved_def)

section \<open>What each operation does\<close>

text \<open>A new invite is the last row, and it carries the next key.\<close>

definition invite_sent :: "org_invite \<Rightarrow> org_state \<Rightarrow> org_state \<Rightarrow> bool" where
  "invite_sent i s s' \<longleftrightarrow> members s' = members s \<and> users s' = users s
     \<and> inv_id i = fresh s \<and> fresh s' = Suc (fresh s)
     \<and> (\<exists>is1. pending_only (invites s) is1 \<and> invites s' = is1 @ [i])"

lemma invite_sent_kept: "invite_sent i s s' \<Longrightarrow> members_kept s s'"
  by (auto simp: invite_sent_def members_kept_def dest: pending_only_ids)

lemma invite_sent_settled: "invite_sent i s s' \<Longrightarrow> settled_kept s s'"
  by (auto simp: invite_sent_def settled_kept_def dest: pending_only_settled)

lemma insert_invite_Inr:
  "insert_invite i s = Inr s' \<Longrightarrow>
   s' = s\<lparr>invites := invites s @ [i], fresh := Suc (fresh s)\<rparr>"
  by (simp add: insert_invite_def tbl_insert_def split: if_splits)

lemma acting_member_Inr:
  "acting_member ao perm = Inr (oi, m) \<longleftrightarrow> ao = Some (OrgActor oi (Some m)) \<and> has_org_permission (Some m) perm"
  by (auto simp: acting_member_def res_bind_eq_Inr require_org_permission_Inr)

lemma invite_locked_effect:
  assumes "invite_locked hash now oi inviter role email raw_token td s = Inr (i, s')"
  shows "invite_sent i s s'"
proof -
  obtain td1 s1 where moved: "invites_moved s s1" and id: "inv_id i = fresh s1"
    and ins: "\<exists>s2. insert_invite i s1 = Inr s2 \<and> (\<exists>es. s' = emit es s2)"
  proof -
    from assms obtain td1 s1 where pre:
        "(if email \<noteq> '''' then settle_typed_address now oi (fst td) (snd td) email s
          else case fst td of None \<Rightarrow> Inl cannot_invite
               | Some u \<Rightarrow> res_bind (refuse_duplicate_by_id now oi u s) (\<lambda>s. Inr (td, s))) = Inr (td1, s1)"
      and post: "inv_id i = fresh s1"
        "\<exists>s2. insert_invite i s1 = Inr s2 \<and> (s' = s2 \<or> (\<exists>es. s' = emit es s2))"
      unfolding invite_locked_def res_bind_eq_Inr Let_def
      by (elim exE conjE) (fastforce split: if_splits sum.splits prod.splits)
    have "invites_moved s s1"
      using pre by (auto simp: res_bind_eq_Inr split: if_splits option.splits
          dest: settle_typed_address_moved refuse_duplicate_by_id_moved)
    moreover have "s2 = emit [] s2" for s2 by (simp add: emit_def)
    ultimately show ?thesis using post that by metis
  qed
  from ins obtain s2 es where "insert_invite i s1 = Inr s2" "s' = emit es s2" by blast
  with moved id show ?thesis
    by (auto simp: invites_moved_def invite_sent_def emit_def dest!: insert_invite_Inr)
qed

lemma invite_effect:
  "invite hash parse_uuid valid_email now ao raw_user_id raw_email role raw_token s = Inr (i, s') \<Longrightarrow>
   invite_sent i s s'"
  by (auto simp: invite_def res_bind_eq_Inr Let_def split: option.splits if_splits
      dest: invite_locked_effect)

lemma cancel_invite_cases:
  assumes "cancel_invite now ao iid s = Inr s'"
  obtains oi m i where "ao = Some (OrgActor oi (Some m))"
    "find (\<lambda>i. inv_id i = iid \<and> inv_org i = oi) (invites s) = Some i" "inv_status i = InvPending"
    "s' = s\<lparr>invites := tbl_save inv_id
       (i\<lparr>inv_status := InvCancelled, inv_responded_at := Some now\<rparr>) (invites s)\<rparr>"
proof -
  from assms obtain oi m where "ao = Some (OrgActor oi (Some m))"
    "(case find (\<lambda>i. inv_id i = iid \<and> inv_org i = oi) (invites s) of
         None \<Rightarrow> Inl invite_gone
       | Some i \<Rightarrow>
           if \<not> invite_is_open now i then Inl invite_closed
           else Inr (s\<lparr>invites := tbl_save inv_id
                  (i\<lparr>inv_status := InvCancelled, inv_responded_at := Some now\<rparr>) (invites s)\<rparr>)) = Inr s'"
    by (auto simp: cancel_invite_def res_bind_eq_Inr acting_member_Inr)
  with that show ?thesis by (auto simp: invite_is_open_def split: option.splits if_splits)
qed

lemma cancel_invite_effect:
  assumes "org_ok s" and "cancel_invite now ao iid s = Inr s'"
  shows "invites_moved s s'"
  using assms(2)
proof (cases rule: cancel_invite_cases)
  case (1 oi m i)
  then show ?thesis using find_eq_Some_conv [OF 1(2)] by (simp add: save_invite_moved [OF assms(1), of i])
qed

lemma decline_effect:
  assumes "org_ok s" and "decline now iid e s = Inr s'"
  shows "invites_moved s s'"
  using assms(2) save_invite_moved [OF assms(1)]
  by (auto simp: decline_def Let_def invite_is_open_def split: option.splits if_splits
      dest!: tbl_get_in)

lemma claim_one_effect: "org_ok s \<Longrightarrow> invites_moved s (snd (claim_one iid u s))"
  by (auto simp: claim_one_def Let_def dest: tbl_get_in split: option.splits intro!: save_invite_moved)

lemma claim_each_effect: "org_ok s \<Longrightarrow> invites_moved s (snd (claim_each iids u s))"
proof (induction iids arbitrary: s)
  case (Cons iid rest)
  let ?s1 = "snd (claim_one iid u s)"
  have one: "invites_moved s ?s1" by (rule claim_one_effect [OF Cons.prems])
  then have "org_ok ?s1" using Cons.prems invites_moved_kept members_kept_ok by blast
  from invites_moved_trans [OF one Cons.IH [OF this]] show ?case
    by (simp add: split_beta Let_def)
qed simp

lemma claim_email_invites_effect: "org_ok s \<Longrightarrow> invites_moved s (snd (claim_email_invites now u s))"
  by (simp add: claim_email_invites_def Let_def claim_each_effect)

text \<open>Accepting an invite: who joins, with what, and what becomes of the invites.\<close>

lemma accept_cases:
  assumes "accept now iid u e s = Inr (m, s')"
  obtains i old where "tbl_get inv_id (invites s) iid = Some i" "invite_is_open now i"
    "inviter_still_stands s i (lock_members s (inv_org i))"
    "\<not> is_blocked (social_part s) (Some (UserActor (user_id u))) (Some (OrgId (inv_org i)))"
    "old = find (\<lambda>m. member_org m = inv_org i \<and> member_user m = user_id u) (members s)"
    "case old of None \<Rightarrow> True | Some x \<Rightarrow> is_former x"
    "active_count s (inv_org i) < max_active_members"
    "m = accepted_member now i (user_id u) (fresh s) old"
    "\<exists>es. s' = emit es (settle_invites now i u (member_id m) (save_accepted old m s))"
proof -
  from assms obtain i where i: "tbl_get inv_id (invites s) iid = Some i"
    by (auto simp: accept_def split: option.splits)
  let ?old = "find (\<lambda>m. member_org m = inv_org i \<and> member_user m = user_id u) (members s)"
  show ?thesis
  proof (rule that [OF i, of ?old])
    show "case ?old of None \<Rightarrow> True | Some x \<Rightarrow> is_former x"
      using assms i by (cases ?old) (simp_all add: accept_def Let_def split: if_splits)
  qed (use assms i in \<open>auto simp: accept_def Let_def split: if_splits\<close>)
qed

lemma settle_invites_moved:
  assumes "org_ok s" "i \<in> set (invites s)" "inv_status i = InvPending"
  shows "pending_only (invites s) (invites (settle_invites now i u mid s))"
  using tbl_row_unique [OF org_ok_tbl(2) [OF assms(1)] _ assms(2)] assms(3)
  by (auto simp: pending_only_def settle_invites_def list_all2_map2 list_all2_same)

lemma save_accepted_fields [simp]:
  "invites (save_accepted old m s) = invites s" "users (save_accepted old m s) = users s"
  "organizations (save_accepted old m s) = organizations s"
  by (simp_all add: save_accepted_def split: option.splits)

lemma settle_invites_fields [simp]:
  "members (settle_invites now i u mid s) = members s" "users (settle_invites now i u mid s) = users s"
  "fresh (settle_invites now i u mid s) = fresh s"
  by (simp_all add: settle_invites_def)

lemma accepted_member_fields [simp]:
  "member_status (accepted_member now i u n old) = MemberActive"
  "member_role (accepted_member now i u n old) = inv_role i"
  "member_overrides (accepted_member now i u n old) = no_overrides"
  by (simp_all add: accepted_member_def split: option.splits)

lemma accept_effect:
  assumes ok: "org_ok s" and run: "accept now iid u e s = Inr (m, s')"
  shows "(\<exists>old. member_joined old m s s') \<and> pending_only (invites s) (invites s')"
  using run
proof (cases rule: accept_cases)
  case (1 i old)
  note row = tbl_get_in [OF 1(1)] and pend = 1(2) [unfolded invite_is_open_def]
  from 1(9) obtain es where s': "s' = emit es (settle_invites now i u (member_id m) (save_accepted old m s))" ..
  have own: "member_org m = inv_org i" "member_user m = user_id u"
    using 1(5,8) by (auto simp: accepted_member_def split: option.splits dest!: find_eq_Some_conv)
  have inv: "pending_only (invites s) (invites s')"
    using settle_invites_moved [OF ok row] pend by (simp add: s' emit_def settle_invites_def)
  moreover have "member_joined old m s s'"
    using 1 own pending_only_ids [OF inv]
    by (auto simp: member_joined_def s' emit_def accepted_member_def split: option.splits)
  ultimately show ?thesis by blast
qed

lemma accept_settled: "org_ok s \<Longrightarrow> accept now iid u e s = Inr (m, s') \<Longrightarrow> settled_kept s s'"
  using accept_effect [of s now iid u e m s']
  by (auto simp: settled_kept_def intro: pending_only_settled)

text \<open>The writes to one member row.\<close>

lemma lock_members_in: "m \<in> set (lock_members s oi) \<longleftrightarrow>
  m \<in> set (members s) \<and> member_org m = oi \<and> member_status m = MemberActive"
  by (auto simp: lock_members_def)

lemma locked_member_Inr:
  "locked_member (lock_members s oi) mid = Inr m \<Longrightarrow>
   m \<in> set (members s) \<and> member_org m = oi \<and> member_status m = MemberActive \<and> member_id m = mid"
  using lock_members_in [of m s oi]
  by (auto simp: locked_member_def split: option.splits dest!: find_eq_Some_conv)

lemma cancel_invites_sent_by_fields [simp]:
  "members (cancel_invites_sent_by mid now s) = members s"
  "users (cancel_invites_sent_by mid now s) = users s"
  "fresh (cancel_invites_sent_by mid now s) = fresh s"
  by (simp_all add: cancel_invites_sent_by_def)

lemma save_member_fields [simp]:
  "members (save_member m s) = tbl_save member_id m (members s)"
  "users (save_member m s) = users s" "fresh (save_member m s) = fresh s"
  "invites (save_member m s) = invites s"
  by (simp_all add: save_member_def)

lemma cancel_invites_sent_by_pending:
  "pending_only (invites s) (invites (cancel_invites_sent_by mid now s))"
  using cancel_invites_sent_by_moved [of s mid now] by (simp add: invites_moved_def)

lemma cancel_invites_after_save:
  "pending_only (invites s) (invites (cancel_invites_sent_by mid now (save_member m s)))"
  using cancel_invites_sent_by_pending [of "save_member m s"] by simp

lemma change_role_cases:
  assumes "change_role now ao mid role s = Inr (m1, s')"
  obtains (Same) "s' = s"
  | (Moved) oi me manager m r es where "ao = Some (OrgActor oi (Some me))"
      "require_manager_after_lock (lock_members s oi) me = Inr manager" "role = Some r"
      "m \<in> set (members s)" "member_org m = oi" "member_status m = MemberActive" "member_id m = mid"
      "mid \<noteq> member_id manager" "member_role m \<noteq> r"
      "member_role m = Owner \<or> r = Owner \<Longrightarrow> member_role manager = Owner"
      "member_role m = Owner \<Longrightarrow> has_another_owner s oi m"
      "m1 = m\<lparr>member_role := r\<rparr>"
      "s' = emit es (if member_role m = Owner then cancel_invites_sent_by mid now (save_member m1 s)
                     else save_member m1 s)"
proof -
  from assms obtain oi me manager m r where ao: "ao = Some (OrgActor oi (Some me))"
    and man: "require_manager_after_lock (lock_members s oi) me = Inr manager" and r: "role = Some r"
    and m: "locked_member (lock_members s oi) mid = Inr m"
    by (auto simp: change_role_def res_bind_eq_Inr acting_member_Inr Let_def split: option.splits)
  note row = locked_member_Inr [OF m] and rest = assms
  show ?thesis
  proof (cases "member_role m = r")
    case True
    with rest ao man r m Same show ?thesis
      by (auto simp: change_role_def res_bind_eq_Inr acting_member_Inr Let_def split: if_splits)
  next
    case False
    from rest ao man r m row False have facts: "mid \<noteq> member_id manager"
      "member_role m = Owner \<or> r = Owner \<longrightarrow> member_role manager = Owner"
      "member_role m = Owner \<longrightarrow> has_another_owner s oi m" "m1 = m\<lparr>member_role := r\<rparr>"
      "\<exists>es. s' = emit es (if member_role m = Owner
         then cancel_invites_sent_by mid now (save_member m1 s) else save_member m1 s)"
      by (auto simp: change_role_def res_bind_eq_Inr acting_member_Inr Let_def
          require_owner_for_ownership_def split: if_splits)
    with ao man r row False Moved show ?thesis by blast
  qed
qed

text \<open>
  Every write to a member row: the row was active, its identity stays, the last owner is not lost,
  and only pending invites change with it.
\<close>

lemma member_updatedI:
  assumes "m \<in> set (members s)" "member_status m = MemberActive"
    "member_id m1 = member_id m" "member_org m1 = member_org m" "member_user m1 = member_user m"
    "member_role m = Owner \<Longrightarrow> has_another_owner s (member_org m) m"
    "members s' = tbl_save member_id m1 (members s)" "users s' = users s" "fresh s' = fresh s"
    "pending_only (invites s) (invites s')"
  shows "member_updated m m1 s s'"
  using assms by (simp add: member_updated_def pending_only_ids)

definition member_written :: "org_state \<Rightarrow> org_state \<Rightarrow> bool" where
  "member_written s s' \<longleftrightarrow>
     (s' = s \<or> (\<exists>m m1. member_updated m m1 s s')) \<and> pending_only (invites s) (invites s')"

lemma emit_fields [simp]:
  "members (emit es s) = members s" "users (emit es s) = users s" "fresh (emit es s) = fresh s"
  "invites (emit es s) = invites s" "social_part (emit es s) = social_part s"
  "organizations (emit es s) = organizations s"
  by (simp_all add: emit_def)

lemma change_role_effect:
  assumes "change_role now ao mid role s = Inr (m1, s')"
  shows "member_written s s'"
  using assms
proof (cases rule: change_role_cases)
  case Same
  then show ?thesis by (simp add: member_written_def)
next
  case (Moved oi me manager m r es)
  have inv: "pending_only (invites s) (invites s')"
    unfolding Moved(13) by (simp add: cancel_invites_after_save)
  moreover have "member_updated m m1 s s'"
    by (rule member_updatedI [OF Moved(4,6)]) (use Moved inv in auto)
  ultimately show ?thesis by (auto simp: member_written_def)
qed

lemma remove_member_cases:
  assumes "remove_member now ao mid s = Inr s'"
  obtains oi me manager m m1 es where "ao = Some (OrgActor oi (Some me))"
    "require_manager_after_lock (lock_members s oi) me = Inr manager"
    "m \<in> set (members s)" "member_org m = oi" "member_status m = MemberActive" "member_id m = mid"
    "mid \<noteq> member_id manager" "member_role m = Owner \<Longrightarrow> member_role manager = Owner"
    "member_role m = Owner \<Longrightarrow> has_another_owner s oi m"
    "m1 = m\<lparr>member_status := MemberRemoved, member_removed_at := Some now,
            member_removed_by := Some (member_id manager)\<rparr>"
    "s' = emit es (cancel_invites_sent_by mid now (save_member m1 s))"
proof -
  from assms obtain oi me manager m where ao: "ao = Some (OrgActor oi (Some me))"
    and man: "require_manager_after_lock (lock_members s oi) me = Inr manager"
    and m: "locked_member (lock_members s oi) mid = Inr m"
    by (auto simp: remove_member_def res_bind_eq_Inr acting_member_Inr Let_def)
  note row = locked_member_Inr [OF m]
  let ?m1 = "m\<lparr>member_status := MemberRemoved, member_removed_at := Some now,
            member_removed_by := Some (member_id manager)\<rparr>"
  from assms ao man m row have facts: "mid \<noteq> member_id manager"
    "member_role m = Owner \<longrightarrow> member_role manager = Owner"
    "member_role m = Owner \<longrightarrow> has_another_owner s oi m"
    "\<exists>es. s' = emit es (cancel_invites_sent_by mid now (save_member ?m1 s))"
    by (auto simp: remove_member_def res_bind_eq_Inr acting_member_Inr Let_def
        require_owner_for_ownership_def split: if_splits)
  with ao man row that show ?thesis by blast
qed

lemma remove_member_effect:
  assumes "remove_member now ao mid s = Inr s'"
  shows "member_written s s'"
  using assms
proof (cases rule: remove_member_cases)
  case (1 oi me manager m m1 es)
  have inv: "pending_only (invites s) (invites s')"
    unfolding 1(11) by (simp add: cancel_invites_after_save)
  moreover have "member_updated m m1 s s'"
    by (rule member_updatedI [OF 1(3,5)]) (use 1 inv in auto)
  ultimately show ?thesis by (auto simp: member_written_def)
qed

lemma leave_effect:
  assumes "leave now ao s = Inr s'"
  shows "member_written s s'"
proof -
  from assms obtain oi me where ao: "ao = Some (OrgActor oi (Some me))"
    by (auto simp: leave_def split: option.splits actor.splits)
  with assms obtain m where m: "locked_member (lock_members s oi) (member_id me) = Inr m"
    and other: "member_role m = Owner \<longrightarrow> has_another_owner s oi m"
    and s': "s' = emit [announce (m\<lparr>member_status := MemberLeft, member_removed_at := Some now\<rparr>) ''left'' True]
      (cancel_invites_sent_by (member_id m) now
        (save_member (m\<lparr>member_status := MemberLeft, member_removed_at := Some now\<rparr>) s))"
    by (auto simp: leave_def res_bind_eq_Inr Let_def split: if_splits)
  note row = locked_member_Inr [OF m]
  have inv: "pending_only (invites s) (invites s')"
    unfolding s' by (simp add: cancel_invites_after_save)
  moreover have "member_updated m (m\<lparr>member_status := MemberLeft, member_removed_at := Some now\<rparr>) s s'"
    by (rule member_updatedI) (use row other s' inv in auto)
  ultimately show ?thesis by (auto simp: member_written_def)
qed

section \<open>The component as a machine\<close>

text \<open>
  One step is one completed service call. Calls by a link run the same \<open>accept\<close> and \<open>decline\<close>.
  A refused call leaves the state alone and needs no step.
\<close>

inductive org_step :: "org_state \<Rightarrow> org_state \<Rightarrow> bool" where
  step_invite: "invite hash parse_uuid valid_email now ao raw_user_id raw_email role token s = Inr (i, s')
    \<Longrightarrow> org_step s s'"
| step_cancel: "cancel_invite now ao iid s = Inr s' \<Longrightarrow> org_step s s'"
| step_accept: "accept_invite now u iid s = Inr (m, s') \<Longrightarrow> org_step s s'"
| step_decline: "decline_invite now u iid s = Inr s' \<Longrightarrow> org_step s s'"
| step_accept_link: "accept_invite_by_token hash now u token s = Inr (m, s') \<Longrightarrow> org_step s s'"
| step_decline_link: "decline_invite_by_token hash now u token s = Inr s' \<Longrightarrow> org_step s s'"
| step_claim: "org_step s (snd (claim_email_invites now u s))"
| step_change_role: "change_role now ao mid role s = Inr (m, s') \<Longrightarrow> org_step s s'"
| step_remove: "remove_member now ao mid s = Inr s' \<Longrightarrow> org_step s s'"
| step_leave: "leave now ao s = Inr s' \<Longrightarrow> org_step s s'"

text \<open>Every step is one of the three shapes, and settles no settled invite again.\<close>

lemma org_step_shape:
  assumes "org_ok s" and "org_step s s'"
  shows "(members_kept s s' \<or> (\<exists>old m. member_joined old m s s') \<or> (\<exists>m m1. member_updated m m1 s s'))
    \<and> settled_kept s s'"
proof -
  have wr: "?thesis" if "member_written s s'"
    using that by (auto simp: member_written_def settled_kept_def members_kept_refl
        intro: pending_only_settled)
  have mv: "?thesis" if "invites_moved s s'"
    using that invites_moved_kept invites_moved_settled by blast
  have acc: "?thesis" if "accept now iid u e s = Inr (m, s')" for now iid u e m
    using accept_effect [OF assms(1) that] accept_settled [OF assms(1) that] by blast
  from assms(2) show ?thesis
  proof cases
    case step_invite
    from invite_effect [OF this] show ?thesis by (blast intro: invite_sent_kept invite_sent_settled)
  next
    case step_claim
    then show ?thesis using mv claim_email_invites_effect [OF assms(1)] by blast
  qed (use mv wr acc change_role_effect remove_member_effect leave_effect
      cancel_invite_effect [OF assms(1)] decline_effect [OF assms(1)]
      in \<open>auto simp: accept_invite_def decline_invite_def accept_invite_by_token_def
        decline_invite_by_token_def res_bind_eq_Inr\<close>)
qed

end
