(* ===== verification/Org_Properties.thy ===== *)
theory Org_Properties
  imports Org_Laws
begin

text \<open>
  The membership service as a machine, and its properties: unique memberships and the cap on every
  run, the last usable owner, stale actors, invites of removed members, what an accepted invite
  grants, settled invites, and what an invite to a blocked address reveals.
\<close>

section \<open>The machine\<close>

text \<open>An organization starts with its founder, an active owner.\<close>

definition org_start :: "org_state \<Rightarrow> bool" where
  "org_start s \<longleftrightarrow> invites s = [] \<and> distinct (map member_org (members s))
     \<and> distinct (map member_id (members s)) \<and> below (fresh s) (map member_id (members s))
     \<and> (\<forall>m \<in> set (members s). member_role m = Owner \<and> member_status m = MemberActive)"

text \<open>Between two calls the rest of the program may change accounts, blocks and organizations.\<close>

definition org_elsewhere :: "org_state \<Rightarrow> org_state \<Rightarrow> bool" where
  "org_elsewhere s s' \<longleftrightarrow> members s' = members s \<and> invites s' = invites s \<and> fresh s' = fresh s"

definition org_world :: "org_state \<Rightarrow> org_state \<Rightarrow> bool" where
  "org_world s s' \<longleftrightarrow> org_step s s' \<or> org_elsewhere s s'"

lemma org_start_ok:
  assumes "org_start s"
  shows "org_ok s"
proof -
  have "distinct (map member_pair (members s))"
    using assms unfolding org_start_def by (auto simp: distinct_map member_pair_def inj_on_def)
  moreover have "active_count s oi \<le> 1" for oi
  proof -
    have "length (filter (\<lambda>m. member_org m = oi) ms) \<le> 1" if "distinct (map member_org ms)" for ms
      using that
    proof (induction ms)
      case (Cons a ms)
      have "filter (\<lambda>m. member_org m = member_org a) ms = []"
        using Cons.prems by (simp add: filter_empty_conv) (metis image_eqI)
      with Cons show ?case by (cases "member_org a = oi") auto
    qed simp
    from this [of "members s"] have "length (filter (\<lambda>m. member_org m = oi) (members s)) \<le> 1"
      using assms by (simp add: org_start_def)
    moreover have "length (filter (\<lambda>m. member_org m = oi \<and> member_status m = MemberActive) ms)
        \<le> length (filter (\<lambda>m. member_org m = oi) ms)" for ms
      by (induction ms) auto
    ultimately show ?thesis unfolding active_count_def tbl_count_def by (blast intro: le_trans)
  qed
  then have "active_count s oi \<le> max_active_members" for oi
    by (rule le_trans) (simp add: max_active_members_def)
  ultimately show ?thesis using assms by (simp add: org_ok_def org_start_def del: set_map)
qed

lemma org_step_ok: "org_step s s' \<Longrightarrow> org_ok s \<Longrightarrow> org_ok s'"
  using org_step_shape members_kept_ok member_joined_ok member_updated_ok by blast

lemma org_world_ok: "org_world s s' \<Longrightarrow> org_ok s \<Longrightarrow> org_ok s'"
  unfolding org_world_def by (auto intro: org_step_ok)
    (simp add: org_elsewhere_def org_ok_def active_count_def)

interpretation organizations: safe_machine org_start org_world org_ok
  by unfold_locales (auto intro: org_start_ok org_world_ok)

lemma org_step_owner:
  "org_step s s' \<Longrightarrow> org_ok s \<Longrightarrow> has_usable_owner oi s \<Longrightarrow> has_usable_owner oi s'"
  using org_step_shape members_kept_owner member_joined_owner member_updated_owner by blast

interpretation ownership: safe_machine "\<lambda>s. org_ok s \<and> has_usable_owner oi s" org_step
    "\<lambda>s. org_ok s \<and> has_usable_owner oi s" for oi
  by unfold_locales (auto intro: org_step_ok org_step_owner)

text \<open>A given settled invite, followed through a run.\<close>

interpretation settled: safe_machine
    "\<lambda>s. org_ok s \<and> i \<in> set (invites s) \<and> inv_status i \<noteq> InvPending" org_world
    "\<lambda>s. org_ok s \<and> i \<in> set (invites s) \<and> inv_status i \<noteq> InvPending" for i
proof (unfold_locales, goal_cases)
  case (2 s t)
  then have "settled_kept s t"
    using org_step_shape unfolding org_world_def org_elsewhere_def settled_kept_def by metis
  with 2 show ?case by (auto simp: settled_kept_def intro: org_world_ok)
qed auto

section \<open>A small organization\<close>

text \<open>Organization 1: owners 11 and 12 (rows 21, 22), coach 13 (row 23). User 14 is outside.\<close>

definition demo_user :: "uid \<Rightarrow> string \<Rightarrow> user" where
  "demo_user u email = \<lparr>user_id = u, user_email = email, user_is_active = True,
     user_is_email_verified = True, user_deletion_requested_at = None\<rparr>"

definition demo_member :: "nat \<Rightarrow> uid \<Rightarrow> member_role \<Rightarrow> member" where
  "demo_member mid u r = \<lparr>member_id = mid, member_org = 1, member_user = u, member_role = r,
     member_status = MemberActive, member_joined_at = 0, member_added_by = None,
     member_removed_at = None, member_removed_by = None, member_overrides = no_overrides\<rparr>"

definition org_demo :: org_state where
  "org_demo = \<lparr>organizations = [\<lparr>org_id = 1, org_is_active = True, org_is_suspended = False\<rparr>],
     users = [demo_user 11 ''a@x'', demo_user 12 ''b@x'', demo_user 13 ''c@x'', demo_user 14 ''d@x''],
     members = [demo_member 21 11 Owner, demo_member 22 12 Owner, demo_member 23 13 Coach],
     invites = [], social_part = demo0, fresh = 31, effects = []\<rparr>"

definition founder :: "actor option" where
  "founder = Some (OrgActor 1 (Some (demo_member 21 11 Owner)))"

lemmas org_eval = org_demo_def founder_def demo_user_def demo_member_def no_overrides_def
  acting_member_def require_org_permission_def has_org_permission_def member_permissions_def
  all_permissions_def lock_members_def active_members_def require_manager_after_lock_def
  locked_member_def has_another_owner_def usable_owner_def user_row_def tbl_get_def
  require_owner_for_ownership_def save_member_def tbl_save_def cancel_invites_sent_by_def emit_def

lemma org_demo_ok: "org_ok org_demo"
proof -
  have "active_count org_demo oi \<le> 3" for oi
    by (simp add: active_count_def tbl_count_def org_demo_def demo_member_def)
  then have "active_count org_demo oi \<le> max_active_members" for oi
    by (rule le_trans) (simp add: max_active_members_def)
  then show ?thesis by (simp add: org_ok_def org_demo_def demo_member_def member_pair_def)
qed

lemma org_demo_owner: "has_usable_owner 1 org_demo"
  by (simp add: has_usable_owner_def usable_owner_def org_demo_def demo_member_def demo_user_def
      user_row_def tbl_get_def)

text \<open>Row 21 removes row 22, who had invited user 14.\<close>

definition invited_demo :: org_state where
  "invited_demo = (case invite (\<lambda>t. t) (\<lambda>_. Some 14) (\<lambda>_. True) 0
       (Some (OrgActor 1 (Some (demo_member 22 12 Owner)))) ''14'' '''' (Some Coach) ''token'' org_demo of
     Inr (_, s) \<Rightarrow> s | Inl _ \<Rightarrow> org_demo)"

definition removed_demo :: org_state where
  "removed_demo = (case remove_member 5 founder 22 invited_demo of Inr s \<Rightarrow> s | Inl _ \<Rightarrow> org_demo)"

lemma invited_demo_run:
  "\<exists>i. invite (\<lambda>t. t) (\<lambda>_. Some 14) (\<lambda>_. True) 0 (Some (OrgActor 1 (Some (demo_member 22 12 Owner))))
     ''14'' '''' (Some Coach) ''token'' org_demo = Inr (i, invited_demo)"
proof -
  have "\<not> (case invite (\<lambda>t. t) (\<lambda>_. Some 14) (\<lambda>_. True) 0
      (Some (OrgActor 1 (Some (demo_member 22 12 Owner)))) ''14'' '''' (Some Coach) ''token'' org_demo of
     Inr _ \<Rightarrow> False | Inl _ \<Rightarrow> True)"
    by code_simp
  then show ?thesis by (auto simp: invited_demo_def split: sum.splits)
qed

lemma removed_demo_run: "remove_member 5 founder 22 invited_demo = Inr removed_demo"
proof -
  have "\<not> (case remove_member 5 founder 22 invited_demo of Inr _ \<Rightarrow> False | Inl _ \<Rightarrow> True)"
    by code_simp
  then show ?thesis by (auto simp: removed_demo_def split: sum.splits)
qed

lemma invited_demo_step: "org_step org_demo invited_demo"
  using invited_demo_run step_invite by blast

lemma removed_demo_step: "org_step invited_demo removed_demo"
  using removed_demo_run step_remove by blast

text \<open>The organization at its start: row 21 alone, then an invite to user 14.\<close>

definition start_demo :: org_state where
  "start_demo = org_demo\<lparr>members := [demo_member 21 11 Owner]\<rparr>"

definition started_demo :: org_state where
  "started_demo = (case invite (\<lambda>t. t) (\<lambda>_. Some 14) (\<lambda>_. True) 0 founder ''14'' '''' (Some Coach)
       ''token'' start_demo of Inr (_, s) \<Rightarrow> s | Inl _ \<Rightarrow> start_demo)"

definition joined_demo :: org_state where
  "joined_demo = (case accept_invite 7 (demo_user 14 ''d@x'') 31 started_demo of
     Inr (_, s) \<Rightarrow> s | Inl _ \<Rightarrow> start_demo)"

lemma started_demo_run:
  "\<exists>i. invite (\<lambda>t. t) (\<lambda>_. Some 14) (\<lambda>_. True) 0 founder ''14'' '''' (Some Coach) ''token'' start_demo
     = Inr (i, started_demo)"
proof -
  have "\<not> (case invite (\<lambda>t. t) (\<lambda>_. Some 14) (\<lambda>_. True) 0 founder ''14'' '''' (Some Coach)
      ''token'' start_demo of Inr _ \<Rightarrow> False | Inl _ \<Rightarrow> True)"
    by code_simp
  then show ?thesis by (auto simp: started_demo_def split: sum.splits)
qed

lemma joined_demo_run: "\<exists>m. accept_invite 7 (demo_user 14 ''d@x'') 31 started_demo = Inr (m, joined_demo)"
proof -
  have "\<not> (case accept_invite 7 (demo_user 14 ''d@x'') 31 started_demo of Inr _ \<Rightarrow> False | Inl _ \<Rightarrow> True)"
    by code_simp
  then show ?thesis by (auto simp: joined_demo_def split: sum.splits)
qed

lemma start_demo_start: "org_start start_demo"
  by (simp add: org_start_def start_demo_def org_demo_def demo_member_def)

lemma joined_demo_reach: "org_world\<^sup>*\<^sup>* start_demo joined_demo"
proof -
  have "org_step start_demo started_demo" using started_demo_run step_invite by blast
  moreover have "org_step started_demo joined_demo" using joined_demo_run step_accept by blast
  ultimately have "org_world start_demo started_demo" "org_world started_demo joined_demo"
    by (simp_all add: org_world_def)
  then show ?thesis by (meson rtranclp.intros)
qed

section \<open>Properties\<close>

text \<open>
  On every run of the membership service, with accounts, blocks and organizations
  changing in between, an account has at most one membership row per organization, row keys are
  unique, and no organization has more than 50 active members.
\<close>

theorem memberships_unique_and_capped:
  assumes "org_start s" and "org_world\<^sup>*\<^sup>* s t"
  shows "distinct (map member_id (members t)) \<and> distinct (map member_pair (members t))
    \<and> (\<forall>oi. active_count t oi \<le> 50)"
  using organizations.inv_reachable [OF assms] by (simp add: org_ok_def max_active_members_def)

theorem memberships_unique_and_capped_witness:
  "distinct (map member_pair (members joined_demo)) \<and> active_count joined_demo 1 \<le> 50
   \<and> length (members joined_demo) = 2"
proof -
  have "length (members joined_demo) = 2" by code_simp
  then show ?thesis
    using memberships_unique_and_capped [OF start_demo_start joined_demo_reach] by blast
qed

text \<open>
  Property C4. An organization that has an owner able to run it (an active owner row whose account
  is active and not being deleted) keeps one through every sequence of invites, answers, role
  changes, removals and departures.
\<close>

theorem last_owner_never_lost:
  assumes "org_ok s" and "has_usable_owner oi s" and "org_step\<^sup>*\<^sup>* s t"
  shows "has_usable_owner oi t"
  using ownership.inv_run [OF assms(3)] assms(1,2) by blast

theorem last_owner_never_lost_witness:
  "has_usable_owner 1 removed_demo"
proof (rule last_owner_never_lost [OF org_demo_ok org_demo_owner])
  show "org_step\<^sup>*\<^sup>* org_demo removed_demo"
    using invited_demo_step removed_demo_step by (meson rtranclp.intros)
qed

lemma require_manager_stale:
  assumes "\<not> (\<exists>m \<in> set (members s). member_id m = member_id me \<and> member_org m = oi
    \<and> has_org_permission (Some m) MembersManage)"
  shows "require_manager_after_lock (lock_members s oi) me = Inl manager_lost"
proof -
  have "find (\<lambda>m. member_id m = member_id me \<and> has_org_permission (Some m) MembersManage)
      (lock_members s oi) = None"
    using assms by (auto simp: find_None_conv lock_members_in)
  then show ?thesis by (simp add: require_manager_after_lock_def)
qed

text \<open>
  The actor was loaded before the lock. If, under the lock, its membership row no longer
  is an active row of the organization that may manage members, every write of a manager (invite,
  cancel an invite, change a role, remove a member) is refused.
\<close>

theorem stale_manager_refused:
  assumes "\<not> (\<exists>m \<in> set (members s). member_id m = member_id me \<and> member_org m = oi
    \<and> has_org_permission (Some m) MembersManage)"
  shows "\<not> (\<exists>x. remove_member now (Some (OrgActor oi (Some me))) mid s = Inr x)
    \<and> \<not> (\<exists>x. change_role now (Some (OrgActor oi (Some me))) mid role s = Inr x)
    \<and> \<not> (\<exists>x. cancel_invite now (Some (OrgActor oi (Some me))) iid s = Inr x)
    \<and> \<not> (\<exists>x. invite hash parse_uuid valid_email now (Some (OrgActor oi (Some me)))
              raw_user_id raw_email role token s = Inr x)"
  using require_manager_stale [OF assms(1)]
  by (auto simp: remove_member_def change_role_def cancel_invite_def invite_def
      invite_locked_def res_bind_eq_Inr acting_member_Inr Let_def split: option.splits if_splits)

theorem stale_manager_refused_witness:
  "\<not> (\<exists>x. remove_member 9 (Some (OrgActor 1 (Some (demo_member 22 12 Owner)))) 23 removed_demo = Inr x)"
proof -
  have "list_all (\<lambda>m. \<not> (member_id m = 22 \<and> member_org m = 1 \<and> has_org_permission (Some m) MembersManage))
      (members removed_demo)"
    by code_simp
  then have "\<not> (\<exists>m \<in> set (members removed_demo). member_id m = member_id (demo_member 22 12 Owner)
      \<and> member_org m = 1 \<and> has_org_permission (Some m) MembersManage)"
    by (simp add: list_all_iff demo_member_def)
  from stale_manager_refused [OF this] show ?thesis by blast
qed

text \<open>What a removal leaves of the invites of the removed member.\<close>

lemma cancel_invites_sent_by_none:
  "i \<in> set (invites (cancel_invites_sent_by mid now s)) \<Longrightarrow> inv_invited_by i = Some mid \<Longrightarrow>
   inv_status i \<noteq> InvPending"
  by (auto simp: cancel_invites_sent_by_def split: if_splits)

lemma accept_not_pending:
  assumes "tbl_get inv_id (invites s) iid = Some i" "inv_status i \<noteq> InvPending"
  shows "accept now iid u e s = Inl e"
  using assms by (simp add: accept_def Let_def invite_is_open_def)

text \<open>
  Property C15. Once a member is removed, no invite that member sent is pending any more, and answering
  one, now or later in time, is refused as an invite that is closed: a removed owner leaves no way in.
\<close>

theorem removed_member_invites_closed:
  assumes "remove_member now ao mid s = Inr s'"
    and "tbl_get inv_id (invites s') iid = Some i" and "inv_invited_by i = Some mid"
  shows "inv_status i \<noteq> InvPending \<and> accept later iid u e s' = Inl e"
  using assms(1)
proof (cases rule: remove_member_cases)
  case (1 oi me manager m m1 es)
  have "inv_status i \<noteq> InvPending"
    using cancel_invites_sent_by_none [of i mid now "save_member m1 s"] tbl_get_in [OF assms(2)]
      assms(3) 1(11) by simp
  with accept_not_pending [OF assms(2)] show ?thesis by blast
qed

theorem removed_member_invites_closed_witness:
  "accept 6 31 (demo_user 14 ''d@x'') invite_closed removed_demo = Inl invite_closed"
proof -
  have "(case tbl_get inv_id (invites removed_demo) 31 of
      Some i \<Rightarrow> inv_invited_by i = Some 22 | None \<Rightarrow> False)"
    by code_simp
  then obtain i where "tbl_get inv_id (invites removed_demo) 31 = Some i" "inv_invited_by i = Some 22"
    by (auto split: option.splits)
  from removed_member_invites_closed [OF removed_demo_run this] show ?thesis by blast
qed

text \<open>
  An accepted invite gives the accepting account an active row in the invite's
  organization with exactly the invite's role and no grants or revokes, whatever an older row of
  that account held; the inviter could still grant it at that moment; and no other invite of that
  organization for this account stays pending.
\<close>

theorem accept_grants_the_invite:
  assumes "org_ok s" and "accept_invite now u iid s = Inr (m, s')"
  shows "(\<exists>i \<in> set (invites s). inv_id i = iid \<and> inv_invited_user i = Some (user_id u)
      \<and> invite_is_open now i \<and> inviter_still_stands s i (lock_members s (inv_org i))
      \<and> member_org m = inv_org i \<and> member_role m = inv_role i)
    \<and> member_user m = user_id u \<and> member_status m = MemberActive \<and> member_overrides m = no_overrides
    \<and> m \<in> set (members s')
    \<and> \<not> (\<exists>j \<in> set (invites s'). inv_org j = member_org m \<and> inv_status j = InvPending
          \<and> inv_invited_user j = Some (user_id u))"
proof -
  from assms(2) obtain i where i: "i \<in> set (invites s)" "inv_id i = iid"
      "inv_invited_user i = Some (user_id u)" and run: "accept now iid u invite_closed s = Inr (m, s')"
    by (auto simp: accept_invite_def own_invite_def res_bind_eq_Inr split: option.splits
        dest!: find_eq_Some_conv)
  have get: "tbl_get inv_id (invites s) iid = Some i"
    using tbl_get_member [OF org_ok_tbl(2) [OF assms(1)] i(1)] i(2) by simp
  from run show ?thesis
  proof (cases rule: accept_cases)
    case (1 i' old)
    with get have [simp]: "i' = i" by simp
    from 1(9) obtain es where s': "s' = emit es (settle_invites now i u (member_id m) (save_accepted old m s))"
      by auto
    have own: "member_org m = inv_org i" "member_user m = user_id u"
      using 1(5,8) by (auto simp: accepted_member_def split: option.splits dest!: find_eq_Some_conv)
    have "m \<in> set (members s')"
    proof (cases old)
      case None
      then show ?thesis by (simp add: s' save_accepted_def tbl_insert_def)
    next
      case (Some x)
      then have "x \<in> set (members s)" "member_id m = member_id x"
        using 1(5,8) by (auto simp: accepted_member_def dest!: find_eq_Some_conv)
      with Some show ?thesis by (auto simp: s' save_accepted_def in_tbl_save)
    qed
    moreover have "\<not> (\<exists>j \<in> set (invites s'). inv_org j = inv_org i \<and> inv_status j = InvPending
          \<and> inv_invited_user j = Some (user_id u))"
      by (auto simp: s' settle_invites_def split: if_splits)
    ultimately show ?thesis using 1 i own by auto
  qed
qed

theorem accept_grants_the_invite_witness:
  "\<exists>m. accept_invite 7 (demo_user 14 ''d@x'') 31 started_demo = Inr (m, joined_demo)
     \<and> m \<in> set (members joined_demo) \<and> member_user m = 14"
proof -
  have "org_ok started_demo"
    using started_demo_run step_invite org_step_ok org_start_ok start_demo_start by blast
  with joined_demo_run obtain m where run: "accept_invite 7 (demo_user 14 ''d@x'') 31 started_demo = Inr (m, joined_demo)"
    and ok: "org_ok started_demo" by blast
  from accept_grants_the_invite [OF ok run] run show ?thesis by (auto simp: demo_user_def)
qed

text \<open>
  An invite that has been accepted, declined, cancelled or stamped expired never
  changes again, on any run, whatever the rest of the program does in between.
\<close>

theorem settled_invites_are_final:
  assumes "org_ok s" and "org_world\<^sup>*\<^sup>* s t" and "i \<in> set (invites s)" and "inv_status i \<noteq> InvPending"
  shows "i \<in> set (invites t) \<and> \<not> (\<exists>x. accept now (inv_id i) u e t = Inr x)
    \<and> \<not> (\<exists>x. decline now (inv_id i) e t = Inr x) \<and> \<not> (\<exists>x. cancel_invite now ao (inv_id i) t = Inr x)"
proof -
  have t: "org_ok t" "i \<in> set (invites t)"
    using settled.inv_run [OF assms(2), of i] assms(1,3,4) by blast+
  then have get: "tbl_get inv_id (invites t) (inv_id i) = Some i"
    by (simp add: tbl_get_member org_ok_tbl)
  have "j = i" if "j \<in> set (invites t)" "inv_id j = inv_id i" for j
    using tbl_row_unique [OF org_ok_tbl(2) [OF t(1)]] that t(2) by blast
  then have "\<not> (\<exists>x. cancel_invite now ao (inv_id i) t = Inr x)"
    using assms(4) by (auto elim!: cancel_invite_cases dest!: find_eq_Some_conv)
  with t get assms(4) show ?thesis
    by (simp add: accept_def decline_def Let_def invite_is_open_def)
qed

theorem settled_invites_are_final_witness:
  "\<exists>i. inv_status i = InvAccepted \<and> i \<in> set (invites joined_demo)
     \<and> \<not> (\<exists>x. decline 8 (inv_id i) invite_closed joined_demo = Inr x)"
proof -
  have "org_ok joined_demo"
    using organizations.inv_reachable [OF start_demo_start joined_demo_reach] .
  moreover have "list_ex (\<lambda>i. inv_status i = InvAccepted) (invites joined_demo)"
    by code_simp
  then obtain i where "i \<in> set (invites joined_demo)" "inv_status i = InvAccepted"
    by (auto simp: list_ex_iff)
  ultimately show ?thesis
    using settled_invites_are_final [of joined_demo joined_demo i 8 "demo_user 14 ''d@x''" invite_closed founder]
    by auto
qed

text \<open>
  The address of a blocked account is handled as one nobody has: the same row, or the same error.
\<close>

definition without_address :: "string \<Rightarrow> org_state \<Rightarrow> org_state" where
  "without_address email s =
     s\<lparr>users := filter (\<lambda>u. py_lower (user_email u) \<noteq> py_lower email) (users s)\<rparr>"

definition visible :: "(org_invite \<times> org_state) result \<Rightarrow> org_invite result" where
  "visible r = (case r of Inl e \<Rightarrow> Inl e | Inr (i, _) \<Rightarrow> Inr i)"

lemma visible_bind:
  "(\<And>x. visible (f x) = visible (g x)) \<Longrightarrow> visible (res_bind m f) = visible (res_bind m g)"
  by (cases m) (simp_all add: visible_def)

lemma insert_invite_without:
  "insert_invite i (without_address a s) =
   (case insert_invite i s of Inl e \<Rightarrow> Inl e | Inr s' \<Rightarrow> Inr (without_address a s'))"
  by (simp add: insert_invite_def without_address_def)

lemma settle_typed_without:
  "settle_typed_address now oi None d email s =
   (if pending_for oi (\<lambda>i. inv_email i = email) (stamp_expired now oi (\<lambda>i. inv_email i = email) s) \<noteq> []
    then Inl already_invited
    else Inr ((None, d), stamp_expired now oi (\<lambda>i. inv_email i = email) s))"
  by (simp add: settle_typed_address_def Let_def)

lemma without_address_fields [simp]:
  "stamp_expired now oi target (without_address a s) = without_address a (stamp_expired now oi target s)"
  "pending_for oi target (without_address a s) = pending_for oi target s"
  "lock_members (without_address a s) oi = lock_members s oi"
  "active_count (without_address a s) oi = active_count s oi"
  "invites (without_address a s) = invites s" "fresh (without_address a s) = fresh s"
  by (simp_all add: without_address_def stamp_expired_def pending_for_def lock_members_def
      active_count_def)

lemma invite_locked_unknown:
  assumes "email \<noteq> ''''"
  shows "visible (invite_locked hash now oi m role email token (None, d) s)
    = visible (invite_locked hash now oi m role email token (None, d') (without_address a s))"
proof -
  have last: "visible (case insert_invite i s1 of Inl _ \<Rightarrow> Inl already_invited
        | Inr s2 \<Rightarrow> Inr (i, if d then emit es s2 else s2))
      = visible (case insert_invite i (without_address a s1) of Inl _ \<Rightarrow> Inl already_invited
        | Inr s2 \<Rightarrow> Inr (i, if d' then emit es s2 else s2))" for i s1 es
    by (cases "insert_invite i s1") (simp_all add: insert_invite_without visible_def)
  show ?thesis
    unfolding invite_locked_def without_address_fields
    by (intro visible_bind)
      (simp add: assms settle_typed_without Let_def last if_distrib [of visible]
        cong: if_cong cong del: sum.case_cong_weak)
qed

text \<open>
  Inviting a typed address tells the inviter nothing about a block: when the account
  behind the address has blocked the organization (or is blocked by it), the call returns the same
  invite row, or the same error, as if no account had that address, and nothing is sent.
\<close>

theorem invite_is_no_block_oracle:
  assumes "py_lower (py_strip raw_email) = email" and "email \<noteq> ''''"
    and "find (\<lambda>u. py_lower (user_email u) = py_lower email) (users s) = Some account"
    and "user_is_active account" and "user_is_email_verified account"
    and "user_id account \<noteq> member_user me"
    and "is_blocked (social_part s) (Some (UserActor (user_id account))) (Some (OrgId oi))"
  shows "visible (invite hash parse_uuid valid_email now (Some (OrgActor oi (Some me))) '''' raw_email
       role token s)
     = visible (invite hash parse_uuid valid_email now (Some (OrgActor oi (Some me))) '''' raw_email
       role token (without_address email s))
   \<and> (case invite hash parse_uuid valid_email now (Some (OrgActor oi (Some me))) '''' raw_email
       role token s of Inl _ \<Rightarrow> True | Inr (i, s') \<Rightarrow> effects s' = effects s \<and> inv_invited_user i = None)"
proof -
  have here: "resolve_invite_target parse_uuid s oi me '''' email = Inr (None, False)"
    using assms by (simp add: resolve_invite_target_def)
  have "find (\<lambda>u. py_lower (user_email u) = py_lower email) (users (without_address email s)) = None"
    by (simp add: find_None_conv without_address_def)
  then have gone: "resolve_invite_target parse_uuid (without_address email s) oi me '''' email = Inr (None, True)"
    using assms(2) by (simp add: resolve_invite_target_def)
  have silent: "effects s' = effects s \<and> inv_invited_user i = None"
    if "invite_locked hash now oi me r email token (None, False) s = Inr (i, s')" for r i s'
    using that assms(2)
    by (auto simp: invite_locked_def res_bind_eq_Inr settle_typed_without Let_def stamp_expired_def
        dest!: insert_invite_Inr split: if_splits sum.splits)
  show ?thesis
    using here gone silent assms(1,2) invite_locked_unknown [OF assms(2), of hash now oi me _ token False s True email]
    by (auto simp: invite_def acting_member_def require_org_permission_def visible_def Let_def
        split: option.splits sum.splits)
qed

definition blocking_demo :: org_state where
  "blocking_demo = org_demo\<lparr>social_part := demo0\<lparr>block_rows := [(UserId 14, OrgId 1)]\<rparr>\<rparr>"

theorem invite_is_no_block_oracle_witness:
  "visible (invite (\<lambda>t. t) (\<lambda>_. None) (\<lambda>_. True) 0 founder '''' ''D@x'' (Some Coach) ''token'' blocking_demo)
   = visible (invite (\<lambda>t. t) (\<lambda>_. None) (\<lambda>_. True) 0 founder '''' ''D@x'' (Some Coach) ''token''
       (without_address ''d@x'' blocking_demo))"
proof -
  have "py_lower (py_strip ''D@x'') = ''d@x''" by code_simp
  moreover have "find (\<lambda>u. py_lower (user_email u) = py_lower ''d@x'') (users blocking_demo)
      = Some (demo_user 14 ''d@x'')"
    by code_simp
  moreover have "is_blocked (social_part blocking_demo) (Some (UserActor (user_id (demo_user 14 ''d@x''))))
      (Some (OrgId 1))"
    by code_simp
  ultimately show ?thesis
    unfolding founder_def
    by (intro invite_is_no_block_oracle [where account = "demo_user 14 ''d@x''", THEN conjunct1])
      (simp_all add: demo_user_def demo_member_def)
qed

text \<open>
  The query that lists the members with a permission and the rule that decides one member
  in memory give the same audience, for every permission, role, grant and revoke.
\<close>

theorem permission_query_agrees:
  "set (members_with_permission oi perm ms)
   = {m. m \<in> set ms \<and> member_org m = oi \<and> has_org_permission (Some m) perm}"
  using members_with_permission_iff [of _ oi perm ms] by blast

end
