(* ===== verification/Trial_Calendar.thy ===== *)
theory Trial_Calendar
  imports Goatza_Prelude
begin

text \<open>
  The calendar a trial runs on: \<open>utils/timezones.py\<close>, \<open>apps/recruitments/trial_window.py\<close> and the
  dates of \<open>apps/recruitments/models.py\<close>.

  A \<open>ZoneInfo\<close> answers two questions: the offset from UTC of a wall-clock reading (what
  \<open>datetime.combine(\<dots>, tzinfo)\<close> uses) and the offset at an instant (what \<open>astimezone\<close> uses). The
  table of zones is the interpreter's tzdata, a parameter \<open>db\<close>. Offsets are microseconds; a wall
  clock reading is a number of microseconds since 1970-01-01 00:00 on that clock.
\<close>

section \<open>Zones\<close>

definition second :: int where "second = 1000000"
definition hour :: int where "hour = 3600 * second"
definition day_length :: int where "day_length = 24 * hour"

record tz =
  wall_offset :: "int \<Rightarrow> int"
  at_offset :: "instant \<Rightarrow> int"

definition utc :: tz where
  "utc = \<lparr>wall_offset = (\<lambda>_. 0), at_offset = (\<lambda>_. 0)\<rparr>"

definition fixed_zone :: "int \<Rightarrow> tz" where
  "fixed_zone d = \<lparr>wall_offset = (\<lambda>_. d), at_offset = (\<lambda>_. d)\<rparr>"

type_synonym tzdb = "string \<Rightarrow> tz option"

text \<open>
  \<open>zone\<close>: the zone of a stored name, else the default's. \<open>ZoneInfo\<close> of an unknown default raises;
  the settings name is a known one, and \<open>default_tz\<close> is the zone it names.
\<close>

definition zone :: "tzdb \<Rightarrow> tz \<Rightarrow> string \<Rightarrow> tz" where
  "zone db default_tz name =
     (if name \<noteq> '''' then (case db name of Some z \<Rightarrow> z | None \<Rightarrow> default_tz) else default_tz)"

definition validate_timezone :: "tzdb \<Rightarrow> string \<Rightarrow> string result" where
  "validate_timezone db name =
     (if name = '''' then Inl (ValidationError ''A timezone is required.'')
      else if db name = None then Inl (ValidationError (name @ '' is not a valid timezone.''))
      else Inr name)"

definition combine :: "tz \<Rightarrow> day \<Rightarrow> int \<Rightarrow> instant" where
  "combine z d t = d * day_length + t - wall_offset z (d * day_length + t)"

definition local_date :: "tz \<Rightarrow> instant \<Rightarrow> day" where
  "local_date z x = (x + at_offset z x) div day_length"

lemma day_length_pos [simp]: "0 < day_length"
  by (simp add: day_length_def hour_def second_def)

text \<open>A zone whose clock, read at \<open>combine z d t\<close>, shows the day \<open>d\<close>: what tzdata promises away from gaps.\<close>

definition shows_day :: "tz \<Rightarrow> day \<Rightarrow> int \<Rightarrow> bool" where
  "shows_day z d t \<longleftrightarrow> local_date z (combine z d t) = d"

lemma fixed_zone_shows_day:
  assumes "0 \<le> t" "t < day_length"
  shows "shows_day (fixed_zone off) d t"
  using assms by (simp add: shows_day_def local_date_def combine_def fixed_zone_def)

section \<open>The trial window\<close>

definition is_trial_over :: "instant \<Rightarrow> instant option \<Rightarrow> bool" where
  "is_trial_over now trial_end = (case trial_end of None \<Rightarrow> False | Some e \<Rightarrow> e < now)"

text \<open>The queryset half: a row the player-facing lists keep.\<close>

definition trial_not_over_q :: "instant \<Rightarrow> instant option \<Rightarrow> bool" where
  "trial_not_over_q now trial_end = (trial_end = None \<or> (case trial_end of None \<Rightarrow> False | Some e \<Rightarrow> now \<le> e))"

definition max_hours_behind_utc :: int where "max_hours_behind_utc = 12"

definition earliest_live_session_date :: "instant \<Rightarrow> day" where
  "earliest_live_session_date now = (now - max_hours_behind_utc * hour) div day_length"

definition live_session_q :: "instant \<Rightarrow> bool \<Rightarrow> day \<Rightarrow> bool" where
  "live_session_q now cancelled date = (\<not> cancelled \<and> earliest_live_session_date now \<le> date)"

text \<open>
  A date that is still running at its venue is never dropped, when the venue's clock is at most twelve
  hours behind UTC.
\<close>

lemma live_session_never_early:
  assumes "local_date z now \<le> d" and "- (max_hours_behind_utc * hour) \<le> at_offset z now"
  shows "earliest_live_session_date now \<le> d"
proof -
  have "now - max_hours_behind_utc * hour \<le> now + at_offset z now" using assms(2) by simp
  then have "earliest_live_session_date now \<le> local_date z now"
    unfolding earliest_live_session_date_def local_date_def
    by (rule zdiv_mono1) simp
  with assms(1) show ?thesis by simp
qed

section \<open>Country defaults\<close>

definition py_upper_ascii :: "string \<Rightarrow> string" where
  "py_upper_ascii s = map (\<lambda>c. let n = (of_char c :: nat)
     in if 97 \<le> n \<and> n \<le> 122 then char_of (n - 32) else c) s"

definition country_timezones :: "(string \<times> string) list" where
  "country_timezones = [
    (''IN'', ''Asia/Kolkata''), (''LK'', ''Asia/Colombo''), (''BD'', ''Asia/Dhaka''),
    (''PK'', ''Asia/Karachi''), (''NP'', ''Asia/Kathmandu''), (''BT'', ''Asia/Thimphu''),
    (''MV'', ''Indian/Maldives''), (''AF'', ''Asia/Kabul''), (''AE'', ''Asia/Dubai''),
    (''SA'', ''Asia/Riyadh''), (''QA'', ''Asia/Qatar''), (''KW'', ''Asia/Kuwait''),
    (''BH'', ''Asia/Bahrain''), (''OM'', ''Asia/Muscat''), (''JO'', ''Asia/Amman''),
    (''LB'', ''Asia/Beirut''), (''IQ'', ''Asia/Baghdad''), (''IL'', ''Asia/Jerusalem''),
    (''IR'', ''Asia/Tehran''), (''TR'', ''Europe/Istanbul''), (''CN'', ''Asia/Shanghai''),
    (''HK'', ''Asia/Hong_Kong''), (''MO'', ''Asia/Macau''), (''TW'', ''Asia/Taipei''),
    (''JP'', ''Asia/Tokyo''), (''KR'', ''Asia/Seoul''), (''SG'', ''Asia/Singapore''),
    (''MY'', ''Asia/Kuala_Lumpur''), (''TH'', ''Asia/Bangkok''), (''VN'', ''Asia/Ho_Chi_Minh''),
    (''PH'', ''Asia/Manila''), (''KH'', ''Asia/Phnom_Penh''), (''LA'', ''Asia/Vientiane''),
    (''MM'', ''Asia/Yangon''), (''BN'', ''Asia/Brunei''), (''GB'', ''Europe/London''),
    (''IE'', ''Europe/Dublin''), (''FR'', ''Europe/Paris''), (''DE'', ''Europe/Berlin''),
    (''IT'', ''Europe/Rome''), (''NL'', ''Europe/Amsterdam''), (''BE'', ''Europe/Brussels''),
    (''LU'', ''Europe/Luxembourg''), (''CH'', ''Europe/Zurich''), (''AT'', ''Europe/Vienna''),
    (''SE'', ''Europe/Stockholm''), (''NO'', ''Europe/Oslo''), (''DK'', ''Europe/Copenhagen''),
    (''FI'', ''Europe/Helsinki''), (''IS'', ''Atlantic/Reykjavik''), (''PL'', ''Europe/Warsaw''),
    (''CZ'', ''Europe/Prague''), (''SK'', ''Europe/Bratislava''), (''HU'', ''Europe/Budapest''),
    (''SI'', ''Europe/Ljubljana''), (''HR'', ''Europe/Zagreb''), (''RS'', ''Europe/Belgrade''),
    (''BA'', ''Europe/Sarajevo''), (''MK'', ''Europe/Skopje''), (''AL'', ''Europe/Tirane''),
    (''GR'', ''Europe/Athens''), (''BG'', ''Europe/Sofia''), (''RO'', ''Europe/Bucharest''),
    (''MD'', ''Europe/Chisinau''), (''EE'', ''Europe/Tallinn''), (''LV'', ''Europe/Riga''),
    (''LT'', ''Europe/Vilnius''), (''BY'', ''Europe/Minsk''), (''MT'', ''Europe/Malta''),
    (''CY'', ''Asia/Nicosia''), (''GE'', ''Asia/Tbilisi''), (''AM'', ''Asia/Yerevan''),
    (''AZ'', ''Asia/Baku''), (''ZA'', ''Africa/Johannesburg''), (''NG'', ''Africa/Lagos''),
    (''GH'', ''Africa/Accra''), (''KE'', ''Africa/Nairobi''), (''TZ'', ''Africa/Dar_es_Salaam''),
    (''UG'', ''Africa/Kampala''), (''RW'', ''Africa/Kigali''), (''ET'', ''Africa/Addis_Ababa''),
    (''EG'', ''Africa/Cairo''), (''MA'', ''Africa/Casablanca''), (''TN'', ''Africa/Tunis''),
    (''DZ'', ''Africa/Algiers''), (''LY'', ''Africa/Tripoli''), (''SN'', ''Africa/Dakar''),
    (''CI'', ''Africa/Abidjan''), (''CM'', ''Africa/Douala''), (''ZW'', ''Africa/Harare''),
    (''ZM'', ''Africa/Lusaka''), (''MU'', ''Indian/Mauritius''), (''PE'', ''America/Lima''),
    (''CO'', ''America/Bogota''), (''VE'', ''America/Caracas''), (''BO'', ''America/La_Paz''),
    (''PY'', ''America/Asuncion''), (''UY'', ''America/Montevideo''),
    (''CR'', ''America/Costa_Rica''), (''PA'', ''America/Panama''),
    (''GT'', ''America/Guatemala''), (''JM'', ''America/Jamaica''),
    (''TT'', ''America/Port_of_Spain''), (''DO'', ''America/Santo_Domingo''),
    (''CU'', ''America/Havana''), (''FJ'', ''Pacific/Fiji''), (''PG'', ''Pacific/Port_Moresby'')]"

definition timezone_for_country :: "string \<Rightarrow> string \<Rightarrow> string" where
  "timezone_for_country default_name code =
     (if code = [] then default_name
      else case map_of country_timezones (py_upper_ascii (py_strip code)) of
             Some name \<Rightarrow> name | None \<Rightarrow> default_name)"

end
