(* ===== verification/Recruitment_Model.thy ===== *)
theory Recruitment_Model
  imports Trial_Calendar Social_Laws
begin

text \<open>
  Recruitments and applications as \<open>apps/recruitments/models.py\<close> stores them, the application window
  (\<open>applications_close_at\<close>), the retired statuses (\<open>legacy_status.py\<close>), who is still in play
  (\<open>removal.py\<close>), when feedback may be asked (\<open>feedback_window.py\<close>) and the applicant alert throttle
  (\<open>applicant_alert_service.py\<close>).

  The rows a recruitment owns (dates, age categories, positions, questions and the other child tables)
  are lists inside it. Counters are unsigned columns: naturals, whose subtraction is the
  \<open>Greatest(\<dots> - d, 0)\<close> the code writes. Coordinates, decimals and times of day are only copied and
  compared: integers. Columns no modelled operation reads are left out.
\<close>

section \<open>Rows\<close>

datatype recruitment_type = OpenTrial | PlayerLooking

datatype recruitment_status = Draft | Active | Closed | Cancelled

datatype visibility = Public | FollowersOnly | Private

datatype session_mode = AttendAll | ChooseOne

record trial_session =
  ts_id :: nat
  ts_title :: string
  ts_date :: day
  ts_start_time :: "int option"
  ts_end_time :: "int option"
  ts_venue_name :: string
  ts_venue_link :: string
  ts_location :: "nat option"
  ts_city :: string
  ts_latitude :: "int option"
  ts_longitude :: "int option"
  ts_is_cancelled :: bool
  ts_display_order :: nat

record age_category =
  cat_id :: nat
  cat_title :: string
  cat_min_birth_year :: "nat option"
  cat_max_birth_year :: "nat option"
  cat_gender :: "string option"
  cat_sessions :: "nat list"
  cat_reporting_time :: "int option"
  cat_display_order :: nat

record question_row =
  q_id :: nat
  q_question :: string
  q_field_type :: string
  q_is_required :: bool
  q_placeholder :: string
  q_help_text :: string
  q_display_order :: nat
  q_options :: "(string \<times> nat) list"

record media_row =
  md_file_url :: string
  md_public_id :: string
  md_media_type :: string
  md_thumbnail_url :: string
  md_duration :: "nat option"
  md_order :: nat

record contact_row =
  ct_name :: string
  ct_type :: string
  ct_value :: string

record benefit_row =
  bf_title :: string
  bf_icon_name :: string
  bf_display_order :: nat

record requirement_row =
  rq_title :: string
  rq_is_mandatory :: bool
  rq_display_order :: nat

record recruitment =
  rec_id :: nat
  rec_org :: oid
  rec_sport :: nat
  rec_type :: recruitment_type
  rec_status :: recruitment_status
  rec_visibility :: visibility
  rec_gender :: string
  rec_timezone :: string
  rec_deadline :: "instant option"
  rec_event_date :: "instant option"
  rec_trial_end :: "instant option"
  rec_session_mode :: session_mode
  rec_auto_confirm :: bool
  rec_max_applications :: "nat option"
  rec_is_paid :: bool
  rec_fee_amount :: "int option"
  rec_fee_currency :: string
  rec_payment_note :: string
  rec_venue_name :: string
  rec_venue_link :: string
  rec_location :: "nat option"
  rec_location_name :: string
  rec_city :: string
  rec_country_code :: string
  rec_latitude :: "int option"
  rec_longitude :: "int option"
  rec_applications_count :: nat
  rec_confirmed_count :: nat
  rec_selected_count :: nat
  rec_last_alert_at :: "instant option"
  rec_is_deleted :: bool
  rec_deleted_at :: "instant option"
  rec_deleted_note :: string
  rec_deleted_by :: "nat option"
  rec_published_at :: "instant option"
  rec_sessions :: "trial_session list"
  rec_categories :: "age_category list"
  rec_positions :: "(nat \<times> bool) list"
  rec_questions :: "question_row list"
  rec_media :: "media_row list"
  rec_contacts :: "contact_row list"
  rec_benefits :: "benefit_row list"
  rec_requirements :: "requirement_row list"
  rec_criteria :: "(string \<times> nat) list"

text \<open>The statuses of an application. \<open>Invited\<close> and \<open>Rejected\<close> are the retired values old rows and
  stale clients still carry.\<close>

datatype app_status =
    Applied | Reviewing | Shortlisted | Selected | Withdrawn
  | TrialConfirmed | NotShortlisted | NotSelected | Invited | Rejected

datatype self_outcome = SelfSelected | SelfNotSelected | SelfWaiting

record application =
  app_id :: nat
  app_recruitment :: nat
  app_applicant :: uid
  app_shared_name :: string
  app_shared_email :: string
  app_shared_phone :: string
  app_age_category :: "nat option"
  app_age_mismatch :: bool
  app_session :: "nat option"
  app_fee_paid :: bool
  app_fee_paid_at :: "instant option"
  app_fee_marked_by :: "nat option"
  app_status :: app_status
  app_reviewed_by :: "nat option"
  app_reviewed_at :: "instant option"
  app_reminder_sent_at :: "instant option"
  app_pass_code :: string
  app_attended :: "bool option"
  app_outcome :: "self_outcome option"
  app_rating :: "nat option"
  app_feedback :: string
  app_feedback_at :: "instant option"
  app_applied_at :: instant

text \<open>A row of the status history; \<open>from_status\<close> is blank for a fresh application.\<close>

record history_row =
  hist_application :: nat
  hist_from :: "app_status option"
  hist_to :: app_status
  hist_changed_by :: "nat option"
  hist_note :: string

record answer_row =
  ans_application :: nat
  ans_question :: nat
  ans_text :: string
  ans_option :: "nat option"

section \<open>Dates of a recruitment\<close>

definition rec_zone :: "tzdb \<Rightarrow> tz \<Rightarrow> recruitment \<Rightarrow> tz" where
  "rec_zone db dz r = zone db dz (rec_timezone r)"

definition date_only_time :: int where "date_only_time = 23 * hour + 59 * 60 * second"
definition last_second :: int where "last_second = date_only_time + 59 * second"

definition starts_at :: "tz \<Rightarrow> trial_session \<Rightarrow> instant" where
  "starts_at z x =
     combine z (ts_date x) (case ts_start_time x of Some t \<Rightarrow> t | None \<Rightarrow> date_only_time)"

definition ends_at :: "tz \<Rightarrow> trial_session \<Rightarrow> instant" where
  "ends_at z x = combine z (ts_date x) last_second"

text \<open>\<open>order_by("date", "start_time", "display_order")\<close>, nulls last: is \<open>x\<close> before or at \<open>y\<close>?\<close>

definition session_before :: "trial_session \<Rightarrow> trial_session \<Rightarrow> bool" where
  "session_before x y \<longleftrightarrow>
     (if ts_date x \<noteq> ts_date y then ts_date x < ts_date y
      else case (ts_start_time x, ts_start_time y) of
        (Some a, Some b) \<Rightarrow> if a \<noteq> b then a < b else ts_display_order x \<le> ts_display_order y
      | (Some _, None) \<Rightarrow> True
      | (None, Some _) \<Rightarrow> False
      | (None, None) \<Rightarrow> ts_display_order x \<le> ts_display_order y)"

fun insert_session :: "trial_session \<Rightarrow> trial_session list \<Rightarrow> trial_session list" where
  "insert_session x [] = [x]"
| "insert_session x (y # ys) =
     (if session_before x y then x # y # ys else y # insert_session x ys)"

definition live_sessions :: "recruitment \<Rightarrow> trial_session list" where
  "live_sessions r = foldr insert_session (filter (\<lambda>x. \<not> ts_is_cancelled x) (rec_sessions r)) []"

text \<open>\<open>applications_close_at\<close>: the earlier of the deadline and the trial's own boundary.\<close>

definition applications_close_at :: "recruitment \<Rightarrow> instant option" where
  "applications_close_at r =
     (if rec_type r \<noteq> OpenTrial then rec_deadline r
      else
        let boundary = (if rec_session_mode r = ChooseOne then rec_trial_end r else rec_event_date r)
        in case (rec_deadline r, boundary) of
             (Some d, Some b) \<Rightarrow> Some (min d b)
           | (Some d, None) \<Rightarrow> Some d
           | (None, b) \<Rightarrow> b)"

definition is_accepting_applications :: "instant \<Rightarrow> recruitment \<Rightarrow> bool" where
  "is_accepting_applications now r =
     (if rec_status r \<noteq> Active then False
      else if (case applications_close_at r of None \<Rightarrow> False | Some c \<Rightarrow> c < now) then False
      else if (case rec_max_applications r of None \<Rightarrow> False | Some m \<Rightarrow> m \<le> rec_applications_count r)
      then False
      else True)"

definition rec_trial_over :: "instant \<Rightarrow> recruitment \<Rightarrow> bool" where
  "rec_trial_over now r = is_trial_over now (rec_trial_end r)"

section \<open>Retired statuses\<close>

definition legacy_statuses :: "app_status list" where
  "legacy_statuses = [Invited, Rejected]"

definition is_before_trial :: "recruitment_type \<Rightarrow> instant option \<Rightarrow> day \<Rightarrow> tz \<Rightarrow> bool" where
  "is_before_trial rt trial_starts_at decided_on z =
     (if rt \<noteq> OpenTrial then False
      else case trial_starts_at of
        None \<Rightarrow> False
      | Some t \<Rightarrow> decided_on < local_date z t)"

definition map_legacy_status ::
  "app_status \<Rightarrow> recruitment_type \<Rightarrow> instant option \<Rightarrow> day \<Rightarrow> tz \<Rightarrow> app_status option" where
  "map_legacy_status st rt trial_starts_at decided_on z =
     (if st = Invited then Some TrialConfirmed
      else if st = Rejected
      then Some (if is_before_trial rt trial_starts_at decided_on z then NotShortlisted else NotSelected)
      else None)"

section \<open>Still in play, removal, feedback\<close>

definition in_play_statuses :: "app_status list" where
  "in_play_statuses = [Applied, Reviewing, Shortlisted, TrialConfirmed, Selected, Invited]"

definition refuse_if_removed :: "recruitment \<Rightarrow> unit result" where
  "refuse_if_removed r =
     (if rec_is_deleted r
      then Inl (ValidationError ''This recruitment was removed by the club.'') else Inr ())"

definition prompt_days :: int where "prompt_days = 30"

definition status_allows_feedback :: "app_status \<Rightarrow> bool" where
  "status_allows_feedback st \<longleftrightarrow> st \<in> {TrialConfirmed, Selected, NotSelected}"

definition has_answered :: "application \<Rightarrow> bool" where
  "has_answered a \<longleftrightarrow> app_feedback_at a \<noteq> None"

definition prompt_window_open :: "instant \<Rightarrow> recruitment \<Rightarrow> bool" where
  "prompt_window_open now r =
     (if \<not> rec_trial_over now r then False
      else case rec_trial_end r of
        None \<Rightarrow> False
      | Some e \<Rightarrow> now - e \<le> prompt_days * day_length)"

definition can_give_feedback :: "instant \<Rightarrow> application \<Rightarrow> recruitment \<Rightarrow> bool" where
  "can_give_feedback now a r \<longleftrightarrow>
     status_allows_feedback (app_status a) \<and> rec_trial_over now r \<and> \<not> has_answered a"

section \<open>The applicant alert throttle\<close>

text \<open>A tier is a bound on the number of applications (none: unbounded) and a gap in seconds.\<close>

type_synonym alert_tier = "nat option \<times> int"

fun required_gap_seconds :: "nat \<Rightarrow> alert_tier list \<Rightarrow> int option" where
  "required_gap_seconds total_count [] = None"
| "required_gap_seconds total_count ((max_total, min_seconds) # tiers) =
     (if (case max_total of None \<Rightarrow> True | Some m \<Rightarrow> total_count \<le> m) then Some min_seconds
      else required_gap_seconds total_count tiers)"

definition should_send_applicant_alert ::
  "nat \<Rightarrow> instant option \<Rightarrow> instant \<Rightarrow> alert_tier list \<Rightarrow> bool" where
  "should_send_applicant_alert total_count last_alert_at now tiers =
     (case required_gap_seconds total_count tiers of
        None \<Rightarrow> False
      | Some gap \<Rightarrow>
          (case last_alert_at of
             None \<Rightarrow> True
           | Some t \<Rightarrow> gap * second \<le> now - t))"

text \<open>\<open>settings.APPLICANT_ALERT_TIERS\<close>.\<close>

definition applicant_alert_tiers :: "alert_tier list" where
  "applicant_alert_tiers = [(Some 3, 0), (Some 7, 3600), (None, 14400)]"

section \<open>The recruitment part of the database\<close>

datatype rec_effect =
    NotifyOrgOfApplication uid nat
  | ReceivedEmail nat
  | NewApplicantAlert nat nat nat nat
  | StatusNote nat uid app_status
  | StatusEmail nat app_status
  | CareerPrompt nat uid
  | RemovedFanOut nat
  | DeleteKeys "string list"

record announcement =
  ann_id :: nat
  ann_recruitment :: nat
  ann_is_deleted :: bool

record rec_state =
  recruitments :: "recruitment list"
  applications :: "application list"
  histories :: "history_row list"
  answers :: "answer_row list"
  announcements :: "announcement list"
  birth_years :: "uid \<Rightarrow> nat option"
  rec_social :: social
  rec_fresh :: nat
  rec_effects :: "rec_effect list"

definition rec_emit :: "rec_effect list \<Rightarrow> rec_state \<Rightarrow> rec_state" where
  "rec_emit es s = s\<lparr>rec_effects := rec_effects s @ es\<rparr>"

definition today_at_venue :: "tzdb \<Rightarrow> tz \<Rightarrow> instant \<Rightarrow> recruitment \<Rightarrow> day" where
  "today_at_venue db dz now r = local_date (rec_zone db dz r) now"

end
