(* ===== verification/Pass_Code.thy ===== *)
theory Pass_Code
  imports Recruitment_Model
begin

text \<open>
  The booking reference on a trial pass: \<open>apps/recruitments/pass_code.py\<close>.

  \<open>secrets.choice\<close> is a parameter: \<open>rng k i\<close> is the number that picks the \<open>i\<close>-th character of the
  \<open>k\<close>-th draw, reduced into the alphabet. The five attempts are a bounded recursion.
\<close>

definition alphabet :: string where
  "alphabet = ''23456789ABCDEFGHJKMNPQRSTUVWXYZ''"

definition code_length :: nat where "code_length = 8"
definition group_size :: nat where "group_size = 4"
definition max_attempts :: nat where "max_attempts = 5"

definition choice :: "string \<Rightarrow> nat \<Rightarrow> char" where
  "choice xs n = xs ! (n mod length xs)"

definition grouped :: "string \<Rightarrow> string" where
  "grouped raw = take group_size raw @ ''-'' @ drop group_size raw"

definition generate_code :: "(nat \<Rightarrow> nat) \<Rightarrow> string" where
  "generate_code draw = grouped (map (\<lambda>i. choice alphabet (draw i)) [0..<code_length])"

definition normalize_code :: "string \<Rightarrow> string" where
  "normalize_code value =
     (let cleaned = filter (\<lambda>c. c \<in> set alphabet) (py_upper_ascii value)
      in if length cleaned \<noteq> code_length then '''' else grouped cleaned)"

type_synonym rng = "nat \<Rightarrow> nat \<Rightarrow> nat"

definition code_taken :: "rec_state \<Rightarrow> nat \<Rightarrow> string \<Rightarrow> bool" where
  "code_taken s rid code =
     list_ex (\<lambda>a. app_recruitment a = rid \<and> app_pass_code a = code) (applications s)"

text \<open>The draws from the \<open>k\<close>-th on, \<open>n\<close> attempts left.\<close>

fun draw_code :: "rng \<Rightarrow> rec_state \<Rightarrow> nat \<Rightarrow> nat \<Rightarrow> nat \<Rightarrow> string option" where
  "draw_code rng s rid k 0 = None"
| "draw_code rng s rid k (Suc n) =
     (let candidate = generate_code (rng k)
      in if code_taken s rid candidate then draw_code rng s rid (Suc k) n else Some candidate)"

text \<open>\<open>mint_for\<close> without the write: the application with its code.\<close>

definition mint_for :: "rng \<Rightarrow> rec_state \<Rightarrow> application \<Rightarrow> application result" where
  "mint_for rng s a =
     (if app_pass_code a \<noteq> '''' then Inr a
      else case draw_code rng s (app_recruitment a) 0 max_attempts of
        None \<Rightarrow> Inl (RuntimeError ''Could not mint a unique pass code for recruitment'')
      | Some code \<Rightarrow> Inr (a\<lparr>app_pass_code := code\<rparr>))"

section \<open>Lemmas\<close>

definition well_formed_code :: "string \<Rightarrow> bool" where
  "well_formed_code c \<longleftrightarrow> length c = 9 \<and> c ! 4 = CHR ''-''
     \<and> set (take 4 c) \<subseteq> set alphabet \<and> set (drop 5 c) \<subseteq> set alphabet"

lemma choice_in: "xs \<noteq> [] \<Longrightarrow> choice xs n \<in> set xs"
  by (simp add: choice_def)

lemma alphabet_nonempty: "alphabet \<noteq> []"
  by (simp add: alphabet_def)

lemma grouped_filter:
  "length xs = code_length \<Longrightarrow> set xs \<subseteq> set alphabet \<Longrightarrow>
   filter (\<lambda>c. c \<in> set alphabet) (grouped xs) = xs"
proof -
  assume sub: "set xs \<subseteq> set alphabet"
  have "filter (\<lambda>c. c \<in> set alphabet) ys = ys" if "set ys \<subseteq> set xs" for ys
    using that sub by (auto simp: filter_id_conv)
  moreover have "CHR ''-'' \<notin> set alphabet" by (simp add: alphabet_def)
  ultimately show ?thesis
    by (simp add: grouped_def set_take_subset set_drop_subset)
qed

lemma upper_alphabet: "c \<in> set alphabet \<Longrightarrow> py_upper_ascii [c] = [c]"
  by (auto simp: alphabet_def py_upper_ascii_def)

lemma py_upper_ascii_id:
  assumes "\<And>c. c \<in> set xs \<Longrightarrow> py_upper_ascii [c] = [c]"
  shows "py_upper_ascii xs = xs"
  using assms by (simp add: py_upper_ascii_def map_idI)

lemma grouped_well_formed:
  assumes "length xs = code_length" "set xs \<subseteq> set alphabet"
  shows "well_formed_code (grouped xs)"
  using assms set_take_subset [of 4 xs] set_drop_subset [of 4 xs]
  by (auto simp: well_formed_code_def grouped_def group_size_def code_length_def nth_append)

lemma drawn_chars:
  "length (map (\<lambda>i. choice alphabet (draw i)) [0..<code_length]) = code_length"
  "set (map (\<lambda>i. choice alphabet (draw i)) [0..<code_length]) \<subseteq> set alphabet"
  using choice_in [OF alphabet_nonempty] by auto

lemma generate_code_well_formed: "well_formed_code (generate_code draw)"
  unfolding generate_code_def by (rule grouped_well_formed [OF drawn_chars])

lemma well_formed_nonempty: "well_formed_code c \<Longrightarrow> c \<noteq> ''''"
  by (auto simp: well_formed_code_def)

lemma normalize_grouped:
  assumes "length xs = code_length" "set xs \<subseteq> set alphabet"
  shows "normalize_code (grouped xs) = grouped xs"
proof -
  have "py_upper_ascii (grouped xs) = grouped xs"
  proof (rule py_upper_ascii_id)
    fix c assume "c \<in> set (grouped xs)"
    then have "c \<in> set alphabet \<or> c = CHR ''-''"
      using assms(2) by (auto simp: grouped_def dest: in_set_takeD in_set_dropD)
    then show "py_upper_ascii [c] = [c]" using upper_alphabet by (auto simp: py_upper_ascii_def)
  qed
  then show ?thesis using grouped_filter [OF assms] assms(1) by (simp add: normalize_code_def)
qed

lemma draw_code_Some:
  "draw_code rng s rid k n = Some c \<Longrightarrow> \<not> code_taken s rid c \<and> well_formed_code c"
  by (induction n arbitrary: k) (auto simp: Let_def generate_code_well_formed split: if_splits)

lemma mint_for_Inr:
  assumes "mint_for rng s a = Inr b"
  shows "app_pass_code b \<noteq> ''''"
    and "app_pass_code a \<noteq> '''' \<Longrightarrow> b = a"
    and "app_pass_code a = '''' \<Longrightarrow> \<not> code_taken s (app_recruitment a) (app_pass_code b)
      \<and> well_formed_code (app_pass_code b) \<and> b = a\<lparr>app_pass_code := app_pass_code b\<rparr>"
  using assms
  by (auto simp: mint_for_def dest!: draw_code_Some dest: well_formed_nonempty
      split: if_splits option.splits)

lemma mint_for_keeps:
  assumes "mint_for rng s a = Inr b"
  shows "\<exists>c. b = a\<lparr>app_pass_code := c\<rparr>"
  using assms by (auto simp: mint_for_def split: if_splits option.splits intro: exI [of _ "app_pass_code a"])

end
