(* ===== verification/Applications.thy ===== *)
theory Applications
  imports Pass_Code
begin

text \<open>
  Applying to a recruitment and moving an application through its statuses:
  \<open>apps/recruitments/services/application_service.py\<close>, and the age checks of
  \<open>eligibility_service.py\<close> it uses.

  \<open>apply\<close> locks the recruitment row, so one apply to it runs at a time. \<open>change_status\<close> and
  \<open>set_fee_paid\<close> get the recruitment the request loaded, which may be older than the state.
  The interpreter's tzdata, the settings' default zone, the random source and the clock are
  parameters. Sends run after commit and cannot fail the request: they are \<open>rec_effects\<close>.
\<close>

section \<open>Input of an application\<close>

record answer_data =
  ad_question :: nat
  ad_options :: "nat list"
  ad_text :: string

record apply_data =
  v_name :: string
  v_email :: string
  v_phone :: string
  v_age_category :: "nat option"
  v_session :: "nat option"
  v_answers :: "answer_data list"

section \<open>Age\<close>

definition birth_year_in_category :: "age_category \<Rightarrow> nat \<Rightarrow> bool" where
  "birth_year_in_category c y =
     (if (case cat_min_birth_year c of None \<Rightarrow> False | Some m \<Rightarrow> y < m) then False
      else if (case cat_max_birth_year c of None \<Rightarrow> False | Some m \<Rightarrow> m < y) then False
      else True)"

definition is_age_mismatch :: "age_category option \<Rightarrow> nat option \<Rightarrow> bool" where
  "is_age_mismatch co yo =
     (case (co, yo) of (Some c, Some y) \<Rightarrow> \<not> birth_year_in_category c y | _ \<Rightarrow> False)"

definition age_mismatch :: "rec_state \<Rightarrow> recruitment \<Rightarrow> uid \<Rightarrow> nat option \<Rightarrow> bool" where
  "age_mismatch s r u category_id =
     (case category_id of
        None \<Rightarrow> False
      | Some ci \<Rightarrow> is_age_mismatch (find (\<lambda>c. cat_id c = ci) (rec_categories r)) (birth_years s u))"

section \<open>Apply\<close>

text \<open>The guards of \<open>apply\<close> on the locked recruitment row, in order.\<close>

definition closed_message :: "instant \<Rightarrow> recruitment \<Rightarrow> instant \<Rightarrow> error" where
  "closed_message now r closes_at =
     (if rec_trial_over now r then ValidationError ''This trial has ended.''
      else if (case rec_deadline r of None \<Rightarrow> False | Some d \<Rightarrow> d \<le> closes_at)
      then ValidationError ''The application deadline has passed.''
      else ValidationError ''Applications for this trial have closed.'')"

definition window_gate :: "instant \<Rightarrow> recruitment \<Rightarrow> unit result" where
  "window_gate now r =
     (if rec_status r \<noteq> Active
      then Inl (ValidationError ''This recruitment is not accepting applications.'')
      else if (case applications_close_at r of None \<Rightarrow> False | Some c \<Rightarrow> c < now)
      then Inl (closed_message now r (the (applications_close_at r)))
      else if (case rec_max_applications r of None \<Rightarrow> False | Some m \<Rightarrow> m \<le> rec_applications_count r)
      then Inl (ValidationError ''This recruitment has reached its application limit.'')
      else Inr ())"

definition visibility_gate :: "actor \<Rightarrow> recruitment \<Rightarrow> rec_state \<Rightarrow> rec_state result" where
  "visibility_gate actor r s =
     (case rec_visibility r of
        FollowersOnly \<Rightarrow>
          (let (rel, soc) = get_relationship (rec_social s) (Some actor) (OrgId (rec_org r))
           in if \<not> rel_following rel
              then Inl (ValidationError ''You must follow this organization to apply.'')
              else Inr (s\<lparr>rec_social := soc\<rparr>))
      | Private \<Rightarrow> Inl (ValidationError ''This recruitment is not open for applications.'')
      | Public \<Rightarrow> Inr s)"

definition lock_recruitment :: "rec_state \<Rightarrow> nat \<Rightarrow> recruitment result" where
  "lock_recruitment s rid =
     (case find (\<lambda>r. rec_id r = rid \<and> \<not> rec_is_deleted r) (recruitments s) of
        None \<Rightarrow> Inl (ValidationError ''Recruitment not found.'')
      | Some r \<Rightarrow> Inr r)"

definition find_application :: "rec_state \<Rightarrow> nat \<Rightarrow> uid \<Rightarrow> application option" where
  "find_application s rid u =
     find (\<lambda>a. app_recruitment a = rid \<and> app_applicant a = u) (applications s)"

definition apply_gate :: "instant \<Rightarrow> actor \<Rightarrow> uid \<Rightarrow> recruitment \<Rightarrow> rec_state \<Rightarrow> rec_state result" where
  "apply_gate now actor u r s =
     res_bind (require_not_blocked (rec_social s) (Some actor) (Some (OrgId (rec_org r)))) (\<lambda>_.
     res_bind (window_gate now r) (\<lambda>_.
     res_bind (visibility_gate actor r s) (\<lambda>s.
       case find_application s (rec_id r) u of
         Some a \<Rightarrow>
           if app_status a \<noteq> Withdrawn
           then Inl (ValidationError ''You have already applied to this recruitment.'') else Inr s
       | None \<Rightarrow> Inr s)))"

definition resolve_session ::
  "tzdb \<Rightarrow> tz \<Rightarrow> instant \<Rightarrow> recruitment \<Rightarrow> nat option \<Rightarrow> nat option result" where
  "resolve_session db dz now r session_id =
     (if rec_type r \<noteq> OpenTrial \<or> rec_session_mode r \<noteq> ChooseOne then Inr None
      else case session_id of
        None \<Rightarrow> Inl (ValidationError ''Pick which date you'll attend.'')
      | Some si \<Rightarrow>
          (case find (\<lambda>x. ts_id x = si) (rec_sessions r) of
             None \<Rightarrow> Inl (ValidationError ''Invalid date for this recruitment.'')
           | Some x \<Rightarrow>
               if ts_is_cancelled x
               then Inl (ValidationError ''That date has been cancelled. Pick another.'')
               else if ts_date x < today_at_venue db dz now r
               then Inl (ValidationError ''That date has passed. Pick another.'')
               else Inr (Some (ts_id x))))"

text \<open>The dates linked to a category, wherever the category row is.\<close>

definition linked_session_ids :: "rec_state \<Rightarrow> nat \<Rightarrow> nat list" where
  "linked_session_ids s ci =
     concat (map cat_sessions
       (filter (\<lambda>c. cat_id c = ci) (concat (map rec_categories (recruitments s)))))"

definition check_category_runs_at :: "rec_state \<Rightarrow> nat option \<Rightarrow> nat option \<Rightarrow> unit result" where
  "check_category_runs_at s category_id session_id =
     (case (category_id, session_id) of
        (Some ci, Some si) \<Rightarrow>
          if linked_session_ids s ci \<noteq> [] \<and> si \<notin> set (linked_session_ids s ci)
          then Inl (ValidationError ''That category doesn't run at the centre you picked.'')
          else Inr ()
      | _ \<Rightarrow> Inr ())"

definition auto_confirms :: "recruitment \<Rightarrow> bool" where
  "auto_confirms r \<longleftrightarrow> rec_type r = OpenTrial \<and> rec_auto_confirm r"

definition landing_status :: "recruitment \<Rightarrow> app_status" where
  "landing_status r = (if auto_confirms r then TrialConfirmed else Applied)"

text \<open>Reviving a withdrawn row (lines 228 to 257).\<close>

definition revived :: "instant \<Rightarrow> recruitment \<Rightarrow> apply_data \<Rightarrow> bool \<Rightarrow> nat option \<Rightarrow> application \<Rightarrow> application" where
  "revived now r v mismatch session a =
     a\<lparr>app_shared_name := v_name v, app_shared_email := v_email v, app_shared_phone := v_phone v,
       app_age_category := v_age_category v, app_session := session, app_age_mismatch := mismatch,
       app_status := landing_status r, app_reviewed_by := None, app_reviewed_at := None,
       app_applied_at := now\<rparr>"

definition fresh_application ::
  "instant \<Rightarrow> recruitment \<Rightarrow> uid \<Rightarrow> apply_data \<Rightarrow> bool \<Rightarrow> nat option \<Rightarrow> nat \<Rightarrow> application" where
  "fresh_application now r u v mismatch session new_id =
     \<lparr>app_id = new_id, app_recruitment = rec_id r, app_applicant = u,
      app_shared_name = v_name v, app_shared_email = v_email v, app_shared_phone = v_phone v,
      app_age_category = v_age_category v, app_age_mismatch = mismatch, app_session = session,
      app_fee_paid = False, app_fee_paid_at = None, app_fee_marked_by = None,
      app_status = landing_status r, app_reviewed_by = None, app_reviewed_at = None,
      app_reminder_sent_at = None, app_pass_code = '''', app_attended = None, app_outcome = None,
      app_rating = None, app_feedback = '''', app_feedback_at = None, app_applied_at = now\<rparr>"

text \<open>
  The row the apply writes. A fresh row is in the table before its code is drawn; it has no code,
  so it takes none.
\<close>

definition with_code :: "rng \<Rightarrow> rec_state \<Rightarrow> application \<Rightarrow> application result" where
  "with_code rng s a = (if app_status a = TrialConfirmed then mint_for rng s a else Inr a)"

definition write_application ::
  "rng \<Rightarrow> instant \<Rightarrow> recruitment \<Rightarrow> uid \<Rightarrow> apply_data \<Rightarrow> bool \<Rightarrow> nat option \<Rightarrow> rec_state
   \<Rightarrow> (application \<times> app_status option \<times> string \<times> rec_state) result" where
  "write_application rng now r u v mismatch session s =
     (case find_application s (rec_id r) u of
        Some old \<Rightarrow>
          res_bind (with_code rng s (revived now r v mismatch session old)) (\<lambda>a.
            Inr (a, Some Withdrawn, ''Reapplied'',
                 s\<lparr>applications := tbl_save app_id a (applications s),
                   answers := filter (\<lambda>x. ans_application x \<noteq> app_id a) (answers s)\<rparr>))
      | None \<Rightarrow>
          res_bind (with_code rng s (fresh_application now r u v mismatch session (rec_fresh s))) (\<lambda>a.
            Inr (a, None, '''',
                 s\<lparr>applications := tbl_insert a (applications s), rec_fresh := Suc (rec_fresh s)\<rparr>)))"

fun answer_rows :: "nat \<Rightarrow> answer_data list \<Rightarrow> answer_row list" where
  "answer_rows aid [] = []"
| "answer_rows aid (d # ds) =
     (if ad_options d \<noteq> []
      then map (\<lambda>o1. \<lparr>ans_application = aid, ans_question = ad_question d, ans_text = '''',
                       ans_option = Some o1\<rparr>) (ad_options d)
      else [\<lparr>ans_application = aid, ans_question = ad_question d, ans_text = ad_text d,
             ans_option = None\<rparr>])
     @ answer_rows aid ds"

definition save_recruitment :: "recruitment \<Rightarrow> rec_state \<Rightarrow> rec_state" where
  "save_recruitment r s = s\<lparr>recruitments := tbl_save rec_id r (recruitments s)\<rparr>"

text \<open>\<open>_claim_applicant_alert\<close>: the counts to quote, or nothing.\<close>

definition live_applications :: "rec_state \<Rightarrow> nat \<Rightarrow> application list" where
  "live_applications s rid =
     filter (\<lambda>a. app_recruitment a = rid \<and> app_status a \<noteq> Withdrawn) (applications s)"

definition claim_applicant_alert ::
  "alert_tier list \<Rightarrow> instant \<Rightarrow> recruitment \<Rightarrow> rec_state
   \<Rightarrow> (nat \<times> nat) option \<times> recruitment \<times> rec_state" where
  "claim_applicant_alert tiers now r s =
     (let live = live_applications s (rec_id r);
          total_count = length live;
          new_count = (case rec_last_alert_at r of
             None \<Rightarrow> total_count
           | Some t \<Rightarrow> length (filter (\<lambda>a. t < app_applied_at a) live))
      in if \<not> should_send_applicant_alert total_count (rec_last_alert_at r) now tiers
         then (None, r, s)
         else let r1 = r\<lparr>rec_last_alert_at := Some now\<rparr>
              in (Some (new_count, total_count), r1, save_recruitment r1 s))"

definition counted :: "recruitment \<Rightarrow> recruitment" where
  "counted r =
     r\<lparr>rec_applications_count := rec_applications_count r + 1,
       rec_confirmed_count := rec_confirmed_count r + (if auto_confirms r then 1 else 0)\<rparr>"

text \<open>What follows the write of the row: answers, counters, history, alert and the sends.\<close>

definition finish_apply ::
  "alert_tier list \<Rightarrow> instant \<Rightarrow> recruitment \<Rightarrow> uid \<Rightarrow> apply_data
   \<Rightarrow> application \<times> app_status option \<times> string \<times> rec_state \<Rightarrow> application \<times> rec_state" where
  "finish_apply tiers now r u v w =
     (case w of (a, from, note_text, s) \<Rightarrow>
        let s1 = s\<lparr>answers := answers s @ answer_rows (app_id a) (v_answers v)\<rparr>;
            r1 = counted r;
            s2 = save_recruitment r1 s1;
            s3 = s2\<lparr>histories := histories s2 @
                   [\<lparr>hist_application = app_id a, hist_from = from, hist_to = landing_status r,
                     hist_changed_by = None,
                     hist_note = (if auto_confirms r then ''auto-confirmed'' else note_text)\<rparr>]\<rparr>;
            (alert, _, s4) = claim_applicant_alert tiers now r1 s3
        in (a, rec_emit
             ([NotifyOrgOfApplication u (rec_id r), ReceivedEmail (app_id a)]
              @ (case alert of None \<Rightarrow> [] | Some (new_count, total_count) \<Rightarrow>
                   [NewApplicantAlert (rec_id r) (app_id a) new_count total_count])
              @ (if auto_confirms r
                 then [StatusNote (app_id a) u TrialConfirmed, StatusEmail (app_id a) TrialConfirmed]
                 else [])) s4))"

definition apply_to ::
  "tzdb \<Rightarrow> tz \<Rightarrow> rng \<Rightarrow> alert_tier list \<Rightarrow> instant \<Rightarrow> actor \<Rightarrow> uid \<Rightarrow> nat \<Rightarrow> apply_data \<Rightarrow> rec_state
   \<Rightarrow> (application \<times> rec_state) result" where
  "apply_to db dz rng tiers now actor u rid v s =
     res_bind (lock_recruitment s rid) (\<lambda>r.
     res_bind (apply_gate now actor u r s) (\<lambda>s.
     res_bind (resolve_session db dz now r (v_session v)) (\<lambda>session.
     res_bind (check_category_runs_at s (v_age_category v) session) (\<lambda>_.
     res_bind (write_application rng now r u v (age_mismatch s r u (v_age_category v)) session s) (\<lambda>w.
       Inr (finish_apply tiers now r u v w))))))"

section \<open>Counters\<close>

text \<open>\<open>_counter_updates\<close>: the new value of a counter that moves by \<open>d\<close>, floored at zero.\<close>

definition counter_update :: "nat \<Rightarrow> int \<Rightarrow> nat" where
  "counter_update c d = (if 0 < d then c + nat d else if d < 0 then c - nat (- d) else c)"

text \<open>An update of the counters of the row \<open>rid\<close>, \<open>UPDATE \<dots> WHERE id = rid\<close>.\<close>

definition move_counters :: "nat \<Rightarrow> int \<Rightarrow> int \<Rightarrow> int \<Rightarrow> rec_state \<Rightarrow> rec_state" where
  "move_counters rid d_app d_conf d_sel s =
     s\<lparr>recruitments := map (\<lambda>r. if rec_id r = rid
         then r\<lparr>rec_applications_count := counter_update (rec_applications_count r) d_app,
                rec_confirmed_count := counter_update (rec_confirmed_count r) d_conf,
                rec_selected_count := counter_update (rec_selected_count r) d_sel\<rparr>
         else r) (recruitments s)\<rparr>"

section \<open>Withdraw\<close>

definition withdraw :: "uid \<Rightarrow> nat \<Rightarrow> rec_state \<Rightarrow> (application \<times> rec_state) result" where
  "withdraw u aid s =
     (case find (\<lambda>a. app_id a = aid \<and> app_applicant a = u) (applications s) of
        None \<Rightarrow> Inl (ValidationError ''Application not found.'')
      | Some a \<Rightarrow>
          (case tbl_get rec_id (recruitments s) (app_recruitment a) of
             None \<Rightarrow> Inl DoesNotExist
           | Some r \<Rightarrow>
               res_bind (refuse_if_removed r) (\<lambda>_.
                 if app_status a = Withdrawn
                 then Inl (ValidationError ''Application already withdrawn.'')
                 else
                   let old_status = app_status a;
                       a1 = a\<lparr>app_status := Withdrawn\<rparr>;
                       s1 = s\<lparr>applications := tbl_save app_id a1 (applications s),
                              histories := histories s @
                                [\<lparr>hist_application = aid, hist_from = Some old_status,
                                  hist_to = Withdrawn, hist_changed_by = None,
                                  hist_note = ''Withdrawn by applicant''\<rparr>]\<rparr>
                   in Inr (a1, move_counters (app_recruitment a) (- 1)
                        (if old_status = TrialConfirmed then - 1 else 0)
                        (if old_status = Selected then - 1 else 0) s1))))"

section \<open>The organization moves applications\<close>

definition status_change_targets :: "app_status list" where
  "status_change_targets =
     [Reviewing, Shortlisted, TrialConfirmed, NotShortlisted, Selected, NotSelected]"

definition silent_statuses :: "app_status list" where
  "silent_statuses = [Reviewing, Shortlisted]"

definition result_statuses :: "app_status list" where
  "result_statuses = [Selected, NotSelected]"

definition max_bulk_status :: nat where "max_bulk_status = 100"

definition trial_starts_at :: "tzdb \<Rightarrow> tz \<Rightarrow> recruitment \<Rightarrow> instant option" where
  "trial_starts_at db dz r =
     (case live_sessions r of
        [] \<Rightarrow> rec_event_date r
      | x # _ \<Rightarrow> Some (starts_at (rec_zone db dz r) x))"

definition trial_ends_at :: "recruitment \<Rightarrow> instant option" where
  "trial_ends_at r = (case rec_trial_end r of Some e \<Rightarrow> Some e | None \<Rightarrow> rec_event_date r)"

definition check_trial_window :: "tzdb \<Rightarrow> tz \<Rightarrow> instant \<Rightarrow> recruitment \<Rightarrow> app_status \<Rightarrow> unit result" where
  "check_trial_window db dz now r to_status =
     (if rec_type r \<noteq> OpenTrial then Inr ()
      else if to_status \<in> set result_statuses
              \<and> (case trial_starts_at db dz r of
                   None \<Rightarrow> False
                 | Some t \<Rightarrow> today_at_venue db dz now r < local_date (rec_zone db dz r) t)
      then Inl (ValidationError ''Results open on the trial day.'')
      else if to_status = TrialConfirmed \<and> is_trial_over now (trial_ends_at r)
      then Inl (ValidationError
             ''This trial has ended - you can no longer confirm players for it.'')
      else Inr ())"

definition map_legacy_target :: "tzdb \<Rightarrow> tz \<Rightarrow> instant \<Rightarrow> recruitment \<Rightarrow> app_status \<Rightarrow> app_status" where
  "map_legacy_target db dz now r to_status =
     (if to_status \<notin> set legacy_statuses then to_status
      else case map_legacy_status to_status (rec_type r) (trial_starts_at db dz r)
                  (today_at_venue db dz now r) (rec_zone db dz r) of
             Some mapped \<Rightarrow> mapped
           | None \<Rightarrow> to_status)"

datatype skip_reason = NotFound | IsWithdrawn | NoChange

text \<open>
  The loop of \<open>change_status\<close>. \<open>b_apps\<close> is the applications table with the in-memory changes of the
  locked rows, as \<open>bulk_update\<close> will write it; the draws of \<open>mint_for\<close> look at the table in the
  database, which the loop has not written yet.
\<close>

record batch =
  b_apps :: "application list"
  b_updated :: "nat list"
  b_skipped :: "(nat \<times> skip_reason) list"
  b_history :: "history_row list"
  b_notify :: "application list"
  b_confirmed :: int
  b_selected :: int

definition skip :: "nat \<Rightarrow> skip_reason \<Rightarrow> batch \<Rightarrow> batch" where
  "skip aid why b = b\<lparr>b_skipped := b_skipped b @ [(aid, why)]\<rparr>"

text \<open>Leaving a counted status gives one back, entering one takes one.\<close>

definition status_delta :: "app_status \<Rightarrow> app_status \<Rightarrow> app_status \<Rightarrow> int" where
  "status_delta counted_status old_status to_status =
     (if old_status = counted_status then - 1 else 0) + (if to_status = counted_status then 1 else 0)"

definition moved_application ::
  "(nat \<Rightarrow> rng) \<Rightarrow> rec_state \<Rightarrow> instant \<Rightarrow> member \<Rightarrow> app_status \<Rightarrow> application \<Rightarrow> application result" where
  "moved_application rngs s now m to_status a =
     with_code (rngs (app_id a)) s
       (a\<lparr>app_status := to_status, app_reviewed_by := Some (member_id m), app_reviewed_at := Some now\<rparr>)"

definition change_one ::
  "(nat \<Rightarrow> rng) \<Rightarrow> rec_state \<Rightarrow> instant \<Rightarrow> member \<Rightarrow> nat \<Rightarrow> app_status \<Rightarrow> string \<Rightarrow> nat \<Rightarrow> batch
   \<Rightarrow> batch result" where
  "change_one rngs s now m rid to_status note_text aid b =
     (case find (\<lambda>a. app_id a = aid \<and> app_recruitment a = rid) (b_apps b) of
        None \<Rightarrow> Inr (skip aid NotFound b)
      | Some a \<Rightarrow>
          if app_status a = Withdrawn then Inr (skip aid IsWithdrawn b)
          else if app_status a = to_status then Inr (skip aid NoChange b)
          else res_bind (moved_application rngs s now m to_status a) (\<lambda>a1.
            Inr (b\<lparr>b_apps := tbl_save app_id a1 (b_apps b),
                   b_updated := b_updated b @ [aid],
                   b_history := b_history b @
                     [\<lparr>hist_application = aid, hist_from = Some (app_status a), hist_to = to_status,
                       hist_changed_by = Some (member_id m), hist_note = note_text\<rparr>],
                   b_notify := (if to_status \<in> set silent_statuses then b_notify b
                                else b_notify b @ [a1]),
                   b_confirmed := b_confirmed b + status_delta TrialConfirmed (app_status a) to_status,
                   b_selected := b_selected b + status_delta Selected (app_status a) to_status\<rparr>)))"

fun change_each ::
  "(nat \<Rightarrow> rng) \<Rightarrow> rec_state \<Rightarrow> instant \<Rightarrow> member \<Rightarrow> nat \<Rightarrow> app_status \<Rightarrow> string \<Rightarrow> nat list \<Rightarrow> batch
   \<Rightarrow> batch result" where
  "change_each rngs s now m rid to_status note_text [] b = Inr b"
| "change_each rngs s now m rid to_status note_text (aid # rest) b =
     res_bind (change_one rngs s now m rid to_status note_text aid b)
       (change_each rngs s now m rid to_status note_text rest)"

text \<open>The constraint \<open>unique_pass_code\<close> on the table the bulk update leaves.\<close>

definition pass_codes_unique :: "application list \<Rightarrow> bool" where
  "pass_codes_unique as \<longleftrightarrow>
     distinct (map (\<lambda>a. (app_recruitment a, app_pass_code a)) (filter (\<lambda>a. app_pass_code a \<noteq> '''') as))"

definition applicant_sends :: "app_status \<Rightarrow> application \<Rightarrow> rec_effect list" where
  "applicant_sends to_status a =
     [StatusNote (app_id a) (app_applicant a) to_status, StatusEmail (app_id a) to_status]
     @ (if to_status = Selected then [CareerPrompt (app_id a) (app_applicant a)] else [])"

definition change_status ::
  "tzdb \<Rightarrow> tz \<Rightarrow> (nat \<Rightarrow> rng) \<Rightarrow> instant \<Rightarrow> member \<Rightarrow> recruitment \<Rightarrow> nat list \<Rightarrow> app_status \<Rightarrow> string
   \<Rightarrow> rec_state \<Rightarrow> ((nat list \<times> (nat \<times> skip_reason) list) \<times> rec_state) result" where
  "change_status db dz rngs now m r application_ids requested note_text s =
     (let to_status = map_legacy_target db dz now r requested in
      if to_status \<notin> set status_change_targets
      then Inl (ValidationError ''Invalid target status.'')
      else if max_bulk_status < length application_ids
      then Inl (ValidationError ''Cannot update more than 100 applications at once.'')
      else res_bind (check_trial_window db dz now r to_status) (\<lambda>_.
        res_bind (change_each rngs s now m (rec_id r) to_status note_text application_ids
          \<lparr>b_apps = applications s, b_updated = [], b_skipped = [], b_history = [], b_notify = [],
           b_confirmed = 0, b_selected = 0\<rparr>) (\<lambda>b.
          if \<not> pass_codes_unique (b_apps b) then Inl IntegrityError
          else Inr ((b_updated b, b_skipped b),
                 rec_emit (concat (map (applicant_sends to_status) (b_notify b)))
                   (move_counters (rec_id r) 0 (b_confirmed b) (b_selected b)
                     (s\<lparr>applications := b_apps b, histories := histories s @ b_history b\<rparr>))))))"

section \<open>The trial fee\<close>

definition fee_one :: "instant \<Rightarrow> member \<Rightarrow> nat \<Rightarrow> bool \<Rightarrow> nat \<Rightarrow> batch \<Rightarrow> batch" where
  "fee_one now m rid paid aid b =
     (case find (\<lambda>a. app_id a = aid \<and> app_recruitment a = rid) (b_apps b) of
        None \<Rightarrow> skip aid NotFound b
      | Some a \<Rightarrow>
          if app_status a = Withdrawn then skip aid IsWithdrawn b
          else if app_fee_paid a = paid then skip aid NoChange b
          else b\<lparr>b_apps := tbl_save app_id
                   (a\<lparr>app_fee_paid := paid,
                      app_fee_paid_at := (if paid then Some now else None),
                      app_fee_marked_by := (if paid then Some (member_id m) else None)\<rparr>) (b_apps b),
                 b_updated := b_updated b @ [aid]\<rparr>)"

definition set_fee_paid ::
  "instant \<Rightarrow> member \<Rightarrow> recruitment \<Rightarrow> nat list \<Rightarrow> bool \<Rightarrow> rec_state
   \<Rightarrow> ((nat list \<times> (nat \<times> skip_reason) list) \<times> rec_state) result" where
  "set_fee_paid now m r application_ids paid s =
     (if max_bulk_status < length application_ids
      then Inl (ValidationError ''Cannot update more than 100 applications at once.'')
      else
        let b = fold (fee_one now m (rec_id r) paid) application_ids
              \<lparr>b_apps = applications s, b_updated = [], b_skipped = [], b_history = [], b_notify = [],
               b_confirmed = 0, b_selected = 0\<rparr>
        in Inr ((b_updated b, b_skipped b), s\<lparr>applications := b_apps b\<rparr>))"

end
