(* ===== verification/Recruitment_Edit.thy ===== *)
theory Recruitment_Edit
  imports Applications
begin

text \<open>
  The organization's side of a recruitment: \<open>apps/recruitments/services/recruitment_service.py\<close>.
  Creating, editing, publishing and closing, deleting, and the child tables an edit rewrites.

  A request loads the recruitment, checks the owner, and passes the loaded object to the service. The
  object's columns may be older than the row: operations take it as \<open>loaded\<close> and the state beside it,
  and \<open>recruitment.save()\<close> writes every column of the object. Child rows are read when the service
  runs. \<open>goc\<close> is \<open>LocationService.get_or_create_location\<close>, \<open>check_file\<close> and \<open>check_thumbnail\<close> the
  storage validators (the message of the \<open>ValueError\<close>, if any), \<open>sports\<close> the known sports.
\<close>

section \<open>The state machine\<close>

fun allowed_transitions :: "recruitment_status \<Rightarrow> recruitment_status list" where
  "allowed_transitions Draft = [Active, Cancelled]"
| "allowed_transitions Active = [Closed, Cancelled]"
| "allowed_transitions Closed = [Active]"
| "allowed_transitions Cancelled = []"

text \<open>The columns \<open>update_fields\<close> names, written into the current row.\<close>

definition update_row :: "nat \<Rightarrow> (recruitment \<Rightarrow> recruitment) \<Rightarrow> rec_state \<Rightarrow> rec_state" where
  "update_row rid f s =
     s\<lparr>recruitments := map (\<lambda>r. if rec_id r = rid then f r else r) (recruitments s)\<rparr>"

definition change_recruitment_status ::
  "instant \<Rightarrow> recruitment \<Rightarrow> recruitment_status \<Rightarrow> rec_state \<Rightarrow> (recruitment \<times> rec_state) result" where
  "change_recruitment_status now loaded new_status s =
     (if new_status = rec_status loaded
      then Inl (ValidationError ''Recruitment is already in this status.'')
      else if new_status \<notin> set (allowed_transitions (rec_status loaded))
      then Inl (ValidationError ''Cannot change status.'')
      else if new_status = Active \<and> rec_published_at loaded = None
      then Inr (loaded\<lparr>rec_status := new_status, rec_published_at := Some now\<rparr>,
                update_row (rec_id loaded)
                  (\<lambda>r. r\<lparr>rec_status := new_status, rec_published_at := Some now\<rparr>) s)
      else Inr (loaded\<lparr>rec_status := new_status\<rparr>,
                update_row (rec_id loaded) (\<lambda>r. r\<lparr>rec_status := new_status\<rparr>) s))"

section \<open>Deleting\<close>

definition moderator_delete_recruitment :: "instant \<Rightarrow> recruitment \<Rightarrow> rec_state \<Rightarrow> bool \<times> rec_state" where
  "moderator_delete_recruitment now loaded s =
     (if rec_is_deleted loaded then (False, s)
      else (True, update_row (rec_id loaded)
              (\<lambda>r. r\<lparr>rec_is_deleted := True, rec_deleted_at := Some now\<rparr>) s))"

definition is_past :: "instant \<Rightarrow> recruitment \<Rightarrow> bool" where
  "is_past now r =
     (if rec_event_date r = None \<and> rec_sessions r = []
      then rec_status r \<in> {Closed, Cancelled}
      else rec_trial_over now r)"

text \<open>Whether a delete must explain itself, and how many people it is explained to.\<close>

definition delete_requirements :: "instant \<Rightarrow> recruitment \<Rightarrow> rec_state \<Rightarrow> bool \<times> nat" where
  "delete_requirements now r s =
     (if rec_status r = Draft then (False, 0)
      else if is_past now r then (False, 0)
      else
        let notify_count = tbl_count (\<lambda>a. app_recruitment a = rec_id r
               \<and> app_status a \<in> set in_play_statuses) (applications s)
        in if notify_count = 0 then (False, 0) else (True, notify_count))"

definition require_reviewer :: "actor option \<Rightarrow> member result" where
  "require_reviewer ao =
     (case ao of
        Some (OrgActor oi mo) \<Rightarrow>
          require_org_permission ao RecruitmentsSpeak
            (Some ''Only organization owners can post announcements.'')
      | _ \<Rightarrow> Inl (PermissionDenied ''Switch to your organization account to post an announcement.''))"

definition require_deleter :: "actor option \<Rightarrow> member result" where
  "require_deleter ao =
     (case require_reviewer ao of
        Inl (PermissionDenied _) \<Rightarrow> Inl (PermissionDenied ''Only owners can delete a recruitment.'')
      | other \<Rightarrow> other)"

definition delete_note_min :: nat where "delete_note_min = 10"
definition delete_note_max :: nat where "delete_note_max = 500"

definition delete_recruitment ::
  "instant \<Rightarrow> actor option \<Rightarrow> recruitment \<Rightarrow> string \<Rightarrow> rec_state \<Rightarrow> (recruitment \<times> rec_state) result" where
  "delete_recruitment now ao loaded raw_note s =
     res_bind (require_deleter ao) (\<lambda>m.
       case tbl_get rec_id (recruitments s) (rec_id loaded) of
         None \<Rightarrow> Inl DoesNotExist
       | Some r \<Rightarrow>
           if rec_is_deleted r
           then Inl (ValidationError ''This recruitment has already been deleted.'')
           else
             let needs_note = fst (delete_requirements now r s); note_text = py_strip raw_note in
             if needs_note \<and> length note_text < delete_note_min
             then Inl (ValidationError ''Tell applicants why - at least 10 characters.'')
             else if needs_note \<and> delete_note_max < length note_text
             then Inl (ValidationError ''Keep it under 500 characters.'')
             else
               let r1 = r\<lparr>rec_is_deleted := True, rec_deleted_at := Some now,
                          rec_deleted_by := Some (member_id m),
                          rec_deleted_note := (if needs_note then note_text else '''')\<rparr>;
                   s1 = save_recruitment r1 s;
                   s2 = s1\<lparr>announcements := map (\<lambda>x. if ann_recruitment x = rec_id r
                            \<and> \<not> ann_is_deleted x then x\<lparr>ann_is_deleted := True\<rparr> else x)
                          (announcements s1)\<rparr>
               in Inr (r1, rec_emit (if needs_note then [RemovedFanOut (rec_id r)] else []) s2))"

section \<open>Location\<close>

record place =
  pl_name :: string
  pl_city :: string
  pl_country_code :: string
  pl_latitude :: "int option"
  pl_longitude :: "int option"
  pl_external_id :: string

record location =
  loc_id :: nat
  loc_name :: string
  loc_city :: string
  loc_country_code :: string
  loc_latitude :: "int option"
  loc_longitude :: "int option"

record location_fields =
  lf_location :: "nat option"
  lf_name :: string
  lf_city :: string
  lf_country_code :: string
  lf_latitude :: "int option"
  lf_longitude :: "int option"

definition no_location :: location_fields where
  "no_location = \<lparr>lf_location = None, lf_name = '''', lf_city = '''', lf_country_code = '''',
     lf_latitude = None, lf_longitude = None\<rparr>"

definition resolve_location ::
  "(place \<Rightarrow> location option result) \<Rightarrow> place option \<Rightarrow> location_fields result" where
  "resolve_location goc block_data =
     (case block_data of
        None \<Rightarrow> Inr no_location
      | Some p \<Rightarrow>
          (case goc p of
             Inl (ValueError e) \<Rightarrow> Inl (ValidationError e)
           | Inl e \<Rightarrow> Inl e
           | Inr None \<Rightarrow>
               Inr \<lparr>lf_location = None, lf_name = pl_name p, lf_city = pl_city p,
                    lf_country_code = pl_country_code p, lf_latitude = pl_latitude p,
                    lf_longitude = pl_longitude p\<rparr>
           | Inr (Some l) \<Rightarrow>
               Inr \<lparr>lf_location = Some (loc_id l), lf_name = loc_name l, lf_city = loc_city l,
                    lf_country_code = loc_country_code l, lf_latitude = loc_latitude l,
                    lf_longitude = loc_longitude l\<rparr>))"

section \<open>Media\<close>

record media_data =
  me_file_url :: string
  me_public_id :: string
  me_media_type :: string
  me_thumbnail_url :: "string option"
  me_duration :: "nat option"
  me_order :: "nat option"

text \<open>Every item passes the storage validators, or the first that does not is an error.\<close>

fun validate_media_from ::
  "(media_data \<Rightarrow> string option) \<Rightarrow> (media_data \<Rightarrow> string option) \<Rightarrow> nat \<Rightarrow> media_data list \<Rightarrow> unit result" where
  "validate_media_from check_file check_thumbnail idx [] = Inr ()"
| "validate_media_from check_file check_thumbnail idx (item # rest) =
     (case check_file item of
        Some raw \<Rightarrow> Inl (ValidationError raw)
      | None \<Rightarrow>
          if me_thumbnail_url item \<notin> {None, Some ''''} \<and> check_thumbnail item \<noteq> None
          then Inl (ValidationError ''invalid thumbnail source'')
          else validate_media_from check_file check_thumbnail (Suc idx) rest)"

section \<open>Children that are replaced\<close>

text \<open>Delete the rows, insert the payload's. Orders default to the position in the payload.\<close>

definition sync_positions :: "(nat \<times> bool) list \<Rightarrow> recruitment \<Rightarrow> recruitment result" where
  "sync_positions ps r =
     (if distinct (map fst ps) then Inr (r\<lparr>rec_positions := ps\<rparr>) else Inl IntegrityError)"

record question_data =
  qd_question :: string
  qd_field_type :: string
  qd_is_required :: bool
  qd_placeholder :: string
  qd_help_text :: string
  qd_options :: "string list"

fun question_rows :: "nat \<Rightarrow> nat \<Rightarrow> question_data list \<Rightarrow> question_row list" where
  "question_rows new_id idx [] = []"
| "question_rows new_id idx (d # ds) =
     \<lparr>q_id = new_id, q_question = qd_question d, q_field_type = qd_field_type d,
      q_is_required = qd_is_required d, q_placeholder = qd_placeholder d,
      q_help_text = qd_help_text d, q_display_order = idx,
      q_options = zip (qd_options d) [0..<length (qd_options d)]\<rparr>
     # question_rows (Suc new_id) (Suc idx) ds"

text \<open>
  \<open>recruitment.questions.all().delete()\<close> takes the options and, by cascade, the applicants' answers
  to these questions with it.
\<close>

definition sync_questions :: "question_data list \<Rightarrow> recruitment \<Rightarrow> rec_state \<Rightarrow> recruitment \<times> rec_state" where
  "sync_questions qs r s =
     (let old_ids = map q_id (rec_questions r)
      in (r\<lparr>rec_questions := question_rows (rec_fresh s) 0 qs\<rparr>,
          s\<lparr>answers := filter (\<lambda>x. ans_question x \<notin> set old_ids) (answers s),
            rec_fresh := rec_fresh s + length qs\<rparr>))"

fun media_rows :: "nat \<Rightarrow> media_data list \<Rightarrow> media_row list" where
  "media_rows idx [] = []"
| "media_rows idx (d # ds) =
     \<lparr>md_file_url = me_file_url d, md_public_id = me_public_id d, md_media_type = me_media_type d,
      md_thumbnail_url = (case me_thumbnail_url d of Some t \<Rightarrow> t | None \<Rightarrow> ''''),
      md_duration = me_duration d,
      md_order = (case me_order d of Some n \<Rightarrow> n | None \<Rightarrow> idx)\<rparr> # media_rows (Suc idx) ds"

definition orphaned_keys :: "media_row list \<Rightarrow> media_data list \<Rightarrow> string list" where
  "orphaned_keys old_media new_media =
     filter (\<lambda>k. k \<notin> set (filter (\<lambda>x. x \<noteq> '''') (map me_public_id new_media)))
       (remdups (map md_public_id old_media))"

definition sync_media :: "media_data list \<Rightarrow> recruitment \<Rightarrow> recruitment \<times> rec_effect list" where
  "sync_media ms r =
     (let orphans = orphaned_keys (rec_media r) ms
      in (r\<lparr>rec_media := media_rows 0 ms\<rparr>, if orphans = [] then [] else [DeleteKeys orphans]))"

definition sync_contacts :: "contact_row list \<Rightarrow> recruitment \<Rightarrow> recruitment" where
  "sync_contacts cs r = r\<lparr>rec_contacts := cs\<rparr>"

fun ordered :: "('a \<Rightarrow> nat \<Rightarrow> 'b) \<Rightarrow> nat \<Rightarrow> ('a \<times> nat option) list \<Rightarrow> 'b list" where
  "ordered mk idx [] = []"
| "ordered mk idx ((x, o1) # rest) =
     mk x (case o1 of Some n \<Rightarrow> n | None \<Rightarrow> idx) # ordered mk (Suc idx) rest"

definition sync_benefits :: "((string \<times> string) \<times> nat option) list \<Rightarrow> recruitment \<Rightarrow> recruitment" where
  "sync_benefits bs r =
     r\<lparr>rec_benefits := ordered (\<lambda>(t, icon) n. \<lparr>bf_title = t, bf_icon_name = icon, bf_display_order = n\<rparr>)
         0 bs\<rparr>"

definition sync_requirements ::
  "((string \<times> bool) \<times> nat option) list \<Rightarrow> recruitment \<Rightarrow> recruitment" where
  "sync_requirements qs r =
     r\<lparr>rec_requirements :=
         ordered (\<lambda>(t, m) n. \<lparr>rq_title = t, rq_is_mandatory = m, rq_display_order = n\<rparr>) 0 qs\<rparr>"

definition sync_eligibility_criteria :: "(string \<times> nat option) list \<Rightarrow> recruitment \<Rightarrow> recruitment" where
  "sync_eligibility_criteria cs r = r\<lparr>rec_criteria := ordered (\<lambda>t n. (t, n)) 0 cs\<rparr>"

section \<open>Trial dates: a diff, not a replacement\<close>

text \<open>
  A payload names a date by the reference it invented or by the date's id. The references are not
  ids, so the two kinds of key of \<open>sessions_by_ref\<close> never meet.
\<close>

datatype handle = ByRef string | ById nat

record session_data =
  sd_id :: "nat option"
  sd_ref :: "string option"
  sd_title :: string
  sd_date :: day
  sd_start_time :: "int option"
  sd_end_time :: "int option"
  sd_venue_name :: string
  sd_venue_link :: string
  sd_location :: "place option"
  sd_is_cancelled :: bool
  sd_display_order :: "nat option"

datatype schedule_change =
    SessionAdded | SessionCancelled | SessionDate | SessionRemoved | SessionRestored | SessionVenue
  | VenueChanged

text \<open>The columns of a payload row, for the session with the given key.\<close>

definition session_fields ::
  "(place \<Rightarrow> location option result) \<Rightarrow> session_data \<Rightarrow> nat \<Rightarrow> nat \<Rightarrow> trial_session result" where
  "session_fields goc d idx sid =
     res_bind (resolve_location goc (sd_location d)) (\<lambda>lf.
       Inr \<lparr>ts_id = sid, ts_title = sd_title d, ts_date = sd_date d, ts_start_time = sd_start_time d,
            ts_end_time = sd_end_time d, ts_venue_name = sd_venue_name d,
            ts_venue_link = sd_venue_link d, ts_location = lf_location lf, ts_city = lf_city lf,
            ts_latitude = lf_latitude lf, ts_longitude = lf_longitude lf,
            ts_is_cancelled = sd_is_cancelled d,
            ts_display_order = (case sd_display_order d of Some n \<Rightarrow> n | None \<Rightarrow> idx)\<rparr>)"

definition timing_changed :: "trial_session \<Rightarrow> trial_session \<Rightarrow> bool" where
  "timing_changed x y \<longleftrightarrow>
     ts_date x \<noteq> ts_date y \<or> ts_start_time x \<noteq> ts_start_time y \<or> ts_end_time x \<noteq> ts_end_time y"

definition session_venue_changed :: "trial_session \<Rightarrow> trial_session \<Rightarrow> bool" where
  "session_venue_changed x y \<longleftrightarrow>
     ts_venue_name x \<noteq> ts_venue_name y \<or> ts_venue_link x \<noteq> ts_venue_link y
     \<or> ts_location x \<noteq> ts_location y \<or> ts_city x \<noteq> ts_city y
     \<or> ts_latitude x \<noteq> ts_latitude y \<or> ts_longitude x \<noteq> ts_longitude y"

definition session_changes :: "trial_session \<Rightarrow> trial_session \<Rightarrow> schedule_change set" where
  "session_changes old new =
     (if timing_changed old new then {SessionDate} else {})
     \<union> (if session_venue_changed old new then {SessionVenue} else {})
     \<union> (if ts_is_cancelled old \<noteq> ts_is_cancelled new
        then {if ts_is_cancelled new then SessionCancelled else SessionRestored} else {})"

definition session_moved :: "trial_session \<Rightarrow> trial_session \<Rightarrow> bool" where
  "session_moved old new \<longleftrightarrow> timing_changed old new \<or> ts_is_cancelled old \<noteq> ts_is_cancelled new"

record session_sync =
  ss_create :: "trial_session list"
  ss_update :: "trial_session list"
  ss_changes :: "schedule_change set"
  ss_moved :: "nat list"
  ss_refs :: "(handle \<times> nat) list"
  ss_fresh :: nat

definition ref_entry :: "session_data \<Rightarrow> nat \<Rightarrow> (handle \<times> nat) list" where
  "ref_entry d sid =
     (case sd_ref d of None \<Rightarrow> [] | Some t \<Rightarrow> if t = '''' then [] else [(ByRef t, sid)])"

definition sync_session ::
  "(place \<Rightarrow> location option result) \<Rightarrow> trial_session list \<Rightarrow> nat \<Rightarrow> session_data \<Rightarrow> session_sync
   \<Rightarrow> session_sync result" where
  "sync_session goc existing idx d ss =
     (case sd_id d of
        None \<Rightarrow>
          res_bind (session_fields goc d idx (ss_fresh ss)) (\<lambda>x.
            Inr (ss\<lparr>ss_create := ss_create ss @ [x], ss_changes := ss_changes ss \<union> {SessionAdded},
                    ss_refs := ref_entry d (ss_fresh ss) @ ss_refs ss,
                    ss_fresh := Suc (ss_fresh ss)\<rparr>))
      | Some sid \<Rightarrow>
          res_bind (session_fields goc d idx sid) (\<lambda>x.
            if sid \<in> set (map ts_id (ss_update ss))
            then Inl (ValidationError ''Duplicate trial date id'')
            else case find (\<lambda>y. ts_id y = sid) existing of
              None \<Rightarrow> Inl (ValidationError ''Invalid trial date id'')
            | Some old \<Rightarrow>
                Inr (ss\<lparr>ss_update := ss_update ss @ [x],
                        ss_changes := ss_changes ss \<union> session_changes old x,
                        ss_moved := (if session_moved old x then ss_moved ss @ [sid] else ss_moved ss),
                        ss_refs := (ById sid, sid) # ref_entry d sid @ ss_refs ss\<rparr>)))"

fun sync_sessions_from ::
  "(place \<Rightarrow> location option result) \<Rightarrow> trial_session list \<Rightarrow> nat \<Rightarrow> session_data list \<Rightarrow> session_sync
   \<Rightarrow> session_sync result" where
  "sync_sessions_from goc existing idx [] ss = Inr ss"
| "sync_sessions_from goc existing idx (d # ds) ss =
     res_bind (sync_session goc existing idx d ss) (sync_sessions_from goc existing (Suc idx) ds)"

definition session_sync_start :: "nat \<Rightarrow> session_sync" where
  "session_sync_start n = \<lparr>ss_create = [], ss_update = [], ss_changes = {}, ss_moved = [],
     ss_refs = [], ss_fresh = n\<rparr>"

definition clear_reminders :: "recruitment \<Rightarrow> nat list \<Rightarrow> application list \<Rightarrow> application list" where
  "clear_reminders r moved_ids as =
     (if moved_ids = [] then as
      else map (\<lambda>a. if app_recruitment a = rec_id r \<and> app_reminder_sent_at a \<noteq> None
             \<and> (rec_session_mode r = ChooseOne \<longrightarrow>
                  (case app_session a of None \<Rightarrow> False | Some i \<Rightarrow> i \<in> set moved_ids))
           then a\<lparr>app_reminder_sent_at := None\<rparr> else a) as)"

text \<open>
  Deleting dates: their applications lose the reminder and, by \<open>SET_NULL\<close>, the date; the links from
  age categories go with the rows.
\<close>

definition drop_sessions :: "nat list \<Rightarrow> application list \<Rightarrow> application list" where
  "drop_sessions removed as =
     map (\<lambda>a. case app_session a of
            None \<Rightarrow> a
          | Some i \<Rightarrow> if i \<in> set removed
                       then a\<lparr>app_reminder_sent_at := None, app_session := None\<rparr> else a) as"

definition unlink_sessions :: "nat list \<Rightarrow> age_category list \<Rightarrow> age_category list" where
  "unlink_sessions removed cs =
     map (\<lambda>c. c\<lparr>cat_sessions := filter (\<lambda>i. i \<notin> set removed) (cat_sessions c)\<rparr>) cs"

definition updated_sessions :: "trial_session list \<Rightarrow> session_sync \<Rightarrow> trial_session list" where
  "updated_sessions existing ss =
     map (\<lambda>x. case find (\<lambda>y. ts_id y = ts_id x) (ss_update ss) of Some y \<Rightarrow> y | None \<Rightarrow> x)
       (filter (\<lambda>x. ts_id x \<in> set (map ts_id (ss_update ss))) existing)
     @ ss_create ss"

definition sync_trial_sessions ::
  "(place \<Rightarrow> location option result) \<Rightarrow> session_data list \<Rightarrow> recruitment \<Rightarrow> rec_state
   \<Rightarrow> (session_sync \<times> recruitment \<times> rec_state) result" where
  "sync_trial_sessions goc data r s =
     res_bind (sync_sessions_from goc (rec_sessions r) 0 data (session_sync_start (rec_fresh s))) (\<lambda>ss.
       let removed = filter (\<lambda>i. i \<notin> set (map ts_id (ss_update ss))) (map ts_id (rec_sessions r));
           ss1 = (if removed = [] then ss else ss\<lparr>ss_changes := ss_changes ss \<union> {SessionRemoved}\<rparr>);
           r1 = r\<lparr>rec_sessions := updated_sessions (rec_sessions r) ss1,
                  rec_categories := unlink_sessions removed (rec_categories r)\<rparr>;
           as1 = drop_sessions removed (applications s)
       in Inr (ss1, r1, s\<lparr>applications := clear_reminders r1 (ss_moved ss1) as1,
                         rec_fresh := ss_fresh ss1\<rparr>))"

text \<open>
  \<open>_sync_trial_window\<close>: the two dates derived from the live sessions, in the recruitment's zone, and
  the row written when they changed. The deadline constraint is checked on that write.
\<close>

definition derived_window :: "tzdb \<Rightarrow> tz \<Rightarrow> recruitment \<Rightarrow> instant option \<times> instant option" where
  "derived_window db dz r =
     (case live_sessions r of
        [] \<Rightarrow> (None, None)
      | x # xs \<Rightarrow> (Some (starts_at (rec_zone db dz r) x),
                   Some (ends_at (rec_zone db dz r) (last (x # xs)))))"

definition valid_fee :: "recruitment \<Rightarrow> bool" where
  "valid_fee r \<longleftrightarrow> (rec_is_paid r \<longleftrightarrow> rec_fee_amount r \<noteq> None)"

definition valid_application_deadline :: "recruitment \<Rightarrow> bool" where
  "valid_application_deadline r \<longleftrightarrow>
     (case (rec_event_date r, rec_deadline r) of (Some e, Some d) \<Rightarrow> d \<le> e | _ \<Rightarrow> True)"

definition sync_trial_window :: "tzdb \<Rightarrow> tz \<Rightarrow> recruitment \<Rightarrow> recruitment result" where
  "sync_trial_window db dz r =
     (let (event_date, trial_end) = derived_window db dz r;
          r1 = r\<lparr>rec_event_date := event_date, rec_trial_end := trial_end\<rparr>
      in if rec_event_date r = event_date \<and> rec_trial_end r = trial_end then Inr r
         else if valid_application_deadline r1 then Inr r1 else Inl IntegrityError)"

section \<open>Age categories: a diff, after the dates\<close>

record category_data =
  cd_id :: "nat option"
  cd_title :: string
  cd_min_birth_year :: "nat option"
  cd_max_birth_year :: "nat option"
  cd_gender :: "string option"
  cd_reporting_time :: "int option"
  cd_display_order :: "nat option"
  cd_session_refs :: "handle list"

fun category_sessions :: "(handle \<times> nat) list \<Rightarrow> handle list \<Rightarrow> nat list result" where
  "category_sessions refs [] = Inr []"
| "category_sessions refs (h # hs) =
     (case map_of refs h of
        None \<Rightarrow> Inl (ValidationError ''A category points at a trial date that isn't in this trial.'')
      | Some sid \<Rightarrow> res_bind (category_sessions refs hs) (\<lambda>ids. Inr (sid # ids)))"

definition category_row :: "category_data \<Rightarrow> nat \<Rightarrow> nat \<Rightarrow> nat list \<Rightarrow> age_category" where
  "category_row d idx ci linked =
     \<lparr>cat_id = ci, cat_title = cd_title d, cat_min_birth_year = cd_min_birth_year d,
      cat_max_birth_year = cd_max_birth_year d, cat_gender = cd_gender d,
      cat_sessions = remdups linked, cat_reporting_time = cd_reporting_time d,
      cat_display_order = (case cd_display_order d of Some n \<Rightarrow> n | None \<Rightarrow> idx)\<rparr>"

text \<open>The rows to update, the rows to create, and the next key.\<close>

fun sync_categories_from ::
  "(handle \<times> nat) list \<Rightarrow> age_category list \<Rightarrow> nat \<Rightarrow> category_data list
   \<Rightarrow> age_category list \<times> age_category list \<times> nat
   \<Rightarrow> (age_category list \<times> age_category list \<times> nat) result" where
  "sync_categories_from refs existing idx [] acc = Inr acc"
| "sync_categories_from refs existing idx (d # ds) (updates, creates, n) =
     res_bind (category_sessions refs (cd_session_refs d)) (\<lambda>linked.
       case cd_id d of
         None \<Rightarrow> sync_categories_from refs existing (Suc idx) ds
                   (updates, creates @ [category_row d idx n linked], Suc n)
       | Some ci \<Rightarrow>
           if ci \<in> set (map cat_id updates)
           then Inl (ValidationError ''Duplicate age category id'')
           else if ci \<notin> set (map cat_id existing)
           then Inl (ValidationError ''Invalid age category id'')
           else sync_categories_from refs existing (Suc idx) ds
                  (updates @ [category_row d idx ci linked], creates, n))"

definition category_valid :: "age_category \<Rightarrow> bool" where
  "category_valid c \<longleftrightarrow> cat_min_birth_year c \<noteq> None \<or> cat_max_birth_year c \<noteq> None"

definition drop_categories :: "nat list \<Rightarrow> application list \<Rightarrow> application list" where
  "drop_categories removed as =
     map (\<lambda>a. case app_age_category a of
            None \<Rightarrow> a
          | Some i \<Rightarrow> if i \<in> set removed then a\<lparr>app_age_category := None\<rparr> else a) as"

definition sync_age_categories ::
  "(handle \<times> nat) list \<Rightarrow> category_data list \<Rightarrow> recruitment \<Rightarrow> rec_state \<Rightarrow> (recruitment \<times> rec_state) result" where
  "sync_age_categories refs data r s =
     res_bind (sync_categories_from refs (rec_categories r) 0 data ([], [], rec_fresh s))
       (\<lambda>(updates, creates, n).
         let removed = filter (\<lambda>i. i \<notin> set (map cat_id updates)) (map cat_id (rec_categories r));
             kept = map (\<lambda>c. case find (\<lambda>y. cat_id y = cat_id c) updates of Some y \<Rightarrow> y | None \<Rightarrow> c)
                      (filter (\<lambda>c. cat_id c \<in> set (map cat_id updates)) (rec_categories r))
         in if list_all category_valid (updates @ creates)
            then Inr (r\<lparr>rec_categories := kept @ creates\<rparr>,
                      s\<lparr>applications := drop_categories removed (applications s), rec_fresh := n\<rparr>)
            else Inl IntegrityError)"

section \<open>Editing\<close>

text \<open>The columns a payload sets, \<open>for field, value in validated_data.items()\<close>.\<close>

datatype scalar_edit =
    SetType recruitment_type
  | SetVisibility visibility
  | SetGender string
  | SetTimezone string
  | SetDeadline "instant option"
  | SetEventDate "instant option"
  | SetSessionMode session_mode
  | SetAutoConfirm bool
  | SetMaxApplications "nat option"
  | SetIsPaid bool
  | SetFeeAmount "int option"
  | SetFeeCurrency string
  | SetPaymentNote string
  | SetVenueName string
  | SetVenueLink string

fun set_scalar :: "scalar_edit \<Rightarrow> recruitment \<Rightarrow> recruitment" where
  "set_scalar (SetType x) r = r\<lparr>rec_type := x\<rparr>"
| "set_scalar (SetVisibility x) r = r\<lparr>rec_visibility := x\<rparr>"
| "set_scalar (SetGender x) r = r\<lparr>rec_gender := x\<rparr>"
| "set_scalar (SetTimezone x) r = r\<lparr>rec_timezone := x\<rparr>"
| "set_scalar (SetDeadline x) r = r\<lparr>rec_deadline := x\<rparr>"
| "set_scalar (SetEventDate x) r = r\<lparr>rec_event_date := x\<rparr>"
| "set_scalar (SetSessionMode x) r = r\<lparr>rec_session_mode := x\<rparr>"
| "set_scalar (SetAutoConfirm x) r = r\<lparr>rec_auto_confirm := x\<rparr>"
| "set_scalar (SetMaxApplications x) r = r\<lparr>rec_max_applications := x\<rparr>"
| "set_scalar (SetIsPaid x) r = r\<lparr>rec_is_paid := x\<rparr>"
| "set_scalar (SetFeeAmount x) r = r\<lparr>rec_fee_amount := x\<rparr>"
| "set_scalar (SetFeeCurrency x) r = r\<lparr>rec_fee_currency := x\<rparr>"
| "set_scalar (SetPaymentNote x) r = r\<lparr>rec_payment_note := x\<rparr>"
| "set_scalar (SetVenueName x) r = r\<lparr>rec_venue_name := x\<rparr>"
| "set_scalar (SetVenueLink x) r = r\<lparr>rec_venue_link := x\<rparr>"

text \<open>\<open>validated_data.get(\<dots>)\<close> for the three fields the service looks at before the loop.\<close>

definition get_max_applications :: "scalar_edit list \<Rightarrow> nat option" where
  "get_max_applications es =
     fold (\<lambda>e acc. case e of SetMaxApplications x \<Rightarrow> x | _ \<Rightarrow> acc) es None"

definition get_venue_name :: "scalar_edit list \<Rightarrow> string" where
  "get_venue_name es = fold (\<lambda>e acc. case e of SetVenueName x \<Rightarrow> x | _ \<Rightarrow> acc) es ''''"

definition get_venue_link :: "scalar_edit list \<Rightarrow> string" where
  "get_venue_link es = fold (\<lambda>e acc. case e of SetVenueLink x \<Rightarrow> x | _ \<Rightarrow> acc) es ''''"

record edit_data =
  ed_scalars :: "scalar_edit list"
  ed_sport :: nat
  ed_location :: "place option"
  ed_positions :: "(nat \<times> bool) list"
  ed_questions :: "question_data list"
  ed_media :: "media_data list"
  ed_contacts :: "contact_row list"
  ed_benefits :: "((string \<times> string) \<times> nat option) list"
  ed_requirements :: "((string \<times> bool) \<times> nat option) list"
  ed_criteria :: "(string \<times> nat option) list"
  ed_sessions :: "session_data list"
  ed_categories :: "category_data list"

text \<open>\<open>Recruitment.save()\<close>: the timezone is validated, the check constraints are the database's.\<close>

definition checked_row :: "tzdb \<Rightarrow> recruitment \<Rightarrow> recruitment result" where
  "checked_row db r =
     res_bind (validate_timezone db (rec_timezone r)) (\<lambda>_.
       if valid_fee r \<and> valid_application_deadline r then Inr r else Inl IntegrityError)"

definition set_location :: "location_fields \<Rightarrow> recruitment \<Rightarrow> recruitment" where
  "set_location lf r =
     r\<lparr>rec_location := lf_location lf, rec_location_name := lf_name lf, rec_city := lf_city lf,
       rec_country_code := lf_country_code lf, rec_latitude := lf_latitude lf,
       rec_longitude := lf_longitude lf\<rparr>"

definition clear_fee :: "recruitment \<Rightarrow> recruitment" where
  "clear_fee r =
     (if rec_is_paid r then r
      else r\<lparr>rec_fee_amount := None, rec_payment_note := '''', rec_fee_currency := ''INR''\<rparr>)"

text \<open>The columns of the loaded object, with the child rows the database holds now.\<close>

definition with_children :: "recruitment \<Rightarrow> recruitment \<Rightarrow> recruitment" where
  "with_children cur r =
     r\<lparr>rec_sessions := rec_sessions cur, rec_categories := rec_categories cur,
       rec_positions := rec_positions cur, rec_questions := rec_questions cur,
       rec_media := rec_media cur, rec_contacts := rec_contacts cur, rec_benefits := rec_benefits cur,
       rec_requirements := rec_requirements cur, rec_criteria := rec_criteria cur\<rparr>"

definition edit_guard :: "recruitment \<Rightarrow> edit_data \<Rightarrow> unit result" where
  "edit_guard loaded d =
     (if 0 < rec_applications_count loaded then
        if ed_sport d \<noteq> rec_sport loaded
        then Inl (ValidationError ''Sport cannot be changed after applications have been received'')
        else if (case get_max_applications (ed_scalars d) of None \<Rightarrow> False
                 | Some m \<Rightarrow> m < rec_applications_count loaded)
        then Inl (ValidationError ''Max applications cannot be below the current applications.'')
        else Inr ()
      else Inr ())"

text \<open>The child tables of \<open>r\<close> from the payload; the row is written with them.\<close>

definition sync_children ::
  "tzdb \<Rightarrow> tz \<Rightarrow> (place \<Rightarrow> location option result) \<Rightarrow> edit_data \<Rightarrow> recruitment \<Rightarrow> rec_state
   \<Rightarrow> (schedule_change set \<times> recruitment \<times> rec_state) result" where
  "sync_children db dz goc d r s =
     res_bind (sync_positions (ed_positions d) r) (\<lambda>r.
       let (r, s) = sync_questions (ed_questions d) r s;
           (r, media_effects) = sync_media (ed_media d) r;
           r = sync_eligibility_criteria (ed_criteria d) (sync_requirements (ed_requirements d)
                 (sync_benefits (ed_benefits d) (sync_contacts (ed_contacts d) r)));
           s = rec_emit media_effects s
       in res_bind (sync_trial_sessions goc (ed_sessions d) r s) (\<lambda>(ss, r, s).
          res_bind (sync_trial_window db dz r) (\<lambda>r.
          res_bind (sync_age_categories (ss_refs ss) (ed_categories d) r s) (\<lambda>(r, s).
            Inr (ss_changes ss, r, save_recruitment r s)))))"

definition schedule_changed_fields ::
  "recruitment \<Rightarrow> schedule_change set \<Rightarrow> rec_state \<Rightarrow> schedule_change list" where
  "schedule_changed_fields r changes s =
     (if live_applications s (rec_id r) = [] then []
      else filter (\<lambda>c. c \<in> changes)
        [SessionAdded, SessionCancelled, SessionDate, SessionRemoved, SessionRestored, SessionVenue,
         VenueChanged])"

definition update_recruitment ::
  "tzdb \<Rightarrow> tz \<Rightarrow> (place \<Rightarrow> location option result) \<Rightarrow> (media_data \<Rightarrow> string option)
   \<Rightarrow> (media_data \<Rightarrow> string option) \<Rightarrow> nat list \<Rightarrow> recruitment \<Rightarrow> edit_data \<Rightarrow> rec_state
   \<Rightarrow> ((recruitment \<times> schedule_change list) \<times> rec_state) result" where
  "update_recruitment db dz goc check_file check_thumbnail sports loaded d s =
     res_bind (edit_guard loaded d) (\<lambda>_.
     res_bind (validate_media_from check_file check_thumbnail 0 (ed_media d)) (\<lambda>_.
       if ed_sport d \<notin> set sports then Inl DoesNotExist
       else res_bind (resolve_location goc (ed_location d)) (\<lambda>lf.
         let venue_changed = (rec_venue_name loaded \<noteq> get_venue_name (ed_scalars d)
               \<or> rec_venue_link loaded \<noteq> get_venue_link (ed_scalars d)
               \<or> rec_location loaded \<noteq> lf_location lf);
             r = clear_fee (fold set_scalar (ed_scalars d)
                   (set_location lf (loaded\<lparr>rec_sport := ed_sport d\<rparr>)))
         in res_bind (checked_row db r) (\<lambda>r.
            case tbl_get rec_id (recruitments s) (rec_id loaded) of
              None \<Rightarrow> Inl DoesNotExist
            | Some cur \<Rightarrow>
                res_bind (sync_children db dz goc d (with_children cur r) s) (\<lambda>(changes, r, s).
                  Inr ((r, schedule_changed_fields r
                          (if venue_changed then changes \<union> {VenueChanged} else changes) s), s))))))"

text \<open>The row a create starts from: the defaults of the model's columns, then the payload.\<close>

definition blank_recruitment :: "nat \<Rightarrow> oid \<Rightarrow> nat \<Rightarrow> recruitment_status \<Rightarrow> instant option \<Rightarrow> string \<Rightarrow> recruitment" where
  "blank_recruitment rid oi sport st published default_name =
     \<lparr>rec_id = rid, rec_org = oi, rec_sport = sport, rec_type = PlayerLooking, rec_status = st,
      rec_visibility = Public, rec_gender = '''', rec_timezone = default_name, rec_deadline = None,
      rec_event_date = None, rec_trial_end = None, rec_session_mode = AttendAll,
      rec_auto_confirm = False, rec_max_applications = None, rec_is_paid = False,
      rec_fee_amount = None, rec_fee_currency = ''INR'', rec_payment_note = '''',
      rec_venue_name = '''', rec_venue_link = '''', rec_location = None, rec_location_name = '''',
      rec_city = '''', rec_country_code = '''', rec_latitude = None, rec_longitude = None,
      rec_applications_count = 0, rec_confirmed_count = 0, rec_selected_count = 0,
      rec_last_alert_at = None, rec_is_deleted = False, rec_deleted_at = None,
      rec_deleted_note = '''', rec_deleted_by = None, rec_published_at = published,
      rec_sessions = [], rec_categories = [], rec_positions = [], rec_questions = [], rec_media = [],
      rec_contacts = [], rec_benefits = [], rec_requirements = [], rec_criteria = []\<rparr>"

definition create_recruitment ::
  "tzdb \<Rightarrow> tz \<Rightarrow> string \<Rightarrow> (place \<Rightarrow> location option result) \<Rightarrow> (media_data \<Rightarrow> string option)
   \<Rightarrow> (media_data \<Rightarrow> string option) \<Rightarrow> nat list \<Rightarrow> instant \<Rightarrow> oid \<Rightarrow> recruitment_status option
   \<Rightarrow> edit_data \<Rightarrow> rec_state \<Rightarrow> (recruitment \<times> rec_state) result" where
  "create_recruitment db dz default_name goc check_file check_thumbnail sports now oi st d s =
     (let status = (case st of Some x \<Rightarrow> x | None \<Rightarrow> Active);
          published = (if status = Active then Some now else None)
      in res_bind (validate_media_from check_file check_thumbnail 0 (ed_media d)) (\<lambda>_.
         if ed_sport d \<notin> set sports then Inl DoesNotExist
         else res_bind (resolve_location goc (ed_location d)) (\<lambda>lf.
         res_bind (checked_row db (fold set_scalar (ed_scalars d) (set_location lf
             (blank_recruitment (rec_fresh s) oi (ed_sport d) status published default_name)))) (\<lambda>r.
         res_bind (sync_children db dz goc d r
             (s\<lparr>recruitments := tbl_insert r (recruitments s), rec_fresh := Suc (rec_fresh s)\<rparr>))
           (\<lambda>(_, r, s). Inr (r, s))))))"

end
