(* ===== verification/Application_Laws.thy ===== *)
theory Application_Laws
  imports Applications
begin

text \<open>
  The laws of \<open>application_service.py\<close>: the counters of a recruitment agree with its applications, the
  cap is kept, an applicant has one row per recruitment, and pass codes are unique inside one. Every
  operation is a sequence of saves of single rows, so the counting laws come from the table interface.
\<close>

interpretation app_rows: row_store "tbl_get app_id" "tbl_save app_id" tbl_insert tbl_count
  app_id "tbl_ok app_id"
  by (rule row_store_tbl)

interpretation rec_rows: row_store "tbl_get rec_id" "tbl_save rec_id" tbl_insert tbl_count
  rec_id "tbl_ok rec_id"
  by (rule row_store_tbl)

section \<open>Counting applications\<close>

definition in_status :: "nat \<Rightarrow> (app_status \<Rightarrow> bool) \<Rightarrow> application \<Rightarrow> bool" where
  "in_status rid P a \<longleftrightarrow> app_recruitment a = rid \<and> P (app_status a)"

definition status_count :: "nat \<Rightarrow> (app_status \<Rightarrow> bool) \<Rightarrow> application list \<Rightarrow> nat" where
  "status_count rid P as = tbl_count (in_status rid P) as"

definition app_pair :: "application \<Rightarrow> nat \<times> uid" where
  "app_pair a = (app_recruitment a, app_applicant a)"

lemma tbl_get_row: "tbl_ok key rows \<Longrightarrow> r \<in> set rows \<Longrightarrow> tbl_get key rows (key r) = Some r"
  by (simp add: tbl_get_eq_Some)

lemma tbl_row_eq:
  "tbl_ok key rows \<Longrightarrow> x \<in> set rows \<Longrightarrow> y \<in> set rows \<Longrightarrow> key x = key y \<Longrightarrow> x = y"
  by (metis option.inject tbl_get_row)

lemma set_tbl_save:
  "x \<in> set (tbl_save key r rows) \<longleftrightarrow>
   (x \<in> set rows \<and> key x \<noteq> key r) \<or> (x = r \<and> key r \<in> key ` set rows)"
  by (auto simp: tbl_save_def image_iff) metis+

lemma tbl_save_twice: "key r1 = key r2 \<Longrightarrow> tbl_save key r2 (tbl_save key r1 rows) = tbl_save key r2 rows"
  by (simp add: tbl_save_def)

lemma map_tbl_save:
  assumes "tbl_ok key rows" "r \<in> set rows" "key r1 = key r" "f r1 = f r"
  shows "map f (tbl_save key r1 rows) = map f rows"
  using assms tbl_row_eq [OF assms(1) _ assms(2)] by (auto simp: tbl_save_def)

lemma status_count_save:
  assumes "tbl_ok app_id as" "a \<in> set as" "app_id a1 = app_id a" "app_recruitment a1 = app_recruitment a"
  shows "int (status_count rid P (tbl_save app_id a1 as)) = int (status_count rid P as)
    + (if rid = app_recruitment a then of_bool (P (app_status a1)) - of_bool (P (app_status a)) else 0)"
proof -
  have "tbl_get app_id as (app_id a1) = Some a" using tbl_get_row [OF assms(1,2)] assms(3) by simp
  from app_rows.count_save_int [OF assms(1) this, of "in_status rid P"] assms(4)
  show ?thesis by (auto simp: status_count_def in_status_def)
qed

lemma status_count_insert:
  "status_count rid P (tbl_insert a as)
   = status_count rid P as + of_bool (app_recruitment a = rid \<and> P (app_status a))"
  by (simp add: status_count_def in_status_def)

lemma counter_update_int:
  "0 \<le> int c + d \<Longrightarrow> int (counter_update c d) = int c + d"
  by (auto simp: counter_update_def)

section \<open>The invariant\<close>

abbreviation live :: "app_status \<Rightarrow> bool" where "live st \<equiv> st \<noteq> Withdrawn"

definition counters_agree :: "application list \<Rightarrow> recruitment \<Rightarrow> bool" where
  "counters_agree as r \<longleftrightarrow>
     rec_applications_count r = status_count (rec_id r) live as
     \<and> rec_confirmed_count r = status_count (rec_id r) (\<lambda>st. st = TrialConfirmed) as
     \<and> rec_selected_count r = status_count (rec_id r) (\<lambda>st. st = Selected) as"

definition below_cap :: "recruitment \<Rightarrow> bool" where
  "below_cap r \<longleftrightarrow>
     (case rec_max_applications r of None \<Rightarrow> True | Some m \<Rightarrow> rec_applications_count r \<le> m)"

definition codes_ok :: "application list \<Rightarrow> bool" where
  "codes_ok as \<longleftrightarrow>
     (\<forall>a \<in> set as. \<forall>b \<in> set as. app_recruitment a = app_recruitment b
        \<and> app_pass_code a = app_pass_code b \<and> app_pass_code a \<noteq> '''' \<longrightarrow> a = b)"

definition rows_ok :: "nat list \<Rightarrow> nat \<Rightarrow> application list \<Rightarrow> bool" where
  "rows_ok rids n as \<longleftrightarrow>
     distinct (map app_id as) \<and> distinct (map app_pair as)
     \<and> list_all (\<lambda>i. i < n) (map app_id as)
     \<and> list_all (\<lambda>i. i \<in> set rids) (map app_recruitment as)"

definition rec_ok :: "rec_state \<Rightarrow> bool" where
  "rec_ok s \<longleftrightarrow>
     distinct (map rec_id (recruitments s))
     \<and> rows_ok (map rec_id (recruitments s)) (rec_fresh s) (applications s)
     \<and> codes_ok (applications s)
     \<and> (\<forall>r \<in> set (recruitments s). counters_agree (applications s) r \<and> below_cap r)"

lemma rec_ok_tbl: "rec_ok s \<Longrightarrow> tbl_ok rec_id (recruitments s)"
  "rec_ok s \<Longrightarrow> tbl_ok app_id (applications s)"
  by (simp_all add: rec_ok_def rows_ok_def tbl_ok_def)

lemma codes_ok_iff:
  assumes "tbl_ok app_id as"
  shows "pass_codes_unique as \<longleftrightarrow> codes_ok as"
proof -
  have "distinct as" using assms by (auto simp: tbl_ok_def distinct_map)
  then have "pass_codes_unique as \<longleftrightarrow>
      inj_on (\<lambda>a. (app_recruitment a, app_pass_code a)) (set (filter (\<lambda>a. app_pass_code a \<noteq> '''') as))"
    by (simp add: pass_codes_unique_def distinct_map)
  then show ?thesis by (auto simp: codes_ok_def inj_on_def)
qed

text \<open>A save of one application that keeps its identity keeps the rows well formed.\<close>

lemma rows_ok_save:
  assumes "rows_ok rids n as" "a \<in> set as" "app_id a1 = app_id a"
    "app_recruitment a1 = app_recruitment a" "app_applicant a1 = app_applicant a"
  shows "rows_ok rids n (tbl_save app_id a1 as)"
proof -
  have tok: "tbl_ok app_id as" using assms(1) by (simp add: rows_ok_def tbl_ok_def)
  have "map app_pair (tbl_save app_id a1 as) = map app_pair as"
    using assms by (intro map_tbl_save [OF tok assms(2)]) (simp_all add: app_pair_def)
  moreover have "map app_recruitment (tbl_save app_id a1 as) = map app_recruitment as"
    using assms by (intro map_tbl_save [OF tok assms(2)]) simp_all
  ultimately show ?thesis using assms(1) by (simp add: rows_ok_def del: list.pred_map)
qed

lemma codes_ok_save:
  assumes ok: "codes_ok as" and tok: "tbl_ok app_id as" and a: "a \<in> set as" "app_id a1 = app_id a"
    "app_recruitment a1 = app_recruitment a"
    and code: "app_pass_code a1 = app_pass_code a \<or>
      \<not> (\<exists>b \<in> set as. app_recruitment b = app_recruitment a \<and> app_pass_code b = app_pass_code a1)"
  shows "codes_ok (tbl_save app_id a1 as)"
proof -
  have other: False if "b \<in> set as" "app_id b \<noteq> app_id a" "app_recruitment b = app_recruitment a"
    "app_pass_code b = app_pass_code a1" "app_pass_code a1 \<noteq> []" for b
    using code that ok a(1) unfolding codes_ok_def by metis
  show ?thesis
    unfolding codes_ok_def
  proof (intro ballI impI)
    fix x y assume x: "x \<in> set (tbl_save app_id a1 as)" and y: "y \<in> set (tbl_save app_id a1 as)"
      and eq: "app_recruitment x = app_recruitment y \<and> app_pass_code x = app_pass_code y
        \<and> app_pass_code x \<noteq> []"
    from x have x': "x = a1 \<or> x \<in> set as \<and> app_id x \<noteq> app_id a" using a(2) by (auto simp: set_tbl_save)
    from y have y': "y = a1 \<or> y \<in> set as \<and> app_id y \<noteq> app_id a" using a(2) by (auto simp: set_tbl_save)
    show "x = y"
    proof (cases "x = a1 \<or> y = a1")
      case True
      with x' y' eq other [of x] other [of y] a(3) show ?thesis by metis
    next
      case False
      with x' y' eq ok show ?thesis unfolding codes_ok_def by blast
    qed
  qed
qed

section \<open>Applying\<close>

text \<open>What \<open>write_application\<close> does to the table: one row is revived or inserted.\<close>

lemma with_code_keeps:
  assumes "with_code rng s a = Inr b"
  shows "\<exists>c. b = a\<lparr>app_pass_code := c\<rparr>"
  using assms mint_for_keeps [of rng s a b]
  by (auto simp: with_code_def split: if_splits intro: exI [of _ "app_pass_code a"])

lemma with_code_code:
  assumes "with_code rng s a = Inr b"
  shows "app_pass_code b = app_pass_code a \<or> \<not> code_taken s (app_recruitment a) (app_pass_code b)"
  using assms mint_for_Inr [of rng s a b] by (cases "app_pass_code a = []") (auto simp: with_code_def split: if_splits)

lemma write_application_cases:
  assumes "write_application rng now r u v mm session s = Inr (a, hfrom, note_text, s')"
  obtains (Revived) old where "find_application s (rec_id r) u = Some old"
      "with_code rng s (revived now r v mm session old) = Inr a" "hfrom = Some Withdrawn"
      "s' = s\<lparr>applications := tbl_save app_id a (applications s),
              answers := filter (\<lambda>x. ans_application x \<noteq> app_id a) (answers s)\<rparr>"
  | (Fresh) "find_application s (rec_id r) u = None"
      "with_code rng s (fresh_application now r u v mm session (rec_fresh s)) = Inr a" "hfrom = None"
      "s' = s\<lparr>applications := tbl_insert a (applications s), rec_fresh := Suc (rec_fresh s)\<rparr>"
  using assms by (cases "find_application s (rec_id r) u")
    (auto simp: write_application_def res_bind_eq_Inr)

lemma find_application_Some:
  "find_application s rid u = Some a \<Longrightarrow>
   a \<in> set (applications s) \<and> app_recruitment a = rid \<and> app_applicant a = u"
  by (auto simp: find_application_def dest!: find_eq_Some_conv)

lemma write_application_row:
  assumes "write_application rng now r u v mm session s = Inr (a, hfrom, note_text, s')"
  shows "app_recruitment a = rec_id r \<and> app_applicant a = u \<and> app_status a = landing_status r
    \<and> recruitments s' = recruitments s \<and> rec_social s' = rec_social s \<and> histories s' = histories s"
  using assms
proof (cases rule: write_application_cases)
  case (Revived old)
  then show ?thesis using with_code_keeps [OF Revived(2)] find_application_Some [OF Revived(1)]
    by (auto simp: revived_def)
next
  case Fresh
  then show ?thesis using with_code_keeps [OF Fresh(2)] by (auto simp: fresh_application_def)
qed

text \<open>The count in every status after the write, and the well-formed rows.\<close>

lemma write_application_counts:
  assumes ok: "rec_ok s" and w: "write_application rng now r u v mm session s = Inr (a, hfrom, note_text, s')"
    and gone: "case find_application s (rec_id r) u of None \<Rightarrow> True | Some x \<Rightarrow> app_status x = Withdrawn"
  shows "int (status_count rid P (applications s')) = int (status_count rid P (applications s))
    + (if rid = rec_id r then of_bool (P (landing_status r))
         - (if hfrom = None then 0 else of_bool (P Withdrawn)) else 0)"
  using w
proof (cases rule: write_application_cases)
  case (Revived old)
  note old = find_application_Some [OF Revived(1)]
  from with_code_keeps [OF Revived(2)] obtain c where a: "a = (revived now r v mm session old)\<lparr>app_pass_code := c\<rparr>" ..
  have "app_id a = app_id old" "app_recruitment a = app_recruitment old" by (simp_all add: a revived_def)
  from status_count_save [OF rec_ok_tbl(2) [OF ok] conjunct1 [OF old] this, of rid P]
  show ?thesis using old gone write_application_row [OF w] Revived by (auto simp: of_bool_def)
next
  case Fresh
  then show ?thesis using write_application_row [OF w] by (auto simp: status_count_insert)
qed

lemma write_application_rows:
  assumes ok: "rec_ok s" and w: "write_application rng now r u v mm session s = Inr (a, hfrom, note_text, s')"
    and r: "r \<in> set (recruitments s)"
  shows "rows_ok (map rec_id (recruitments s)) (rec_fresh s') (applications s')
    \<and> codes_ok (applications s')"
  using w
proof (cases rule: write_application_cases)
  case (Revived old)
  note old = find_application_Some [OF Revived(1)]
  from with_code_keeps [OF Revived(2)] obtain c where a: "a = (revived now r v mm session old)\<lparr>app_pass_code := c\<rparr>" ..
  have same: "app_id a = app_id old" "app_recruitment a = app_recruitment old" "app_applicant a = app_applicant old"
    by (simp_all add: a revived_def)
  have rows: "rows_ok (map rec_id (recruitments s)) (rec_fresh s') (applications s')"
    using ok rows_ok_save [OF _ conjunct1 [OF old] same] by (simp add: Revived(4) rec_ok_def)
  have "codes_ok (tbl_save app_id a (applications s))"
  proof (rule codes_ok_save [OF _ rec_ok_tbl(2) [OF ok] conjunct1 [OF old] same(1,2)])
    show "codes_ok (applications s)" using ok by (simp add: rec_ok_def)
    show "app_pass_code a = app_pass_code old \<or> \<not> (\<exists>b \<in> set (applications s).
        app_recruitment b = app_recruitment old \<and> app_pass_code b = app_pass_code a)"
      using with_code_code [OF Revived(2)] by (auto simp: revived_def code_taken_def list_ex_iff)
  qed
  with rows show ?thesis by (simp add: Revived(4))
next
  case Fresh
  from with_code_keeps [OF Fresh(2)] obtain c where a: "a = (fresh_application now r u v mm session (rec_fresh s))\<lparr>app_pass_code := c\<rparr>" ..
  have new: "app_pair a \<notin> app_pair ` set (applications s)"
    using Fresh(1) by (auto simp: find_application_def find_None_conv app_pair_def a fresh_application_def)
  have "rec_fresh s \<notin> app_id ` set (applications s)"
    using ok by (auto simp: rec_ok_def rows_ok_def list_all_iff)
  then have rows: "rows_ok (map rec_id (recruitments s)) (rec_fresh s') (applications s')"
    using ok new r by (auto simp: Fresh(4) rec_ok_def rows_ok_def tbl_insert_def list_all_iff a
        fresh_application_def less_SucI)
  have "codes_ok (applications s @ [a])"
    using with_code_code [OF Fresh(2)] ok
    unfolding codes_ok_def rec_ok_def
    by (auto simp: code_taken_def list_ex_iff fresh_application_def a)
  with rows show ?thesis by (simp add: Fresh(4) tbl_insert_def)
qed

text \<open>What \<open>finish_apply\<close> does to the tables the invariant reads.\<close>

lemma claim_applicant_alert_effect:
  assumes "claim_applicant_alert tiers now r s = (al, r1, s1)"
  shows "\<exists>la. s1 = s \<and> r1 = r \<and> la = rec_last_alert_at r
      \<or> r1 = r\<lparr>rec_last_alert_at := la\<rparr> \<and> s1 = save_recruitment r1 s"
  using assms by (auto simp: claim_applicant_alert_def Let_def split: if_splits)

lemma finish_apply_effect:
  assumes "finish_apply tiers now r u v (a, hfrom, note_text, s) = (a', s')"
  shows "a' = a \<and> applications s' = applications s \<and> rec_fresh s' = rec_fresh s
    \<and> rec_social s' = rec_social s
    \<and> (\<exists>la. recruitments s' = tbl_save rec_id ((counted r)\<lparr>rec_last_alert_at := la\<rparr>) (recruitments s))"
proof -
  let ?s1 = "s\<lparr>answers := answers s @ answer_rows (app_id a) (v_answers v)\<rparr>"
  let ?s2 = "save_recruitment (counted r) ?s1"
  let ?h = "[\<lparr>hist_application = app_id a, hist_from = hfrom, hist_to = landing_status r,
    hist_changed_by = None, hist_note = (if auto_confirms r then ''auto-confirmed'' else note_text)\<rparr>]"
  define s3 where "s3 = ?s2\<lparr>histories := histories ?s2 @ ?h\<rparr>"
  obtain al r1 s4 where alert: "claim_applicant_alert tiers now (counted r) s3 = (al, r1, s4)"
    by (cases "claim_applicant_alert tiers now (counted r) s3") auto
  have s3: "applications s3 = applications s" "rec_fresh s3 = rec_fresh s"
      "rec_social s3 = rec_social s" "recruitments s3 = tbl_save rec_id (counted r) (recruitments s)"
    by (simp_all add: s3_def save_recruitment_def)
  have "\<exists>es. a' = a \<and> s' = rec_emit es s4"
    using assms unfolding finish_apply_def Let_def prod.case s3_def [symmetric] alert by blast
  then obtain es where out: "a' = a" "s' = rec_emit es s4" by blast
  have same: "counted r = (counted r)\<lparr>rec_last_alert_at := rec_last_alert_at (counted r)\<rparr>"
    by (cases "counted r") simp
  from claim_applicant_alert_effect [OF alert] obtain la where
    "s4 = s3 \<or> s4 = save_recruitment ((counted r)\<lparr>rec_last_alert_at := la\<rparr>) s3" by blast
  then show ?thesis
  proof
    assume "s4 = s3"
    then have "recruitments s' = tbl_save rec_id ((counted r)
        \<lparr>rec_last_alert_at := rec_last_alert_at (counted r)\<rparr>) (recruitments s)"
      using out s3 same by (simp add: rec_emit_def)
    moreover have "a' = a \<and> applications s' = applications s \<and> rec_fresh s' = rec_fresh s
        \<and> rec_social s' = rec_social s"
      using out s3 \<open>s4 = s3\<close> by (simp add: rec_emit_def)
    ultimately show ?thesis by blast
  next
    assume "s4 = save_recruitment ((counted r)\<lparr>rec_last_alert_at := la\<rparr>) s3"
    with out s3 show ?thesis by (auto simp: rec_emit_def save_recruitment_def tbl_save_twice)
  qed
qed

lemma visibility_gate_social:
  "visibility_gate actor r s = Inr s1 \<Longrightarrow> \<exists>soc. s1 = s\<lparr>rec_social := soc\<rparr>"
  by (cases "rec_visibility r")
    (auto simp: visibility_gate_def split: prod.splits if_splits intro: exI [of _ "rec_social s"])

lemma apply_gate_social_row:
  assumes "apply_gate now actor u r s = Inr s1"
  shows "(\<exists>soc. s1 = s\<lparr>rec_social := soc\<rparr>)
    \<and> (case find_application s (rec_id r) u of None \<Rightarrow> True | Some a \<Rightarrow> app_status a = Withdrawn)"
proof -
  from assms obtain s2 where vis: "visibility_gate actor r s = Inr s2" and
      row: "(case find_application s2 (rec_id r) u of
         Some a \<Rightarrow> if app_status a \<noteq> Withdrawn
           then Inl (ValidationError ''You have already applied to this recruitment.'') else Inr s2
       | None \<Rightarrow> Inr s2) = Inr s1"
    by (auto simp: apply_gate_def res_bind_eq_Inr)
  from visibility_gate_social [OF vis] obtain soc where s2: "s2 = s\<lparr>rec_social := soc\<rparr>" ..
  then have "find_application s2 (rec_id r) u = find_application s (rec_id r) u"
    by (simp add: find_application_def)
  with row s2 show ?thesis by (auto split: option.splits if_splits)
qed

lemmas apply_gate_social = apply_gate_social_row [THEN conjunct1]
lemmas apply_gate_row = apply_gate_social_row [THEN conjunct2]

lemma apply_gate_cap:
  "apply_gate now actor u r s = Inr s1 \<Longrightarrow>
   case rec_max_applications r of None \<Rightarrow> True | Some m \<Rightarrow> rec_applications_count r < m"
  by (auto simp: apply_gate_def res_bind_eq_Inr window_gate_def split: if_splits option.splits)

lemma lock_recruitment_Inr:
  "lock_recruitment s rid = Inr r \<Longrightarrow> r \<in> set (recruitments s) \<and> rec_id r = rid \<and> \<not> rec_is_deleted r"
  by (auto simp: lock_recruitment_def split: option.splits dest!: find_eq_Some_conv)

text \<open>A successful apply, taken apart.\<close>

lemma apply_to_cases:
  assumes "apply_to db dz rng tiers now actor u rid v s = Inr (a, s')"
  obtains r s1 session mm hfrom note_text sw where "lock_recruitment s rid = Inr r"
    "apply_gate now actor u r s = Inr s1" "resolve_session db dz now r (v_session v) = Inr session"
    "write_application rng now r u v mm session s1 = Inr (a, hfrom, note_text, sw)"
    "finish_apply tiers now r u v (a, hfrom, note_text, sw) = (a, s')"
    "check_category_runs_at s1 (v_age_category v) session = Inr ()"
    "mm = age_mismatch s1 r u (v_age_category v)"
proof -
  from assms obtain r s1 session w where 1: "lock_recruitment s rid = Inr r"
    "apply_gate now actor u r s = Inr s1" "resolve_session db dz now r (v_session v) = Inr session"
    "write_application rng now r u v (age_mismatch s1 r u (v_age_category v)) session s1 = Inr w"
    "finish_apply tiers now r u v w = (a, s')" "check_category_runs_at s1 (v_age_category v) session = Inr ()"
    by (auto simp: apply_to_def res_bind_eq_Inr)
  obtain a1 hfrom note_text sw where w: "w = (a1, hfrom, note_text, sw)" by (cases w) auto
  with finish_apply_effect 1(5) have "a1 = a" by blast
  with 1 w that show ?thesis by blast
qed

lemma rec_ok_social [simp]: "rec_ok (s\<lparr>rec_social := soc\<rparr>) = rec_ok s"
  by (simp add: rec_ok_def)

lemma counted_fields [simp]:
  "rec_id (counted r) = rec_id r" "rec_max_applications (counted r) = rec_max_applications r"
  by (simp_all add: counted_def)

lemma landing_counts:
  "landing_status r \<noteq> Withdrawn" "landing_status r \<noteq> Selected"
  "landing_status r = TrialConfirmed \<longleftrightarrow> auto_confirms r"
  by (simp_all add: landing_status_def)

lemma apply_ok:
  assumes ok: "rec_ok s" and run: "apply_to db dz rng tiers now actor u rid v s = Inr (a, s')"
  shows "rec_ok s'"
  using run
proof (cases rule: apply_to_cases)
  case (1 r s1 session mm hfrom note_text sw)
  from apply_gate_social [OF 1(2)] obtain soc where s1: "s1 = s\<lparr>rec_social := soc\<rparr>" ..
  have ok1: "rec_ok s1" using ok by (simp add: s1)
  from lock_recruitment_Inr [OF 1(1)] have r: "r \<in> set (recruitments s1)" by (simp add: s1)
  have gone: "case find_application s1 (rec_id r) u of None \<Rightarrow> True | Some x \<Rightarrow> app_status x = Withdrawn"
    using apply_gate_row [OF 1(2)] by (simp add: s1 find_application_def)
  note counts = write_application_counts [OF ok1 1(4) gone]
  note rows = write_application_rows [OF ok1 1(4) r]
  from write_application_row [OF 1(4)] have sw: "recruitments sw = recruitments s1" by simp
  from finish_apply_effect [OF 1(5)] obtain la where apps: "applications s' = applications sw"
      "rec_fresh s' = rec_fresh sw"
    and recs: "recruitments s' = tbl_save rec_id ((counted r)\<lparr>rec_last_alert_at := la\<rparr>) (recruitments s1)"
    unfolding sw by blast
  let ?r1 = "(counted r)\<lparr>rec_last_alert_at := la\<rparr>"
  have ids: "map rec_id (recruitments s') = map rec_id (recruitments s1)"
    by (simp add: recs del: map_eq_conv)
  have agree: "counters_agree (applications s1) r" "below_cap r" using ok1 r by (simp_all add: rec_ok_def)
  have "counters_agree (applications s') x \<and> below_cap x" if x: "x \<in> set (recruitments s')" for x
  proof (cases "x = ?r1")
    case True
    have "int (rec_applications_count x) = int (status_count (rec_id r) live (applications s'))"
      using counts [of "rec_id r" live] agree landing_counts [of r]
      by (simp add: True apps counters_agree_def counted_def split: if_splits)
    moreover have "int (rec_confirmed_count x) = int (status_count (rec_id r) (\<lambda>st. st = TrialConfirmed) (applications s'))"
      using counts [of "rec_id r" "\<lambda>st. st = TrialConfirmed"] agree landing_counts [of r]
      by (simp add: True apps counters_agree_def counted_def split: if_splits)
    moreover have "int (rec_selected_count x) = int (status_count (rec_id r) (\<lambda>st. st = Selected) (applications s'))"
      using counts [of "rec_id r" "\<lambda>st. st = Selected"] agree landing_counts [of r]
      by (simp add: True apps counters_agree_def counted_def split: if_splits)
    moreover have "below_cap x" using apply_gate_cap [OF 1(2)]
      by (auto simp: True below_cap_def counted_def split: option.splits)
    ultimately show ?thesis by (simp add: True counters_agree_def)
  next
    case False
    with x have old: "x \<in> set (recruitments s1)" "rec_id x \<noteq> rec_id r" by (auto simp: recs set_tbl_save)
    have "status_count (rec_id x) P (applications s') = status_count (rec_id x) P (applications s1)" for P
      using counts [of "rec_id x" P] old by (simp add: apps)
    with ok1 old show ?thesis by (simp add: rec_ok_def counters_agree_def)
  qed
  moreover have "distinct (map rec_id (recruitments s'))" using ok1 unfolding ids by (simp add: rec_ok_def)
  ultimately show ?thesis using rows unfolding rec_ok_def ids apps by blast
qed

section \<open>Withdrawing and moving\<close>

text \<open>Applications that changed by known amounts, and counters moved by the same amounts.\<close>

definition counts_moved :: "nat \<Rightarrow> int \<Rightarrow> int \<Rightarrow> int \<Rightarrow> application list \<Rightarrow> application list \<Rightarrow> bool" where
  "counts_moved rid da dc ds as as1 \<longleftrightarrow>
     (\<forall>i. int (status_count i live as1) = int (status_count i live as) + (if i = rid then da else 0))
     \<and> (\<forall>i. int (status_count i (\<lambda>st. st = TrialConfirmed) as1)
          = int (status_count i (\<lambda>st. st = TrialConfirmed) as) + (if i = rid then dc else 0))
     \<and> (\<forall>i. int (status_count i (\<lambda>st. st = Selected) as1)
          = int (status_count i (\<lambda>st. st = Selected) as) + (if i = rid then ds else 0))"

lemma counts_moved_refl [simp]: "counts_moved rid 0 0 0 as as"
  by (simp add: counts_moved_def)

lemma counts_moved_trans:
  assumes "counts_moved rid a1 b1 c1 as as1" "counts_moved rid a2 b2 c2 as1 as2"
  shows "counts_moved rid (a1 + a2) (b1 + b2) (c1 + c2) as as2"
  unfolding counts_moved_def
proof (intro conjI allI)
  fix i
  show "int (status_count i live as2) = int (status_count i live as) + (if i = rid then a1 + a2 else 0)"
    using assms by (cases "i = rid") (simp_all add: counts_moved_def)
  show "int (status_count i (\<lambda>st. st = TrialConfirmed) as2)
      = int (status_count i (\<lambda>st. st = TrialConfirmed) as) + (if i = rid then b1 + b2 else 0)"
    using assms by (cases "i = rid") (simp_all add: counts_moved_def)
  show "int (status_count i (\<lambda>st. st = Selected) as2)
      = int (status_count i (\<lambda>st. st = Selected) as) + (if i = rid then c1 + c2 else 0)"
    using assms by (cases "i = rid") (simp_all add: counts_moved_def)
qed

lemma counts_moved_save:
  assumes "tbl_ok app_id as" "a \<in> set as" "app_id a1 = app_id a" "app_recruitment a1 = app_recruitment a"
  shows "counts_moved (app_recruitment a)
    (of_bool (live (app_status a1)) - of_bool (live (app_status a)))
    (of_bool (app_status a1 = TrialConfirmed) - of_bool (app_status a = TrialConfirmed))
    (of_bool (app_status a1 = Selected) - of_bool (app_status a = Selected)) as (tbl_save app_id a1 as)"
  using status_count_save [OF assms] unfolding counts_moved_def by auto

definition counter_shift :: "int \<Rightarrow> int \<Rightarrow> int \<Rightarrow> recruitment \<Rightarrow> recruitment" where
  "counter_shift da dc ds r =
     r\<lparr>rec_applications_count := counter_update (rec_applications_count r) da,
       rec_confirmed_count := counter_update (rec_confirmed_count r) dc,
       rec_selected_count := counter_update (rec_selected_count r) ds\<rparr>"

lemma move_counters_eq:
  "move_counters rid da dc ds s =
   s\<lparr>recruitments := map (\<lambda>r. if rec_id r = rid then counter_shift da dc ds r else r) (recruitments s)\<rparr>"
  by (simp add: move_counters_def counter_shift_def)

lemma counter_shift_fields [simp]:
  "rec_id (counter_shift da dc ds r) = rec_id r"
  "rec_max_applications (counter_shift da dc ds r) = rec_max_applications r"
  by (simp_all add: counter_shift_def)

lemma counts_movedD:
  assumes "counts_moved rid da dc ds as as1"
  shows "int (status_count i live as1) = int (status_count i live as) + (if i = rid then da else 0)"
    and "int (status_count i (\<lambda>st. st = TrialConfirmed) as1)
      = int (status_count i (\<lambda>st. st = TrialConfirmed) as) + (if i = rid then dc else 0)"
    and "int (status_count i (\<lambda>st. st = Selected) as1)
      = int (status_count i (\<lambda>st. st = Selected) as) + (if i = rid then ds else 0)"
  using assms unfolding counts_moved_def by blast+

lemma counter_update_step:
  "int n1 = int n + d \<Longrightarrow> counter_update n d = n1"
  using counter_update_int [of n d] by simp

lemma counter_shift_agree:
  assumes "counters_agree as r" "counts_moved (rec_id r) da dc ds as as1"
  shows "counters_agree as1 (counter_shift da dc ds r)"
  using assms(1) counts_movedD [OF assms(2), of "rec_id r"]
  by (simp add: counters_agree_def counter_shift_def counter_update_step)

lemma counter_shift_cap: "below_cap r \<Longrightarrow> da \<le> 0 \<Longrightarrow> below_cap (counter_shift da dc ds r)"
  by (auto simp: below_cap_def counter_shift_def counter_update_def split: option.splits)

lemma counts_moved_other:
  assumes "counts_moved rid da dc ds as as1" "rec_id r \<noteq> rid" "counters_agree as r"
  shows "counters_agree as1 r"
  using assms(2,3) counts_movedD [OF assms(1), of "rec_id r"] by (simp add: counters_agree_def)

lemma move_counters_ok:
  assumes ok: "rec_ok s" and s1: "recruitments s1 = recruitments s" "rec_fresh s1 = rec_fresh s"
    and rows: "rows_ok (map rec_id (recruitments s)) (rec_fresh s) (applications s1)"
    and codes: "codes_ok (applications s1)"
    and moved: "counts_moved rid da dc ds (applications s) (applications s1)" and "da \<le> 0"
  shows "rec_ok (move_counters rid da dc ds s1)"
proof -
  have ids: "map rec_id (recruitments (move_counters rid da dc ds s1)) = map rec_id (recruitments s)"
    by (simp add: move_counters_eq s1)
  have "counters_agree (applications s1) x \<and> below_cap x"
    if x: "x \<in> set (recruitments (move_counters rid da dc ds s1))" for x
  proof -
    from x obtain r where r: "r \<in> set (recruitments s)"
        and x': "x = (if rec_id r = rid then counter_shift da dc ds r else r)"
      by (auto simp: move_counters_eq s1)
    from r ok have "counters_agree (applications s) r" "below_cap r" by (simp_all add: rec_ok_def)
    with x' moved \<open>da \<le> 0\<close> show ?thesis
      by (auto intro: counter_shift_agree counter_shift_cap counts_moved_other)
  qed
  then show ?thesis
    using ok rows codes unfolding rec_ok_def ids by (simp add: move_counters_eq s1)
qed

text \<open>A completed \<open>withdraw\<close>, taken apart.\<close>

lemma withdraw_cases:
  assumes "withdraw u aid s = Inr (a1, s')"
  obtains a r where "a \<in> set (applications s)" "app_id a = aid" "app_applicant a = u"
    "app_status a \<noteq> Withdrawn" "a1 = a\<lparr>app_status := Withdrawn\<rparr>"
    "tbl_get rec_id (recruitments s) (app_recruitment a) = Some r" "\<not> rec_is_deleted r"
    "s' = move_counters (app_recruitment a) (- 1)
        (if app_status a = TrialConfirmed then - 1 else 0) (if app_status a = Selected then - 1 else 0)
        (s\<lparr>applications := tbl_save app_id a1 (applications s), histories := histories s @
           [\<lparr>hist_application = aid, hist_from = Some (app_status a), hist_to = Withdrawn,
             hist_changed_by = None, hist_note = ''Withdrawn by applicant''\<rparr>]\<rparr>)"
  using assms
  by (auto simp: withdraw_def refuse_if_removed_def res_bind_eq_Inr Let_def
      split: option.splits if_splits dest!: find_eq_Some_conv)

lemma withdraw_ok:
  assumes ok: "rec_ok s" and run: "withdraw u aid s = Inr (a1, s')"
  shows "rec_ok s'"
proof -
  from run obtain a r where a: "a \<in> set (applications s)" "app_id a = aid" and live: "app_status a \<noteq> Withdrawn"
    and a1: "a1 = a\<lparr>app_status := Withdrawn\<rparr>"
    and s': "s' = move_counters (app_recruitment a) (- 1)
        (if app_status a = TrialConfirmed then - 1 else 0) (if app_status a = Selected then - 1 else 0)
        (s\<lparr>applications := tbl_save app_id a1 (applications s), histories := histories s @
           [\<lparr>hist_application = aid, hist_from = Some (app_status a), hist_to = Withdrawn,
             hist_changed_by = None, hist_note = ''Withdrawn by applicant''\<rparr>]\<rparr>)"
    by (rule withdraw_cases)
  note tok = rec_ok_tbl(2) [OF ok]
  have same: "app_id a1 = app_id a" "app_recruitment a1 = app_recruitment a" "app_applicant a1 = app_applicant a"
    "app_pass_code a1 = app_pass_code a" by (simp_all add: a1)
  show ?thesis
    unfolding s'
  proof (rule move_counters_ok [OF ok])
    show "rows_ok (map rec_id (recruitments s)) (rec_fresh s) (applications (s
        \<lparr>applications := tbl_save app_id a1 (applications s), histories := histories s @
           [\<lparr>hist_application = aid, hist_from = Some (app_status a), hist_to = Withdrawn,
             hist_changed_by = None, hist_note = ''Withdrawn by applicant''\<rparr>]\<rparr>))"
      using ok rows_ok_save [OF _ a(1) same(1,2,3)] by (simp add: rec_ok_def)
    have "codes_ok (tbl_save app_id a1 (applications s))"
      using ok by (intro codes_ok_save [OF _ tok a(1) same(1,2)]) (simp_all add: rec_ok_def same)
    then show "codes_ok (applications (s
        \<lparr>applications := tbl_save app_id a1 (applications s), histories := histories s @
           [\<lparr>hist_application = aid, hist_from = Some (app_status a), hist_to = Withdrawn,
             hist_changed_by = None, hist_note = ''Withdrawn by applicant''\<rparr>]\<rparr>))" by simp
    show "counts_moved (app_recruitment a) (- 1) (if app_status a = TrialConfirmed then - 1 else 0)
      (if app_status a = Selected then - 1 else 0) (applications s) (applications (s
        \<lparr>applications := tbl_save app_id a1 (applications s), histories := histories s @
           [\<lparr>hist_application = aid, hist_from = Some (app_status a), hist_to = Withdrawn,
             hist_changed_by = None, hist_note = ''Withdrawn by applicant''\<rparr>]\<rparr>))"
      using counts_moved_save [OF tok a(1) same(1,2)] live by (simp add: a1 of_bool_def split: if_splits)
  qed simp_all
qed

text \<open>
  The loop of \<open>change_status\<close>: the table in memory differs from the one it started from by saves of
  rows of this recruitment, none of them withdrawn, and the two running deltas say by how much the
  counted statuses moved.
\<close>

definition batch_ok :: "nat list \<Rightarrow> nat \<Rightarrow> nat \<Rightarrow> application list \<Rightarrow> batch \<Rightarrow> bool" where
  "batch_ok rids n rid as b \<longleftrightarrow>
     rows_ok rids n (b_apps b) \<and> counts_moved rid 0 (b_confirmed b) (b_selected b) as (b_apps b)
     \<and> (\<forall>a \<in> set as. app_status a = Withdrawn \<or> app_recruitment a \<noteq> rid \<longrightarrow> a \<in> set (b_apps b))"

lemma skip_fields [simp]:
  "b_apps (skip aid why b) = b_apps b" "b_confirmed (skip aid why b) = b_confirmed b"
  "b_selected (skip aid why b) = b_selected b" "b_updated (skip aid why b) = b_updated b"
  "b_history (skip aid why b) = b_history b" "b_notify (skip aid why b) = b_notify b"
  by (simp_all add: skip_def)

lemma batch_ok_skip [simp]: "batch_ok rids n rid as (skip aid why b) = batch_ok rids n rid as b"
  by (simp add: batch_ok_def)

lemma moved_application_keeps:
  assumes "moved_application rngs s now m to_status a = Inr a1"
  shows "\<exists>c. a1 = a\<lparr>app_status := to_status, app_reviewed_by := Some (member_id m),
    app_reviewed_at := Some now, app_pass_code := c\<rparr>"
  using with_code_keeps [of "rngs (app_id a)" s _ a1] assms by (auto simp: moved_application_def)

text \<open>One turn of the loop, by its outcome.\<close>

lemma change_one_cases:
  assumes "change_one rngs s now m rid to_status note_text aid b = Inr b'"
  obtains (Skipped) why where "b' = skip aid why b"
  | (Moved) a a1 where "a \<in> set (b_apps b)" "app_id a = aid" "app_recruitment a = rid"
      "app_status a \<noteq> Withdrawn" "app_status a \<noteq> to_status"
      "moved_application rngs s now m to_status a = Inr a1"
      "b_apps b' = tbl_save app_id a1 (b_apps b)" "b_updated b' = b_updated b @ [aid]"
      "b_confirmed b' = b_confirmed b + status_delta TrialConfirmed (app_status a) to_status"
      "b_selected b' = b_selected b + status_delta Selected (app_status a) to_status"
      "b_skipped b' = b_skipped b"
      "b_notify b' = (if to_status \<in> set silent_statuses then b_notify b else b_notify b @ [a1])"
      "b_history b' = b_history b @ [\<lparr>hist_application = aid, hist_from = Some (app_status a),
         hist_to = to_status, hist_changed_by = Some (member_id m), hist_note = note_text\<rparr>]"
proof (cases "find (\<lambda>a. app_id a = aid \<and> app_recruitment a = rid) (b_apps b)")
  case None
  with assms Skipped show ?thesis by (auto simp: change_one_def)
next
  case (Some a)
  note row = find_eq_Some_conv [OF Some]
  show ?thesis
  proof (cases "app_status a = Withdrawn \<or> app_status a = to_status")
    case True
    with assms Some Skipped show ?thesis by (auto simp: change_one_def split: if_splits)
  next
    case False
    with assms Some obtain a1 where a1: "moved_application rngs s now m to_status a = Inr a1"
      and b': "b' = b\<lparr>b_apps := tbl_save app_id a1 (b_apps b),
                   b_updated := b_updated b @ [aid],
                   b_history := b_history b @
                     [\<lparr>hist_application = aid, hist_from = Some (app_status a), hist_to = to_status,
                       hist_changed_by = Some (member_id m), hist_note = note_text\<rparr>],
                   b_notify := (if to_status \<in> set silent_statuses then b_notify b
                                else b_notify b @ [a1]),
                   b_confirmed := b_confirmed b + status_delta TrialConfirmed (app_status a) to_status,
                   b_selected := b_selected b + status_delta Selected (app_status a) to_status\<rparr>"
      by (auto simp: change_one_def res_bind_eq_Inr)
    from row False a1 show ?thesis by (intro Moved) (auto simp: b')
  qed
qed

lemma status_delta_of_bool:
  "status_delta c old_status to_status = of_bool (to_status = c) - of_bool (old_status = c)"
  by (simp add: status_delta_def)

lemma change_one_ok:
  assumes ok: "batch_ok rids n rid as b" and "to_status \<noteq> Withdrawn"
    and run: "change_one rngs s now m rid to_status note_text aid b = Inr b'"
  shows "batch_ok rids n rid as b'"
  using run
proof (cases rule: change_one_cases)
  case (Skipped why)
  with ok show ?thesis by simp
next
  case (Moved a a1)
  from moved_application_keeps [OF Moved(6)] obtain c where a1: "a1 = a\<lparr>app_status := to_status,
    app_reviewed_by := Some (member_id m), app_reviewed_at := Some now, app_pass_code := c\<rparr>" ..
  have same: "app_id a1 = app_id a" "app_recruitment a1 = app_recruitment a"
    "app_applicant a1 = app_applicant a" by (simp_all add: a1)
  have tok: "tbl_ok app_id (b_apps b)" using ok by (simp add: batch_ok_def rows_ok_def tbl_ok_def)
  have "counts_moved rid 0 (status_delta TrialConfirmed (app_status a) to_status)
      (status_delta Selected (app_status a) to_status) (b_apps b) (b_apps b')"
    using counts_moved_save [OF tok Moved(1) same(1,2)] assms(2) Moved(3,4)
    by (simp add: Moved(7) status_delta_of_bool a1)
  with ok have "counts_moved rid (0 + 0) (b_confirmed b') (b_selected b') as (b_apps b')"
    unfolding Moved(9,10) by (intro counts_moved_trans) (simp_all add: batch_ok_def)
  moreover have "rows_ok rids n (b_apps b')"
    using ok rows_ok_save [OF _ Moved(1) same] by (simp add: Moved(7) batch_ok_def)
  moreover have "x \<in> set (b_apps b')"
    if "x \<in> set as" "app_status x = Withdrawn \<or> app_recruitment x \<noteq> rid" for x
  proof -
    have x: "x \<in> set (b_apps b)" using that ok by (auto simp: batch_ok_def)
    have "x \<noteq> a" using that(2) Moved(3,4) by auto
    then have "app_id x \<noteq> app_id a" using tbl_row_eq [OF tok x Moved(1)] by blast
    with x show ?thesis by (simp add: Moved(7) set_tbl_save same)
  qed
  ultimately show ?thesis by (simp add: batch_ok_def)
qed

lemma change_each_ok:
  "batch_ok rids n rid as b \<Longrightarrow> to_status \<noteq> Withdrawn \<Longrightarrow>
   change_each rngs s now m rid to_status note_text ids b = Inr b' \<Longrightarrow> batch_ok rids n rid as b'"
  by (induction ids arbitrary: b) (auto simp: res_bind_eq_Inr intro: change_one_ok)

definition batch_start :: "application list \<Rightarrow> batch" where
  "batch_start as = \<lparr>b_apps = as, b_updated = [], b_skipped = [], b_history = [], b_notify = [],
     b_confirmed = 0, b_selected = 0\<rparr>"

lemma batch_start_ok: "rows_ok rids n as \<Longrightarrow> batch_ok rids n rid as (batch_start as)"
  by (simp add: batch_ok_def batch_start_def)

text \<open>A completed \<open>change_status\<close>, taken apart.\<close>

lemma change_status_cases:
  assumes "change_status db dz rngs now m r ids requested note_text s = Inr (out, s')"
  obtains to_status b where "to_status = map_legacy_target db dz now r requested"
    "to_status \<in> set status_change_targets" "length ids \<le> max_bulk_status"
    "check_trial_window db dz now r to_status = Inr ()"
    "change_each rngs s now m (rec_id r) to_status note_text ids (batch_start (applications s)) = Inr b"
    "pass_codes_unique (b_apps b)" "out = (b_updated b, b_skipped b)"
    "s' = rec_emit (concat (map (applicant_sends to_status) (b_notify b)))
       (move_counters (rec_id r) 0 (b_confirmed b) (b_selected b)
         (s\<lparr>applications := b_apps b, histories := histories s @ b_history b\<rparr>))"
  using assms
  by (auto simp: change_status_def Let_def res_bind_eq_Inr batch_start_def split: if_splits)

lemma targets_not_withdrawn: "st \<in> set status_change_targets \<Longrightarrow> st \<noteq> Withdrawn \<and> st \<noteq> Applied"
  by (auto simp: status_change_targets_def)

lemma rec_ok_emit [simp]: "rec_ok (rec_emit es s) = rec_ok s"
  by (simp add: rec_ok_def rec_emit_def)

lemma change_status_ok:
  assumes ok: "rec_ok s"
    and run: "change_status db dz rngs now m r ids requested note_text s = Inr (out, s')"
  shows "rec_ok s'"
  using run
proof (cases rule: change_status_cases)
  case (1 to_status b)
  have b: "batch_ok (map rec_id (recruitments s)) (rec_fresh s) (rec_id r) (applications s) b"
    using ok targets_not_withdrawn [OF 1(2)]
    by (intro change_each_ok [OF batch_start_ok _ 1(5)]) (simp_all add: rec_ok_def)
  then have "tbl_ok app_id (b_apps b)" by (simp add: batch_ok_def rows_ok_def tbl_ok_def)
  then have "codes_ok (b_apps b)" using codes_ok_iff 1(6) by blast
  with b show ?thesis
    unfolding 1(8) rec_ok_emit
    by (intro move_counters_ok [OF ok]) (simp_all add: batch_ok_def)
qed

section \<open>The fee\<close>

lemma fee_one_ok:
  assumes "rows_ok rids n (b_apps b)" "codes_ok (b_apps b)" "counts_moved rid 0 0 0 as (b_apps b)"
  shows "rows_ok rids n (b_apps (fee_one now m rid paid aid b))
    \<and> codes_ok (b_apps (fee_one now m rid paid aid b))
    \<and> counts_moved rid 0 0 0 as (b_apps (fee_one now m rid paid aid b))"
proof (cases "find (\<lambda>a. app_id a = aid \<and> app_recruitment a = rid) (b_apps b)")
  case None
  with assms show ?thesis by (simp add: fee_one_def)
next
  case (Some a)
  note row = find_eq_Some_conv [OF Some]
  let ?a1 = "a\<lparr>app_fee_paid := paid, app_fee_paid_at := (if paid then Some now else None),
    app_fee_marked_by := (if paid then Some (member_id m) else None)\<rparr>"
  have tok: "tbl_ok app_id (b_apps b)" using assms(1) by (simp add: rows_ok_def tbl_ok_def)
  have same: "app_id ?a1 = app_id a" "app_recruitment ?a1 = app_recruitment a"
    "app_applicant ?a1 = app_applicant a" "app_pass_code ?a1 = app_pass_code a"
    "app_status ?a1 = app_status a" by simp_all
  note rows = rows_ok_save [OF assms(1) conjunct1 [OF row] same(1-3)]
  have codes: "codes_ok (tbl_save app_id ?a1 (b_apps b))"
    by (rule codes_ok_save [OF assms(2) tok conjunct1 [OF row] same(1,2)]) (simp add: same)
  have "counts_moved rid 0 0 0 (b_apps b) (tbl_save app_id ?a1 (b_apps b))"
    using counts_moved_save [OF tok conjunct1 [OF row] same(1,2)] row by (simp add: same(5))
  from counts_moved_trans [OF assms(3) this] rows codes assms Some show ?thesis
    by (simp add: fee_one_def)
qed

lemma fee_fold_ok:
  assumes "rows_ok rids n (b_apps b)" "codes_ok (b_apps b)" "counts_moved rid 0 0 0 as (b_apps b)"
  shows "rows_ok rids n (b_apps (fold (fee_one now m rid paid) ids b))
    \<and> codes_ok (b_apps (fold (fee_one now m rid paid) ids b))
    \<and> counts_moved rid 0 0 0 as (b_apps (fold (fee_one now m rid paid) ids b))"
  using assms by (induction ids arbitrary: b) (simp_all add: fee_one_ok)

lemma no_counts_moved:
  assumes "counts_moved rid 0 0 0 as as1" "counters_agree as r"
  shows "counters_agree as1 r"
  using assms(2) counts_movedD [OF assms(1), of "rec_id r"] by (simp add: counters_agree_def)

lemma set_fee_paid_ok:
  assumes ok: "rec_ok s" and run: "set_fee_paid now m r ids paid s = Inr (out, s')"
  shows "rec_ok s'"
proof -
  let ?b = "fold (fee_one now m (rec_id r) paid) ids (batch_start (applications s))"
  have s': "s' = s\<lparr>applications := b_apps ?b\<rparr>"
    using run by (simp add: set_fee_paid_def Let_def batch_start_def split: if_splits)
  have "rows_ok (map rec_id (recruitments s)) (rec_fresh s) (b_apps ?b) \<and> codes_ok (b_apps ?b)
      \<and> counts_moved (rec_id r) 0 0 0 (applications s) (b_apps ?b)"
    using ok by (intro fee_fold_ok) (simp_all add: rec_ok_def batch_start_def)
  then show ?thesis using ok unfolding rec_ok_def s' by (auto intro: no_counts_moved)
qed

end
