(* ===== verification/Recruitment_Laws.thy ===== *)
theory Recruitment_Laws
  imports Recruitment_Edit Application_Laws
begin

text \<open>
  The laws of \<open>recruitment_service.py\<close>. An edit changes applications only by clearing reminders and
  references to deleted rows, keeps the counters it loaded, and keeps the cap; the derived dates come
  from the first and the last live session.
\<close>

section \<open>What an edit may change of an application\<close>

definition app_core :: "application \<Rightarrow> nat \<times> nat \<times> uid \<times> app_status \<times> string" where
  "app_core a = (app_id a, app_recruitment a, app_applicant a, app_status a, app_pass_code a)"

definition same_cores :: "application list \<Rightarrow> application list \<Rightarrow> bool" where
  "same_cores as as1 \<longleftrightarrow> map app_core as1 = map app_core as"

lemma same_cores_refl [simp]: "same_cores as as"
  by (simp add: same_cores_def)

lemma same_cores_trans: "same_cores as as1 \<Longrightarrow> same_cores as1 as2 \<Longrightarrow> same_cores as as2"
  by (simp add: same_cores_def)

lemma same_cores_map: "(\<And>a. app_core (f a) = app_core a) \<Longrightarrow> same_cores as (map f as)"
  by (simp add: same_cores_def)

lemma same_cores_list: "same_cores as as1 \<Longrightarrow> list_all2 (\<lambda>a b. app_core a = app_core b) as1 as"
  by (auto simp: same_cores_def list_all2_conv_all_nth map_equality_iff)

lemma map_core_eq:
  assumes "same_cores as as1" "\<And>a b. app_core a = app_core b \<Longrightarrow> f a = f b"
  shows "map f as1 = map f as"
  using same_cores_list [OF assms(1)] by (induction rule: list_all2_induct) (auto intro: assms(2))

lemma same_cores_rows:
  assumes "same_cores as as1"
  shows "rows_ok rids n as1 = rows_ok rids n as"
proof -
  have "map app_id as1 = map app_id as" "map app_pair as1 = map app_pair as"
    "map app_recruitment as1 = map app_recruitment as"
    by (rule map_core_eq [OF assms]; simp add: app_core_def app_pair_def)+
  then show ?thesis by (simp add: rows_ok_def del: list.pred_map)
qed

lemma same_cores_count:
  assumes "same_cores as as1"
  shows "status_count rid P as1 = status_count rid P as"
  using same_cores_list [OF assms] unfolding status_count_def
  by (induction rule: list_all2_induct) (auto simp: app_core_def in_status_def)

lemma same_cores_codes:
  assumes "same_cores as as1" "codes_ok as" "tbl_ok app_id as"
  shows "codes_ok as1"
proof -
  have ids: "map app_id as1 = map app_id as"
    by (rule map_core_eq [OF assms(1)]) (simp add: app_core_def)
  from same_cores_list [OF assms(1)] have "map (\<lambda>a. (app_recruitment a, app_pass_code a)) (filter (\<lambda>a. app_pass_code a \<noteq> []) as1)
      = map (\<lambda>a. (app_recruitment a, app_pass_code a)) (filter (\<lambda>a. app_pass_code a \<noteq> []) as)"
    by (induction rule: list_all2_induct) (auto simp: app_core_def)
  then have "pass_codes_unique as1 = pass_codes_unique as" by (simp add: pass_codes_unique_def)
  moreover have "tbl_ok app_id as1" using assms(3) ids by (simp add: tbl_ok_def)
  ultimately show ?thesis using codes_ok_iff assms(2,3) by blast
qed

lemma same_cores_agree: "same_cores as as1 \<Longrightarrow> counters_agree as r \<Longrightarrow> counters_agree as1 r"
  by (simp add: counters_agree_def same_cores_count)

text \<open>The invariant after an edit of one row that keeps its counters.\<close>

definition same_counters :: "recruitment \<Rightarrow> recruitment \<Rightarrow> bool" where
  "same_counters r r1 \<longleftrightarrow> rec_id r1 = rec_id r
     \<and> rec_applications_count r1 = rec_applications_count r
     \<and> rec_confirmed_count r1 = rec_confirmed_count r \<and> rec_selected_count r1 = rec_selected_count r"

lemma same_counters_refl [simp]: "same_counters r r"
  by (simp add: same_counters_def)

lemma same_counters_trans: "same_counters r r1 \<Longrightarrow> same_counters r1 r2 \<Longrightarrow> same_counters r r2"
  by (simp add: same_counters_def)

lemma same_counters_agree: "same_counters r r1 \<Longrightarrow> counters_agree as r \<Longrightarrow> counters_agree as r1"
  by (simp add: same_counters_def counters_agree_def)

lemma rows_ok_mono: "rows_ok rids n as \<Longrightarrow> n \<le> m \<Longrightarrow> rows_ok rids m as"
  by (auto simp: rows_ok_def list_all_iff)

lemma edit_ok:
  assumes ok: "rec_ok s" and cur: "cur \<in> set (recruitments s)" and r: "same_counters cur r" "below_cap r"
    and s': "recruitments s' = tbl_save rec_id r (recruitments s)" "rec_fresh s \<le> rec_fresh s'"
    "same_cores (applications s) (applications s')"
  shows "rec_ok s'"
proof -
  have ids: "map rec_id (recruitments s') = map rec_id (recruitments s)" by (simp add: s' del: map_eq_conv)
  have "counters_agree (applications s') x \<and> below_cap x" if "x \<in> set (recruitments s')" for x
  proof (cases "x = r")
    case True
    then show ?thesis
      using ok cur r same_cores_agree [OF s'(3)] same_counters_agree [OF r(1)] by (simp add: rec_ok_def)
  next
    case False
    with that have "x \<in> set (recruitments s)" by (auto simp: s' set_tbl_save)
    then show ?thesis using ok same_cores_agree [OF s'(3)] by (simp add: rec_ok_def)
  qed
  moreover have "rows_ok (map rec_id (recruitments s)) (rec_fresh s') (applications s')"
    using ok s' rows_ok_mono unfolding rec_ok_def same_cores_rows [OF s'(3)] by blast
  moreover have "codes_ok (applications s')"
    using ok same_cores_codes [OF s'(3)] by (simp add: rec_ok_def rows_ok_def tbl_ok_def)
  ultimately show ?thesis using ok unfolding rec_ok_def ids by blast
qed

section \<open>The child tables\<close>

lemma drop_sessions_cores: "same_cores as (drop_sessions removed as)"
  unfolding drop_sessions_def
  by (rule same_cores_map) (auto simp: app_core_def split: option.splits)

lemma clear_reminders_cores: "same_cores as (clear_reminders r moved as)"
  unfolding clear_reminders_def
  by (auto simp: app_core_def intro!: same_cores_map)

lemma drop_categories_cores: "same_cores as (drop_categories removed as)"
  unfolding drop_categories_def
  by (rule same_cores_map) (auto simp: app_core_def split: option.splits)

lemma sync_session_fresh:
  "sync_session goc existing idx d ss = Inr ss1 \<Longrightarrow> ss_fresh ss \<le> ss_fresh ss1"
  by (auto simp: sync_session_def res_bind_eq_Inr split: option.splits if_splits)

lemma sync_sessions_fresh:
  "sync_sessions_from goc existing idx ds ss = Inr ss1 \<Longrightarrow> ss_fresh ss \<le> ss_fresh ss1"
  by (induction ds arbitrary: idx ss) (auto simp: res_bind_eq_Inr dest!: sync_session_fresh intro: le_trans)

text \<open>A completed \<open>sync_trial_sessions\<close>, taken apart.\<close>

lemma sync_trial_sessions_cases:
  assumes "sync_trial_sessions goc data r s = Inr (ss1, r1, s1)"
  obtains ss removed where
    "sync_sessions_from goc (rec_sessions r) 0 data (session_sync_start (rec_fresh s)) = Inr ss"
    "removed = filter (\<lambda>i. i \<notin> set (map ts_id (ss_update ss))) (map ts_id (rec_sessions r))"
    "ss_update ss1 = ss_update ss" "ss_create ss1 = ss_create ss" "ss_moved ss1 = ss_moved ss"
    "ss_refs ss1 = ss_refs ss"
    "r1 = r\<lparr>rec_sessions := updated_sessions (rec_sessions r) ss,
            rec_categories := unlink_sessions removed (rec_categories r)\<rparr>"
    "s1 = s\<lparr>applications := clear_reminders r1 (ss_moved ss) (drop_sessions removed (applications s)),
            rec_fresh := ss_fresh ss\<rparr>"
proof -
  from assms obtain ss where ss: "sync_sessions_from goc (rec_sessions r) 0 data
      (session_sync_start (rec_fresh s)) = Inr ss"
    by (auto simp: sync_trial_sessions_def res_bind_eq_Inr)
  let ?removed = "filter (\<lambda>i. i \<notin> set (map ts_id (ss_update ss))) (map ts_id (rec_sessions r))"
  let ?ss1 = "if ?removed = [] then ss else ss\<lparr>ss_changes := ss_changes ss \<union> {SessionRemoved}\<rparr>"
  from assms ss have out: "ss1 = ?ss1" "r1 = r\<lparr>rec_sessions := updated_sessions (rec_sessions r) ?ss1,
            rec_categories := unlink_sessions ?removed (rec_categories r)\<rparr>"
    "s1 = s\<lparr>applications := clear_reminders r1 (ss_moved ?ss1) (drop_sessions ?removed (applications s)),
            rec_fresh := ss_fresh ?ss1\<rparr>"
    unfolding sync_trial_sessions_def Let_def by (auto simp only: res_bind_simps sum.inject prod.inject)
  have same: "ss_update ?ss1 = ss_update ss" "ss_create ?ss1 = ss_create ss" "ss_moved ?ss1 = ss_moved ss"
    "ss_refs ?ss1 = ss_refs ss" "ss_fresh ?ss1 = ss_fresh ss" by (simp_all split: if_split)
  then have "updated_sessions xs ?ss1 = updated_sessions xs ss" for xs
    by (simp only: updated_sessions_def)
  with out same show ?thesis by (intro that [OF ss refl]) (simp_all only:)
qed

lemma sync_trial_sessions_effect:
  assumes "sync_trial_sessions goc data r s = Inr (ss1, r1, s1)"
  shows "same_counters r r1 \<and> rec_max_applications r1 = rec_max_applications r
    \<and> recruitments s1 = recruitments s \<and> rec_fresh s \<le> rec_fresh s1
    \<and> same_cores (applications s) (applications s1) \<and> histories s1 = histories s"
  using assms
proof (cases rule: sync_trial_sessions_cases)
  case (1 ss removed)
  have "rec_fresh s \<le> ss_fresh ss"
    using sync_sessions_fresh [OF 1(1)] by (simp add: session_sync_start_def)
  then show ?thesis
    using same_cores_trans [OF drop_sessions_cores clear_reminders_cores]
    by (simp add: 1(7,8) same_counters_def)
qed

lemma sync_trial_window_effect:
  "sync_trial_window db dz r = Inr r1 \<Longrightarrow>
   same_counters r r1 \<and> rec_max_applications r1 = rec_max_applications r"
  by (auto simp: sync_trial_window_def Let_def same_counters_def split: prod.splits if_splits)

lemma sync_categories_fresh:
  "sync_categories_from refs existing idx ds (us, cs, n) = Inr (us1, cs1, n1) \<Longrightarrow> n \<le> n1"
proof (induction ds arbitrary: idx us cs n)
  case (Cons d ds)
  then show ?case by (fastforce simp: res_bind_eq_Inr split: option.splits if_splits)
qed simp

lemma sync_age_categories_effect:
  "sync_age_categories refs data r s = Inr (r1, s1) \<Longrightarrow>
   same_counters r r1 \<and> rec_max_applications r1 = rec_max_applications r
   \<and> recruitments s1 = recruitments s \<and> rec_fresh s \<le> rec_fresh s1
   \<and> same_cores (applications s) (applications s1) \<and> histories s1 = histories s"
  by (auto simp: sync_age_categories_def res_bind_eq_Inr Let_def same_counters_def drop_categories_cores
      split: if_splits dest: sync_categories_fresh)

text \<open>The columns of the row no child table and no payload field touches.\<close>

definition row_rest :: "recruitment \<Rightarrow> recruitment_status \<times> bool \<times> instant option \<times> oid" where
  "row_rest r = (rec_status r, rec_is_deleted r, rec_published_at r, rec_org r)"

text \<open>All child tables together.\<close>

lemma sync_children_cases:
  assumes "sync_children db dz goc d r s = Inr (changes, r', s')"
  obtains r0 s0 ss r1 s1 r2 s2 where
    "rec_sessions r0 = rec_sessions r" "rec_categories r0 = rec_categories r" "same_counters r r0"
    "rec_max_applications r0 = rec_max_applications r" "applications s0 = applications s"
    "recruitments s0 = recruitments s" "rec_fresh s \<le> rec_fresh s0" "histories s0 = histories s"
    "answers s0 = filter (\<lambda>x. ans_question x \<notin> set (map q_id (rec_questions r))) (answers s)"
    "sync_trial_sessions goc (ed_sessions d) r0 s0 = Inr (ss, r1, s1)"
    "sync_trial_window db dz r1 = Inr r2"
    "sync_age_categories (ss_refs ss) (ed_categories d) r2 s1 = Inr (r', s2)"
    "changes = ss_changes ss" "s' = save_recruitment r' s2" "row_rest r0 = row_rest r"
proof -
  from assms obtain r0 s0 ss r1 s1 r2 s2 where pre:
      "r0 = sync_eligibility_criteria (ed_criteria d) (sync_requirements (ed_requirements d)
          (sync_benefits (ed_benefits d) (sync_contacts (ed_contacts d)
            (fst (sync_media (ed_media d) (fst (sync_questions (ed_questions d)
              (r\<lparr>rec_positions := ed_positions d\<rparr>) s)))))))"
      "s0 = rec_emit (snd (sync_media (ed_media d) (fst (sync_questions (ed_questions d)
              (r\<lparr>rec_positions := ed_positions d\<rparr>) s))))
            (snd (sync_questions (ed_questions d) (r\<lparr>rec_positions := ed_positions d\<rparr>) s))"
    and rest: "sync_trial_sessions goc (ed_sessions d) r0 s0 = Inr (ss, r1, s1)"
    "sync_trial_window db dz r1 = Inr r2"
    "sync_age_categories (ss_refs ss) (ed_categories d) r2 s1 = Inr (r', s2)"
    "changes = ss_changes ss" "s' = save_recruitment r' s2"
    unfolding sync_children_def
    by (auto simp: res_bind_eq_Inr Let_def sync_positions_def split_beta split: if_splits)
  show ?thesis
    by (rule that [OF _ _ _ _ _ _ _ _ _ rest])
      (simp_all add: pre row_rest_def sync_eligibility_criteria_def sync_requirements_def sync_benefits_def
        sync_contacts_def sync_media_def sync_questions_def rec_emit_def Let_def same_counters_def)
qed

lemma sync_children_effect:
  assumes "sync_children db dz goc d r s = Inr (changes, r', s')"
  shows "same_counters r r' \<and> rec_max_applications r' = rec_max_applications r
    \<and> recruitments s' = tbl_save rec_id r' (recruitments s) \<and> rec_fresh s \<le> rec_fresh s'
    \<and> same_cores (applications s) (applications s') \<and> histories s' = histories s"
  using assms
proof (cases rule: sync_children_cases)
  case (1 r0 s0 ss r1 s1 r2 s2)
  note ts = sync_trial_sessions_effect [OF 1(10)] and tw = sync_trial_window_effect [OF 1(11)]
    and ac = sync_age_categories_effect [OF 1(12)]
  have "same_counters r r'" "rec_max_applications r' = rec_max_applications r"
    using 1(3,4) ts tw ac by (auto intro: same_counters_trans)
  moreover have "same_cores (applications s) (applications s2)"
    using 1(5) ts ac by (auto intro: same_cores_trans)
  ultimately show ?thesis using 1(6,7,8,14) ts ac by (simp add: save_recruitment_def)
qed

section \<open>Editing and creating\<close>

lemma set_scalar_counters: "same_counters r (set_scalar e r)"
  by (cases e) (simp_all add: same_counters_def)

lemma fold_scalar_counters: "same_counters r (fold set_scalar es r)"
  by (induction es arbitrary: r) (auto intro: same_counters_trans set_scalar_counters)

text \<open>The cap after the payload is the payload's, or the one before.\<close>

lemma set_scalar_max:
  "rec_max_applications (set_scalar e r)
   = (case e of SetMaxApplications x \<Rightarrow> x | _ \<Rightarrow> rec_max_applications r)"
  by (cases e) simp_all

lemma fold_scalar_max:
  "rec_max_applications (fold set_scalar es r) = get_max_applications es
   \<or> rec_max_applications (fold set_scalar es r) = rec_max_applications r"
proof (induction es rule: rev_induct)
  case (snoc e es)
  then show ?case
    by (cases e) (auto simp: set_scalar_max get_max_applications_def)
qed simp

lemma edit_guard_max:
  assumes "edit_guard loaded d = Inr ()" "get_max_applications (ed_scalars d) = Some m"
  shows "rec_applications_count loaded \<le> m"
  using assms by (auto simp: edit_guard_def split: if_splits)

lemma clear_fee_fields [simp]:
  "same_counters r (clear_fee r)" "rec_max_applications (clear_fee r) = rec_max_applications r"
  by (simp_all add: clear_fee_def same_counters_def)

lemma update_recruitment_cases:
  assumes "update_recruitment db dz goc cf ct sports loaded d s = Inr (out, s')"
  obtains lf r cur changes r' where "edit_guard loaded d = Inr ()"
    "r = clear_fee (fold set_scalar (ed_scalars d) (set_location lf (loaded\<lparr>rec_sport := ed_sport d\<rparr>)))"
    "checked_row db r = Inr r" "tbl_get rec_id (recruitments s) (rec_id loaded) = Some cur"
    "sync_children db dz goc d (with_children cur r) s = Inr (changes, r', s')" "fst out = r'"
proof -
  have "checked_row db x = Inr y \<Longrightarrow> y = x" for x y
    by (auto simp: checked_row_def res_bind_eq_Inr split: if_splits)
  with assms that show ?thesis
    by (auto simp: update_recruitment_def res_bind_eq_Inr Let_def split: if_splits option.splits) metis+
qed

lemma edited_row_counters:
  "same_counters loaded (with_children cur (clear_fee (fold set_scalar es
     (set_location lf (loaded\<lparr>rec_sport := sp\<rparr>)))))"
proof -
  let ?r0 = "set_location lf (loaded\<lparr>rec_sport := sp\<rparr>)"
  have "same_counters loaded ?r0" by (simp add: set_location_def same_counters_def)
  moreover have "same_counters ?r0 (clear_fee (fold set_scalar es ?r0))"
    using fold_scalar_counters clear_fee_fields(1) by (rule same_counters_trans)
  ultimately show ?thesis
    by (auto simp: with_children_def same_counters_def)
qed

lemma update_recruitment_ok:
  assumes ok: "rec_ok s" and fresh: "loaded \<in> set (recruitments s)"
    and run: "update_recruitment db dz goc cf ct sports loaded d s = Inr (out, s')"
  shows "rec_ok s'"
  using run
proof (cases rule: update_recruitment_cases)
  case (1 lf r cur changes r')
  note sc = sync_children_effect [OF 1(5)]
  have counters: "same_counters loaded r'"
    using sc edited_row_counters [of loaded cur "ed_scalars d" lf "ed_sport d"] 1(2)
    by (auto intro: same_counters_trans)
  have "rec_max_applications r' = rec_max_applications (fold set_scalar (ed_scalars d)
      (set_location lf (loaded\<lparr>rec_sport := ed_sport d\<rparr>)))"
    using sc 1(2) by (simp add: with_children_def)
  then have "rec_max_applications r' = get_max_applications (ed_scalars d)
      \<or> rec_max_applications r' = rec_max_applications loaded"
    using fold_scalar_max [of "ed_scalars d" "set_location lf (loaded\<lparr>rec_sport := ed_sport d\<rparr>)"]
    by (simp add: set_location_def)
  moreover have "below_cap loaded" using ok fresh by (simp add: rec_ok_def)
  ultimately have "below_cap r'"
    using counters edit_guard_max [OF 1(1)] by (auto simp: below_cap_def same_counters_def split: option.splits)
  then show ?thesis using sc edit_ok [OF ok fresh counters] by blast
qed

lemma create_recruitment_ok:
  assumes ok: "rec_ok s" and "\<forall>r \<in> set (recruitments s). rec_id r < rec_fresh s"
    and run: "create_recruitment db dz dn goc cf ct sports now oi st d s = Inr (r', s')"
  shows "rec_ok s'"
proof -
  define status where "status = (case st of Some x \<Rightarrow> x | None \<Rightarrow> Active)"
  define published where "published = (if status = Active then Some now else None)"
  from run obtain lf r changes where row: "checked_row db (fold set_scalar (ed_scalars d) (set_location lf
        (blank_recruitment (rec_fresh s) oi (ed_sport d) status published dn))) = Inr r"
    and sync: "sync_children db dz goc d r
        (s\<lparr>recruitments := tbl_insert r (recruitments s), rec_fresh := Suc (rec_fresh s)\<rparr>)
      = Inr (changes, r', s')"
    unfolding create_recruitment_def Let_def status_def [symmetric] published_def [symmetric]
    by (auto simp: res_bind_eq_Inr split: if_splits)
  let ?b = "set_location lf (blank_recruitment (rec_fresh s) oi (ed_sport d) status published dn)"
  let ?s1 = "s\<lparr>recruitments := tbl_insert r (recruitments s), rec_fresh := Suc (rec_fresh s)\<rparr>"
  have r: "r = fold set_scalar (ed_scalars d) ?b"
    using row by (auto simp: checked_row_def res_bind_eq_Inr split: if_splits)
  have b: "same_counters ?b r" unfolding r by (rule fold_scalar_counters)
  then have new: "rec_id r = rec_fresh s" "rec_applications_count r = 0" "rec_confirmed_count r = 0"
    "rec_selected_count r = 0"
    by (simp_all add: same_counters_def set_location_def blank_recruitment_def)
  have notin: "rec_fresh s \<notin> rec_id ` set (recruitments s)" using assms(2) by auto
  have none: "status_count (rec_fresh s) P (applications s) = 0" for P
  proof -
    have "app_recruitment a \<in> rec_id ` set (recruitments s)" if "a \<in> set (applications s)" for a
      using ok that by (simp add: rec_ok_def rows_ok_def list_all_iff)
    with notin have "\<forall>a \<in> set (applications s). app_recruitment a \<noteq> rec_fresh s" by metis
    then show ?thesis by (simp add: status_count_def tbl_count_def in_status_def filter_empty_conv)
  qed
  have "rows_ok (map rec_id (recruitments ?s1)) (rec_fresh ?s1) (applications ?s1)"
    using ok by (auto simp: rec_ok_def rows_ok_def list_all_iff tbl_insert_def less_SucI)
  moreover have "counters_agree (applications s) r" "below_cap r"
    using new none by (simp_all add: counters_agree_def below_cap_def split: option.splits)
  ultimately have ok1: "rec_ok ?s1"
    using ok notin new by (auto simp: rec_ok_def tbl_insert_def)
  note sc = sync_children_effect [OF sync]
  have "r \<in> set (recruitments ?s1)" by (simp add: tbl_insert_def)
  moreover have "below_cap r'" using sc \<open>below_cap r\<close>
    by (auto simp: below_cap_def same_counters_def split: option.splits)
  ultimately show ?thesis using sc edit_ok [OF ok1] by blast
qed

section \<open>Columns of one row\<close>

text \<open>An update of columns no law counts.\<close>

lemma update_row_ok:
  assumes ok: "rec_ok s" and f: "\<And>r. same_counters r (f r)"
    "\<And>r. rec_max_applications (f r) = rec_max_applications r"
  shows "rec_ok (update_row rid f s)"
proof -
  let ?g = "\<lambda>r. if rec_id r = rid then f r else r"
  have g: "same_counters r (?g r)" "rec_max_applications (?g r) = rec_max_applications r" for r
    using f by simp_all
  have "recruitments (update_row rid f s) = map ?g (recruitments s)" by (simp add: update_row_def)
  then have ids: "map rec_id (recruitments (update_row rid f s)) = map rec_id (recruitments s)"
    using g by (simp add: same_counters_def)
  have "counters_agree (applications s) x \<and> below_cap x"
    if "x \<in> set (recruitments (update_row rid f s))" for x
  proof -
    from that obtain r where r: "r \<in> set (recruitments s)" "x = ?g r" by (auto simp: update_row_def)
    then show ?thesis
      using ok g [of r] same_counters_agree [OF g(1)] unfolding r(2)
      by (auto simp: rec_ok_def below_cap_def same_counters_def split: option.splits if_splits)
  qed
  then show ?thesis using ok unfolding rec_ok_def ids by (simp add: update_row_def)
qed

lemma change_recruitment_status_ok:
  "rec_ok s \<Longrightarrow> change_recruitment_status now loaded st s = Inr (r, s') \<Longrightarrow> rec_ok s'"
  by (auto simp: change_recruitment_status_def same_counters_def split: if_splits intro!: update_row_ok)

lemma moderator_delete_ok: "rec_ok s \<Longrightarrow> rec_ok (snd (moderator_delete_recruitment now loaded s))"
  by (auto simp: moderator_delete_recruitment_def same_counters_def intro!: update_row_ok)

lemma delete_recruitment_cases:
  assumes "delete_recruitment now ao loaded raw_note s = Inr (r1, s')"
  obtains m r where "require_deleter ao = Inr m" "r \<in> set (recruitments s)" "rec_id r = rec_id loaded"
    "\<not> rec_is_deleted r"
    "fst (delete_requirements now r s) \<Longrightarrow>
       delete_note_min \<le> length (py_strip raw_note) \<and> length (py_strip raw_note) \<le> delete_note_max"
    "r1 = r\<lparr>rec_is_deleted := True, rec_deleted_at := Some now, rec_deleted_by := Some (member_id m),
       rec_deleted_note := (if fst (delete_requirements now r s) then py_strip raw_note else [])\<rparr>"
    "recruitments s' = tbl_save rec_id r1 (recruitments s)" "applications s' = applications s"
    "histories s' = histories s" "rec_fresh s' = rec_fresh s"
    "announcements s' = map (\<lambda>x. if ann_recruitment x = rec_id r \<and> \<not> ann_is_deleted x
       then x\<lparr>ann_is_deleted := True\<rparr> else x) (announcements s)"
    "rec_effects s' = rec_effects s
       @ (if fst (delete_requirements now r s) then [RemovedFanOut (rec_id r)] else [])"
proof -
  from assms obtain m r where m: "require_deleter ao = Inr m"
      and r: "tbl_get rec_id (recruitments s) (rec_id loaded) = Some r"
    by (auto simp: delete_recruitment_def res_bind_eq_Inr split: option.splits)
  have r': "r \<in> set (recruitments s)" "rec_id r = rec_id loaded"
    using tbl_get_in [OF r] tbl_get_key [OF r] by auto
  show ?thesis
    using assms m r r'
    by (intro that [OF m r'])
      (auto simp: delete_recruitment_def Let_def save_recruitment_def rec_emit_def split: if_splits)
qed

lemma delete_recruitment_ok:
  assumes ok: "rec_ok s" and run: "delete_recruitment now ao loaded raw_note s = Inr (r1, s')"
  shows "rec_ok s'"
  using run
proof (cases rule: delete_recruitment_cases)
  case (1 m r)
  have "same_counters r r1" "rec_max_applications r1 = rec_max_applications r"
    by (simp_all add: 1(6) same_counters_def)
  moreover have "below_cap r" using ok 1(2) by (simp add: rec_ok_def)
  ultimately have "below_cap r1" by (auto simp: below_cap_def same_counters_def split: option.splits)
  then show ?thesis
    using edit_ok [OF ok 1(2) \<open>same_counters r r1\<close>] 1(7,8,10) by simp
qed

section \<open>The derived dates\<close>

lemma insert_session_set: "set (insert_session x ys) = insert x (set ys)"
  by (induction ys) auto

lemma live_sessions_set: "set (live_sessions r) = {x \<in> set (rec_sessions r). \<not> ts_is_cancelled x}"
proof -
  have "set (foldr insert_session xs []) = set xs" for xs
    by (induction xs) (auto simp: insert_session_set)
  then show ?thesis by (simp add: live_sessions_def)
qed

abbreviation by_date :: "trial_session \<Rightarrow> trial_session \<Rightarrow> bool" where
  "by_date x y \<equiv> ts_date x \<le> ts_date y"

lemma session_before_date: "session_before x y \<Longrightarrow> by_date x y"
  by (auto simp: session_before_def split: if_splits)

lemma not_session_before_date: "\<not> session_before x y \<Longrightarrow> by_date y x"
  by (auto simp: session_before_def split: if_splits)

lemma insert_session_sorted:
  "sorted_wrt by_date ys \<Longrightarrow> sorted_wrt by_date (insert_session x ys)"
proof (induction ys)
  case (Cons y ys)
  then show ?case
    using session_before_date [of x y] not_session_before_date [of x y]
    by (auto simp: insert_session_set)
qed simp

lemma live_sessions_sorted: "sorted_wrt by_date (live_sessions r)"
proof -
  have "sorted_wrt by_date (foldr insert_session xs [])" for xs
    by (induction xs) (auto simp: insert_session_sorted)
  then show ?thesis by (simp add: live_sessions_def)
qed

lemma sorted_last: "sorted_wrt by_date xs \<Longrightarrow> x \<in> set xs \<Longrightarrow> by_date x (last xs)"
  by (induction xs) auto

end
