(* ===== verification/Trial_Feedback.thy ===== *)
theory Trial_Feedback
  imports Recruitment_Model
begin

text \<open>
  The player's own account of a trial: \<open>apps/recruitments/services/trial_feedback_service.py\<close>.
  \<open>a\<close> is the application the request loaded; \<open>save(update_fields=FEEDBACK_FIELDS)\<close> writes five columns
  of its row. The rating summary, a floating-point average, is not modelled.
\<close>

record feedback_data =
  fd_attended :: bool
  fd_outcome :: "self_outcome option"
  fd_rating :: "nat option"
  fd_feedback :: string

definition feedback_row :: "instant \<Rightarrow> feedback_data \<Rightarrow> application \<Rightarrow> application" where
  "feedback_row now d a =
     a\<lparr>app_attended := Some (fd_attended d), app_outcome := fd_outcome d, app_rating := fd_rating d,
       app_feedback := fd_feedback d, app_feedback_at := Some now\<rparr>"

definition submit_feedback ::
  "instant \<Rightarrow> application \<Rightarrow> feedback_data \<Rightarrow> rec_state \<Rightarrow> (application \<times> rec_state) result" where
  "submit_feedback now a d s =
     (case tbl_get rec_id (recruitments s) (app_recruitment a) of
        None \<Rightarrow> Inl DoesNotExist
      | Some r \<Rightarrow>
          res_bind (refuse_if_removed r) (\<lambda>_.
            Inr (feedback_row now d a,
                 s\<lparr>applications := map (\<lambda>x. if app_id x = app_id a then feedback_row now d x else x)
                     (applications s)\<rparr>)))"

end
