(* ===== verification/Recruitment_Machine.thy ===== *)
theory Recruitment_Machine
  imports Recruitment_Laws Trial_Feedback
begin

text \<open>
  Recruiting as a machine: one step is one completed call of a service. A call works on the row as it
  is (\<open>loaded\<close> is current); what a stale object does is the subject of separate theorems. Invariants:
  the counters, the cap, unique applications and codes (\<open>rec_ok\<close>), and a status history whose last
  row names the current status of every application.
\<close>

section \<open>History\<close>

definition latest_status :: "history_row list \<Rightarrow> nat \<Rightarrow> app_status option" where
  "latest_status hs i =
     fold (\<lambda>h acc. if hist_application h = i then Some (hist_to h) else acc) hs None"

lemma latest_status_Nil [simp]: "latest_status [] i = None"
  by (simp add: latest_status_def)

lemma latest_status_append [simp]:
  "latest_status (hs @ [h]) i =
   (if hist_application h = i then Some (hist_to h) else latest_status hs i)"
  by (simp add: latest_status_def)

definition app_statuses :: "application list \<Rightarrow> (nat \<times> app_status) list" where
  "app_statuses as = map (\<lambda>a. (app_id a, app_status a)) as"

definition history_agrees :: "history_row list \<Rightarrow> application list \<Rightarrow> bool" where
  "history_agrees hs as \<longleftrightarrow> (\<forall>(i, st) \<in> set (app_statuses as). latest_status hs i = Some st)"

lemma history_agreesD: "history_agrees hs as \<Longrightarrow> a \<in> set as \<Longrightarrow> latest_status hs (app_id a) = Some (app_status a)"
  by (force simp: history_agrees_def app_statuses_def)

lemma history_agreesI:
  "(\<And>a. a \<in> set as \<Longrightarrow> latest_status hs (app_id a) = Some (app_status a)) \<Longrightarrow> history_agrees hs as"
  by (auto simp: history_agrees_def app_statuses_def)

lemma history_agrees_cores:
  assumes "same_cores as as1"
  shows "history_agrees hs as1 = history_agrees hs as"
proof -
  have "app_statuses as1 = app_statuses as"
    unfolding app_statuses_def by (rule map_core_eq [OF assms]) (simp add: app_core_def)
  then show ?thesis by (simp add: history_agrees_def)
qed

text \<open>
  The trail: every row's \<open>from\<close> is the \<open>to\<close> of the row before it for the same application (nothing for
  the first), the last row names the current status, and every confirmed application has a pass code.
\<close>

definition chained :: "history_row list \<Rightarrow> bool" where
  "chained hs \<longleftrightarrow>
     (\<forall>k < length hs. hist_from (hs ! k) = latest_status (take k hs) (hist_application (hs ! k)))"

lemma chained_Nil [simp]: "chained []"
  by (simp add: chained_def)

lemma chained_append [simp]:
  "chained (hs @ [h]) \<longleftrightarrow> chained hs \<and> hist_from h = latest_status hs (hist_application h)"
  by (auto simp: chained_def nth_append less_Suc_eq)

lemma latest_status_absent: "i \<notin> hist_application ` set hs \<Longrightarrow> latest_status hs i = None"
  by (induction hs rule: rev_induct) auto

definition pass_ok :: "app_status \<times> string \<Rightarrow> bool" where
  "pass_ok p \<longleftrightarrow> (fst p = TrialConfirmed \<longrightarrow> snd p \<noteq> []) \<and> (snd p \<noteq> [] \<longrightarrow> well_formed_code (snd p))"

definition pass_of :: "application \<Rightarrow> app_status \<times> string" where
  "pass_of a = (app_status a, app_pass_code a)"

definition passes_ok :: "application list \<Rightarrow> bool" where
  "passes_ok as \<longleftrightarrow> pass_ok ` set (map pass_of as) \<subseteq> {True}"

lemma passes_okD: "passes_ok as \<Longrightarrow> a \<in> set as \<Longrightarrow> pass_ok (pass_of a)"
  by (auto simp: passes_ok_def)

lemma passes_okI: "(\<And>a. a \<in> set as \<Longrightarrow> pass_ok (pass_of a)) \<Longrightarrow> passes_ok as"
  by (auto simp: passes_ok_def)

lemma passes_ok_save: "passes_ok as \<Longrightarrow> pass_ok (pass_of a) \<Longrightarrow> passes_ok (tbl_save app_id a as)"
  by (rule passes_okI) (auto simp: set_tbl_save dest: passes_okD)

lemma passes_ok_insert: "passes_ok as \<Longrightarrow> pass_ok (pass_of a) \<Longrightarrow> passes_ok (tbl_insert a as)"
  by (rule passes_okI) (auto simp: tbl_insert_def dest: passes_okD)

lemma passes_ok_cores: "same_cores as as1 \<Longrightarrow> passes_ok as1 = passes_ok as"
  unfolding passes_ok_def
  by (subst map_core_eq [of as as1 pass_of]) (simp_all add: app_core_def pass_of_def)

definition trail_ok :: "nat \<Rightarrow> history_row list \<Rightarrow> application list \<Rightarrow> bool" where
  "trail_ok n hs as \<longleftrightarrow> history_agrees hs as \<and> chained hs
     \<and> list_all (\<lambda>i. i < n) (map hist_application hs) \<and> passes_ok as"

lemma trail_ok_mono: "trail_ok n hs as \<Longrightarrow> n \<le> m \<Longrightarrow> trail_ok m hs as"
  by (auto simp: trail_ok_def list_all_iff)

lemma trail_ok_cores: "same_cores as as1 \<Longrightarrow> trail_ok n hs as1 = trail_ok n hs as"
  by (simp add: trail_ok_def history_agrees_cores passes_ok_cores)

text \<open>A saved row with its history row, and a new row with its first.\<close>

lemma trail_ok_save:
  assumes "trail_ok n hs as" "tbl_ok app_id as" "a \<in> set as" "app_id a1 = app_id a"
    "hist_application h = app_id a1" "hist_to h = app_status a1" "hist_from h = Some (app_status a)"
    "app_id a < n" "pass_ok (pass_of a) \<Longrightarrow> pass_ok (pass_of a1)"
  shows "trail_ok n (hs @ [h]) (tbl_save app_id a1 as)"
proof -
  have agrees: "history_agrees hs as" "pass_ok (pass_of a)"
    using assms(1,3) passes_okD by (auto simp: trail_ok_def)
  have "history_agrees (hs @ [h]) (tbl_save app_id a1 as)"
    using assms(5,6) by (intro history_agreesI) (auto simp: set_tbl_save history_agreesD [OF agrees(1)])
  then show ?thesis
    using assms history_agreesD [OF agrees(1) assms(3)] agrees(2)
    by (simp add: trail_ok_def passes_ok_save)
qed

lemma trail_ok_insert:
  assumes "trail_ok n hs as" "n \<notin> app_id ` set as" "app_id a1 = n" "hist_application h = n"
    "hist_to h = app_status a1" "hist_from h = None" "pass_ok (pass_of a1)"
  shows "trail_ok (Suc n) (hs @ [h]) (tbl_insert a1 as)"
proof -
  have agrees: "history_agrees hs as" using assms(1) by (simp add: trail_ok_def)
  have "history_agrees (hs @ [h]) (tbl_insert a1 as)"
    using assms(2-5) by (intro history_agreesI) (auto simp: tbl_insert_def image_iff history_agreesD [OF agrees])
  moreover have "latest_status hs n = None"
    using assms(1) by (intro latest_status_absent) (auto simp: trail_ok_def list_all_iff)
  ultimately show ?thesis
    using assms by (auto simp: trail_ok_def list_all_iff passes_ok_insert)
qed

section \<open>Codes once issued\<close>

definition codes_kept :: "application list \<Rightarrow> application list \<Rightarrow> bool" where
  "codes_kept as as1 \<longleftrightarrow>
     (\<forall>a \<in> set as. app_pass_code a \<noteq> [] \<longrightarrow>
        (\<exists>b \<in> set as1. app_id b = app_id a \<and> app_pass_code b = app_pass_code a))"

lemma codes_kept_refl [simp]: "codes_kept as as"
  by (auto simp: codes_kept_def)

lemma codes_kept_trans: "codes_kept as as1 \<Longrightarrow> codes_kept as1 as2 \<Longrightarrow> codes_kept as as2"
  unfolding codes_kept_def by metis

lemma codes_kept_save:
  assumes "tbl_ok app_id as" "a \<in> set as" "app_id a1 = app_id a"
    "app_pass_code a \<noteq> [] \<Longrightarrow> app_pass_code a1 = app_pass_code a"
  shows "codes_kept as (tbl_save app_id a1 as)"
  unfolding codes_kept_def
proof (intro ballI impI)
  fix x assume x: "x \<in> set as" "app_pass_code x \<noteq> []"
  show "\<exists>b \<in> set (tbl_save app_id a1 as). app_id b = app_id x \<and> app_pass_code b = app_pass_code x"
  proof (cases "app_id x = app_id a")
    case True
    then have "x = a" using tbl_row_eq [OF assms(1) x(1) assms(2)] by blast
    with assms x True show ?thesis by (intro bexI [of _ a1]) (auto simp: set_tbl_save)
  next
    case False
    with x assms(3) show ?thesis by (intro bexI [of _ x]) (auto simp: set_tbl_save)
  qed
qed

lemma codes_kept_cores:
  assumes "same_cores as as1"
  shows "codes_kept as as1"
  unfolding codes_kept_def
proof (intro ballI impI)
  fix a assume "a \<in> set as"
  then have "app_core a \<in> set (map app_core as)" by simp
  then have "app_core a \<in> app_core ` set as1"
    using assms unfolding same_cores_def by (metis set_map)
  then obtain b where "b \<in> set as1" "app_core b = app_core a" by auto
  then show "\<exists>b \<in> set as1. app_id b = app_id a \<and> app_pass_code b = app_pass_code a"
    by (auto simp: app_core_def)
qed

lemma with_code_stable:
  "with_code rng s a = Inr b \<Longrightarrow> app_pass_code a \<noteq> [] \<Longrightarrow> app_pass_code b = app_pass_code a"
  by (auto simp: with_code_def mint_for_def split: if_splits)

section \<open>The effect of each operation on history and codes\<close>

definition apps_follow :: "rec_state \<Rightarrow> rec_state \<Rightarrow> bool" where
  "apps_follow s s' \<longleftrightarrow>
     (trail_ok (rec_fresh s) (histories s) (applications s)
        \<longrightarrow> trail_ok (rec_fresh s') (histories s') (applications s'))
     \<and> codes_kept (applications s) (applications s')
     \<and> map rec_id (recruitments s) = take (length (recruitments s)) (map rec_id (recruitments s'))
     \<and> rec_fresh s \<le> rec_fresh s'
     \<and> list_all (\<lambda>i. i < rec_fresh s') (drop (length (recruitments s)) (map rec_id (recruitments s')))"

lemma apps_followI:
  assumes "trail_ok (rec_fresh s) (histories s) (applications s)
      \<Longrightarrow> trail_ok (rec_fresh s') (histories s') (applications s')"
    "codes_kept (applications s) (applications s')"
    "map rec_id (recruitments s') = map rec_id (recruitments s)" "rec_fresh s \<le> rec_fresh s'"
  shows "apps_follow s s'"
proof -
  have "length (recruitments s') = length (recruitments s)" using assms(3) by (metis length_map)
  then show ?thesis using assms by (simp add: apps_follow_def del: map_eq_conv)
qed

lemma apps_follow_edit:
  assumes "same_cores (applications s) (applications s')" "histories s' = histories s"
    "map rec_id (recruitments s') = map rec_id (recruitments s)" "rec_fresh s \<le> rec_fresh s'"
  shows "apps_follow s s'"
  using assms trail_ok_mono
  by (intro apps_followI) (auto simp: trail_ok_cores codes_kept_cores simp del: map_eq_conv)

lemma finish_apply_history:
  assumes "finish_apply tiers now r u v (a, hfrom, note_text, s) = (a', s')"
  shows "\<exists>h. histories s' = histories s @ [h] \<and> hist_application h = app_id a \<and> hist_to h = landing_status r
    \<and> hist_from h = hfrom"
proof -
  let ?s1 = "s\<lparr>answers := answers s @ answer_rows (app_id a) (v_answers v)\<rparr>"
  let ?s2 = "save_recruitment (counted r) ?s1"
  let ?h = "\<lparr>hist_application = app_id a, hist_from = hfrom, hist_to = landing_status r,
    hist_changed_by = None, hist_note = (if auto_confirms r then ''auto-confirmed'' else note_text)\<rparr>"
  define s3 where "s3 = ?s2\<lparr>histories := histories ?s2 @ [?h]\<rparr>"
  obtain al r1 s4 where alert: "claim_applicant_alert tiers now (counted r) s3 = (al, r1, s4)"
    by (cases "claim_applicant_alert tiers now (counted r) s3") auto
  have "\<exists>es. s' = rec_emit es s4"
    using assms unfolding finish_apply_def Let_def prod.case s3_def [symmetric] alert by blast
  moreover have "histories s4 = histories s3"
    using claim_applicant_alert_effect [OF alert] by (auto simp: save_recruitment_def)
  ultimately have "histories s' = histories s @ [?h]"
    by (auto simp: rec_emit_def s3_def save_recruitment_def)
  then show ?thesis by (intro exI [of _ ?h]) simp
qed

lemma with_code_pass:
  assumes run: "with_code rng s a = Inr b"
    and old: "app_pass_code a \<noteq> [] \<Longrightarrow> well_formed_code (app_pass_code a)"
  shows "pass_ok (pass_of b)"
proof (cases "app_status a = TrialConfirmed")
  case True
  with run have mint: "mint_for rng s a = Inr b" by (simp add: with_code_def)
  have "well_formed_code (app_pass_code b)"
    using mint_for_Inr(2,3) [OF mint] old by (cases "app_pass_code a = []") simp_all
  then show ?thesis using mint_for_Inr(1) [OF mint] by (simp add: pass_ok_def pass_of_def)
next
  case False
  with run have "b = a" by (simp add: with_code_def)
  with False old show ?thesis by (simp add: pass_ok_def pass_of_def)
qed

lemma rec_ok_app_id: "rec_ok s \<Longrightarrow> a \<in> set (applications s) \<Longrightarrow> app_id a < rec_fresh s"
  by (auto simp: rec_ok_def rows_ok_def list_all_iff)

lemma apply_follow:
  assumes ok: "rec_ok s" and run: "apply_to db dz rng tiers now actor u rid v s = Inr (a, s')"
  shows "apps_follow s s'"
  using run
proof (cases rule: apply_to_cases)
  case (1 r s1 session mm hfrom note_text sw)
  from apply_gate_social [OF 1(2)] obtain soc where s1: "s1 = s\<lparr>rec_social := soc\<rparr>" ..
  have gone: "case find_application s (rec_id r) u of None \<Rightarrow> True | Some x \<Rightarrow> app_status x = Withdrawn"
    using apply_gate_row [OF 1(2)] by (simp add: s1 find_application_def)
  have found: "find_application s1 = find_application s" by (rule ext)+ (simp add: s1 find_application_def)
  note row = write_application_row [OF 1(4)]
  from finish_apply_effect [OF 1(5)] obtain la where fin: "applications s' = applications sw"
      "rec_fresh s' = rec_fresh sw"
      "recruitments s' = tbl_save rec_id ((counted r)\<lparr>rec_last_alert_at := la\<rparr>) (recruitments sw)"
    by blast
  from finish_apply_history [OF 1(5)] obtain h where h: "histories s' = histories sw @ [h]"
      "hist_application h = app_id a" "hist_to h = landing_status r" "hist_from h = hfrom" by blast
  have ids: "map rec_id (recruitments s') = map rec_id (recruitments s)"
    using row by (simp add: fin(3) s1 del: map_eq_conv)
  note tok = rec_ok_tbl(2) [OF ok]
  from 1(4) show ?thesis
  proof (cases rule: write_application_cases)
    case (Revived old)
    have "find_application s (rec_id r) u = Some old" using Revived(1) by (simp add: found)
    then have old: "old \<in> set (applications s)" "app_status old = Withdrawn"
      using find_application_Some gone by auto
    have same: "app_id a = app_id old" "app_pass_code old \<noteq> [] \<Longrightarrow> app_pass_code a = app_pass_code old"
      using with_code_keeps [OF Revived(2)] with_code_stable [OF Revived(2)] by (auto simp: revived_def)
    have pass: "pass_ok (pass_of a)" if "pass_ok (pass_of old)"
      using that by (intro with_code_pass [OF Revived(2)]) (simp add: pass_ok_def pass_of_def revived_def)
    show ?thesis
    proof (rule apps_followI [OF _ _ ids])
      assume "trail_ok (rec_fresh s) (histories s) (applications s)"
      then show "trail_ok (rec_fresh s') (histories s') (applications s')"
        using trail_ok_save [OF _ tok old(1) same(1), of "rec_fresh s" "histories s" h] h row
          rec_ok_app_id [OF ok old(1)] pass old(2)
        by (simp add: fin Revived(3,4) s1)
    next
      show "codes_kept (applications s) (applications s')"
        using codes_kept_save [OF tok old(1) same] by (simp add: fin Revived(4) s1)
    qed (simp add: fin Revived(4) s1)
  next
    case Fresh
    have new: "app_id a = rec_fresh s" using with_code_keeps [OF Fresh(2)] by (auto simp: fresh_application_def s1)
    have notin: "rec_fresh s \<notin> app_id ` set (applications s)"
      using ok by (auto simp: rec_ok_def rows_ok_def list_all_iff)
    have pass: "pass_ok (pass_of a)"
      by (rule with_code_pass [OF Fresh(2)]) (simp add: fresh_application_def)
    show ?thesis
    proof (rule apps_followI [OF _ _ ids])
      assume "trail_ok (rec_fresh s) (histories s) (applications s)"
      then show "trail_ok (rec_fresh s') (histories s') (applications s')"
        using trail_ok_insert [OF _ notin new, of "histories s" h] h row pass
        by (simp add: fin Fresh(3,4) s1 new)
    next
      show "codes_kept (applications s) (applications s')"
        by (auto simp: fin Fresh(4) s1 codes_kept_def tbl_insert_def)
    qed (simp add: fin Fresh(4) s1)
  qed
qed

lemma move_counters_tables [simp]:
  "applications (move_counters rid da dc ds s) = applications s"
  "histories (move_counters rid da dc ds s) = histories s"
  "map rec_id (recruitments (move_counters rid da dc ds s)) = map rec_id (recruitments s)"
  "rec_fresh (move_counters rid da dc ds s) = rec_fresh s"
  by (simp_all add: move_counters_eq)

lemma withdraw_follow:
  assumes ok: "rec_ok s" and run: "withdraw u aid s = Inr (a1, s')"
  shows "apps_follow s s'"
  using run
proof (cases rule: withdraw_cases)
  case (1 a r)
  note tok = rec_ok_tbl(2) [OF ok]
  show ?thesis
  proof (rule apps_followI)
    assume trail: "trail_ok (rec_fresh s) (histories s) (applications s)"
    have "trail_ok (rec_fresh s) (histories s @ [\<lparr>hist_application = aid, hist_from = Some (app_status a),
        hist_to = Withdrawn, hist_changed_by = None, hist_note = ''Withdrawn by applicant''\<rparr>])
        (tbl_save app_id a1 (applications s))"
      by (rule trail_ok_save [OF trail tok 1(1)])
        (use rec_ok_app_id [OF ok 1(1)] in \<open>auto simp: 1(2,5) pass_ok_def pass_of_def\<close>)
    then show "trail_ok (rec_fresh s') (histories s') (applications s')"
      unfolding 1(8) by simp
  next
    show "codes_kept (applications s) (applications s')"
      unfolding 1(8) using codes_kept_save [OF tok 1(1), of a1] by (simp add: 1(5))
  qed (simp_all add: 1(8) del: map_eq_conv)
qed

text \<open>The loop of \<open>change_status\<close> writes one history row for each row it moves.\<close>

definition batch_follow :: "nat \<Rightarrow> history_row list \<Rightarrow> application list \<Rightarrow> batch \<Rightarrow> bool" where
  "batch_follow n hs as b \<longleftrightarrow> tbl_ok app_id (b_apps b)
     \<and> list_all (\<lambda>i. i < n) (map app_id (b_apps b))
     \<and> (trail_ok n hs as \<longrightarrow> trail_ok n (hs @ b_history b) (b_apps b))
     \<and> codes_kept as (b_apps b)"

lemma change_one_follow:
  assumes ok: "batch_follow n hs as b" and run: "change_one rngs s now m rid to_status note_text aid b = Inr b'"
  shows "batch_follow n hs as b'"
  using run
proof (cases rule: change_one_cases)
  case (Skipped why)
  with ok show ?thesis by (simp add: batch_follow_def)
next
  case (Moved a a1)
  have tok: "tbl_ok app_id (b_apps b)" and less: "app_id a < n"
    using ok Moved(1) by (auto simp: batch_follow_def list_all_iff)
  from moved_application_keeps [OF Moved(6)] have same: "app_id a1 = app_id a" "app_status a1 = to_status"
    by auto
  have "codes_kept (b_apps b) (b_apps b')"
    unfolding Moved(7)
    using Moved(6) with_code_stable [of "rngs (app_id a)" s _ a1]
    by (intro codes_kept_save [OF tok Moved(1) same(1)]) (auto simp: moved_application_def)
  moreover have "trail_ok n (hs @ b_history b') (b_apps b')" if "trail_ok n (hs @ b_history b) (b_apps b)"
    unfolding Moved(7,13) append_assoc [symmetric]
  proof (rule trail_ok_save [OF that tok Moved(1) same(1)])
    assume "pass_ok (pass_of a)"
    then show "pass_ok (pass_of a1)"
      using Moved(6) unfolding moved_application_def
      by (intro with_code_pass) (auto simp: pass_ok_def pass_of_def)
  qed (simp_all add: same Moved(2) less [unfolded Moved(2)])
  moreover have "map app_id (b_apps b') = map app_id (b_apps b)" by (simp add: Moved(7) del: map_eq_conv)
  ultimately show ?thesis
    using ok codes_kept_trans unfolding batch_follow_def by (metis Moved(7) tbl_ok_save)
qed

lemma change_each_follow:
  "batch_follow n hs as b \<Longrightarrow> change_each rngs s now m rid to_status note_text ids b = Inr b'
   \<Longrightarrow> batch_follow n hs as b'"
  by (induction ids arbitrary: b) (auto simp: res_bind_eq_Inr intro: change_one_follow)

lemma rec_emit_tables [simp]:
  "applications (rec_emit es s) = applications s" "histories (rec_emit es s) = histories s"
  "recruitments (rec_emit es s) = recruitments s" "rec_fresh (rec_emit es s) = rec_fresh s"
  by (simp_all add: rec_emit_def)

lemma change_status_follow:
  assumes ok: "rec_ok s"
    and run: "change_status db dz rngs now m r ids requested note_text s = Inr (out, s')"
  shows "apps_follow s s'"
  using run
proof (cases rule: change_status_cases)
  case (1 to_status b)
  have "batch_follow (rec_fresh s) (histories s) (applications s) (batch_start (applications s))"
    using rec_ok_tbl(2) [OF ok] ok
    by (simp add: batch_follow_def batch_start_def rec_ok_def rows_ok_def)
  from change_each_follow [OF this 1(5)]
  have b: "batch_follow (rec_fresh s) (histories s) (applications s) b" .
  show ?thesis
    using b by (intro apps_followI) (simp_all add: 1(8) batch_follow_def del: map_eq_conv)
qed

text \<open>The fee and the feedback write columns no law reads.\<close>

lemma fee_one_cores:
  assumes "same_cores as (b_apps b)" "tbl_ok app_id (b_apps b)"
  shows "same_cores as (b_apps (fee_one now m rid paid aid b))
    \<and> tbl_ok app_id (b_apps (fee_one now m rid paid aid b))"
proof (cases "find (\<lambda>a. app_id a = aid \<and> app_recruitment a = rid) (b_apps b)")
  case (Some a)
  note row = find_eq_Some_conv [OF Some]
  have "map app_core (tbl_save app_id (a\<lparr>app_fee_paid := paid, app_fee_paid_at := x,
      app_fee_marked_by := y\<rparr>) (b_apps b)) = map app_core (b_apps b)" for x y
    by (rule map_tbl_save [OF assms(2) conjunct1 [OF row]]) (simp_all add: app_core_def)
  with assms Some show ?thesis by (simp add: fee_one_def same_cores_def)
qed (use assms in \<open>simp add: fee_one_def\<close>)

lemma fee_fold_cores:
  "same_cores as (b_apps b) \<Longrightarrow> tbl_ok app_id (b_apps b) \<Longrightarrow>
   same_cores as (b_apps (fold (fee_one now m rid paid) ids b))"
  by (induction ids arbitrary: b) (simp_all add: fee_one_cores)

lemma set_fee_paid_follow:
  assumes "rec_ok s" "set_fee_paid now m r ids paid s = Inr (out, s')"
  shows "apps_follow s s'"
proof -
  let ?b = "fold (fee_one now m (rec_id r) paid) ids (batch_start (applications s))"
  have s': "s' = s\<lparr>applications := b_apps ?b\<rparr>"
    using assms(2) by (simp add: set_fee_paid_def Let_def batch_start_def split: if_splits)
  have "same_cores (applications s) (b_apps ?b)"
    using rec_ok_tbl(2) [OF assms(1)] by (intro fee_fold_cores) (simp_all add: batch_start_def)
  then show ?thesis by (intro apps_follow_edit) (simp_all add: s')
qed

lemma submit_feedback_effect:
  assumes "submit_feedback now a d s = Inr (a1, s')"
  shows "same_cores (applications s) (applications s') \<and> recruitments s' = recruitments s
    \<and> histories s' = histories s \<and> rec_fresh s' = rec_fresh s"
  using assms
  by (auto simp: submit_feedback_def res_bind_eq_Inr feedback_row_def app_core_def
      split: option.splits intro!: same_cores_map)

lemma submit_feedback_ok:
  assumes ok: "rec_ok s" and run: "submit_feedback now a d s = Inr (a1, s')"
  shows "rec_ok s'"
proof -
  note e = submit_feedback_effect [OF run]
  then have cores: "same_cores (applications s) (applications s')" by blast
  have "codes_ok (applications s')"
    using ok same_cores_codes [OF cores] rec_ok_tbl(2) [OF ok] by (simp add: rec_ok_def)
  then show ?thesis
    using ok e same_cores_agree [OF cores] same_cores_rows [OF cores] by (simp add: rec_ok_def)
qed

lemma submit_feedback_follow: "submit_feedback now a d s = Inr (a1, s') \<Longrightarrow> apps_follow s s'"
  using submit_feedback_effect [of now a d s a1 s'] by (intro apps_follow_edit) simp_all

lemma update_recruitment_follow:
  assumes ok: "rec_ok s" and fresh: "loaded \<in> set (recruitments s)"
    and run: "update_recruitment db dz goc cf ct sports loaded d s = Inr (out, s')"
  shows "apps_follow s s'"
  using run
proof (cases rule: update_recruitment_cases)
  case (1 lf r cur changes r')
  note sc = sync_children_effect [OF 1(5)]
  show ?thesis
    using sc by (intro apps_follow_edit) (simp_all del: map_eq_conv)
qed

lemma create_recruitment_follow:
  assumes run: "create_recruitment db dz dn goc cf ct sports now oi st d s = Inr (r', s')"
  shows "apps_follow s s'"
proof -
  define status where "status = (case st of Some x \<Rightarrow> x | None \<Rightarrow> Active)"
  define published where "published = (if status = Active then Some now else None)"
  let ?b = "\<lambda>lf. set_location lf (blank_recruitment (rec_fresh s) oi (ed_sport d) status published dn)"
  from run obtain lf r changes where row: "checked_row db (fold set_scalar (ed_scalars d) (?b lf)) = Inr r"
    and sync: "sync_children db dz goc d r
        (s\<lparr>recruitments := tbl_insert r (recruitments s), rec_fresh := Suc (rec_fresh s)\<rparr>)
      = Inr (changes, r', s')"
    unfolding create_recruitment_def Let_def status_def [symmetric] published_def [symmetric]
    by (auto simp: res_bind_eq_Inr split: if_splits)
  have "r = fold set_scalar (ed_scalars d) (?b lf)"
    using row by (auto simp: checked_row_def res_bind_eq_Inr split: if_splits)
  then have "rec_id r = rec_fresh s"
    using fold_scalar_counters [of "?b lf" "ed_scalars d"]
    by (simp add: same_counters_def set_location_def blank_recruitment_def)
  with sync_children_effect [OF sync]
  have "map rec_id (recruitments s') = map rec_id (recruitments s) @ [rec_fresh s]" "Suc (rec_fresh s) \<le> rec_fresh s'"
    "histories s' = histories s" "same_cores (applications s) (applications s')"
    by (simp_all add: tbl_insert_def del: map_append) (simp add: same_counters_def)
  then show ?thesis
    using trail_ok_mono [of "rec_fresh s" _ _ "rec_fresh s'"]
    by (simp add: apps_follow_def trail_ok_cores codes_kept_cores)
qed

lemma update_row_follow:
  assumes "\<And>r. rec_id (f r) = rec_id r"
  shows "apps_follow s (update_row rid f s)"
  using assms by (intro apps_follow_edit) (auto simp: update_row_def)

lemma change_recruitment_status_follow:
  "change_recruitment_status now loaded st s = Inr (r, s') \<Longrightarrow> apps_follow s s'"
  by (auto simp: change_recruitment_status_def split: if_splits intro!: update_row_follow)

lemma apps_follow_refl: "apps_follow s s"
  by (rule apps_follow_edit) simp_all

lemma moderator_delete_follow: "apps_follow s (snd (moderator_delete_recruitment now loaded s))"
  by (auto simp: moderator_delete_recruitment_def intro!: update_row_follow apps_follow_refl)

lemma delete_recruitment_follow:
  assumes run: "delete_recruitment now ao loaded raw_note s = Inr (r1, s')"
  shows "apps_follow s s'"
  using run
proof (cases rule: delete_recruitment_cases)
  case (1 m r)
  then show ?thesis by (intro apps_follow_edit) (simp_all del: map_eq_conv)
qed

section \<open>The machine\<close>

inductive rec_step :: "rec_state \<Rightarrow> rec_state \<Rightarrow> bool" where
  step_apply: "apply_to db dz rng tiers now actor u rid v s = Inr (a, s') \<Longrightarrow> rec_step s s'"
| step_withdraw: "withdraw u aid s = Inr (a, s') \<Longrightarrow> rec_step s s'"
| step_change_status: "change_status db dz rngs now m r ids requested note_text s = Inr (out, s')
    \<Longrightarrow> rec_step s s'"
| step_fee: "set_fee_paid now m r ids paid s = Inr (out, s') \<Longrightarrow> rec_step s s'"
| step_feedback: "submit_feedback now a d s = Inr (a1, s') \<Longrightarrow> rec_step s s'"
| step_create: "create_recruitment db dz dn goc cf ct sports now oi st d s = Inr (r, s') \<Longrightarrow> rec_step s s'"
| step_edit: "loaded \<in> set (recruitments s) \<Longrightarrow>
    update_recruitment db dz goc cf ct sports loaded d s = Inr (out, s') \<Longrightarrow> rec_step s s'"
| step_status: "change_recruitment_status now loaded st s = Inr (r, s') \<Longrightarrow> rec_step s s'"
| step_moderator: "rec_step s (snd (moderator_delete_recruitment now loaded s))"
| step_delete: "delete_recruitment now ao loaded raw_note s = Inr (r, s') \<Longrightarrow> rec_step s s'"

text \<open>The database before its first recruitment.\<close>

definition rec_start :: "rec_state \<Rightarrow> bool" where
  "rec_start s \<longleftrightarrow> recruitments s = [] \<and> applications s = [] \<and> histories s = [] \<and> answers s = []"

definition rec_inv :: "rec_state \<Rightarrow> bool" where
  "rec_inv s \<longleftrightarrow> rec_ok s \<and> list_all (\<lambda>i. i < rec_fresh s) (map rec_id (recruitments s))
     \<and> trail_ok (rec_fresh s) (histories s) (applications s)"

lemma rec_inv_ids: "rec_inv s \<Longrightarrow> \<forall>r \<in> set (recruitments s). rec_id r < rec_fresh s"
  by (auto simp: rec_inv_def list_all_iff)

lemma rec_step_follow: "rec_ok s \<Longrightarrow> rec_step s s' \<Longrightarrow> apps_follow s s'"
  by (erule rec_step.cases)
    (auto intro: apply_follow withdraw_follow change_status_follow set_fee_paid_follow
      submit_feedback_follow create_recruitment_follow update_recruitment_follow
      change_recruitment_status_follow moderator_delete_follow delete_recruitment_follow)

lemma rec_step_ok:
  assumes inv: "rec_inv s" and step: "rec_step s s'"
  shows "rec_ok s'"
proof -
  have ok: "rec_ok s" using inv by (simp add: rec_inv_def)
  note ids = rec_inv_ids [OF inv]
  from step show ?thesis
    by cases (use ok ids in \<open>auto intro: apply_ok withdraw_ok change_status_ok set_fee_paid_ok
      submit_feedback_ok create_recruitment_ok update_recruitment_ok change_recruitment_status_ok
      moderator_delete_ok delete_recruitment_ok\<close>)
qed

lemma apps_follow_ids:
  assumes "apps_follow s s'" "list_all (\<lambda>i. i < rec_fresh s) (map rec_id (recruitments s))"
  shows "list_all (\<lambda>i. i < rec_fresh s') (map rec_id (recruitments s'))"
proof -
  let ?n = "length (recruitments s)" and ?ids = "map rec_id (recruitments s')"
  have "list_all (\<lambda>i. i < rec_fresh s') (take ?n ?ids)"
    using assms unfolding apps_follow_def by (metis (no_types, lifting) list.pred_mono_strong order_less_le_trans)
  moreover have "list_all (\<lambda>i. i < rec_fresh s') (drop ?n ?ids)"
    using assms(1) by (simp add: apps_follow_def del: list.pred_map)
  ultimately show ?thesis by (metis append_take_drop_id list_all_append)
qed

interpretation recruiting: safe_machine rec_start rec_step rec_inv
proof
  fix s assume "rec_start s"
  then show "rec_inv s"
    by (simp add: rec_start_def rec_inv_def rec_ok_def rows_ok_def codes_ok_def trail_ok_def history_agrees_def
        app_statuses_def passes_ok_def)
next
  fix s t assume "rec_inv s" "rec_step s t"
  then show "rec_inv t"
    using rec_step_ok [of s t] rec_step_follow [of s t] apps_follow_ids [of s t]
    by (auto simp: rec_inv_def apps_follow_def)
qed

text \<open>A code once issued stays with its application.\<close>

lemma codes_kept_run: "rec_step\<^sup>*\<^sup>* s t \<Longrightarrow> rec_inv s \<Longrightarrow> codes_kept (applications s) (applications t)"
proof (induction rule: rtranclp_induct)
  case (step t u)
  then have "rec_inv t" using recruiting.inv_run by blast
  with step have "codes_kept (applications t) (applications u)"
    using rec_step_follow [of t u] by (auto simp: rec_inv_def apps_follow_def)
  with step show ?case using codes_kept_trans by blast
qed simp

end
