(* ===== verification/Recruitment_Demo.thy ===== *)
theory Recruitment_Demo
  imports Recruitment_Machine
begin

text \<open>
  A small run of the recruiting machine: an organization in India posts an open trial on two dates with
  two places, three players apply, one withdraws and comes back, and the organization decides. The
  states are what the modelled calls return; the facts say that each call succeeded.
\<close>

section \<open>The parameters\<close>

definition india :: tz where
  "india = fixed_zone (5 * hour + 1800 * second)"

definition demo_db :: tzdb where
  "demo_db name = (if name = ''Asia/Kolkata'' then Some india else None)"

definition demo_goc :: "place \<Rightarrow> location option result" where
  "demo_goc p = Inr None"

definition no_objection :: "media_data \<Rightarrow> string option" where
  "no_objection m = None"

definition demo_rng :: "nat \<Rightarrow> rng" where
  "demo_rng seed k i = 7 * seed + 3 * k + i"

definition demo_owner :: member where
  "demo_owner = \<lparr>member_id = 1, member_org = 1, member_user = 11, member_role = Owner,
     member_status = MemberActive, member_joined_at = 0, member_added_by = None,
     member_removed_at = None, member_removed_by = None, member_overrides = no_overrides\<rparr>"

definition as_owner :: "actor option" where
  "as_owner = Some (OrgActor 1 (Some demo_owner))"

definition at_day :: "int \<Rightarrow> instant" where
  "at_day d = d * day_length"

section \<open>The post\<close>

definition demo_date :: "nat option \<Rightarrow> day \<Rightarrow> session_data" where
  "demo_date i d = \<lparr>sd_id = i, sd_ref = Some ''a'', sd_title = '''', sd_date = d,
     sd_start_time = Some (9 * hour), sd_end_time = None, sd_venue_name = ''Ground'',
     sd_venue_link = '''', sd_location = None, sd_is_cancelled = False, sd_display_order = None\<rparr>"

definition demo_question :: question_data where
  "demo_question = \<lparr>qd_question = ''Position?'', qd_field_type = ''text'', qd_is_required = True,
     qd_placeholder = '''', qd_help_text = '''', qd_options = []\<rparr>"

definition demo_edit :: "scalar_edit list \<Rightarrow> session_data list \<Rightarrow> edit_data" where
  "demo_edit es ds = \<lparr>ed_scalars = es, ed_sport = 3, ed_location = None, ed_positions = [],
     ed_questions = [demo_question], ed_media = [], ed_contacts = [], ed_benefits = [],
     ed_requirements = [], ed_criteria = [], ed_sessions = ds, ed_categories = []\<rparr>"

definition demo_scalars :: "scalar_edit list" where
  "demo_scalars = [SetType OpenTrial, SetTimezone ''Asia/Kolkata'', SetSessionMode ChooseOne,
     SetMaxApplications (Some 2)]"

definition no_recruitments :: rec_state where
  "no_recruitments = \<lparr>recruitments = [], applications = [], histories = [], answers = [],
     announcements = [], birth_years = (\<lambda>_. Some 2008), rec_social = demo0, rec_fresh = 1,
     rec_effects = []\<rparr>"

definition after :: "('a \<times> rec_state) result \<Rightarrow> rec_state" where
  "after m = (case m of Inl _ \<Rightarrow> no_recruitments | Inr (_, s) \<Rightarrow> s)"

definition outcome :: "('a \<times> rec_state) result \<Rightarrow> 'a" where
  "outcome m = fst (projr m)"

lemma after_run: "\<not> isl m \<Longrightarrow> m = Inr (outcome m, after m)"
  by (cases m) (auto simp: after_def outcome_def)

definition posting :: "(recruitment \<times> rec_state) result" where
  "posting = create_recruitment demo_db utc ''Asia/Kolkata'' demo_goc no_objection no_objection [3]
     (at_day 1) 1 None (demo_edit demo_scalars [demo_date None 10, demo_date None 12]) no_recruitments"

definition posted :: rec_state where "posted = after posting"

lemma posting_runs: "\<not> isl posting"
  by code_simp

section \<open>The applications\<close>

definition demo_data :: "nat option \<Rightarrow> apply_data" where
  "demo_data session = \<lparr>v_name = ''A'', v_email = ''a@x'', v_phone = ''1'', v_age_category = None,
     v_session = session, v_answers = [\<lparr>ad_question = 2, ad_options = [], ad_text = ''Keeper''\<rparr>]\<rparr>"

definition applying :: "uid \<Rightarrow> nat \<Rightarrow> rec_state \<Rightarrow> (application \<times> rec_state) result" where
  "applying u session s = apply_to demo_db utc (demo_rng u) applicant_alert_tiers (at_day 2)
     (UserActor u) u 1 (demo_data (Some session)) s"

definition applied :: rec_state where "applied = after (applying 21 3 posted)"

lemma applying_runs: "\<not> isl (applying 21 3 posted)"
  by code_simp

definition confirming :: "rec_state \<Rightarrow> ((nat list \<times> (nat \<times> skip_reason) list) \<times> rec_state) result" where
  "confirming s = change_status demo_db utc demo_rng (at_day 3) demo_owner (hd (recruitments s)) [5, 6, 5]
     TrialConfirmed ''See you there'' s"

definition confirmed :: rec_state where "confirmed = after (confirming applied)"

lemma confirming_runs: "\<not> isl (confirming applied)"
  by code_simp

lemma confirming_outcome: "outcome (confirming applied) = ([5], [(6, NotFound), (5, NoChange)])"
  by code_simp

section \<open>Reachable states\<close>

lemma no_recruitments_start: "rec_start no_recruitments"
  by (simp add: rec_start_def no_recruitments_def)

lemma posted_reach: "rec_step\<^sup>*\<^sup>* no_recruitments posted"
  using step_create [OF after_run [OF posting_runs, unfolded posting_def]]
  by (simp add: posted_def posting_def r_into_rtranclp)

lemma applied_reach: "rec_step\<^sup>*\<^sup>* no_recruitments applied"
  using posted_reach step_apply [OF after_run [OF applying_runs, unfolded applying_def]]
  unfolding applied_def applying_def by (rule rtranclp.rtrancl_into_rtrancl)

lemma confirmed_step: "rec_step applied confirmed"
  using step_change_status [OF after_run [OF confirming_runs, unfolded confirming_def]]
  by (simp add: confirmed_def confirming_def)

lemma confirmed_reach: "rec_step\<^sup>*\<^sup>* no_recruitments confirmed"
  using applied_reach confirmed_step by (rule rtranclp.rtrancl_into_rtrancl)

text \<open>What the reachable state holds.\<close>

lemma confirmed_application:
  obtains a where "a \<in> set (applications confirmed)" "app_applicant a = 21"
    "app_status a = TrialConfirmed" "app_pass_code a \<noteq> ''''"
proof -
  have "list_ex (\<lambda>a. app_applicant a = 21 \<and> app_status a = TrialConfirmed \<and> app_pass_code a \<noteq> '''')
      (applications confirmed)"
    by code_simp
  then show ?thesis using that by (auto simp: list_ex_iff)
qed

lemma confirmed_recruitment:
  obtains r where "r \<in> set (recruitments confirmed)" "rec_max_applications r = Some 2"
    "rec_confirmed_count r = 1"
proof -
  have "list_ex (\<lambda>r. rec_max_applications r = Some 2 \<and> rec_confirmed_count r = 1)
      (recruitments confirmed)"
    by code_simp
  then show ?thesis using that by (auto simp: list_ex_iff)
qed

end
