(* ===== verification/Recruitment_Properties.thy ===== *)
theory Recruitment_Properties
  imports Recruitment_Demo
begin

text \<open>
  What the recruitment services guarantee. The first group holds on every state a sequence of completed
  calls can reach; the second describes single calls.
\<close>

section \<open>Every reachable state\<close>

lemma reach_inv: "rec_start s0 \<Longrightarrow> rec_step\<^sup>*\<^sup>* s0 s \<Longrightarrow> rec_inv s"
  by (rule recruiting.inv_reachable)

lemma reach_ok: "rec_start s0 \<Longrightarrow> rec_step\<^sup>*\<^sup>* s0 s \<Longrightarrow> rec_ok s"
  using reach_inv by (auto simp: rec_inv_def)

text \<open>
  Property C1. On every reachable state the three counters a recruitment stores are the numbers of its
  applications that are not withdrawn, confirmed for the trial, and selected.
\<close>

theorem recruitment_counters_in_step:
  assumes "rec_start s0" and "rec_step\<^sup>*\<^sup>* s0 s" and "r \<in> set (recruitments s)"
  shows "rec_applications_count r
      = length (filter (\<lambda>a. app_recruitment a = rec_id r \<and> app_status a \<noteq> Withdrawn) (applications s))
    \<and> rec_confirmed_count r
      = length (filter (\<lambda>a. app_recruitment a = rec_id r \<and> app_status a = TrialConfirmed) (applications s))
    \<and> rec_selected_count r
      = length (filter (\<lambda>a. app_recruitment a = rec_id r \<and> app_status a = Selected) (applications s))"
  using reach_ok [OF assms(1,2)] assms(3)
  by (simp add: rec_ok_def counters_agree_def status_count_def tbl_count_def in_status_def [abs_def])

theorem recruitment_counters_in_step_witness:
  "\<exists>r \<in> set (recruitments confirmed). rec_confirmed_count r = 1 \<and> rec_confirmed_count r
     = length (filter (\<lambda>a. app_recruitment a = rec_id r \<and> app_status a = TrialConfirmed)
         (applications confirmed))"
  by (rule confirmed_recruitment)
    (use recruitment_counters_in_step [OF no_recruitments_start confirmed_reach] in blast)

text \<open>
  Property C23. A recruitment with a cap never holds more applications that are not withdrawn than the
  cap, on every reachable state: applying, reapplying and lowering the cap all respect it.
\<close>

theorem cap_never_exceeded:
  assumes "rec_start s0" and "rec_step\<^sup>*\<^sup>* s0 s" and "r \<in> set (recruitments s)"
    and "rec_max_applications r = Some m"
  shows "length (live_applications s (rec_id r)) \<le> m"
proof -
  have "below_cap r" "counters_agree (applications s) r"
    using reach_ok [OF assms(1,2)] assms(3) by (simp_all add: rec_ok_def)
  with assms(4) show ?thesis
    by (simp add: below_cap_def counters_agree_def status_count_def tbl_count_def in_status_def [abs_def]
        live_applications_def)
qed

theorem cap_never_exceeded_witness:
  "\<exists>r \<in> set (recruitments confirmed). rec_max_applications r = Some 2
     \<and> length (live_applications confirmed (rec_id r)) \<le> 2"
  by (rule confirmed_recruitment)
    (use cap_never_exceeded [OF no_recruitments_start confirmed_reach] in blast)

text \<open>
  On every reachable state a player has at most one application to a recruitment, and
  applications of one recruitment that hold a pass code hold different ones.
\<close>

theorem one_application_and_one_code:
  assumes "rec_start s0" and "rec_step\<^sup>*\<^sup>* s0 s"
    and "a \<in> set (applications s)" and "b \<in> set (applications s)"
    and "app_recruitment a = app_recruitment b"
    and "app_applicant a = app_applicant b \<or> app_pass_code a = app_pass_code b \<and> app_pass_code a \<noteq> ''''"
  shows "a = b"
  using assms(6)
proof
  have "distinct (map app_pair (applications s))"
    using reach_ok [OF assms(1,2)] by (simp add: rec_ok_def rows_ok_def)
  moreover assume "app_applicant a = app_applicant b"
  ultimately show ?thesis using assms(3-5) by (auto simp: distinct_map inj_on_def app_pair_def)
next
  have "codes_ok (applications s)" using reach_ok [OF assms(1,2)] by (simp add: rec_ok_def)
  moreover assume "app_pass_code a = app_pass_code b \<and> app_pass_code a \<noteq> ''''"
  ultimately show ?thesis using assms(3-5) unfolding codes_ok_def by blast
qed

theorem one_application_and_one_code_witness:
  "\<exists>a \<in> set (applications confirmed). app_applicant a = 21
     \<and> (\<forall>b \<in> set (applications confirmed). app_recruitment a = app_recruitment b
          \<and> app_applicant a = app_applicant b \<longrightarrow> a = b)"
  by (rule confirmed_application)
    (use one_application_and_one_code [OF no_recruitments_start confirmed_reach] in blast)

section \<open>The status trail\<close>

text \<open>A list of history rows that starts from \<open>prev\<close> and has no gap.\<close>

fun linked :: "app_status option \<Rightarrow> history_row list \<Rightarrow> bool" where
  "linked prev [] = True"
| "linked prev (h # hs) = (hist_from h = prev \<and> linked (Some (hist_to h)) hs)"

definition trail_of :: "nat \<Rightarrow> history_row list \<Rightarrow> history_row list" where
  "trail_of i hs = filter (\<lambda>h. hist_application h = i) hs"

lemma linked_append:
  "linked prev (hs @ [h]) \<longleftrightarrow>
   linked prev hs \<and> hist_from h = (if hs = [] then prev else Some (hist_to (last hs)))"
  by (induction hs arbitrary: prev) auto

lemma latest_status_trail:
  "latest_status hs i = (if trail_of i hs = [] then None else Some (hist_to (last (trail_of i hs))))"
  by (induction hs rule: rev_induct) (auto simp: trail_of_def)

lemma chained_trail: "chained hs \<Longrightarrow> linked None (trail_of i hs)"
proof (induction hs rule: rev_induct)
  case (snoc h hs)
  then show ?case
    using latest_status_trail [of hs i] by (simp add: trail_of_def linked_append)
qed (simp add: trail_of_def)

text \<open>
  Property C7. On every reachable state the history rows of an application are its complete life: the
  first starts from nothing, each starts from the status the one before it ended in, and the last ends
  in the status the application has now.
\<close>

theorem status_trail_is_complete:
  assumes "rec_start s0" and "rec_step\<^sup>*\<^sup>* s0 s" and "a \<in> set (applications s)"
  shows "linked None (trail_of (app_id a) (histories s)) \<and> trail_of (app_id a) (histories s) \<noteq> []
    \<and> hist_to (last (trail_of (app_id a) (histories s))) = app_status a"
proof -
  have "trail_ok (rec_fresh s) (histories s) (applications s)"
    using reach_inv [OF assms(1,2)] by (simp add: rec_inv_def)
  then have "chained (histories s)" "latest_status (histories s) (app_id a) = Some (app_status a)"
    using assms(3) by (auto simp: trail_ok_def dest: history_agreesD)
  then show ?thesis
    using chained_trail latest_status_trail [of "histories s" "app_id a"] by (auto split: if_splits)
qed

theorem status_trail_is_complete_witness:
  "\<exists>a \<in> set (applications confirmed). app_status a = TrialConfirmed
     \<and> linked None (trail_of (app_id a) (histories confirmed))
     \<and> hist_to (last (trail_of (app_id a) (histories confirmed))) = TrialConfirmed"
proof (rule confirmed_application)
  fix a assume a: "a \<in> set (applications confirmed)" "app_status a = TrialConfirmed"
  from status_trail_is_complete [OF no_recruitments_start confirmed_reach a(1)] a show ?thesis by auto
qed

section \<open>Pass codes\<close>

text \<open>
  Property C24. On every reachable state a player confirmed for a trial holds a pass code in the printed
  form (eight symbols of the alphabet around a hyphen), and no other application of the recruitment
  holds the same one.
\<close>

theorem confirmed_players_hold_a_pass:
  assumes "rec_start s0" and "rec_step\<^sup>*\<^sup>* s0 s" and "a \<in> set (applications s)"
    and "app_status a = TrialConfirmed"
  shows "well_formed_code (app_pass_code a)
    \<and> (\<forall>b \<in> set (applications s). app_recruitment b = app_recruitment a
         \<and> app_pass_code b = app_pass_code a \<longrightarrow> b = a)"
proof -
  have inv: "passes_ok (applications s)" "codes_ok (applications s)"
    using reach_inv [OF assms(1,2)] by (simp_all add: rec_inv_def trail_ok_def rec_ok_def)
  have "app_pass_code a \<noteq> []" "well_formed_code (app_pass_code a)"
    using passes_okD [OF inv(1) assms(3)] assms(4) by (simp_all add: pass_ok_def pass_of_def)
  then show ?thesis using inv(2) assms(3) unfolding codes_ok_def by metis
qed

theorem confirmed_players_hold_a_pass_witness:
  "\<exists>a \<in> set (applications confirmed). well_formed_code (app_pass_code a)"
  by (rule confirmed_application)
    (use confirmed_players_hold_a_pass [OF no_recruitments_start confirmed_reach] in blast)

text \<open>
  A pass code, once issued, stays with its application through every later sequence of
  calls: withdrawing, reapplying, moving, editing and deleting never change it or give it away.
\<close>

theorem pass_code_never_changes:
  assumes "rec_start s0" and "rec_step\<^sup>*\<^sup>* s0 s" and "rec_step\<^sup>*\<^sup>* s t"
    and "a \<in> set (applications s)" and "app_pass_code a \<noteq> ''''"
  shows "\<exists>b \<in> set (applications t). app_id b = app_id a \<and> app_pass_code b = app_pass_code a"
  using codes_kept_run [OF assms(3) reach_inv [OF assms(1,2)]] assms(4,5)
  unfolding codes_kept_def by blast

definition leaving :: "(application \<times> rec_state) result" where
  "leaving = withdraw 21 5 confirmed"

definition left :: rec_state where "left = after leaving"

lemma leaving_runs: "\<not> isl leaving"
  by code_simp

theorem pass_code_never_changes_witness:
  "\<exists>a \<in> set (applications confirmed). app_pass_code a \<noteq> ''''
     \<and> (\<exists>b \<in> set (applications left). app_id b = app_id a \<and> app_pass_code b = app_pass_code a)"
proof -
  have "rec_step confirmed left"
    using step_withdraw [OF after_run [OF leaving_runs, unfolded leaving_def]]
    by (simp add: left_def leaving_def)
  then have run: "rec_step\<^sup>*\<^sup>* confirmed left" by blast
  show ?thesis
    by (rule confirmed_application)
      (use pass_code_never_changes [OF no_recruitments_start confirmed_reach run] in blast)
qed

end
