(* ===== verification/Application_Properties.thy ===== *)
theory Application_Properties
  imports Recruitment_Demo
begin

text \<open>
  What single calls of \<open>application_service.py\<close>, \<open>pass_code.py\<close> and \<open>trial_feedback_service.py\<close>
  guarantee: who may apply, what an application writes, what the organization can and cannot move, and
  when a result, a confirmation or an alert may go out.
\<close>

section \<open>A trial written out\<close>

definition trial_date :: "nat \<Rightarrow> day \<Rightarrow> trial_session" where
  "trial_date i d = \<lparr>ts_id = i, ts_title = '''', ts_date = d, ts_start_time = Some (9 * hour),
     ts_end_time = None, ts_venue_name = '''', ts_venue_link = '''', ts_location = None,
     ts_city = '''', ts_latitude = None, ts_longitude = None, ts_is_cancelled = False,
     ts_display_order = i\<rparr>"

text \<open>An open trial in India on the days 10 and 12, players choose one.\<close>

definition trial :: recruitment where
  "trial = (blank_recruitment 1 1 3 Active (Some 0) ''Asia/Kolkata'')
     \<lparr>rec_type := OpenTrial, rec_session_mode := ChooseOne,
      rec_event_date := Some (at_day 10), rec_trial_end := Some (at_day 13),
      rec_sessions := [trial_date 3 10, trial_date 4 12]\<rparr>"

definition entry :: "nat \<Rightarrow> uid \<Rightarrow> app_status \<Rightarrow> string \<Rightarrow> application" where
  "entry i u st code = (fresh_application (at_day 2) trial u (demo_data None) False (Some 3) i)
     \<lparr>app_status := st, app_pass_code := code\<rparr>"

definition trial_state :: "application list \<Rightarrow> rec_state" where
  "trial_state as = \<lparr>recruitments = [trial\<lparr>
       rec_applications_count := length (filter (\<lambda>a. app_status a \<noteq> Withdrawn) as)\<rparr>],
     applications = as, histories = [], answers = [], announcements = [],
     birth_years = (\<lambda>_. Some 2008), rec_social = demo0, rec_fresh = 30, rec_effects = []\<rparr>"

section \<open>Who may apply, and when\<close>

text \<open>
  The guards of \<open>apply\<close> on the window and the flag the pages show,
  \<open>is_accepting_applications\<close>, agree: for every recruitment and instant the call passes the window
  guards exactly when the page offers the button.
\<close>

theorem window_gate_agrees_with_flag:
  "window_gate now r = Inr () \<longleftrightarrow> is_accepting_applications now r"
  by (auto simp: window_gate_def is_accepting_applications_def)

lemma follows_of_relationship:
  "rel_following (fst (get_relationship s (Some actor) t)) \<Longrightarrow> (identity_of actor, t) \<in> set (follow_rows s)"
  by (auto simp: get_relationship_def self_response_def anonymous_response_def Let_def list_ex_iff
      split: if_splits prod.splits)

lemma visibility_gate_Inr:
  "visibility_gate actor r s = Inr s1 \<Longrightarrow> rec_visibility r \<noteq> Private
    \<and> (rec_visibility r = FollowersOnly \<longrightarrow> (identity_of actor, OrgId (rec_org r)) \<in> set (follow_rows (rec_social s)))"
  using follows_of_relationship [of "rec_social s" actor "OrgId (rec_org r)"]
  by (cases "rec_visibility r") (auto simp: visibility_gate_def split: prod.splits if_splits)

lemma apply_gate_Inr:
  assumes "apply_gate now actor u r s = Inr s1"
  shows "\<not> is_blocked (rec_social s) (Some actor) (Some (OrgId (rec_org r))) \<and> window_gate now r = Inr ()
    \<and> (\<exists>s2. visibility_gate actor r s = Inr s2)"
  using assms by (auto simp: apply_gate_def require_not_blocked_def res_bind_eq_Inr split: if_splits)

text \<open>
  Property C31. An application goes through only to a recruitment that exists, is not removed and is
  accepting applications, from an actor with no block between it and the organization, who follows the
  organization when the recruitment is for followers; never to a private one; and never while the player
  has a live application to it.
\<close>

theorem apply_only_when_open:
  assumes "apply_to db dz rng tiers now actor u rid v s = Inr (a, s')"
  shows "\<exists>r \<in> set (recruitments s). rec_id r = rid \<and> \<not> rec_is_deleted r
    \<and> is_accepting_applications now r \<and> rec_visibility r \<noteq> Private
    \<and> \<not> is_blocked (rec_social s) (Some actor) (Some (OrgId (rec_org r)))
    \<and> (rec_visibility r = FollowersOnly \<longrightarrow>
        (identity_of actor, OrgId (rec_org r)) \<in> set (follow_rows (rec_social s)))
    \<and> (\<forall>x. find_application s rid u = Some x \<longrightarrow> app_status x = Withdrawn)"
  using assms
proof (cases rule: apply_to_cases)
  case (1 r s1 session mm hfrom note_text sw)
  note lock = lock_recruitment_Inr [OF 1(1)] and gate = apply_gate_Inr [OF 1(2)]
  have "\<forall>x. find_application s rid u = Some x \<longrightarrow> app_status x = Withdrawn"
    using apply_gate_row [OF 1(2)] lock by auto
  then show ?thesis
    using lock gate visibility_gate_Inr [of actor r s] window_gate_agrees_with_flag [of now r]
    by (intro bexI [of _ r]) auto
qed

lemma trial_apply_runs: "\<not> isl (applying 22 4 (trial_state [entry 20 21 Applied '''']))"
  by code_simp

theorem apply_only_when_open_witness:
  "\<exists>r \<in> set (recruitments (trial_state [entry 20 21 Applied ''''])). is_accepting_applications (at_day 2) r"
  using apply_only_when_open [OF after_run [OF trial_apply_runs, unfolded applying_def]] by blast

section \<open>What an application writes\<close>

lemma write_application_frame:
  assumes w: "write_application rng now r u v mm session s = Inr (a, hfrom, note_text, s')"
    and ok: "rec_ok s"
  shows "a \<in> set (applications s') \<and> (\<forall>x. app_id x \<noteq> app_id a \<longrightarrow>
      (x \<in> set (applications s') \<longleftrightarrow> x \<in> set (applications s)))
    \<and> app_age_mismatch a = mm \<and> app_session a = session \<and> app_age_category a = v_age_category v
    \<and> app_applied_at a = now \<and> app_reviewed_by a = None
    \<and> app_shared_name a = v_name v \<and> app_shared_email a = v_email v \<and> app_shared_phone a = v_phone v"
  using w
proof (cases rule: write_application_cases)
  case (Revived old)
  from with_code_keeps [OF Revived(2)] obtain c
    where a: "a = (revived now r v mm session old)\<lparr>app_pass_code := c\<rparr>" ..
  then have "app_id a = app_id old" by (simp add: revived_def)
  then have "a \<in> set (applications s')"
    using find_application_Some [OF Revived(1)] by (auto simp: Revived(4) set_tbl_save)
  then show ?thesis by (auto simp: a revived_def Revived(4) set_tbl_save)
next
  case Fresh
  from with_code_keeps [OF Fresh(2)] obtain c
    where "a = (fresh_application now r u v mm session (rec_fresh s))\<lparr>app_pass_code := c\<rparr>" ..
  then show ?thesis by (auto simp: fresh_application_def Fresh(4) tbl_insert_def)
qed

text \<open>
  A completed apply leaves exactly one changed row: the player's application, holding the
  submitted details, the chosen date, the age flag of the chosen category and the landing status
  (confirmed with a pass code when the trial confirms automatically, applied otherwise). Every other
  application is as it was.
\<close>

theorem apply_writes_one_row:
  assumes "rec_ok s" and "apply_to db dz rng tiers now actor u rid v s = Inr (a, s')"
  shows "a \<in> set (applications s') \<and> app_recruitment a = rid \<and> app_applicant a = u
    \<and> app_applied_at a = now \<and> app_shared_name a = v_name v
    \<and> (\<exists>r \<in> set (recruitments s). rec_id r = rid \<and> app_status a = landing_status r
         \<and> resolve_session db dz now r (v_session v) = Inr (app_session a)
         \<and> app_age_mismatch a = age_mismatch s r u (v_age_category v)
         \<and> (auto_confirms r \<longrightarrow> app_pass_code a \<noteq> ''''))
    \<and> (\<forall>x. app_id x \<noteq> app_id a \<longrightarrow> (x \<in> set (applications s') \<longleftrightarrow> x \<in> set (applications s)))"
  using assms(2)
proof (cases rule: apply_to_cases)
  case (1 r s1 session mm hfrom note_text sw)
  note w = 1(4) and f = 1(5)
  from apply_gate_social [OF 1(2)] obtain soc where s1: "s1 = s\<lparr>rec_social := soc\<rparr>" ..
  have ok1: "rec_ok s1" using assms(1) by (simp add: s1)
  have mm: "age_mismatch s1 r u c = age_mismatch s r u c" for c
    by (cases c) (simp_all add: s1 age_mismatch_def)
  have code: "app_pass_code a \<noteq> []" if "auto_confirms r"
  proof -
    have "app_status a = TrialConfirmed"
      using write_application_row [OF w] that by (simp add: landing_status_def)
    from w this show ?thesis
      by (cases rule: write_application_cases)
        (auto simp: with_code_def revived_def fresh_application_def split: if_splits dest: mint_for_Inr(1))
  qed
  note row = write_application_row [OF w] and frame = write_application_frame [OF w ok1]
    and lock = lock_recruitment_Inr [OF 1(1)] and fin = finish_apply_effect [OF f]
  have "\<exists>r \<in> set (recruitments s). rec_id r = rid \<and> app_status a = landing_status r
         \<and> resolve_session db dz now r (v_session v) = Inr (app_session a)
         \<and> app_age_mismatch a = age_mismatch s r u (v_age_category v)
         \<and> (auto_confirms r \<longrightarrow> app_pass_code a \<noteq> '''')"
    using row frame lock 1(3,7) mm code by (intro bexI [of _ r]) auto
  then show ?thesis using row frame lock fin by (simp add: s1)
qed

lemma trial_state_ok:
  assumes "distinct (map app_id as)" "distinct (map app_pair as)" "list_all (\<lambda>i. i < 30) (map app_id as)"
    "list_all (\<lambda>i. i = 1) (map app_recruitment as)" "codes_ok as"
    "list_all (\<lambda>st. st \<notin> {TrialConfirmed, Selected}) (map app_status as)"
  shows "rec_ok (trial_state as)"
proof -
  have "filter (in_status 1 live) as = filter (\<lambda>a. app_status a \<noteq> Withdrawn) as"
    "filter (in_status 1 (\<lambda>st. st = TrialConfirmed)) as = []"
    "filter (in_status 1 (\<lambda>st. st = Selected)) as = []"
    using assms(4,6) by (auto simp: in_status_def list_all_iff filter_empty_conv intro!: filter_cong)
  then show ?thesis
    using assms
    by (simp add: rec_ok_def trial_state_def trial_def blank_recruitment_def rows_ok_def counters_agree_def
        below_cap_def status_count_def tbl_count_def list_all_iff)
qed

lemma entry_fields [simp]:
  "app_id (entry i u st code) = i" "app_applicant (entry i u st code) = u" "app_status (entry i u st code) = st"
  "app_recruitment (entry i u st code) = 1" "app_pass_code (entry i u st code) = code"
  by (simp_all add: entry_def fresh_application_def trial_def blank_recruitment_def)

theorem apply_writes_one_row_witness:
  "\<exists>a \<in> set (applications (after (applying 22 4 (trial_state [entry 20 21 Applied ''''])))).
     app_applicant a = 22 \<and> app_recruitment a = 1"
proof -
  have "rec_ok (trial_state [entry 20 21 Applied ''''])"
    by (rule trial_state_ok) (simp_all add: app_pair_def codes_ok_def)
  from apply_writes_one_row [OF this after_run [OF trial_apply_runs, unfolded applying_def]]
  show ?thesis unfolding applying_def by blast
qed

section \<open>Coming back\<close>

lemma finish_apply_answers:
  assumes "finish_apply tiers now r u v (a, hfrom, note_text, s) = (a', s')"
  shows "answers s' = answers s @ answer_rows (app_id a) (v_answers v)"
proof -
  let ?s1 = "s\<lparr>answers := answers s @ answer_rows (app_id a) (v_answers v)\<rparr>"
  let ?s2 = "save_recruitment (counted r) ?s1"
  let ?h = "\<lparr>hist_application = app_id a, hist_from = hfrom, hist_to = landing_status r,
    hist_changed_by = None, hist_note = (if auto_confirms r then ''auto-confirmed'' else note_text)\<rparr>"
  define s3 where "s3 = ?s2\<lparr>histories := histories ?s2 @ [?h]\<rparr>"
  obtain al r1 s4 where alert: "claim_applicant_alert tiers now (counted r) s3 = (al, r1, s4)"
    by (cases "claim_applicant_alert tiers now (counted r) s3") auto
  have "\<exists>es. s' = rec_emit es s4"
    using assms unfolding finish_apply_def Let_def prod.case s3_def [symmetric] alert by blast
  moreover have "answers s4 = answers s3"
    using claim_applicant_alert_effect [OF alert] by (auto simp: save_recruitment_def)
  ultimately show ?thesis by (auto simp: rec_emit_def s3_def save_recruitment_def)
qed

lemma answer_rows_application: "x \<in> set (answer_rows aid ds) \<Longrightarrow> ans_application x = aid"
  by (induction ds) (auto split: if_splits)

lemma answer_rows_filter:
  "filter (\<lambda>x. ans_application x = aid) (filter (\<lambda>x. ans_application x \<noteq> aid) xs @ answer_rows aid ds)
   = answer_rows aid ds"
  by (auto simp: filter_empty_conv filter_id_conv dest: answer_rows_application)

lemma find_own_application:
  assumes "rec_ok s" "w \<in> set (applications s)"
  shows "find_application s (app_recruitment w) (app_applicant w) = Some w"
proof -
  have "distinct (map app_pair (applications s))" using assms(1) by (simp add: rec_ok_def rows_ok_def)
  then have one: "x = w" if "x \<in> set (applications s)" "app_pair x = app_pair w" for x
    using that assms(2) by (auto simp: distinct_map inj_on_def)
  show ?thesis
  proof (cases "find_application s (app_recruitment w) (app_applicant w)")
    case None
    then show ?thesis using assms(2) by (auto simp: find_application_def find_None_conv)
  next
    case (Some x)
    with find_application_Some [OF Some] one show ?thesis by (simp add: app_pair_def)
  qed
qed

text \<open>
  A player who withdrew and applies again gets the same row back, never a second one: with
  the pass code and the fee record it had, and with the new answers in place of the old. The reminder
  stamp is kept too, whatever date is chosen this time.
\<close>

theorem reapply_revives_the_row:
  assumes ok: "rec_ok s" and out: "withdraw u aid s = Inr (w, s1)"
    and again: "apply_to db dz rng tiers now actor u (app_recruitment w) v s1 = Inr (a, s2)"
  shows "app_id a = aid \<and> (app_pass_code w \<noteq> '''' \<longrightarrow> app_pass_code a = app_pass_code w)
    \<and> app_fee_paid a = app_fee_paid w \<and> app_reminder_sent_at a = app_reminder_sent_at w
    \<and> map app_id (applications s2) = map app_id (applications s)
    \<and> filter (\<lambda>x. ans_application x = aid) (answers s2) = answer_rows aid (v_answers v)"
proof -
  have ok1: "rec_ok s1" by (rule withdraw_ok [OF ok out])
  from out have w: "app_id w = aid" "app_applicant w = u" "w \<in> set (applications s1)"
    and ids: "map app_id (applications s1) = map app_id (applications s)"
    by (auto elim!: withdraw_cases simp: set_tbl_save simp del: map_eq_conv)
  note found = find_own_application [OF ok1 w(3), unfolded w(2)]
  from again show ?thesis
  proof (cases rule: apply_to_cases)
    case (1 r s3 session mm hfrom note_text sw)
    from apply_gate_social [OF 1(2)] obtain soc where s3: "s3 = s1\<lparr>rec_social := soc\<rparr>" ..
    have "rec_id r = app_recruitment w" using lock_recruitment_Inr [OF 1(1)] by simp
    then have old: "find_application s3 (rec_id r) u = Some w"
      using found by (simp add: s3 find_application_def)
    from 1(4) have "with_code rng s3 (revived now r v mm session w) = Inr a
      \<and> sw = s3\<lparr>applications := tbl_save app_id a (applications s3),
              answers := filter (\<lambda>x. ans_application x \<noteq> app_id a) (answers s3)\<rparr>"
      using old by (cases rule: write_application_cases) auto
    then have minted: "with_code rng s3 (revived now r v mm session w) = Inr a"
      and sw: "sw = s3\<lparr>applications := tbl_save app_id a (applications s3),
              answers := filter (\<lambda>x. ans_application x \<noteq> app_id a) (answers s3)\<rparr>" by blast+
    from with_code_keeps [OF minted] obtain c where a: "a = (revived now r v mm session w)\<lparr>app_pass_code := c\<rparr>" ..
    then have same: "app_id a = aid" "app_fee_paid a = app_fee_paid w"
      "app_reminder_sent_at a = app_reminder_sent_at w"
      by (simp_all add: revived_def w)
    moreover have "app_pass_code a = app_pass_code w" if "app_pass_code w \<noteq> []"
      using with_code_stable [OF minted] that by (simp add: revived_def)
    moreover have "map app_id (applications s2) = map app_id (applications s)"
      using finish_apply_effect [OF 1(5)] ids by (simp add: sw s3 del: map_eq_conv)
    moreover have "filter (\<lambda>x. ans_application x = aid) (answers s2) = answer_rows aid (v_answers v)"
      using finish_apply_answers [OF 1(5)] answer_rows_filter by (simp add: sw same(1))
    ultimately show ?thesis by simp
  qed
qed

definition with_pass :: rec_state where
  "with_pass = trial_state [entry 20 21 Shortlisted ''2345-6789'', entry 21 22 Applied '''']"

definition pass_leaving :: "(application \<times> rec_state) result" where
  "pass_leaving = withdraw 21 20 with_pass"

lemma pass_leaving_runs: "\<not> isl pass_leaving" "\<not> isl (applying 21 4 (after pass_leaving))"
  "app_recruitment (outcome pass_leaving) = 1" "app_pass_code (outcome pass_leaving) \<noteq> ''''"
  by code_simp+

lemma with_pass_ok: "rec_ok with_pass"
  unfolding with_pass_def by (rule trial_state_ok) (simp_all add: app_pair_def codes_ok_def)

theorem reapply_revives_the_row_witness:
  "app_id (outcome (applying 21 4 (after pass_leaving))) = 20
   \<and> app_pass_code (outcome (applying 21 4 (after pass_leaving))) = app_pass_code (outcome pass_leaving)"
proof -
  have out: "withdraw 21 20 with_pass = Inr (outcome pass_leaving, after pass_leaving)"
    using after_run [OF pass_leaving_runs(1)] by (simp add: pass_leaving_def)
  have "apply_to demo_db utc (demo_rng 21) applicant_alert_tiers (at_day 2) (UserActor 21) 21
      (app_recruitment (outcome pass_leaving)) (demo_data (Some 4)) (after pass_leaving)
    = Inr (outcome (applying 21 4 (after pass_leaving)), after (applying 21 4 (after pass_leaving)))"
    using after_run [OF pass_leaving_runs(2)] by (simp add: applying_def pass_leaving_runs(3))
  from reapply_revives_the_row [OF with_pass_ok out this] pass_leaving_runs(4) show ?thesis by blast
qed

end
