(* ===== verification/Pipeline_Properties.thy ===== *)
theory Pipeline_Properties
  imports Application_Properties
begin

text \<open>
  The organization's side of the pipeline and what goes with it: batch status changes, who is told,
  when a decision may be taken, pass codes at the gate, feedback, the dates of the lists and the
  applicant alert.
\<close>

section \<open>Moving applications\<close>

lemma change_one_partition:
  assumes "change_one rngs s now m rid to_status note_text aid b = Inr b'"
  shows "mset (b_updated b') + mset (map fst (b_skipped b'))
    = mset (b_updated b) + mset (map fst (b_skipped b)) + {#aid#}"
  using assms
proof (cases rule: change_one_cases)
  case (Skipped why)
  then show ?thesis by (simp add: skip_def)
next
  case (Moved a a1)
  then show ?thesis by simp
qed

lemma change_each_partition:
  "change_each rngs s now m rid to_status note_text ids b = Inr b' \<Longrightarrow>
   mset (b_updated b') + mset (map fst (b_skipped b'))
   = mset (b_updated b) + mset (map fst (b_skipped b)) + mset ids"
  by (induction ids arbitrary: b) (auto simp: res_bind_eq_Inr dest!: change_one_partition)

text \<open>What the loop keeps: moved rows are in the target status, each moved once, each told once.\<close>

definition moved_ok :: "app_status \<Rightarrow> batch \<Rightarrow> bool" where
  "moved_ok to_status b \<longleftrightarrow> tbl_ok app_id (b_apps b) \<and> distinct (b_updated b)
     \<and> (\<forall>i \<in> set (b_updated b). \<exists>a \<in> set (b_apps b). app_id a = i \<and> app_status a = to_status)
     \<and> map app_id (b_notify b) = (if to_status \<in> set silent_statuses then [] else b_updated b)"

lemma change_one_moved:
  assumes ok: "moved_ok to_status b" and run: "change_one rngs s now m rid to_status note_text aid b = Inr b'"
  shows "moved_ok to_status b'"
  using run
proof (cases rule: change_one_cases)
  case (Skipped why)
  with ok show ?thesis by (simp add: moved_ok_def)
next
  case (Moved a a1)
  have tok: "tbl_ok app_id (b_apps b)" using ok by (simp add: moved_ok_def)
  from moved_application_keeps [OF Moved(6)] have same: "app_id a1 = aid" "app_status a1 = to_status"
    using Moved(2) by auto
  have new: "aid \<notin> set (b_updated b)"
  proof
    assume "aid \<in> set (b_updated b)"
    then obtain x where "x \<in> set (b_apps b)" "app_id x = aid" "app_status x = to_status"
      using ok by (auto simp: moved_ok_def)
    then show False using tbl_row_eq [OF tok _ Moved(1)] Moved(2,5) by auto
  qed
  have "\<exists>x \<in> set (b_apps b'). app_id x = i \<and> app_status x = to_status"
    if "i \<in> set (b_updated b')" for i
  proof (cases "i = aid")
    case True
    have "app_id a1 \<in> app_id ` set (b_apps b)"
      using Moved(1,2) same(1) by (auto intro: rev_image_eqI)
    with True same show ?thesis by (intro bexI [of _ a1]) (simp_all add: Moved(7) set_tbl_save)
  next
    case False
    with that ok Moved(8) obtain x where "x \<in> set (b_apps b)" "app_id x = i" "app_status x = to_status"
      by (auto simp: moved_ok_def)
    with False show ?thesis by (intro bexI [of _ x]) (auto simp: Moved(7) set_tbl_save same)
  qed
  then show ?thesis
    using ok new same by (auto simp: moved_ok_def Moved(7,8,12))
qed

lemma change_each_moved:
  "moved_ok to_status b \<Longrightarrow> change_each rngs s now m rid to_status note_text ids b = Inr b' \<Longrightarrow>
   moved_ok to_status b'"
  by (induction ids arbitrary: b) (auto simp: res_bind_eq_Inr intro: change_one_moved)

text \<open>
  A completed status change answers for every id it was given, exactly once: as updated or
  as skipped. No id is updated twice, every updated application is in the target status, and the
  target is one an organization may choose.
\<close>

theorem every_id_answered_once:
  assumes "rec_ok s" and "change_status db dz rngs now m r ids requested note_text s = Inr ((updated, skipped), s')"
  shows "mset updated + mset (map fst skipped) = mset ids \<and> distinct updated
    \<and> map_legacy_target db dz now r requested \<in> set status_change_targets
    \<and> (\<forall>i \<in> set updated. \<exists>a \<in> set (applications s').
         app_id a = i \<and> app_status a = map_legacy_target db dz now r requested)"
  using assms(2)
proof (cases rule: change_status_cases)
  case (1 to_status b)
  have "moved_ok to_status (batch_start (applications s))"
    using rec_ok_tbl(2) [OF assms(1)] by (simp add: moved_ok_def batch_start_def)
  from change_each_moved [OF this 1(5)] have "moved_ok to_status b" .
  with change_each_partition [OF 1(5)] 1(1,2,7,8) show ?thesis
    by (simp add: moved_ok_def batch_start_def)
qed


definition moving :: "app_status \<Rightarrow> instant \<Rightarrow> nat list \<Rightarrow> rec_state
  \<Rightarrow> ((nat list \<times> (nat \<times> skip_reason) list) \<times> rec_state) result" where
  "moving st now ids s = change_status demo_db utc demo_rng now demo_owner trial ids st ''note'' s"

lemma moving_runs:
  "moving Shortlisted (at_day 3) [21, 21, 9] with_pass
   = Inr (([21], [(21, NoChange), (9, NotFound)]), after (moving Shortlisted (at_day 3) [21, 21, 9] with_pass))"
proof -
  have "\<not> isl (moving Shortlisted (at_day 3) [21, 21, 9] with_pass)"
    "outcome (moving Shortlisted (at_day 3) [21, 21, 9] with_pass) = ([21], [(21, NoChange), (9, NotFound)])"
    by code_simp+
  with after_run show ?thesis by metis
qed

theorem every_id_answered_once_witness:
  "mset [21] + mset (map fst [(21, NoChange), (9, NotFound)]) = mset [21, 21, 9 :: nat]
   \<and> (\<exists>a \<in> set (applications (after (moving Shortlisted (at_day 3) [21, 21, 9] with_pass))).
        app_id a = 21 \<and> app_status a = map_legacy_target demo_db utc (at_day 3) trial Shortlisted)"
  using every_id_answered_once [OF with_pass_ok moving_runs [unfolded moving_def]]
  by (simp add: moving_def)

text \<open>
  The organization can never touch a withdrawn application, nor one of another recruitment:
  whatever ids a status change names, those rows come out exactly as they were.
\<close>

theorem withdrawn_is_out_of_reach:
  assumes "rec_ok s" and "change_status db dz rngs now m r ids requested note_text s = Inr (out, s')"
    and "a \<in> set (applications s)" and "app_status a = Withdrawn \<or> app_recruitment a \<noteq> rec_id r"
  shows "a \<in> set (applications s')"
  using assms(2)
proof (cases rule: change_status_cases)
  case (1 to_status b)
  have "batch_ok (map rec_id (recruitments s)) (rec_fresh s) (rec_id r) (applications s) b"
    using assms(1) targets_not_withdrawn [OF 1(2)]
    by (intro change_each_ok [OF batch_start_ok _ 1(5)]) (simp_all add: rec_ok_def)
  with assms(3,4) show ?thesis by (auto simp: batch_ok_def 1(8))
qed

definition one_gone :: rec_state where
  "one_gone = trial_state [entry 20 21 Withdrawn [], entry 21 22 Applied []]"

theorem withdrawn_is_out_of_reach_witness:
  "entry 20 21 Withdrawn [] \<in> set (applications (after (moving Selected (at_day 14) [20, 21] one_gone)))"
proof -
  have "\<not> isl (moving Selected (at_day 14) [20, 21] one_gone)" by code_simp
  from after_run [OF this] have run: "moving Selected (at_day 14) [20, 21] one_gone
    = Inr (outcome (moving Selected (at_day 14) [20, 21] one_gone), after (moving Selected (at_day 14) [20, 21] one_gone))" .
  have "rec_ok one_gone"
    unfolding one_gone_def by (rule trial_state_ok) (simp_all add: app_pair_def codes_ok_def)
  from withdrawn_is_out_of_reach [OF this run [unfolded moving_def], of "entry 20 21 Withdrawn []"]
  show ?thesis by (simp add: one_gone_def trial_state_def moving_def)
qed

section \<open>What is sent\<close>

text \<open>The applications a list of sends is about, by kind.\<close>

definition status_notes :: "rec_effect list \<Rightarrow> (nat \<times> app_status) list" where
  "status_notes es = List.map_filter (\<lambda>e. case e of StatusNote i u st \<Rightarrow> Some (i, st) | _ \<Rightarrow> None) es"

definition career_prompts :: "rec_effect list \<Rightarrow> nat list" where
  "career_prompts es = List.map_filter (\<lambda>e. case e of CareerPrompt i u \<Rightarrow> Some i | _ \<Rightarrow> None) es"

lemma sends_notes:
  "status_notes (concat (map (applicant_sends st) as)) = map (\<lambda>a. (app_id a, st)) as"
  "career_prompts (concat (map (applicant_sends st) as)) = (if st = Selected then map app_id as else [])"
  by (induction as) (auto simp: status_notes_def career_prompts_def applicant_sends_def List.map_filter_def)

text \<open>
  Each application a status change moves is told exactly once, in the order of the request,
  and about the status it is now in; the private working states tell nobody anything; and a selection
  alone invites the player to record it in their career.
\<close>

theorem moved_applicants_are_told_once:
  assumes "rec_ok s" and "change_status db dz rngs now m r ids requested note_text s = Inr ((updated, skipped), s')"
    and "to_status = map_legacy_target db dz now r requested"
  shows "\<exists>sent. rec_effects s' = rec_effects s @ sent
    \<and> (to_status \<in> set silent_statuses \<longrightarrow> sent = [])
    \<and> (to_status \<notin> set silent_statuses \<longrightarrow> status_notes sent = map (\<lambda>i. (i, to_status)) updated)
    \<and> career_prompts sent = (if to_status = Selected then updated else [])"
  using assms(2)
proof (cases rule: change_status_cases)
  case (1 st b)
  have st: "st = to_status" using 1(1) assms(3) by simp
  have "moved_ok st (batch_start (applications s))"
    using rec_ok_tbl(2) [OF assms(1)] by (simp add: moved_ok_def batch_start_def)
  from change_each_moved [OF this 1(5)]
  have told: "map app_id (b_notify b) = (if st \<in> set silent_statuses then [] else updated)"
    using 1(7) by (simp add: moved_ok_def)
  let ?sent = "concat (map (applicant_sends st) (b_notify b))"
  have "rec_effects s' = rec_effects s @ ?sent" by (simp add: 1(8) rec_emit_def move_counters_def)
  moreover have "st \<in> set silent_statuses \<longrightarrow> b_notify b = []" using told by auto
  moreover have "status_notes ?sent = map (\<lambda>i. (i, st)) (map app_id (b_notify b))"
    by (simp add: sends_notes)
  moreover have "st = Selected \<Longrightarrow> st \<notin> set silent_statuses" by (simp add: silent_statuses_def)
  ultimately show ?thesis using told unfolding st
    by (intro exI [of _ ?sent]) (auto simp: sends_notes st)
qed

theorem moved_applicants_are_told_once_witness:
  "rec_effects (after (moving Shortlisted (at_day 3) [21, 21, 9] with_pass)) = rec_effects with_pass"
  using moved_applicants_are_told_once [OF with_pass_ok moving_runs [unfolded moving_def] refl]
  by (simp add: moving_def map_legacy_target_def legacy_statuses_def silent_statuses_def)

section \<open>When a decision may be taken\<close>

text \<open>
  A request from an old client that still says \<open>rejected\<close> is never refused by the
  trial-day rule: the mapping turns it into the answer the calendar allows, so before the trial day it is
  \<open>not shortlisted\<close> and from that day on \<open>not selected\<close>.
\<close>

theorem legacy_reject_is_always_allowed:
  "check_trial_window db dz now r (map_legacy_target db dz now r Rejected) = Inr ()
   \<and> map_legacy_target db dz now r Rejected
     = (if is_before_trial (rec_type r) (trial_starts_at db dz r) (today_at_venue db dz now r) (rec_zone db dz r)
        then NotShortlisted else NotSelected)"
  by (auto simp: check_trial_window_def map_legacy_target_def legacy_statuses_def map_legacy_status_def
      is_before_trial_def result_statuses_def split: option.splits)

section \<open>Pass codes at the gate\<close>

definition lower_ascii :: "char \<Rightarrow> char" where
  "lower_ascii c = (let n = (of_char c :: nat) in if 65 \<le> n \<and> n \<le> 90 then char_of (n + 32) else c)"

lemma upper_lower_alphabet: "c \<in> set alphabet \<or> c = CHR ''-'' \<Longrightarrow> py_upper_ascii [lower_ascii c] = [c]"
  by (auto simp: alphabet_def py_upper_ascii_def lower_ascii_def char_of_def bit_iff_odd)

lemma py_upper_ascii_map:
  "(\<And>c. c \<in> set xs \<Longrightarrow> py_upper_ascii [f c] = [c]) \<Longrightarrow> py_upper_ascii (map f xs) = xs"
  by (induction xs) (auto simp: py_upper_ascii_def)

lemma normalize_by_filter:
  assumes "length xs = code_length" "set xs \<subseteq> set alphabet"
    "filter (\<lambda>c. c \<in> set alphabet) (py_upper_ascii typed) = xs"
  shows "normalize_code typed = grouped xs"
  using assms by (simp add: normalize_code_def)

lemma generated_chars: "set (generate_code draw) \<subseteq> set alphabet \<union> {CHR ''-''}"
  using choice_in [OF alphabet_nonempty]
  by (auto simp: generate_code_def grouped_def dest!: in_set_takeD in_set_dropD)

text \<open>
  Every generated code survives the way people type it: in lower case, without its hyphen,
  the desk's normaliser returns the code as printed. Whatever was typed, the answer is blank or a code in
  the printed form, which normalising again leaves alone.
\<close>

theorem code_survives_retyping:
  "normalize_code (map lower_ascii (generate_code draw)) = generate_code draw
   \<and> normalize_code (filter (\<lambda>c. c \<noteq> CHR ''-'') (generate_code draw)) = generate_code draw
   \<and> (normalize_code typed = '''' \<or> well_formed_code (normalize_code typed))
   \<and> normalize_code (normalize_code typed) = normalize_code typed"
proof (intro conjI)
  let ?xs = "map (\<lambda>i. choice alphabet (draw i)) [0..<code_length]"
  note xs = drawn_chars [of draw]
  have gen: "generate_code draw = grouped ?xs" by (simp add: generate_code_def)
  have upper: "py_upper_ascii (map lower_ascii (generate_code draw)) = generate_code draw"
    using generated_chars [of draw] by (intro py_upper_ascii_map upper_lower_alphabet) blast
  have kept: "filter (\<lambda>c. c \<in> set alphabet) (generate_code draw) = ?xs"
    unfolding gen by (rule grouped_filter [OF xs])
  have "filter (\<lambda>c. c \<in> set alphabet) (py_upper_ascii (map lower_ascii (generate_code draw))) = ?xs"
    unfolding upper by (rule kept)
  from normalize_by_filter [OF xs this]
  show "normalize_code (map lower_ascii (generate_code draw)) = generate_code draw"
    unfolding gen [symmetric] .
  have "CHR ''-'' \<notin> set alphabet" by (simp add: alphabet_def)
  then have bare: "filter (\<lambda>c. c \<noteq> CHR ''-'') (generate_code draw)
      = filter (\<lambda>c. c \<in> set alphabet) (generate_code draw)"
    using generated_chars [of draw] by (intro filter_cong) auto
  have "py_upper_ascii ?xs = ?xs"
    by (rule py_upper_ascii_id) (use xs(2) upper_alphabet in blast)
  then have "filter (\<lambda>c. c \<in> set alphabet) (py_upper_ascii ?xs) = ?xs"
    using xs(2) by (simp only:) (auto simp: filter_id_conv)
  from normalize_by_filter [OF xs this]
  show "normalize_code (filter (\<lambda>c. c \<noteq> CHR ''-'') (generate_code draw)) = generate_code draw"
    unfolding bare kept gen [symmetric] .
next
  let ?c = "filter (\<lambda>c. c \<in> set alphabet) (py_upper_ascii typed)"
  have sub: "set ?c \<subseteq> set alphabet" by auto
  show "normalize_code typed = '''' \<or> well_formed_code (normalize_code typed)"
    using grouped_well_formed [OF _ sub] by (simp add: normalize_code_def Let_def)
  show "normalize_code (normalize_code typed) = normalize_code typed"
  proof (cases "length ?c = code_length")
    case True
    then show ?thesis using normalize_grouped [OF True sub] by (simp add: normalize_code_def)
  next
    case False
    then have "normalize_code typed = []" by (simp add: normalize_code_def)
    then show ?thesis by (simp add: normalize_code_def py_upper_ascii_def code_length_def)
  qed
qed

section \<open>Feedback\<close>

text \<open>
  Feedback can never move an application: whatever copy of the row the request holds, however
  old, the status, the date, the pass and the fee of every row stay as they are, no history is written and
  nobody is told; and it can be given once.
\<close>

theorem feedback_never_moves_a_status:
  assumes "submit_feedback now a d s = Inr (a1, s')"
  shows "map (\<lambda>x. (app_id x, app_status x, app_session x, app_pass_code x, app_fee_paid x)) (applications s')
      = map (\<lambda>x. (app_id x, app_status x, app_session x, app_pass_code x, app_fee_paid x)) (applications s)
    \<and> recruitments s' = recruitments s \<and> histories s' = histories s \<and> rec_effects s' = rec_effects s
    \<and> has_answered a1 \<and> \<not> can_give_feedback later a1 r"
  using assms
  by (auto simp: submit_feedback_def res_bind_eq_Inr feedback_row_def has_answered_def can_give_feedback_def
      split: option.splits)

definition demo_feedback :: feedback_data where
  "demo_feedback = \<lparr>fd_attended = True, fd_outcome = Some SelfWaiting, fd_rating = Some 4, fd_feedback = ''Good''\<rparr>"

theorem feedback_never_moves_a_status_witness:
  "has_answered (outcome (submit_feedback (at_day 14) (entry 20 21 TrialConfirmed ''x'') demo_feedback one_gone))"
proof -
  have "\<not> isl (submit_feedback (at_day 14) (entry 20 21 TrialConfirmed ''x'') demo_feedback one_gone)"
    by code_simp
  from feedback_never_moves_a_status [OF after_run [OF this]] show ?thesis by blast
qed

section \<open>The calendar of the lists\<close>

text \<open>
  The player-facing lists and the flag on the page agree: the query keeps a trial exactly
  while the trial is not over, with or without a derived end.
\<close>

theorem lists_agree_with_trial_over:
  "trial_not_over_q now trial_end \<longleftrightarrow> \<not> is_trial_over now trial_end"
  by (auto simp: trial_not_over_q_def is_trial_over_def split: option.splits)

text \<open>
  The coarse date filter of the lists never drops a live date that is today or later at its
  venue, wherever the venue is (no clock is more than twelve hours behind UTC), and keeps a past date for
  at most twelve hours after the day has ended on the UTC clock.
\<close>

theorem live_date_never_dropped:
  assumes "- (max_hours_behind_utc * hour) \<le> at_offset z now"
  shows "(local_date z now \<le> d \<longrightarrow> live_session_q now False d)
    \<and> (live_session_q now cancelled d \<longrightarrow> \<not> cancelled \<and> now < (d + 1) * day_length + 12 * hour)"
proof (intro conjI impI)
  assume "local_date z now \<le> d"
  then show "live_session_q now False d"
    using live_session_never_early [OF _ assms] by (simp add: live_session_q_def)
next
  assume kept: "live_session_q now cancelled d"
  then show "\<not> cancelled" by (simp add: live_session_q_def)
  have "(now - 12 * hour) div day_length \<le> d"
    using kept by (simp add: live_session_q_def earliest_live_session_date_def max_hours_behind_utc_def)
  moreover have "now - 12 * hour < ((now - 12 * hour) div day_length + 1) * day_length"
  proof -
    let ?x = "now - 12 * hour"
    have "?x = ?x div day_length * day_length + ?x mod day_length" by simp
    moreover have "?x mod day_length < day_length" by simp
    ultimately show ?thesis unfolding distrib_right by linarith
  qed
  moreover have "((now - 12 * hour) div day_length + 1) * day_length \<le> (d + 1) * day_length"
    using calculation(1) by (intro mult_right_mono) (simp_all add: less_imp_le [OF day_length_pos])
  ultimately show "now < (d + 1) * day_length + 12 * hour" by linarith
qed

theorem live_date_never_dropped_witness:
  "live_session_q (at_day 10) False 10 \<and> local_date india (at_day 10) = 10"
proof -
  have off: "- (max_hours_behind_utc * hour) \<le> at_offset india (at_day 10)" by code_simp
  have day: "local_date india (at_day 10) = 10" by code_simp
  with live_date_never_dropped [OF off, of 10] show ?thesis by simp
qed

section \<open>The applicant alert\<close>

lemma claim_applicant_alert_cases:
  assumes "claim_applicant_alert tiers now r s = (al, r1, s1)"
  shows "(al = None \<and> r1 = r \<and> s1 = s)
    \<or> (\<exists>n. al = Some (n, length (live_applications s (rec_id r))) \<and> n \<le> length (live_applications s (rec_id r))
        \<and> should_send_applicant_alert (length (live_applications s (rec_id r))) (rec_last_alert_at r) now tiers
        \<and> r1 = r\<lparr>rec_last_alert_at := Some now\<rparr> \<and> s1 = save_recruitment r1 s)"
  using assms
  by (auto simp: claim_applicant_alert_def Let_def split: if_splits option.splits intro: length_filter_le)

text \<open>The sends of an apply, and the row an alert stamps.\<close>

lemma finish_apply_sends:
  assumes "finish_apply tiers now r u v (a, hfrom, note_text, s) = (a', s')"
    and "NewApplicantAlert rid i n t \<in> set (drop (length (rec_effects s)) (rec_effects s'))"
  shows "rid = rec_id r \<and> i = app_id a \<and> n \<le> t \<and> t = length (live_applications s (rec_id r))
    \<and> should_send_applicant_alert t (rec_last_alert_at r) now tiers
    \<and> recruitments s' = tbl_save rec_id ((counted r)\<lparr>rec_last_alert_at := Some now\<rparr>) (recruitments s)
    \<and> applications s' = applications s"
proof -
  let ?s1 = "s\<lparr>answers := answers s @ answer_rows (app_id a) (v_answers v)\<rparr>"
  let ?s2 = "save_recruitment (counted r) ?s1"
  let ?h = "\<lparr>hist_application = app_id a, hist_from = hfrom, hist_to = landing_status r,
    hist_changed_by = None, hist_note = (if auto_confirms r then ''auto-confirmed'' else note_text)\<rparr>"
  define s3 where "s3 = ?s2\<lparr>histories := histories ?s2 @ [?h]\<rparr>"
  obtain al r1 s4 where alert: "claim_applicant_alert tiers now (counted r) s3 = (al, r1, s4)"
    by (cases "claim_applicant_alert tiers now (counted r) s3") auto
  let ?alert = "case al of None \<Rightarrow> [] | Some (new_count, total_count) \<Rightarrow>
      [NewApplicantAlert (rec_id r) (app_id a) new_count total_count]"
  have s': "s' = rec_emit ([NotifyOrgOfApplication u (rec_id r), ReceivedEmail (app_id a)] @ ?alert
      @ (if auto_confirms r then [StatusNote (app_id a) u TrialConfirmed, StatusEmail (app_id a) TrialConfirmed]
         else [])) s4"
    using assms(1) unfolding finish_apply_def Let_def prod.case s3_def [symmetric] alert by auto
  note cl = claim_applicant_alert_cases [OF alert]
  have eff: "rec_effects s4 = rec_effects s" using cl by (auto simp: s3_def save_recruitment_def)
  have s3: "live_applications s3 = live_applications s"
    "recruitments s3 = tbl_save rec_id (counted r) (recruitments s)" "applications s3 = applications s"
    by (simp_all add: s3_def save_recruitment_def live_applications_def fun_eq_iff)
  from assms(2) have "al = Some (n, t)" and who: "rid = rec_id r \<and> i = app_id a"
    unfolding s' by (auto simp: rec_emit_def eff split: option.splits if_splits)
  with cl s3 have "n \<le> t" "t = length (live_applications s (rec_id r))"
    "should_send_applicant_alert t (rec_last_alert_at (counted r)) now tiers"
    "s4 = save_recruitment ((counted r)\<lparr>rec_last_alert_at := Some now\<rparr>) s3"
    by auto
  moreover from this(4) have "recruitments s4 = tbl_save rec_id ((counted r)\<lparr>rec_last_alert_at := Some now\<rparr>) (recruitments s)"
    "applications s4 = applications s"
    by (auto simp: save_recruitment_def s3 tbl_save_twice)
  ultimately show ?thesis using who by (simp add: s' counted_def)
qed

text \<open>
  The organization is alerted of applicants no more often than the tier of the current total
  allows: an alert quotes the number of live applications the post has now, goes out only when the gap
  of its tier has passed since the last one, and stamps the row so that the next waits in turn.
\<close>

theorem alerts_keep_their_distance:
  assumes "apply_to db dz rng tiers now actor u rid v s = Inr (a, s')"
    and "NewApplicantAlert rid' i n t \<in> set (drop (length (rec_effects s)) (rec_effects s'))"
  shows "rid' = rid \<and> i = app_id a \<and> n \<le> t \<and> t = length (live_applications s' rid)
    \<and> (\<exists>r \<in> set (recruitments s). rec_id r = rid \<and> (\<exists>gap. required_gap_seconds t tiers = Some gap
         \<and> (\<forall>l. rec_last_alert_at r = Some l \<longrightarrow> gap * second \<le> now - l)))
    \<and> (\<exists>r \<in> set (recruitments s'). rec_id r = rid \<and> rec_last_alert_at r = Some now)"
  using assms(1)
proof (cases rule: apply_to_cases)
  case (1 r s1 session mm hfrom note_text sw)
  from apply_gate_social [OF 1(2)] obtain soc where s1: "s1 = s\<lparr>rec_social := soc\<rparr>" ..
  note lock = lock_recruitment_Inr [OF 1(1)]
  from 1(4) have sw: "recruitments sw = recruitments s" "rec_effects sw = rec_effects s"
    by (cases rule: write_application_cases; simp add: s1)+
  from finish_apply_sends [OF 1(5)] assms(2) have f: "rid' = rec_id r \<and> i = app_id a \<and> n \<le> t \<and> t = length (live_applications sw (rec_id r))
      \<and> should_send_applicant_alert t (rec_last_alert_at r) now tiers
      \<and> recruitments s' = tbl_save rec_id ((counted r)\<lparr>rec_last_alert_at := Some now\<rparr>) (recruitments sw)
      \<and> applications s' = applications sw"
    unfolding sw by blast
  have total: "live_applications s' rid = live_applications sw (rec_id r)"
    using f lock by (simp add: live_applications_def)
  have gap: "\<exists>gap. required_gap_seconds t tiers = Some gap
      \<and> (\<forall>l. rec_last_alert_at r = Some l \<longrightarrow> gap * second \<le> now - l)"
    using f by (auto simp: should_send_applicant_alert_def split: option.splits)
  have "(counted r)\<lparr>rec_last_alert_at := Some now\<rparr> \<in> set (recruitments s')"
    using f lock by (auto simp: sw set_tbl_save)
  then have stamped: "\<exists>r \<in> set (recruitments s'). rec_id r = rid \<and> rec_last_alert_at r = Some now"
    using lock by (intro bexI [of _ "(counted r)\<lparr>rec_last_alert_at := Some now\<rparr>"]) simp_all
  have "\<exists>r \<in> set (recruitments s). rec_id r = rid \<and> (\<exists>gap. required_gap_seconds t tiers = Some gap
      \<and> (\<forall>l. rec_last_alert_at r = Some l \<longrightarrow> gap * second \<le> now - l))"
    using gap lock by blast
  moreover have "rid' = rid \<and> i = app_id a \<and> n \<le> t \<and> t = length (live_applications s' rid)"
    using f total lock by simp
  ultimately show ?thesis using stamped by blast
qed

theorem alerts_keep_their_distance_witness:
  "\<exists>r \<in> set (recruitments (after (applying 22 4 (trial_state [entry 20 21 Applied ''''])))).
     rec_last_alert_at r = Some (at_day 2)"
proof -
  have "NewApplicantAlert 1 30 2 2 \<in> set (drop (length (rec_effects (trial_state [entry 20 21 Applied ''''])))
      (rec_effects (after (applying 22 4 (trial_state [entry 20 21 Applied ''''])))))"
    by code_simp
  then show ?thesis
    using alerts_keep_their_distance [OF after_run [OF trial_apply_runs, unfolded applying_def]]
    unfolding applying_def by blast
qed

end
