(* ===== verification/Edit_Properties.thy ===== *)
theory Edit_Properties
  imports Pipeline_Properties
begin

text \<open>
  What a call of \<open>recruitment_service.py\<close> guarantees: the derived dates of a trial, what an edit does to
  the applicants and to the row, the status machine, and the deletion of a recruitment.
\<close>

section \<open>The derived dates\<close>

lemma derived_window_first_last:
  assumes "derived_window db dz r = (e, t)"
  shows "(live_sessions r = [] \<longrightarrow> e = None \<and> t = None)
    \<and> (\<forall>x \<in> set (live_sessions r). \<exists>f \<in> set (live_sessions r). \<exists>l \<in> set (live_sessions r).
         e = Some (starts_at (rec_zone db dz r) f) \<and> t = Some (ends_at (rec_zone db dz r) l)
         \<and> ts_date f \<le> ts_date x \<and> ts_date x \<le> ts_date l)"
proof (cases "live_sessions r")
  case Nil
  with assms show ?thesis by (simp add: derived_window_def)
next
  case (Cons f xs)
  note sorted = live_sessions_sorted [of r, unfolded Cons]
  have "ts_date f \<le> ts_date x \<and> ts_date x \<le> ts_date (last (f # xs))" if "x \<in> set (f # xs)" for x
    using that sorted sorted_last [OF sorted that] by auto
  moreover have "e = Some (starts_at (rec_zone db dz r) f)"
    "t = Some (ends_at (rec_zone db dz r) (last (f # xs)))"
    using assms by (simp_all add: derived_window_def Cons)
  moreover have "last (f # xs) \<in> set (f # xs)" by (rule last_in_set) simp
  ultimately show ?thesis unfolding Cons by (metis list.set_intros(1) list.distinct(1))
qed

lemma derived_window_cong:
  "rec_sessions r1 = rec_sessions r \<Longrightarrow> rec_timezone r1 = rec_timezone r \<Longrightarrow>
   derived_window db dz r1 = derived_window db dz r"
  by (simp add: derived_window_def live_sessions_def rec_zone_def split: list.split)

lemma sync_trial_window_derived:
  assumes "sync_trial_window db dz r = Inr r1"
  shows "(rec_event_date r1, rec_trial_end r1) = derived_window db dz r1
    \<and> rec_sessions r1 = rec_sessions r \<and> rec_timezone r1 = rec_timezone r"
proof (cases "derived_window db dz r")
  case (Pair e t)
  with assms have "rec_sessions r1 = rec_sessions r" "rec_timezone r1 = rec_timezone r"
    "rec_event_date r1 = e" "rec_trial_end r1 = t"
    by (auto simp: sync_trial_window_def Let_def split: if_splits)
  with derived_window_cong [of r1 r db dz] Pair show ?thesis by simp
qed

lemma sync_age_categories_dates:
  "sync_age_categories refs data r s = Inr (r1, s1) \<Longrightarrow>
   rec_sessions r1 = rec_sessions r \<and> rec_timezone r1 = rec_timezone r
   \<and> rec_event_date r1 = rec_event_date r \<and> rec_trial_end r1 = rec_trial_end r \<and> answers s1 = answers s"
  by (auto simp: sync_age_categories_def res_bind_eq_Inr Let_def split: if_splits)

lemma sync_children_window:
  assumes "sync_children db dz goc d r s = Inr (changes, r', s')"
  shows "(rec_event_date r', rec_trial_end r') = derived_window db dz r'"
  using assms
proof (cases rule: sync_children_cases)
  case (1 r0 s0 ss r1 s1 r2 s2)
  note w = sync_trial_window_derived [OF 1(11)] and c = sync_age_categories_dates [OF 1(12)]
  with derived_window_cong [of r' r2 db dz] show ?thesis by simp
qed

text \<open>The row an edit returns is the row in the table.\<close>

lemma update_recruitment_row:
  assumes "update_recruitment db dz goc cf ct sports loaded d s = Inr ((r', told), s')"
  shows "r' \<in> set (recruitments s') \<and> rec_id r' = rec_id loaded"
  using assms
proof (cases rule: update_recruitment_cases)
  case (1 lf r cur changes r1)
  note sc = sync_children_effect [OF 1(5)]
  have "same_counters loaded (with_children cur r)"
    unfolding 1(2) by (rule edited_row_counters)
  with sc have id: "rec_id r1 = rec_id loaded" by (simp add: same_counters_def)
  have "rec_id loaded \<in> rec_id ` set (recruitments s)"
    using tbl_get_in [OF 1(4)] tbl_get_key [OF 1(4)] by (auto intro: rev_image_eqI)
  with sc id 1(6) show ?thesis by (auto simp: set_tbl_save)
qed

text \<open>
  After an edit the stored first instant and the stored end of the trial are those of its
  dates: the first is the start of a live date no other live date precedes, the second the end of one
  none follows, on the recruitment's own clock as the edit left it; with no live date both are empty.
\<close>

theorem trial_window_is_its_dates:
  assumes "update_recruitment db dz goc cf ct sports loaded d s = Inr ((r, told), s')"
  shows "r \<in> set (recruitments s')
    \<and> (live_sessions r = [] \<longrightarrow> rec_event_date r = None \<and> rec_trial_end r = None)
    \<and> (\<forall>x \<in> set (live_sessions r). \<exists>f \<in> set (live_sessions r). \<exists>l \<in> set (live_sessions r).
         rec_event_date r = Some (starts_at (rec_zone db dz r) f)
         \<and> rec_trial_end r = Some (ends_at (rec_zone db dz r) l)
         \<and> ts_date f \<le> ts_date x \<and> ts_date x \<le> ts_date l)"
proof -
  from assms obtain r0 changes r1 where
    sync: "sync_children db dz goc d r0 s = Inr (changes, r1, s')" "r1 = r"
    by (cases rule: update_recruitment_cases) auto
  from sync_children_window [OF sync(1)] sync(2)
  have "derived_window db dz r = (rec_event_date r, rec_trial_end r)" by simp
  from derived_window_first_last [OF this] update_recruitment_row [OF assms] show ?thesis by blast
qed

section \<open>What an edit does to the applicants\<close>

definition payload_ids :: "session_data list \<Rightarrow> nat list" where
  "payload_ids ds = List.map_filter sd_id ds"

lemma payload_ids_simps [simp]:
  "payload_ids [] = []"
  "payload_ids (d # ds) = (case sd_id d of None \<Rightarrow> payload_ids ds | Some i \<Rightarrow> i # payload_ids ds)"
  by (auto simp: payload_ids_def List.map_filter_def split: option.split)

lemma session_fields_id: "session_fields goc d idx sid = Inr x \<Longrightarrow> ts_id x = sid"
  by (auto simp: session_fields_def res_bind_eq_Inr)

lemma sync_session_ids:
  assumes "sync_session goc existing idx d ss = Inr ss1"
  shows "map ts_id (ss_update ss1) = map ts_id (ss_update ss) @ (case sd_id d of None \<Rightarrow> [] | Some i \<Rightarrow> [i])
    \<and> (case sd_id d of None \<Rightarrow> True | Some i \<Rightarrow> i \<in> set (map ts_id existing) \<and> i \<notin> set (map ts_id (ss_update ss)))"
  using assms
  by (auto simp: sync_session_def res_bind_eq_Inr dest!: session_fields_id find_eq_Some_conv
      split: option.splits if_splits)

lemma sync_sessions_ids:
  "sync_sessions_from goc existing idx ds ss = Inr ss1 \<Longrightarrow> distinct (map ts_id (ss_update ss)) \<Longrightarrow>
   map ts_id (ss_update ss1) = map ts_id (ss_update ss) @ payload_ids ds
   \<and> set (payload_ids ds) \<subseteq> set (map ts_id existing) \<and> distinct (map ts_id (ss_update ss1))"
proof (induction ds arbitrary: idx ss)
  case (Cons d ds)
  from Cons.prems(1) obtain ss2 where step: "sync_session goc existing idx d ss = Inr ss2"
    and rest: "sync_sessions_from goc existing (Suc idx) ds ss2 = Inr ss1"
    by (auto simp: res_bind_eq_Inr)
  note ids = sync_session_ids [OF step]
  have "distinct (map ts_id (ss_update ss2))"
    using ids Cons.prems(2) by (auto split: option.splits)
  note IH = Cons.IH [OF rest this]
  show ?case
  proof (intro conjI)
    show "map ts_id (ss_update ss1) = map ts_id (ss_update ss) @ payload_ids (d # ds)"
      using IH ids by (cases "sd_id d") simp_all
    show "set (payload_ids (d # ds)) \<subseteq> set (map ts_id existing)"
      using IH ids by (cases "sd_id d") simp_all
    show "distinct (map ts_id (ss_update ss1))" using IH by blast
  qed
qed simp

lemma drop_sessions_row:
  "a \<in> set as \<Longrightarrow> app_session a = Some i \<Longrightarrow> i \<notin> set removed \<Longrightarrow> a \<in> set (drop_sessions removed as)"
  "a \<in> set as \<Longrightarrow> app_session a = Some i \<Longrightarrow> i \<in> set removed \<Longrightarrow>
   a\<lparr>app_reminder_sent_at := None, app_session := None\<rparr> \<in> set (drop_sessions removed as)"
  by (auto simp: drop_sessions_def intro!: rev_image_eqI [of a] split: option.split)

lemma clear_reminders_row:
  assumes "a \<in> set as"
  shows "\<exists>b \<in> set (clear_reminders r moved as). app_id b = app_id a \<and> app_session b = app_session a
     \<and> app_status b = app_status a \<and> (app_reminder_sent_at a = None \<longrightarrow> app_reminder_sent_at b = None)"
proof (cases "moved = []")
  case True
  with assms show ?thesis by (auto simp: clear_reminders_def)
next
  case False
  define f where "f a = (if app_recruitment a = rec_id r \<and> app_reminder_sent_at a \<noteq> None
             \<and> (rec_session_mode r = ChooseOne \<longrightarrow>
                  (case app_session a of None \<Rightarrow> False | Some i \<Rightarrow> i \<in> set moved))
           then a\<lparr>app_reminder_sent_at := None\<rparr> else a)" for a :: application
  have "clear_reminders r moved as = map f as" using False by (simp add: clear_reminders_def f_def)
  with assms have "f a \<in> set (clear_reminders r moved as)" by simp
  then show ?thesis by (rule bexI [rotated]) (simp add: f_def)
qed

lemma drop_categories_row:
  "a \<in> set as \<Longrightarrow> \<exists>b \<in> set (drop_categories removed as). app_id b = app_id a \<and> app_session b = app_session a
     \<and> app_status b = app_status a \<and> app_reminder_sent_at b = app_reminder_sent_at a"
  by (force simp: drop_categories_def split: option.splits)

lemma sync_age_categories_apps:
  "sync_age_categories refs data r s = Inr (r1, s1) \<Longrightarrow>
   \<exists>removed. applications s1 = drop_categories removed (applications s)"
  by (auto simp: sync_age_categories_def res_bind_eq_Inr Let_def split: if_splits)

text \<open>An application with a date, through the child tables.\<close>

lemma sync_children_application:
  assumes sync: "sync_children db dz goc d r s = Inr (changes, r', s')"
    and a: "a \<in> set (applications s)" "app_session a = Some i" "i \<in> set (map ts_id (rec_sessions r))"
  shows "\<exists>b \<in> set (applications s'). app_id b = app_id a \<and> app_status b = app_status a
    \<and> (if i \<in> set (payload_ids (ed_sessions d)) then app_session b = Some i
       else app_session b = None \<and> app_reminder_sent_at b = None)"
  using sync
proof (cases rule: sync_children_cases)
  case (1 r0 s0 ss r1 s1 r2 s2)
  from 1(10) show ?thesis
  proof (cases rule: sync_trial_sessions_cases)
    case (1 ss0 removed)
    note ts = this
    have "map ts_id (ss_update ss0) = payload_ids (ed_sessions d)"
      using sync_sessions_ids [OF ts(1)] by (simp add: session_sync_start_def)
    then have removed: "i \<in> set removed \<longleftrightarrow> i \<notin> set (payload_ids (ed_sessions d))"
      using a(3) \<open>rec_sessions r0 = rec_sessions r\<close> by (simp add: ts(2))
    have a0: "a \<in> set (applications s0)" using a(1) \<open>applications s0 = applications s\<close> by simp
    define c where "c = (if i \<in> set removed then a\<lparr>app_reminder_sent_at := None, app_session := None\<rparr> else a)"
    have "c \<in> set (drop_sessions removed (applications s0))"
      using drop_sessions_row [OF a0 a(2), of removed] by (simp add: c_def)
    from clear_reminders_row [OF this, of r1 "ss_moved ss0"] obtain b where
      b: "b \<in> set (applications s1)" "app_id b = app_id c" "app_session b = app_session c"
      "app_status b = app_status c" "app_reminder_sent_at c = None \<longrightarrow> app_reminder_sent_at b = None"
      by (auto simp: ts(8))
    obtain rem where "applications s2 = drop_categories rem (applications s1)"
      using sync_age_categories_apps [OF \<open>sync_age_categories (ss_refs ss) (ed_categories d) r2 s1 = Inr (r', s2)\<close>] by blast
    with drop_categories_row [OF b(1), of rem] obtain e where
      e: "e \<in> set (applications s2)" "app_id e = app_id b" "app_session e = app_session b"
      "app_status e = app_status b" "app_reminder_sent_at e = app_reminder_sent_at b" by auto
    have "applications s' = applications s2" using \<open>s' = save_recruitment r' s2\<close> by (simp add: save_recruitment_def)
    with b e removed a(2) show ?thesis
      by (intro bexI [of _ e]) (auto simp: c_def split: if_splits)
  qed
qed

text \<open>
  Property C33. Editing the dates of a trial is a difference, not a replacement: an applicant of a date the
  payload keeps stays on it, an applicant of a date it leaves out keeps the application but has no date
  and no reminder any more, and no status moves. The payload can name only dates of this recruitment.
\<close>

theorem edit_keeps_applicants_on_kept_dates:
  assumes "update_recruitment db dz goc cf ct sports loaded d s = Inr (out, s')"
    and "tbl_get rec_id (recruitments s) (rec_id loaded) = Some cur"
    and "a \<in> set (applications s)" and "app_session a = Some i" and "i \<in> set (map ts_id (rec_sessions cur))"
  shows "set (payload_ids (ed_sessions d)) \<subseteq> set (map ts_id (rec_sessions cur))
    \<and> (\<exists>b \<in> set (applications s'). app_id b = app_id a \<and> app_status b = app_status a
        \<and> (if i \<in> set (payload_ids (ed_sessions d)) then app_session b = Some i
           else app_session b = None \<and> app_reminder_sent_at b = None))"
proof -
  from assms(1,2) obtain r changes r' where sync: "sync_children db dz goc d (with_children cur r) s = Inr (changes, r', s')"
    by (cases rule: update_recruitment_cases) auto
  have sessions: "rec_sessions (with_children cur r) = rec_sessions cur" by (simp add: with_children_def)
  from sync have "set (payload_ids (ed_sessions d)) \<subseteq> set (map ts_id (rec_sessions cur))"
  proof (cases rule: sync_children_cases)
    case (1 r0 s0 ss r1 s1 r2 s2)
    from 1(10) show ?thesis
    proof (cases rule: sync_trial_sessions_cases)
      case (1 ss0 removed)
      from sync_sessions_ids [OF 1(1)] show ?thesis
        using \<open>rec_sessions r0 = rec_sessions (with_children cur r)\<close> sessions
        by (simp add: session_sync_start_def)
    qed
  qed
  with sync_children_application [OF sync assms(3,4)] assms(5) sessions show ?thesis by simp
qed

text \<open>
  Every edit erases the answers the applicants gave: the questions are deleted and made anew,
  and the answers go with them, even when the payload repeats the questions word for word.
\<close>

theorem edit_erases_answers:
  assumes "update_recruitment db dz goc cf ct sports loaded d s = Inr (out, s')"
    and "tbl_get rec_id (recruitments s) (rec_id loaded) = Some cur"
  shows "answers s' = filter (\<lambda>x. ans_question x \<notin> set (map q_id (rec_questions cur))) (answers s)"
proof -
  from assms obtain r changes r' where sync: "sync_children db dz goc d (with_children cur r) s = Inr (changes, r', s')"
    by (cases rule: update_recruitment_cases) auto
  from sync show ?thesis
  proof (cases rule: sync_children_cases)
    case (1 r0 s0 ss r1 s1 r2 s2)
    have "answers s1 = answers s0" using 1(10) by (cases rule: sync_trial_sessions_cases) simp
    with 1(9,14) sync_age_categories_dates [OF 1(12)] show ?thesis
      by (simp add: save_recruitment_def with_children_def)
  qed
qed

section \<open>Editing the trial written out\<close>

text \<open>The trial with a question, one applicant per date, and an answer.\<close>

definition asking_trial :: recruitment where
  "asking_trial = trial\<lparr>rec_applications_count := 2, rec_questions := question_rows 2 0 [demo_question]\<rparr>"

definition asking_state :: rec_state where
  "asking_state = (trial_state [entry 20 21 Shortlisted [], (entry 21 22 Applied [])\<lparr>app_session := Some 4\<rparr>])
     \<lparr>recruitments := [asking_trial],
      answers := [\<lparr>ans_application = 20, ans_question = 2, ans_text = ''Keeper'', ans_option = None\<rparr>]\<rparr>"

definition editing :: "recruitment \<Rightarrow> ((recruitment \<times> schedule_change list) \<times> rec_state) result" where
  "editing loaded = update_recruitment demo_db utc demo_goc no_objection no_objection [3] loaded
     (demo_edit demo_scalars [demo_date (Some 4) 12]) asking_state"

lemma editing_runs: "\<not> isl (editing asking_trial)"
  by code_simp

lemma asking_row: "tbl_get rec_id (recruitments asking_state) (rec_id asking_trial) = Some asking_trial"
  by (simp add: asking_state_def tbl_get_def)

theorem trial_window_is_its_dates_witness:
  "\<exists>r \<in> set (recruitments (after (editing asking_trial))). rec_event_date r \<noteq> None"
proof -
  let ?r = "fst (outcome (editing asking_trial))"
  have run: "editing asking_trial = Inr ((?r, snd (outcome (editing asking_trial))), after (editing asking_trial))"
    using after_run [OF editing_runs] by simp
  have live: "live_sessions ?r \<noteq> []" by code_simp
  have "?r \<in> set (recruitments (after (editing asking_trial))) \<and> (live_sessions ?r \<noteq> [] \<longrightarrow> rec_event_date ?r \<noteq> None)"
    using trial_window_is_its_dates [OF run [unfolded editing_def]] unfolding editing_def
    by (cases "live_sessions (fst (outcome (editing asking_trial)))") (auto simp: editing_def)
  with live show ?thesis by blast
qed

theorem edit_keeps_applicants_on_kept_dates_witness:
  "(\<exists>b \<in> set (applications (after (editing asking_trial))). app_id b = 20 \<and> app_status b = Shortlisted
      \<and> app_session b = None)
   \<and> (\<exists>b \<in> set (applications (after (editing asking_trial))). app_id b = 21 \<and> app_session b = Some 4)"
proof -
  note run = after_run [OF editing_runs, unfolded editing_def]
  have ids: "payload_ids (ed_sessions (demo_edit demo_scalars [demo_date (Some 4) 12])) = [4]"
    "map ts_id (rec_sessions asking_trial) = [3, 4]"
    by (simp_all add: demo_edit_def demo_date_def asking_trial_def trial_def trial_date_def)
  have rows: "entry 20 21 Shortlisted [] \<in> set (applications asking_state)"
    "(entry 21 22 Applied [])\<lparr>app_session := Some 4\<rparr> \<in> set (applications asking_state)"
    "app_session (entry 20 21 Shortlisted []) = Some 3"
    by (simp_all add: asking_state_def trial_state_def entry_def fresh_application_def)
  from edit_keeps_applicants_on_kept_dates [OF run asking_row rows(1,3)]
    edit_keeps_applicants_on_kept_dates [OF run asking_row rows(2), of 4]
  show ?thesis unfolding editing_def by (simp add: ids) blast
qed

theorem edit_erases_answers_witness:
  "answers asking_state \<noteq> [] \<and> answers (after (editing asking_trial)) = []
   \<and> map q_question (rec_questions (fst (outcome (editing asking_trial)))) = map q_question (rec_questions asking_trial)"
proof -
  note run = after_run [OF editing_runs, unfolded editing_def]
  have same: "map q_question (rec_questions (fst (outcome (editing asking_trial))))
    = map q_question (rec_questions asking_trial)" by code_simp
  have "answers (after (editing asking_trial))
      = filter (\<lambda>x. ans_question x \<notin> set (map q_id (rec_questions asking_trial))) (answers asking_state)"
    using edit_erases_answers [OF run asking_row] unfolding editing_def .
  with same show ?thesis by (simp add: asking_state_def asking_trial_def demo_question_def)
qed

section \<open>The row an edit writes\<close>

lemma fold_scalar_rest: "row_rest (fold set_scalar es r) = row_rest r"
proof (induction es arbitrary: r)
  case (Cons e es)
  then show ?case by (cases e) (simp_all add: row_rest_def)
qed simp

lemma sync_children_rest:
  assumes "sync_children db dz goc d r s = Inr (changes, r', s')"
  shows "row_rest r' = row_rest r"
  using assms
proof (cases rule: sync_children_cases)
  case (1 r0 s0 ss r1 s1 r2 s2)
  have "row_rest r1 = row_rest r0"
    using 1(10) by (cases rule: sync_trial_sessions_cases) (simp add: row_rest_def)
  moreover have "row_rest r2 = row_rest r1"
    using 1(11) by (auto simp: sync_trial_window_def Let_def row_rest_def split: prod.splits if_splits)
  moreover have "row_rest r' = row_rest r2"
    using 1(12) by (auto simp: sync_age_categories_def res_bind_eq_Inr Let_def row_rest_def split: if_splits)
  ultimately show ?thesis using 1(15) by simp
qed

text \<open>
  An edit leaves the status, the publication stamp, the organization, the delete flag and the
  three counters as the request loaded them. On a row that is still current that is what makes an edit
  safe; on one that has moved since, the old values are written over the new ones.
\<close>

theorem edit_writes_back_what_it_loaded:
  assumes "update_recruitment db dz goc cf ct sports loaded d s = Inr ((r, told), s')"
  shows "r \<in> set (recruitments s') \<and> rec_id r = rec_id loaded
    \<and> rec_status r = rec_status loaded \<and> rec_published_at r = rec_published_at loaded
    \<and> rec_org r = rec_org loaded \<and> rec_is_deleted r = rec_is_deleted loaded
    \<and> rec_applications_count r = rec_applications_count loaded
    \<and> rec_confirmed_count r = rec_confirmed_count loaded
    \<and> rec_selected_count r = rec_selected_count loaded"
proof -
  from assms obtain lf r0 cur changes where
    r0: "r0 = clear_fee (fold set_scalar (ed_scalars d) (set_location lf (loaded\<lparr>rec_sport := ed_sport d\<rparr>)))"
    and sync: "sync_children db dz goc d (with_children cur r0) s = Inr (changes, r, s')"
    by (cases rule: update_recruitment_cases) auto
  have "same_counters loaded r"
    using sync_children_effect [OF sync] edited_row_counters [of loaded cur "ed_scalars d" lf "ed_sport d"]
    unfolding r0 by (blast intro: same_counters_trans)
  moreover have "row_rest r = row_rest r0"
    using sync_children_rest [OF sync] by (simp add: with_children_def row_rest_def)
  moreover have "row_rest r0 = row_rest (set_location lf (loaded\<lparr>rec_sport := ed_sport d\<rparr>))"
    unfolding r0 using fold_scalar_rest by (simp add: clear_fee_def row_rest_def)
  ultimately show ?thesis
    using update_recruitment_row [OF assms]
    by (simp add: row_rest_def set_location_def same_counters_def)
qed

text \<open>The request that loaded the row before the two players applied.\<close>

theorem edit_writes_back_what_it_loaded_witness:
  "\<exists>r \<in> set (recruitments (after (editing (asking_trial\<lparr>rec_applications_count := 0\<rparr>)))).
     rec_applications_count r = 0 \<and> length (live_applications asking_state (rec_id r)) = 2"
proof -
  have "\<not> isl (editing (asking_trial\<lparr>rec_applications_count := 0\<rparr>))" by code_simp
  then obtain r told where "editing (asking_trial\<lparr>rec_applications_count := 0\<rparr>)
      = Inr ((r, told), after (editing (asking_trial\<lparr>rec_applications_count := 0\<rparr>)))"
    using after_run by (metis prod.collapse)
  from edit_writes_back_what_it_loaded [OF this [unfolded editing_def]]
  have r: "r \<in> set (recruitments (after (editing (asking_trial\<lparr>rec_applications_count := 0\<rparr>))))"
    "rec_applications_count r = 0" "rec_id r = rec_id asking_trial"
    by (simp_all add: editing_def)
  have "length (live_applications asking_state (rec_id asking_trial)) = 2" by code_simp
  with r show ?thesis by (intro bexI [of _ r]) simp_all
qed

section \<open>Publishing, closing, cancelling\<close>

text \<open>
  A status change follows the published machine: never back to a draft, never out of
  cancelled, only along an allowed edge. The publication stamp is set on the first activation and never
  changes afterwards, and only these two columns of the row move.
\<close>

theorem status_follows_the_machine:
  assumes "change_recruitment_status now r st s = Inr (r1, s')" and "r \<in> set (recruitments s)"
    and "tbl_ok rec_id (recruitments s)"
  shows "st \<in> set (allowed_transitions (rec_status r)) \<and> rec_status r \<noteq> Cancelled \<and> st \<noteq> Draft
    \<and> r1 = r\<lparr>rec_status := st, rec_published_at := rec_published_at r1\<rparr>
    \<and> rec_published_at r1 = (case rec_published_at r of Some t \<Rightarrow> Some t
        | None \<Rightarrow> if st = Active then Some now else None)
    \<and> recruitments s' = tbl_save rec_id r1 (recruitments s) \<and> applications s' = applications s"
proof -
  have edge: "st \<in> set (allowed_transitions (rec_status r))"
    using assms(1) by (auto simp: change_recruitment_status_def split: if_splits)
  then have "rec_status r \<noteq> Cancelled" "st \<noteq> Draft" by (cases "rec_status r"; auto)+
  moreover have stored: "map (\<lambda>x. if rec_id x = rec_id r then f x else x) (recruitments s)
      = tbl_save rec_id (f r) (recruitments s)" if "\<And>x. rec_id (f x) = rec_id x" for f
    using tbl_row_eq [OF assms(3) _ assms(2)] that by (auto simp: tbl_save_def)
  have "r1 = r\<lparr>rec_status := st, rec_published_at := rec_published_at r1\<rparr>
    \<and> rec_published_at r1 = (case rec_published_at r of Some t \<Rightarrow> Some t
        | None \<Rightarrow> if st = Active then Some now else None)
    \<and> recruitments s' = tbl_save rec_id r1 (recruitments s) \<and> applications s' = applications s"
    using assms(1) by (auto simp: change_recruitment_status_def update_row_def stored split: if_splits option.splits)
  ultimately show ?thesis using edge by blast
qed

theorem status_follows_the_machine_witness:
  "recruitments (after (change_recruitment_status (at_day 5) trial Closed (trial_state [])))
   = tbl_save rec_id (outcome (change_recruitment_status (at_day 5) trial Closed (trial_state [])))
       (recruitments (trial_state []))"
proof -
  have "\<not> isl (change_recruitment_status (at_day 5) trial Closed (trial_state []))" by code_simp
  moreover have "trial \<in> set (recruitments (trial_state []))" "tbl_ok rec_id (recruitments (trial_state []))"
    by (simp_all add: trial_state_def tbl_ok_def trial_def blank_recruitment_def)
  ultimately show ?thesis using status_follows_the_machine [OF after_run] by blast
qed

text \<open>
  A request that loaded the row before it was cancelled still reopens it: the edge is taken from the
  status the request saw.
\<close>

lemma update_row_in:
  "r \<in> set (recruitments s) \<Longrightarrow> f r \<in> set (recruitments (update_row (rec_id r) f s))"
  by (auto simp: update_row_def intro!: rev_image_eqI [of r])

lemma stale_request_reopens_cancelled:
  assumes "rec_status loaded = Closed" and "rec_id loaded = rec_id r" and "r \<in> set (recruitments s)"
  shows "\<exists>out s'. change_recruitment_status now loaded Active s = Inr (out, s')
    \<and> (\<exists>x \<in> set (recruitments s'). rec_id x = rec_id r \<and> rec_status x = Active)"
proof (cases "rec_published_at loaded")
  case None
  let ?f = "\<lambda>x. x\<lparr>rec_status := Active, rec_published_at := Some now\<rparr>"
  have "?f r \<in> set (recruitments (update_row (rec_id r) ?f s))" by (rule update_row_in [OF assms(3)])
  then have "\<exists>x \<in> set (recruitments (update_row (rec_id r) ?f s)). rec_id x = rec_id r \<and> rec_status x = Active"
    by (rule bexI [rotated]) simp
  with assms(1,2) None show ?thesis by (simp add: change_recruitment_status_def)
next
  case (Some t)
  let ?f = "\<lambda>x. x\<lparr>rec_status := Active\<rparr>"
  have "?f r \<in> set (recruitments (update_row (rec_id r) ?f s))" by (rule update_row_in [OF assms(3)])
  then have "\<exists>x \<in> set (recruitments (update_row (rec_id r) ?f s)). rec_id x = rec_id r \<and> rec_status x = Active"
    by (rule bexI [rotated]) simp
  with assms(1,2) Some show ?thesis by (simp add: change_recruitment_status_def)
qed

section \<open>Taking a recruitment down\<close>

text \<open>
  The check the delete dialog asks for and the delete itself agree: an owner's delete of a
  standing recruitment goes through exactly when the note the check demands is there and of the right
  length, and when it demands none, any note will do.
\<close>

theorem delete_agrees_with_its_check:
  assumes "require_deleter ao = Inr m" and "tbl_get rec_id (recruitments s) (rec_id loaded) = Some r"
    and "\<not> rec_is_deleted r"
  shows "(\<exists>out. delete_recruitment now ao loaded raw_note s = Inr out) \<longleftrightarrow>
    (if fst (delete_requirements now r s)
     then 10 \<le> length (py_strip raw_note) \<and> length (py_strip raw_note) \<le> 500 else True)"
  using assms by (auto simp: delete_recruitment_def Let_def delete_note_min_def delete_note_max_def)

lemma demo_deleter: "require_deleter as_owner = Inr demo_owner"
  by code_simp

theorem delete_agrees_with_its_check_witness:
  "\<not> (\<exists>out. delete_recruitment (at_day 3) as_owner asking_trial ''sorry'' asking_state = Inr out)"
proof -
  have "\<not> rec_is_deleted asking_trial" by (simp add: asking_trial_def trial_def blank_recruitment_def)
  note agree = delete_agrees_with_its_check [OF demo_deleter asking_row this]
  have "fst (delete_requirements (at_day 3) asking_trial asking_state)" by code_simp
  moreover have "length (py_strip ''sorry'') = 5" by code_simp
  ultimately show ?thesis using agree by simp
qed

text \<open>
  After a delete the recruitment takes no application, no withdrawal and no feedback any
  more; its applications stand as they were, its announcements are gone, and the applicants still in play
  are told exactly when the delete had to explain itself to them.
\<close>

theorem removed_recruitment_refuses:
  assumes ok: "rec_ok s" and run: "delete_recruitment now ao loaded raw_note s = Inr (r, s')"
  shows "r \<in> set (recruitments s') \<and> rec_is_deleted r
    \<and> \<not> (\<exists>out. apply_to db dz rng tiers later actor u (rec_id r) v s' = Inr out)
    \<and> (\<forall>out. withdraw u aid s' = Inr out \<longrightarrow> app_recruitment (fst out) \<noteq> rec_id r)
    \<and> (\<forall>out. submit_feedback later a d s' = Inr out \<longrightarrow> app_recruitment a \<noteq> rec_id r)
    \<and> applications s' = applications s
    \<and> (\<forall>x \<in> set (announcements s'). ann_recruitment x = rec_id r \<longrightarrow> ann_is_deleted x)
    \<and> rec_effects s' = rec_effects s @ (if fst (delete_requirements now (r\<lparr>rec_is_deleted := False\<rparr>) s)
        then [RemovedFanOut (rec_id r)] else [])"
  using run
proof (cases rule: delete_recruitment_cases)
  case (1 m r0)
  have id: "rec_id r = rec_id r0" by (simp add: 1(6))
  have tok: "tbl_ok rec_id (recruitments s')" using rec_ok_tbl(1) [OF ok] by (simp add: 1(7))
  have r: "r \<in> set (recruitments s')" using 1(2) id by (auto simp: 1(7) set_tbl_save)
  have del: "rec_is_deleted r" by (simp add: 1(6))
  have get: "tbl_get rec_id (recruitments s') (rec_id r) = Some r" by (rule tbl_get_row [OF tok r])
  have locked: "lock_recruitment s' (rec_id r) \<noteq> Inr x" for x
  proof
    assume "lock_recruitment s' (rec_id r) = Inr x"
    from lock_recruitment_Inr [OF this] tbl_row_eq [OF tok _ r] del show False by blast
  qed
  have "\<not> (\<exists>out. apply_to db dz rng tiers later actor u (rec_id r) v s' = Inr out)"
  proof
    assume "\<exists>out. apply_to db dz rng tiers later actor u (rec_id r) v s' = Inr out"
    then obtain w t where "apply_to db dz rng tiers later actor u (rec_id r) v s' = Inr (w, t)" by auto
    then show False by (cases rule: apply_to_cases) (use locked in blast)
  qed
  moreover have "app_recruitment (fst out) \<noteq> rec_id r" if "withdraw u aid s' = Inr out" for out
  proof -
    obtain w t where out: "out = (w, t)" by (cases out)
    from that show ?thesis unfolding out
      by (cases rule: withdraw_cases) (use get del in auto)
  qed
  moreover have "app_recruitment a \<noteq> rec_id r" if "submit_feedback later a d s' = Inr out" for out
    using that get del by (auto simp: submit_feedback_def refuse_if_removed_def)
  moreover have "delete_requirements now (r\<lparr>rec_is_deleted := False\<rparr>) s = delete_requirements now r0 s"
    by (simp add: 1(6) delete_requirements_def is_past_def rec_trial_over_def)
  ultimately show ?thesis using r del 1(8,11,12) id by auto
qed

definition deleting :: "(recruitment \<times> rec_state) result" where
  "deleting = delete_recruitment (at_day 3) as_owner asking_trial ''The ground is flooded.'' asking_state"

lemma asking_ok: "rec_ok asking_state"
proof -
  let ?s = "trial_state [entry 20 21 Shortlisted [], (entry 21 22 Applied [])\<lparr>app_session := Some 4\<rparr>]"
  have ok: "rec_ok ?s" by (rule trial_state_ok) (simp_all add: app_pair_def codes_ok_def)
  show ?thesis
  proof (rule edit_ok [OF ok])
    show "trial\<lparr>rec_applications_count := 2\<rparr> \<in> set (recruitments ?s)" by (simp add: trial_state_def)
    show "same_counters (trial\<lparr>rec_applications_count := 2\<rparr>) asking_trial"
      by (simp add: asking_trial_def same_counters_def)
    show "below_cap asking_trial"
      by (simp add: asking_trial_def trial_def blank_recruitment_def below_cap_def)
    show "recruitments asking_state = tbl_save rec_id asking_trial (recruitments ?s)"
      by (simp add: asking_state_def trial_state_def asking_trial_def tbl_save_def)
  qed (simp_all add: asking_state_def trial_state_def)
qed

theorem removed_recruitment_refuses_witness:
  "\<not> (\<exists>out. apply_to demo_db utc (demo_rng 9) applicant_alert_tiers (at_day 4) (UserActor 23) 23
        (rec_id (outcome deleting)) (demo_data (Some 4)) (after deleting) = Inr out)"
proof -
  have "\<not> isl deleting" by code_simp
  from removed_recruitment_refuses [OF asking_ok after_run [OF this, unfolded deleting_def]]
  show ?thesis unfolding deleting_def by blast
qed

end
