(* ===== verification/Age_Gate.thy ===== *)
theory Age_Gate
  imports Goatza_Prelude
begin

text \<open>
  Who is a minor, and who may sign up: \<open>apps/accounts/constants.py\<close>,
  \<open>apps/accounts/services/age_service.py\<close> and \<open>User.is_minor\<close>.

  A \<open>datetime.date\<close> is its three fields, ordered as Python orders dates. \<open>date.today()\<close> and
  \<open>date.fromisoformat\<close> are parameters. \<open>upper\<close> is on the characters below 256; the capitals of the
  micro sign and of y with diaeresis lie above them, so the two are left as they are.
\<close>

section \<open>Dates\<close>

datatype pydate = PyDate (py_year: int) (py_month: int) (py_day: int)

instantiation pydate :: linorder
begin

definition less_eq_pydate :: "pydate \<Rightarrow> pydate \<Rightarrow> bool" where
  "less_eq_pydate a b \<longleftrightarrow>
     py_year a < py_year b \<or> py_year a = py_year b \<and>
       (py_month a < py_month b \<or> py_month a = py_month b \<and> py_day a \<le> py_day b)"

definition less_pydate :: "pydate \<Rightarrow> pydate \<Rightarrow> bool" where
  "less_pydate a b \<longleftrightarrow>
     py_year a < py_year b \<or> py_year a = py_year b \<and>
       (py_month a < py_month b \<or> py_month a = py_month b \<and> py_day a < py_day b)"

instance
  by standard (auto simp: less_eq_pydate_def less_pydate_def intro: pydate.expand)

end

section \<open>Python strings\<close>

definition py_upper_char :: "char \<Rightarrow> string" where
  "py_upper_char c =
     (let n = (of_char c :: nat)
      in if n = 223 then ''SS''
         else if (97 \<le> n \<and> n \<le> 122) \<or> (224 \<le> n \<and> n \<le> 254 \<and> n \<noteq> 247) then [char_of (n - 32)]
         else [c])"

definition py_upper :: "string \<Rightarrow> string" where
  "py_upper s = concat (map py_upper_char s)"

definition py_isalpha_char :: "char \<Rightarrow> bool" where
  "py_isalpha_char c =
     (let n = (of_char c :: nat)
      in (65 \<le> n \<and> n \<le> 90) \<or> (97 \<le> n \<and> n \<le> 122) \<or> n = 170 \<or> n = 181 \<or> n = 186
         \<or> (192 \<le> n \<and> n \<le> 255 \<and> n \<noteq> 215 \<and> n \<noteq> 247))"

definition py_isalpha :: "string \<Rightarrow> bool" where
  "py_isalpha s \<longleftrightarrow> s \<noteq> [] \<and> list_all py_isalpha_char s"

definition py_isdigit_char :: "char \<Rightarrow> bool" where
  "py_isdigit_char c =
     (let n = (of_char c :: nat) in (48 \<le> n \<and> n \<le> 57) \<or> n = 178 \<or> n = 179 \<or> n = 185)"

definition py_isdigit :: "string \<Rightarrow> bool" where
  "py_isdigit s \<longleftrightarrow> s \<noteq> [] \<and> list_all py_isdigit_char s"

section \<open>The reference data\<close>

definition minor_age_by_country :: "(string \<times> int) list" where
  "minor_age_by_country =
     [(''IN'', 18), (''GB'', 13), (''US'', 13), (''DE'', 16), (''NL'', 16), (''AU'', 16)]"

definition default_minor_age :: int where "default_minor_age = 18"
definition minimum_signup_age :: int where "minimum_signup_age = 13"
definition earliest_plausible_birth_year :: int where "earliest_plausible_birth_year = 1900"

definition country_by_dialling_code :: "(string \<times> string) list" where
  "country_by_dialling_code = [
    (''1'', ''US''), (''7'', ''RU''), (''20'', ''EG''), (''27'', ''ZA''), (''31'', ''NL''), (''32'', ''BE''),
    (''33'', ''FR''), (''34'', ''ES''), (''39'', ''IT''), (''41'', ''CH''), (''43'', ''AT''), (''44'', ''GB''),
    (''45'', ''DK''), (''46'', ''SE''), (''47'', ''NO''), (''48'', ''PL''), (''49'', ''DE''), (''51'', ''PE''),
    (''52'', ''MX''), (''54'', ''AR''), (''55'', ''BR''), (''56'', ''CL''), (''57'', ''CO''), (''60'', ''MY''),
    (''61'', ''AU''), (''62'', ''ID''), (''63'', ''PH''), (''64'', ''NZ''), (''65'', ''SG''), (''66'', ''TH''),
    (''81'', ''JP''), (''82'', ''KR''), (''84'', ''VN''), (''86'', ''CN''), (''90'', ''TR''), (''91'', ''IN''),
    (''92'', ''PK''), (''94'', ''LK''), (''212'', ''MA''), (''233'', ''GH''), (''234'', ''NG''), (''254'', ''KE''),
    (''351'', ''PT''), (''353'', ''IE''), (''358'', ''FI''), (''880'', ''BD''), (''966'', ''SA''), (''968'', ''OM''),
    (''971'', ''AE''), (''973'', ''BH''), (''974'', ''QA''), (''977'', ''NP'')]"

text \<open>\<open>sorted(..., key=len, reverse=True)\<close> keeps the table's order among codes of one length.\<close>

definition dialling_codes_longest_first :: "string list" where
  "dialling_codes_longest_first =
     rev (sort_key length (rev (map fst country_by_dialling_code)))"

text \<open>\<open>None\<close> is an argument that is missing or not a \<open>str\<close>.\<close>

definition normalize_country :: "string option \<Rightarrow> string" where
  "normalize_country country_code =
     (case country_code of
        None \<Rightarrow> ''''
      | Some s \<Rightarrow>
          (if s = '''' then ''''
           else let code = py_upper (py_strip s)
                in if length code \<noteq> 2 \<or> \<not> py_isalpha code then '''' else code))"

definition minor_age_for :: "string option \<Rightarrow> int" where
  "minor_age_for country_code =
     (case map_of minor_age_by_country (normalize_country country_code) of
        None \<Rightarrow> default_minor_age | Some a \<Rightarrow> a)"

definition country_for_dialling_code :: "string option \<Rightarrow> string" where
  "country_for_dialling_code phone =
     (case phone of
        None \<Rightarrow> ''''
      | Some p \<Rightarrow>
          (if p = '''' then ''''
           else let digits = py_strip p
                in if \<not> startswith digits ''+'' then ''''
                   else let digits = drop 1 digits
                        in if \<not> py_isdigit digits then ''''
                           else case find (startswith digits) dialling_codes_longest_first of
                                  None \<Rightarrow> ''''
                                | Some code \<Rightarrow> the (map_of country_by_dialling_code code)))"

section \<open>Ages\<close>

definition age_on :: "pydate \<Rightarrow> pydate \<Rightarrow> int" where
  "age_on birthdate today =
     py_year today - py_year birthdate
     - of_bool (py_month today < py_month birthdate
                \<or> py_month today = py_month birthdate \<and> py_day today < py_day birthdate)"

definition is_minor :: "pydate \<Rightarrow> pydate option \<Rightarrow> string \<Rightarrow> bool" where
  "is_minor today birthdate country_code =
     (case birthdate of
        None \<Rightarrow> True
      | Some b \<Rightarrow> age_on b today < minor_age_for (Some country_code))"

section \<open>The signup\<close>

text \<open>
  What a request body may hold under \<open>birthdate\<close>. \<open>profile_birthdate\<close> below is \<open>None\<close> both for a
  missing profile row and for a profile without a date.
\<close>

datatype body_value = Body_Date pydate | Body_Str string | Body_Other

definition birthdate_editable :: "bool \<Rightarrow> pydate option \<Rightarrow> bool" where
  "birthdate_editable is_onboarding_completed profile_birthdate =
     (if \<not> is_onboarding_completed then True else profile_birthdate = None)"

definition parse_birthdate :: "(string \<Rightarrow> pydate option) \<Rightarrow> body_value \<Rightarrow> pydate result" where
  "parse_birthdate fromisoformat value =
     (case value of
        Body_Date d \<Rightarrow> Inr d
      | Body_Str s \<Rightarrow>
          (if s = '''' then Inl (AgeGateError ''invalid_birthdate'')
           else case fromisoformat (py_strip s) of
                  None \<Rightarrow> Inl (AgeGateError ''invalid_birthdate'')
                | Some d \<Rightarrow> Inr d)
      | Body_Other \<Rightarrow> Inl (AgeGateError ''invalid_birthdate''))"

definition resolve_country :: "string option \<Rightarrow> string option \<Rightarrow> string" where
  "resolve_country declared_country phone =
     (let declared = normalize_country declared_country;
          implied = country_for_dialling_code phone
      in if implied = '''' \<or> implied = declared then declared
         else if minor_age_for (Some implied) > minor_age_for (Some declared) then implied
         else declared)"

definition validate_signup_age :: "pydate \<Rightarrow> pydate option \<Rightarrow> unit result" where
  "validate_signup_age today birthdate =
     (case birthdate of
        None \<Rightarrow> Inl (AgeGateError ''invalid_birthdate'')
      | Some b \<Rightarrow>
          (if b > today \<or> py_year b < earliest_plausible_birth_year
           then Inl (AgeGateError ''invalid_birthdate'')
           else if age_on b today < minimum_signup_age then Inl (AgeGateError ''under_age'')
           else Inr ()))"

section \<open>Laws\<close>

text \<open>An age of at least \<open>k\<close> is a \<open>k\<close>-th birthday that has come.\<close>

definition birthday :: "int \<Rightarrow> pydate \<Rightarrow> pydate" where
  "birthday k b = PyDate (py_year b + k) (py_month b) (py_day b)"

lemma age_on_ge: "k \<le> age_on b t \<longleftrightarrow> birthday k b \<le> t"
  by (auto simp: age_on_def birthday_def less_eq_pydate_def)

lemma age_on_mono: "t \<le> u \<Longrightarrow> age_on b t \<le> age_on b u"
  by (auto simp: age_on_def less_eq_pydate_def)

lemma age_on_anti: "b \<le> c \<Longrightarrow> age_on c t \<le> age_on b t"
  by (auto simp: age_on_def less_eq_pydate_def)

lemma minor_age_bounds: "13 \<le> minor_age_for c \<and> minor_age_for c \<le> 18"
  by (auto simp: minor_age_for_def minor_age_by_country_def default_minor_age_def)

lemma of_char_bound: "(of_char c :: nat) < 256"
  by (metis of_char_mod_256 mod_less_divisor zero_less_numeral)

lemma py_upper_char_idem:
  assumes "py_upper_char c = [d]"
  shows "py_upper_char d = [d]"
proof -
  have "(of_char c :: nat) < 256" by (rule of_char_bound)
  with assms show ?thesis
    by (auto simp: py_upper_char_def Let_def of_char_of split: if_splits)
qed

lemma py_upper_len: "length (py_upper_char c) \<le> 2 \<and> py_upper_char c \<noteq> []"
  by (auto simp: py_upper_char_def Let_def)

text \<open>A normalized country code is its own normal form.\<close>

lemma py_isalpha_not_space: "py_isalpha_char c \<Longrightarrow> \<not> py_isspace c"
  by (auto simp: py_isalpha_char_def py_isspace_def Let_def)

lemma py_isdigit_not_space: "py_isdigit_char c \<Longrightarrow> \<not> py_isspace c"
  by (auto simp: py_isdigit_char_def py_isspace_def Let_def)

lemma py_strip_fixed:
  assumes "\<And>c. c \<in> set s \<Longrightarrow> \<not> py_isspace c"
  shows "py_strip s = s"
proof -
  have "dropWhile py_isspace t = t" if "set t = set s" for t
    using that assms by (cases t) auto
  then show ?thesis by (simp add: py_strip_def)
qed

lemma py_upper_fixed:
  "py_upper (py_upper s) = py_upper s"
proof -
  have fixed: "py_upper_char d = [d]" if "d \<in> set (py_upper_char c)" for c d
  proof (cases "of_char c = (223 :: nat)")
    case True
    then show ?thesis using that by (simp add: py_upper_char_def)
  next
    case False
    then have "py_upper_char c = [d]"
      using that by (auto simp: py_upper_char_def Let_def split: if_splits)
    then show ?thesis by (rule py_upper_char_idem)
  qed
  have same: "concat (map py_upper_char t) = t" if "\<forall>d \<in> set t. py_upper_char d = [d]" for t
    using that by (induction t) auto
  show ?thesis unfolding py_upper_def by (rule same) (auto intro: fixed)
qed

lemma normalize_country_idem:
  "normalize_country (Some (normalize_country c)) = normalize_country c"
proof (cases "normalize_country c = []")
  case True
  then show ?thesis by (simp add: normalize_country_def)
next
  case False
  then obtain s where s: "c = Some s" "normalize_country c = py_upper (py_strip s)"
      "length (py_upper (py_strip s)) = 2" "py_isalpha (py_upper (py_strip s))"
    by (auto simp: normalize_country_def Let_def split: option.splits if_splits)
  from s(4) have "py_strip (py_upper (py_strip s)) = py_upper (py_strip s)"
    by (intro py_strip_fixed) (auto simp: py_isalpha_def list_all_iff dest: py_isalpha_not_space)
  with s False show ?thesis by (simp add: normalize_country_def py_upper_fixed)
qed

lemma minor_age_for_normal: "minor_age_for (Some (normalize_country c)) = minor_age_for c"
  by (simp add: minor_age_for_def normalize_country_idem)

text \<open>No dialling code of the table is the beginning of another, so at most one can match.\<close>

definition prefix_free :: "string list \<Rightarrow> bool" where
  "prefix_free cs \<longleftrightarrow> list_all (\<lambda>a. list_all (\<lambda>b. a = b \<or> \<not> startswith b a) cs) cs"

lemma prefix_freeD:
  "prefix_free cs \<Longrightarrow> a \<in> set cs \<Longrightarrow> b \<in> set cs \<Longrightarrow> startswith b a \<Longrightarrow> a = b"
  by (auto simp: prefix_free_def list_all_iff)

lemma dialling_codes_prefix_free: "prefix_free (map fst country_by_dialling_code)"
  by code_simp

lemma dialling_codes_distinct: "distinct (map fst country_by_dialling_code)"
  by code_simp

lemma set_longest_first: "set dialling_codes_longest_first = fst ` set country_by_dialling_code"
  by (simp add: dialling_codes_longest_first_def)

lemma startswith_two:
  "startswith s a \<Longrightarrow> startswith s b \<Longrightarrow> startswith a b \<or> startswith b a"
  unfolding startswith_def
  by (metis min.commute min.absorb_iff1 nle_le take_take)

lemma dialling_code_unique:
  assumes "startswith s a" "startswith s b"
    and "a \<in> fst ` set country_by_dialling_code" "b \<in> fst ` set country_by_dialling_code"
  shows "a = b"
  using startswith_two [OF assms(1,2)] prefix_freeD [OF dialling_codes_prefix_free, of a b]
    prefix_freeD [OF dialling_codes_prefix_free, of b a] assms(3,4)
  by (simp only: set_map) metis

lemma find_dialling_code:
  assumes "(code, c) \<in> set country_by_dialling_code" "startswith s code"
  shows "find (startswith s) dialling_codes_longest_first = Some code"
proof -
  have code: "code \<in> set dialling_codes_longest_first"
    using imageI [OF assms(1), of fst] by (simp only: set_longest_first fst_conv)
  have "find (startswith s) dialling_codes_longest_first \<noteq> None"
    using code assms(2) unfolding find_None_conv by blast
  then obtain d where d: "find (startswith s) dialling_codes_longest_first = Some d" by blast
  have "d = code"
    using find_eq_Some_conv [OF d] code assms(2)
    by (intro dialling_code_unique [of s]) (simp_all add: set_longest_first)
  with d show ?thesis by simp
qed

lemma dialled_country_in:
  assumes "find P dialling_codes_longest_first = Some code"
  shows "the (map_of country_by_dialling_code code) \<in> snd ` set country_by_dialling_code"
proof -
  have "code \<in> fst ` set country_by_dialling_code"
    using find_eq_Some_conv [OF assms] by (simp add: set_longest_first)
  then obtain c where "map_of country_by_dialling_code code = Some c"
    by (metis domD dom_map_of_conv_image_fst)
  then show ?thesis by (force dest: map_of_SomeD)
qed

lemma country_for_dialling_code_in:
  "country_for_dialling_code p = [] \<or>
   country_for_dialling_code p \<in> snd ` set country_by_dialling_code"
  using dialled_country_in
  by (auto simp: country_for_dialling_code_def Let_def split: option.splits)

lemma normal_dialling_countries:
  "list_all (\<lambda>(_, c). normalize_country (Some c) = c) country_by_dialling_code"
  by code_simp

lemma implied_country_normal:
  "normalize_country (Some (country_for_dialling_code p)) = country_for_dialling_code p"
  using country_for_dialling_code_in [of p] normal_dialling_countries
  by (auto simp: list_all_iff normalize_country_def)

end
