(* ===== verification/Guardian_Consent.thy ===== *)
theory Guardian_Consent
  imports Age_Gate
begin

text \<open>
  Parental consent: \<open>apps/guardians\<close> (models, constants, permissions, the consent service, its selectors,
  the views' guards and the sweep of \<open>purge_unconsented\<close>).

  A missing e-mail, phone or username is the empty string: the code tests all three for truth only.
  \<open>acc_birthdate\<close> is the profile's date, \<open>None\<close> also for a user without a profile row. One call reads
  the clock once: \<open>timezone.now()\<close>, the \<open>auto_now_add\<close> of the event it writes and \<open>date.today()\<close> are
  fields of one environment, beside what is outside the repository: SHA-256, the e-mail validator, the
  origin of the frontend, the token drawn and the request's metadata.

  Tables are lists in the order of their UUIDv7 keys, the order of creation. What \<open>on_commit\<close> sends is
  \<open>outbox\<close>.
\<close>

section \<open>Rows\<close>

datatype consent_status = NotNeeded | Pending | Approved | Withdrawn

datatype event_type = Requested | Resent | EvApproved | Declined | EvWithdrawn | EvExpired

datatype consent_method = GoatzaAccount | SeparateContact | SharedContact

datatype consent_level = Acknowledged | Verified

record account =
  acc_id :: uid
  acc_email :: string
  acc_phone :: string
  acc_username :: string
  acc_country :: string
  acc_birthdate :: "pydate option"
  acc_consent :: consent_status
  acc_active :: bool
  acc_deletion_at :: "instant option"
  acc_created :: instant

record guardian =
  gu_id :: nat
  gu_name :: string
  gu_email :: string
  gu_phone :: string
  gu_linked :: "uid option"

record consent_event =
  ev_guardian :: nat
  ev_child :: uid
  ev_type :: event_type
  ev_method :: "consent_method option"
  ev_level :: consent_level
  ev_notice :: string
  ev_name_given :: string
  ev_birthdate_given :: "pydate option"
  ev_hash :: string
  ev_expires :: "instant option"
  ev_ip :: "string option"
  ev_agent :: string
  ev_created :: instant

datatype child_handle = Handle string | Pk uid

datatype consent_mail =
    ConsentRequestMail string string child_handle string
  | ConsentWithdrawnMail string string child_handle

record consent_state =
  accounts :: "account list"
  guardians :: "guardian list"
  events :: "consent_event list"
  outbox :: "consent_mail list"
  outstanding_tokens :: "(nat \<times> uid) list"
  blacklisted_tokens :: "nat list"

record consent_env =
  env_hash :: "string \<Rightarrow> string"
  env_valid_email :: "string \<Rightarrow> bool"
  env_base_url :: string
  env_now :: instant
  env_today :: pydate
  env_token :: string
  env_request :: "(string option \<times> string) option"

section \<open>Constants\<close>

definition guardian_notice_version :: string where "guardian_notice_version = ''2026-10-01''"
definition token_ttl :: instant where "token_ttl = 7 * 24 * 60 * 60 * 1000000"
definition guardian_consent_expiry :: instant where
  "guardian_consent_expiry = 30 * 24 * 60 * 60 * 1000000"
definition guardian_adult_age :: int where "guardian_adult_age = 18"

definition open_event_types :: "event_type list" where
  "open_event_types = [Requested, Resent]"

definition consent_page_url :: "string \<Rightarrow> string \<Rightarrow> string" where
  "consent_page_url base raw =
     rev (dropWhile (\<lambda>c. c = CHR ''/'') (rev base)) @ ''/guardian'' @ ''/'' @ raw"

section \<open>Reading the tables\<close>

definition account_of :: "consent_state \<Rightarrow> uid \<Rightarrow> account" where
  "account_of s u = the (tbl_get acc_id (accounts s) u)"

definition guardian_of :: "consent_state \<Rightarrow> nat \<Rightarrow> guardian" where
  "guardian_of s g = the (tbl_get gu_id (guardians s) g)"

text \<open>\<open>User.is_minor\<close>.\<close>

definition acc_is_minor :: "consent_env \<Rightarrow> account \<Rightarrow> bool" where
  "acc_is_minor env a = is_minor (env_today env) (acc_birthdate a) (acc_country a)"

text \<open>
  \<open>filter(...).first()\<close> under \<open>ordering = ["-created_at"]\<close>. Among rows of one microsecond, which the
  database orders as it likes, the later one is taken.
\<close>

definition newer :: "(consent_event \<Rightarrow> bool) \<Rightarrow> consent_event option \<Rightarrow> consent_event \<Rightarrow> consent_event option"
  where "newer P acc e =
     (if \<not> P e then acc
      else case acc of
        None \<Rightarrow> Some e
      | Some a \<Rightarrow> if ev_created e < ev_created a then Some a else Some e)"

definition newest :: "(consent_event \<Rightarrow> bool) \<Rightarrow> consent_event list \<Rightarrow> consent_event option" where
  "newest P evs = foldl (newer P) None evs"

definition is_open_event :: "consent_event \<Rightarrow> bool" where
  "is_open_event e = (ev_type e \<in> set open_event_types)"

definition newest_event_for_child :: "consent_state \<Rightarrow> uid \<Rightarrow> consent_event option" where
  "newest_event_for_child s u = newest (\<lambda>e. ev_child e = u) (events s)"

definition newest_open_for_child :: "consent_state \<Rightarrow> uid \<Rightarrow> consent_event option" where
  "newest_open_for_child s u = newest (\<lambda>e. ev_child e = u \<and> is_open_event e) (events s)"

definition get_event_by_token :: "consent_env \<Rightarrow> consent_state \<Rightarrow> string \<Rightarrow> consent_event option" where
  "get_event_by_token env s raw = newest (\<lambda>e. ev_hash e = env_hash env raw) (events s)"

section \<open>Contacts\<close>

datatype contact_kind = EmailKind | PhoneKind

definition phone_max_length :: nat where "phone_max_length = 15"

definition is_ascii_digit :: "char \<Rightarrow> bool" where
  "is_ascii_digit c = (let n = (of_char c :: nat) in 48 \<le> n \<and> n \<le> 57)"

text \<open>\<open>PHONE_RE\<close>: an optional plus and eight to fifteen digits.\<close>

definition phone_re :: "string \<Rightarrow> bool" where
  "phone_re p =
     (let ds = (if startswith p ''+'' then drop 1 p else p)
      in 8 \<le> length ds \<and> length ds \<le> 15 \<and> list_all is_ascii_digit ds)"

definition is_valid_phone :: "string \<Rightarrow> bool" where
  "is_valid_phone phone =
     (if phone = '''' then False
      else let p = py_strip phone
           in if length p > phone_max_length then False else phone_re p)"

definition normalize_contact :: "consent_env \<Rightarrow> string option \<Rightarrow> (contact_kind \<times> string) result" where
  "normalize_contact env contact =
     (case contact of
        None \<Rightarrow> Inl (GuardianConsentError ''invalid_contact'')
      | Some c \<Rightarrow>
          (if c = '''' then Inl (GuardianConsentError ''invalid_contact'')
           else let c = py_strip c
                in if CHR ''@'' \<in> set c
                   then let c = py_lower c
                        in if env_valid_email env c then Inr (EmailKind, c)
                           else Inl (GuardianConsentError ''invalid_contact'')
                   else if is_valid_phone c then Inr (PhoneKind, c)
                   else Inl (GuardianConsentError ''invalid_contact'')))"

definition clean_parent_name :: "string \<Rightarrow> string result" where
  "clean_parent_name parent_name =
     (let name = py_strip parent_name
      in if name = '''' then Inl (GuardianConsentError ''parent_name_required'')
         else Inr (take 150 name))"

definition given_name :: "string \<Rightarrow> string" where
  "given_name parent_name = take 150 (py_strip parent_name)"

definition is_childs_own_contact :: "account \<Rightarrow> guardian \<Rightarrow> bool" where
  "is_childs_own_contact child g =
     (if gu_email g \<noteq> ''''
      then acc_email child \<noteq> '''' \<and> py_lower (py_strip (acc_email child)) = gu_email g
      else acc_phone child \<noteq> '''' \<and> py_strip (acc_phone child) = gu_phone g)"

definition is_adult_account :: "consent_env \<Rightarrow> account \<Rightarrow> bool" where
  "is_adult_account env a =
     (case acc_birthdate a of
        None \<Rightarrow> False
      | Some b \<Rightarrow> age_on b (env_today env) \<ge> guardian_adult_age)"

definition linkable_account ::
  "consent_env \<Rightarrow> consent_state \<Rightarrow> contact_kind \<Rightarrow> string \<Rightarrow> account \<Rightarrow> uid option" where
  "linkable_account env s kind value child =
     (case (case kind of
              EmailKind \<Rightarrow> find (\<lambda>a. acc_email a \<noteq> '''' \<and> py_lower (acc_email a) = py_lower value) (accounts s)
            | PhoneKind \<Rightarrow> find (\<lambda>a. acc_phone a = value) (accounts s)) of
        None \<Rightarrow> None
      | Some a \<Rightarrow>
          (if acc_id a = acc_id child then None
           else if is_adult_account env a then Some (acc_id a) else None))"

definition fresh_guardian_id :: "guardian list \<Rightarrow> nat" where
  "fresh_guardian_id gs = Suc (foldr max (map gu_id gs) 0)"

text \<open>The guardian at a contact; the state has its row.\<close>

definition find_or_create_guardian ::
  "consent_env \<Rightarrow> contact_kind \<Rightarrow> string \<Rightarrow> string \<Rightarrow> account \<Rightarrow> consent_state \<Rightarrow> guardian \<times> consent_state"
where
  "find_or_create_guardian env kind value parent_name child s =
     (case find (\<lambda>g. (case kind of EmailKind \<Rightarrow> gu_email g | PhoneKind \<Rightarrow> gu_phone g) = value)
             (guardians s) of
        None \<Rightarrow>
          (let g = \<lparr>gu_id = fresh_guardian_id (guardians s), gu_name = parent_name,
                    gu_email = (if kind = EmailKind then value else ''''),
                    gu_phone = (if kind = PhoneKind then value else ''''),
                    gu_linked = linkable_account env s kind value child\<rparr>
           in (g, s\<lparr>guardians := tbl_insert g (guardians s)\<rparr>))
      | Some g \<Rightarrow>
          (if gu_linked g = None
           then case linkable_account env s kind value child of
                  None \<Rightarrow> (g, s)
                | Some u \<Rightarrow>
                    (let g' = g\<lparr>gu_linked := Some u\<rparr>
                     in (g', s\<lparr>guardians := tbl_save gu_id g' (guardians s)\<rparr>))
           else (g, s)))"

section \<open>Plumbing\<close>

definition request_context :: "consent_env \<Rightarrow> string option \<times> string" where
  "request_context env =
     (case env_request env of None \<Rightarrow> (None, '''') | Some (ip, agent) \<Rightarrow> (ip, take 500 agent))"

text \<open>\<open>(hashed, expires_at)\<close>; the raw token is \<open>env_token env\<close>.\<close>

definition mint_token :: "consent_env \<Rightarrow> string \<times> instant" where
  "mint_token env = (env_hash env (env_token env), env_now env + token_ttl)"

definition set_status :: "uid \<Rightarrow> consent_status \<Rightarrow> consent_state \<Rightarrow> consent_state" where
  "set_status u st s =
     s\<lparr>accounts := map (\<lambda>a. if acc_id a = u then a\<lparr>acc_consent := st\<rparr> else a) (accounts s)\<rparr>"

text \<open>The row \<open>_write_event\<close> appends, with the columns' defaults.\<close>

definition base_event :: "consent_env \<Rightarrow> nat \<Rightarrow> uid \<Rightarrow> event_type \<Rightarrow> consent_event" where
  "base_event env g child ty =
     \<lparr>ev_guardian = g, ev_child = child, ev_type = ty, ev_method = None, ev_level = Acknowledged,
      ev_notice = guardian_notice_version, ev_name_given = '''', ev_birthdate_given = None,
      ev_hash = '''', ev_expires = None, ev_ip = fst (request_context env),
      ev_agent = snd (request_context env), ev_created = env_now env\<rparr>"

definition write_event :: "consent_event \<Rightarrow> consent_state \<Rightarrow> consent_state" where
  "write_event e s = s\<lparr>events := tbl_insert e (events s)\<rparr>"

definition child_label :: "account \<Rightarrow> child_handle" where
  "child_label c = (if acc_username c \<noteq> '''' then Handle (acc_username c) else Pk (acc_id c))"

definition send_mail :: "consent_mail \<Rightarrow> consent_state \<Rightarrow> consent_state" where
  "send_mail m s = s\<lparr>outbox := outbox s @ [m]\<rparr>"

section \<open>Liveness of a link\<close>

definition resolve_open_event :: "consent_env \<Rightarrow> consent_state \<Rightarrow> string \<Rightarrow> consent_event result" where
  "resolve_open_event env s raw =
     (case get_event_by_token env s raw of
        None \<Rightarrow> Inl (GuardianConsentError ''invalid_token'')
      | Some e \<Rightarrow>
          (if ev_type e \<notin> set open_event_types then Inl (GuardianConsentError ''token_already_used'')
           else if (case ev_expires e of None \<Rightarrow> True | Some x \<Rightarrow> x \<le> env_now env)
           then Inl (GuardianConsentError ''token_expired'')
           else case newest_open_for_child s (ev_child e) of
                  None \<Rightarrow> Inl (GuardianConsentError ''token_superseded'')
                | Some n \<Rightarrow>
                    (if ev_hash n \<noteq> env_hash env raw then Inl (GuardianConsentError ''token_superseded'')
                     else Inr e)))"

definition open_event_or_none :: "consent_env \<Rightarrow> consent_state \<Rightarrow> string \<Rightarrow> consent_event option" where
  "open_event_or_none env s raw =
     (case resolve_open_event env s raw of Inl _ \<Rightarrow> None | Inr e \<Rightarrow> Some e)"

definition linked_user_is_adult :: "consent_env \<Rightarrow> consent_state \<Rightarrow> guardian \<Rightarrow> bool" where
  "linked_user_is_adult env s g =
     (case gu_linked g of None \<Rightarrow> False | Some u \<Rightarrow> is_adult_account env (account_of s u))"

definition approval_method :: "consent_env \<Rightarrow> consent_state \<Rightarrow> consent_event \<Rightarrow> consent_method" where
  "approval_method env s e =
     (let g = guardian_of s (ev_guardian e); child = account_of s (ev_child e)
      in if is_childs_own_contact child g then SharedContact
         else if gu_linked g \<noteq> Some (acc_id child) \<and> linked_user_is_adult env s g then GoatzaAccount
         else SeparateContact)"

section \<open>Signup and support\<close>

text \<open>Both take the loaded user; \<open>None\<close> when there is no such row.\<close>

definition ensure_pending_for_minor :: "consent_env \<Rightarrow> uid \<Rightarrow> consent_state \<Rightarrow> bool \<times> consent_state" where
  "ensure_pending_for_minor env u s =
     (let a = account_of s u
      in if \<not> acc_is_minor env a then (False, s)
         else if acc_consent a = NotNeeded then (True, set_status u Pending s)
         else (acc_consent a \<noteq> Approved, s))"

definition clear_pending_for_adult :: "consent_env \<Rightarrow> uid \<Rightarrow> consent_state \<Rightarrow> bool \<times> consent_state" where
  "clear_pending_for_adult env u s =
     (let a = account_of s u
      in if acc_is_minor env a \<or> acc_consent a \<noteq> Pending then (False, s)
         else (True, set_status u NotNeeded s))"

text \<open>\<open>apply_birthdate_correction\<close> of \<open>accounts/admin.py\<close>, on the profile's new date.\<close>

definition apply_birthdate_correction :: "consent_env \<Rightarrow> uid \<Rightarrow> consent_state \<Rightarrow> consent_state" where
  "apply_birthdate_correction env u s =
     (if acc_birthdate (account_of s u) = None then s
      else snd (clear_pending_for_adult env u (snd (ensure_pending_for_minor env u s))))"

section \<open>Asking\<close>

datatype delivery = ByEmail | NoDelivery

record consent_reply =
  reply_delivery :: delivery
  reply_guardian :: guardian
  reply_event :: consent_event
  reply_same_contact :: bool

definition deliver_request ::
  "consent_env \<Rightarrow> guardian \<Rightarrow> account \<Rightarrow> contact_kind \<Rightarrow> consent_state \<Rightarrow> delivery \<times> consent_state" where
  "deliver_request env g child kind s =
     (if kind \<noteq> EmailKind then (NoDelivery, s)
      else (ByEmail,
            send_mail (ConsentRequestMail (gu_name g) (gu_email g) (child_label child)
              (consent_page_url (env_base_url env) (env_token env))) s))"

definition asked_event :: "consent_env \<Rightarrow> event_type \<Rightarrow> nat \<Rightarrow> uid \<Rightarrow> consent_event" where
  "asked_event env ty g child =
     (let (hashed, expires_at) = mint_token env
      in (base_event env g child ty)\<lparr>ev_hash := hashed, ev_expires := Some expires_at\<rparr>)"

text \<open>The transaction the two ways of asking share: the event, the status, the mail.\<close>

definition ask ::
  "consent_env \<Rightarrow> event_type \<Rightarrow> guardian \<Rightarrow> account \<Rightarrow> contact_kind \<Rightarrow> consent_state \<Rightarrow>
     consent_reply \<times> consent_state" where
  "ask env ty g child kind s =
     (let e = asked_event env ty (gu_id g) (acc_id child);
          s = set_status (acc_id child) Pending (write_event e s);
          (d, s) = deliver_request env g child kind s
      in (\<lparr>reply_delivery = d, reply_guardian = g, reply_event = e,
           reply_same_contact = is_childs_own_contact child g\<rparr>, s))"

definition request_consent ::
  "consent_env \<Rightarrow> uid \<Rightarrow> string \<Rightarrow> string option \<Rightarrow> consent_state \<Rightarrow>
     (consent_reply \<times> consent_state) result" where
  "request_consent env u parent_name parent_contact s =
     res_bind (clean_parent_name parent_name) (\<lambda>name.
     res_bind (normalize_contact env parent_contact) (\<lambda>(kind, value).
       let child = account_of s u;
           (g, s) = find_or_create_guardian env kind value name child s
       in Inr (ask env Requested g child kind s)))"

definition resend :: "consent_env \<Rightarrow> uid \<Rightarrow> consent_state \<Rightarrow> (consent_reply \<times> consent_state) result" where
  "resend env u s =
     (case newest_event_for_child s u of
        None \<Rightarrow> Inl (GuardianConsentError ''consent_not_requested'')
      | Some previous \<Rightarrow>
          (if ev_type previous = Declined then Inl (GuardianConsentError ''consent_declined'')
           else let g = guardian_of s (ev_guardian previous);
                    kind = (if gu_email g \<noteq> '''' then EmailKind else PhoneKind)
                in Inr (ask env Resent g (account_of s u) kind s)))"

section \<open>Answering\<close>

text \<open>
  The answer transactions, on the request the service resolved before it opened them. The link is
  resolved outside the transaction and without a lock.
\<close>

definition record_approval ::
  "consent_env \<Rightarrow> consent_event \<Rightarrow> consent_method \<Rightarrow> string \<Rightarrow> pydate option \<Rightarrow> consent_state \<Rightarrow>
     consent_event \<times> consent_state" where
  "record_approval env e m parent_name parent_birthdate s =
     (let approval = (base_event env (ev_guardian e) (ev_child e) EvApproved)
            \<lparr>ev_method := Some m, ev_level := Acknowledged, ev_name_given := given_name parent_name,
             ev_birthdate_given := parent_birthdate, ev_hash := ev_hash e\<rparr>
      in (approval, set_status (ev_child e) Approved (write_event approval s)))"

definition approve_by_token ::
  "consent_env \<Rightarrow> string \<Rightarrow> string \<Rightarrow> pydate option \<Rightarrow> consent_state \<Rightarrow>
     (consent_event \<times> consent_state) result" where
  "approve_by_token env raw parent_name parent_birthdate s =
     res_bind (resolve_open_event env s raw) (\<lambda>e.
       Inr (record_approval env e (approval_method env s e) parent_name parent_birthdate s))"

definition record_decline ::
  "consent_env \<Rightarrow> consent_event \<Rightarrow> consent_state \<Rightarrow> consent_event \<times> consent_state" where
  "record_decline env e s =
     (let decline = (base_event env (ev_guardian e) (ev_child e) Declined)\<lparr>ev_hash := ev_hash e\<rparr>
      in (decline, write_event decline s))"

definition decline_by_token ::
  "consent_env \<Rightarrow> string \<Rightarrow> consent_state \<Rightarrow> (consent_event \<times> consent_state) result" where
  "decline_by_token env raw s =
     res_bind (resolve_open_event env s raw) (\<lambda>e. Inr (record_decline env e s))"

definition withdraw_by_token ::
  "consent_env \<Rightarrow> string \<Rightarrow> consent_state \<Rightarrow> (consent_event \<times> consent_state) result" where
  "withdraw_by_token env raw s =
     (case get_event_by_token env s raw of
        None \<Rightarrow> Inl (GuardianConsentError ''invalid_token'')
      | Some e \<Rightarrow>
          (if ev_type e = EvWithdrawn then Inr (e, s)
           else if ev_type e \<noteq> EvApproved then Inl (GuardianConsentError ''consent_not_approved'')
           else let w = (base_event env (ev_guardian e) (ev_child e) EvWithdrawn)
                          \<lparr>ev_hash := env_hash env raw\<rparr>;
                    g = guardian_of s (ev_guardian e);
                    child = account_of s (ev_child e);
                    s = set_status (ev_child e) Withdrawn (write_event w s);
                    s = (if gu_email g \<noteq> ''''
                         then send_mail (ConsentWithdrawnMail (gu_name g) (gu_email g) (child_label child)) s
                         else s)
                in Inr (w, s)))"

section \<open>The gate\<close>

definition blocking_statuses :: "consent_status list" where
  "blocking_statuses = [Pending, Withdrawn]"

definition exempt_paths :: "string list" where
  "exempt_paths =
     [''/guardian/details'', ''/guardian/resend'', ''/user/logout'', ''/user/token/refresh'',
      ''/user/details'', ''/legal/accept'', ''/legal/versions'']"

definition is_exempt :: "string \<Rightarrow> bool" where
  "is_exempt request_path =
     (let stripped = rev (dropWhile (\<lambda>c. c = CHR ''/'') (rev request_path));
          path = (if stripped = '''' then ''/'' else stripped)
      in path \<in> set exempt_paths)"

text \<open>\<open>Inl\<close> is the 403 with the status in its body; \<open>None\<close> is a request without a signed-in user.\<close>

definition has_consent_permission ::
  "account option \<Rightarrow> string \<Rightarrow> consent_status + unit" where
  "has_consent_permission user request_path =
     (case user of
        None \<Rightarrow> Inr ()
      | Some a \<Rightarrow>
          (if acc_consent a \<notin> set blocking_statuses then Inr ()
           else if is_exempt request_path then Inr ()
           else Inl (acc_consent a)))"

section \<open>The screens\<close>

definition mask_email :: "string \<Rightarrow> string" where
  "mask_email email =
     (if email = '''' \<or> CHR ''@'' \<notin> set email then ''''
      else let local = takeWhile (\<lambda>c. c \<noteq> CHR ''@'') email;
               domain = drop (length local + 1) email
           in if length local \<le> 2 then replicate (length local) CHR ''*'' @ ''@'' @ domain
              else [hd local] @ replicate (length local - 2) CHR ''*'' @ [last local] @ ''@'' @ domain)"

text \<open>\<open>dot\<close> stands for the bullet, a character above 255.\<close>

definition mask_contact :: "char \<Rightarrow> string \<Rightarrow> string" where
  "mask_contact dot contact =
     (if contact = '''' then ''''
      else if CHR ''@'' \<in> set contact then mask_email contact
      else let tail = drop (length contact - 4) contact; head = take (length contact - 4) contact
           in if head \<noteq> '''' then take 3 head @ replicate (length head - 3) dot @ tail
              else replicate 4 dot @ tail)"

definition contact_of :: "guardian \<Rightarrow> string" where
  "contact_of g = (if gu_email g \<noteq> '''' then gu_email g else gu_phone g)"

datatype request_state = Waiting | RequestExpired | RequestDeclined

definition request_state_of ::
  "consent_env \<Rightarrow> consent_event \<Rightarrow> consent_event \<Rightarrow> request_state" where
  "request_state_of env newest_ev newest_request =
     (if ev_type newest_ev = Declined then RequestDeclined
      else if (case ev_expires newest_request of None \<Rightarrow> True | Some x \<Rightarrow> x \<le> env_now env)
      then RequestExpired else Waiting)"

record status_screen =
  scr_status :: consent_status
  scr_contact :: "string option"
  scr_same_contact :: bool
  scr_request :: "request_state option"

definition guardian_status :: "consent_env \<Rightarrow> char \<Rightarrow> consent_state \<Rightarrow> uid \<Rightarrow> status_screen" where
  "guardian_status env dot s u =
     (let child = account_of s u;
          nothing_named = \<lparr>scr_status = acc_consent child, scr_contact = None,
                           scr_same_contact = False, scr_request = None\<rparr>
      in if acc_consent child \<noteq> Pending then nothing_named
         else case newest_event_for_child s u of
           None \<Rightarrow> nothing_named
         | Some n \<Rightarrow>
             (case (if is_open_event n then Some n else newest_open_for_child s u) of
                None \<Rightarrow> nothing_named
              | Some r \<Rightarrow>
                  (let g = guardian_of s (ev_guardian r)
                   in \<lparr>scr_status = acc_consent child, scr_contact = Some (mask_contact dot (contact_of g)),
                       scr_same_contact = is_childs_own_contact child g,
                       scr_request = Some (request_state_of env n r)\<rparr>)))"

definition guardian_other_approved_children :: "consent_state \<Rightarrow> nat \<Rightarrow> uid option \<Rightarrow> account list" where
  "guardian_other_approved_children s g exclude =
     filter (\<lambda>a. acc_consent a = Approved \<and> Some (acc_id a) \<noteq> exclude
                \<and> list_ex (\<lambda>e. ev_guardian e = g \<and> ev_child e = acc_id a \<and> ev_type e = EvApproved) (events s))
       (accounts s)"

datatype page_state = PagePending | PageApproved

record parent_page =
  page_state :: page_state
  page_child :: string
  page_notice :: string
  page_siblings :: "string list"
  page_expires :: "instant option"
  page_guardian_name :: "string option"

definition page_of :: "consent_state \<Rightarrow> page_state \<Rightarrow> consent_event \<Rightarrow> parent_page" where
  "page_of s st e =
     (let child = account_of s (ev_child e)
      in \<lparr>page_state = st, page_child = acc_username child,
          page_notice = (if st = PagePending then guardian_notice_version else ev_notice e),
          page_siblings = map acc_username
            (guardian_other_approved_children s (ev_guardian e) (Some (acc_id child))),
          page_expires = (if st = PagePending then ev_expires e else None),
          page_guardian_name =
            (if st = PagePending then Some (gu_name (guardian_of s (ev_guardian e))) else None)\<rparr>)"

definition consent_page :: "consent_env \<Rightarrow> consent_state \<Rightarrow> string \<Rightarrow> parent_page option" where
  "consent_page env s raw =
     (case open_event_or_none env s raw of
        Some e \<Rightarrow> Some (page_of s PagePending e)
      | None \<Rightarrow>
          (case get_event_by_token env s raw of
             None \<Rightarrow> None
           | Some n \<Rightarrow> if ev_type n \<noteq> EvApproved then None else Some (page_of s PageApproved n)))"

section \<open>The views' guards\<close>

datatype details_reply = DetailsRefused string | DetailsSent string bool

text \<open>\<open>POST /guardian/details\<close>: exactly one contact, and an e-mail address. Empty values count as absent.\<close>

definition post_guardian_details ::
  "consent_env \<Rightarrow> char \<Rightarrow> uid \<Rightarrow> string \<Rightarrow> string \<Rightarrow> string \<Rightarrow> consent_state \<Rightarrow> details_reply \<times> consent_state"
where
  "post_guardian_details env dot u parent_name parent_email parent_phone s =
     (if parent_email \<noteq> '''' \<and> parent_phone \<noteq> '''' then (DetailsRefused ''both_contacts'', s)
      else if parent_email = '''' \<and> parent_phone = '''' then (DetailsRefused ''contact_required'', s)
      else if parent_phone \<noteq> '''' then (DetailsRefused ''phone_not_supported'', s)
      else case request_consent env u parent_name (Some parent_email) s of
             Inl (GuardianConsentError code) \<Rightarrow> (DetailsRefused code, s)
           | Inl _ \<Rightarrow> (DetailsRefused '''', s)
           | Inr (r, t) \<Rightarrow>
               (DetailsSent (mask_contact dot (contact_of (reply_guardian r))) (reply_same_contact r), t))"

datatype parent_answer =
    BadBody string
  | Unresolved
  | AnsweredApproved string string

text \<open>\<open>POST /guardian/consent/<token>/approve\<close>: the body first, then the token; one refusal for all.\<close>

definition post_consent_approve ::
  "consent_env \<Rightarrow> string \<Rightarrow> string \<Rightarrow> bool \<Rightarrow> consent_state \<Rightarrow> parent_answer \<times> consent_state" where
  "post_consent_approve env raw parent_name confirm_18_plus s =
     (let name = py_strip parent_name
      in if name = '''' then (BadBody ''parent_name'', s)
         else if \<not> confirm_18_plus then (BadBody ''confirm_18_plus'', s)
         else case approve_by_token env raw name None s of
                Inl _ \<Rightarrow> (Unresolved, s)
              | Inr (e, t) \<Rightarrow>
                  (AnsweredApproved (acc_username (account_of t (ev_child e))) (ev_notice e), t))"

section \<open>The sweep\<close>

definition anon_email_domain :: string where "anon_email_domain = ''deleted.invalid''"

definition already_purged :: "account \<Rightarrow> bool" where
  "already_purged a = endswith (acc_email a) (''@'' @ anon_email_domain)"

text \<open>
  The part of the account purge that these tables hold: the tombstone address on a random name
  \<open>hex\<close>, the emptied contacts and the date of birth.
\<close>

definition anonymize :: "string \<Rightarrow> account \<Rightarrow> account" where
  "anonymize hex a =
     a\<lparr>acc_email := ''deleted-'' @ hex @ ''@'' @ anon_email_domain, acc_phone := '''',
       acc_username := '''', acc_birthdate := None\<rparr>"

definition latest_request :: "consent_state \<Rightarrow> uid \<Rightarrow> instant option" where
  "latest_request s u = map_option ev_created (newest_open_for_child s u)"

definition stale_pending_users :: "instant \<Rightarrow> consent_state \<Rightarrow> account list" where
  "stale_pending_users cutoff s =
     sort_key acc_created
       (filter (\<lambda>a. acc_consent a = Pending
                  \<and> (case latest_request s (acc_id a) of None \<Rightarrow> False | Some t \<Rightarrow> t \<le> cutoff))
         (accounts s))"

definition expired_event :: "consent_env \<Rightarrow> consent_event \<Rightarrow> uid \<Rightarrow> consent_event" where
  "expired_event env r u = (base_event env (ev_guardian r) u EvExpired)
     \<lparr>ev_notice := ev_notice r, ev_hash := '''', ev_expires := None, ev_ip := None, ev_agent := ''''\<rparr>"

definition expire_and_purge :: "consent_env \<Rightarrow> (uid \<Rightarrow> string) \<Rightarrow> uid \<Rightarrow> consent_state \<Rightarrow> consent_state" where
  "expire_and_purge env hex u s =
     (let r = the (newest_open_for_child s u);
          e = expired_event env r u;
          s = write_event e s;
          s = s\<lparr>blacklisted_tokens := blacklisted_tokens s @
                 filter (\<lambda>t. t \<notin> set (blacklisted_tokens s))
                   (map fst (filter (\<lambda>(_, v). v = u) (outstanding_tokens s)))\<rparr>
      in s\<lparr>accounts := map (\<lambda>a. if acc_id a = u
             then (anonymize (hex u) a)\<lparr>acc_active := False, acc_deletion_at := Some (env_now env)\<rparr>
             else a) (accounts s)\<rparr>)"

definition clean_orphan_guardians :: "consent_state \<Rightarrow> consent_state" where
  "clean_orphan_guardians s =
     s\<lparr>guardians := filter (\<lambda>g. list_ex (\<lambda>e. ev_guardian e = gu_id g) (events s)) (guardians s)\<rparr>"

fun purge_each ::
  "consent_env \<Rightarrow> (uid \<Rightarrow> string) \<Rightarrow> account list \<Rightarrow> consent_state \<Rightarrow> consent_state" where
  "purge_each env hex [] s = s"
| "purge_each env hex (a # rest) s =
     (if already_purged a then purge_each env hex rest s
      else purge_each env hex rest (expire_and_purge env hex (acc_id a) s))"

text \<open>\<open>handle\<close> without \<open>--dry-run\<close>; \<open>window\<close> is \<open>purge_after_days()\<close> as a duration.\<close>

definition purge_unconsented ::
  "consent_env \<Rightarrow> (uid \<Rightarrow> string) \<Rightarrow> instant \<Rightarrow> consent_state \<Rightarrow> consent_state" where
  "purge_unconsented env hex window s =
     clean_orphan_guardians
       (purge_each env hex (stale_pending_users (env_now env - window) s) s)"

end
