(* ===== verification/Guardian_Laws.thy ===== *)
theory Guardian_Laws
  imports Guardian_Consent
begin

text \<open>
  The step relation of parental consent and its invariant: the denormalised status says what the newest
  event means, every link is asked once and answered at most once, an open request expires seven days
  after it was written.
\<close>

section \<open>The newest row\<close>

lemma newest_Nil [simp]: "newest P [] = None"
  by (simp add: newest_def)

lemma newest_snoc: "newest P (evs @ [e]) = newer P (newest P evs) e"
  by (simp add: newest_def)

lemma newest_in: "newest P evs = Some e \<Longrightarrow> e \<in> set evs \<and> P e"
proof (induction evs arbitrary: e rule: rev_induct)
  case (snoc x evs)
  then show ?case by (auto simp: newest_snoc newer_def split: if_splits option.splits)
qed simp

lemma newest_None: "newest P evs = None \<longleftrightarrow> (\<forall>e \<in> set evs. \<not> P e)"
proof (induction evs rule: rev_induct)
  case (snoc x evs)
  then show ?case by (auto simp: newest_snoc newer_def split: option.splits)
qed simp

definition not_after :: "consent_event list \<Rightarrow> consent_event \<Rightarrow> bool" where
  "not_after evs x \<longleftrightarrow> (\<forall>e \<in> set evs. ev_created e \<le> ev_created x)"

lemma newest_insert:
  assumes "not_after evs x"
  shows "newest P (tbl_insert x evs) = (if P x then Some x else newest P evs)"
proof (cases "newest P evs")
  case (Some a)
  then have "ev_created a \<le> ev_created x" using assms newest_in by (force simp: not_after_def)
  with Some show ?thesis by (simp add: tbl_insert_def newest_snoc newer_def)
qed (simp add: tbl_insert_def newest_snoc newer_def)

lemma newest_last:
  "sorted (map ev_created evs) \<Longrightarrow>
   newest P evs = (if filter P evs = [] then None else Some (last (filter P evs)))"
proof (induction evs rule: rev_induct)
  case (snoc x evs)
  then have "not_after evs x" "sorted (map ev_created evs)"
    by (auto simp: sorted_append not_after_def)
  with snoc.IH show ?case using newest_insert [of evs x P] by (simp add: tbl_insert_def)
qed simp

section \<open>What the record means\<close>

text \<open>The events that move the status, and the statuses each is allowed to leave.\<close>

definition moves_status :: "consent_event \<Rightarrow> bool" where
  "moves_status e \<longleftrightarrow> ev_type e \<in> set [Requested, Resent, EvApproved, EvWithdrawn]"

definition last_move :: "consent_state \<Rightarrow> uid \<Rightarrow> event_type option" where
  "last_move s u = map_option ev_type (newest (\<lambda>e. ev_child e = u \<and> moves_status e) (events s))"

definition record_says :: "event_type option \<Rightarrow> consent_status \<Rightarrow> bool" where
  "record_says m st =
     (case m of
        Some EvApproved \<Rightarrow> st = Approved
      | Some EvWithdrawn \<Rightarrow> st = Withdrawn
      | _ \<Rightarrow> st = NotNeeded \<or> st = Pending)"

text \<open>The events of one link, oldest first.\<close>

definition link_word :: "consent_event list \<Rightarrow> string \<Rightarrow> event_type list" where
  "link_word evs h = map ev_type (filter (\<lambda>e. ev_hash e = h) evs)"

fun link_ok :: "event_type list \<Rightarrow> bool" where
  "link_ok [] = True"
| "link_ok (ty # rest) \<longleftrightarrow> ty \<in> set open_event_types \<and>
     rest \<in> set [[], [EvApproved], [Declined], [EvApproved, EvWithdrawn]]"

definition links_ok :: "consent_event list \<Rightarrow> bool" where
  "links_ok evs \<longleftrightarrow> (\<forall>h. h \<noteq> '''' \<longrightarrow> link_ok (link_word evs h))"

definition requests_ok :: "consent_event list \<Rightarrow> bool" where
  "requests_ok evs \<longleftrightarrow>
     (\<forall>e \<in> set evs. is_open_event e \<longrightarrow> ev_hash e \<noteq> '''' \<and> ev_expires e = Some (ev_created e + token_ttl))"

definition refs_ok :: "consent_state \<Rightarrow> bool" where
  "refs_ok s \<longleftrightarrow>
     (\<forall>e \<in> set (events s). ev_child e \<in> acc_id ` set (accounts s) \<and> ev_guardian e \<in> gu_id ` set (guardians s))"

definition statuses_ok :: "consent_state \<Rightarrow> bool" where
  "statuses_ok s \<longleftrightarrow> (\<forall>a \<in> set (accounts s). record_says (last_move s (acc_id a)) (acc_consent a))"

definition consent_inv :: "consent_state \<Rightarrow> bool" where
  "consent_inv s \<longleftrightarrow>
     tbl_ok acc_id (accounts s) \<and> tbl_ok gu_id (guardians s) \<and> refs_ok s \<and>
     sorted (map ev_created (events s)) \<and> links_ok (events s) \<and> requests_ok (events s) \<and> statuses_ok s"

section \<open>The steps\<close>

text \<open>
  A call knows the hash of the program and reads a clock that has not gone back; a call that mints
  draws a token whose hash is new.
\<close>

definition call_ok :: "(string \<Rightarrow> string) \<Rightarrow> consent_env \<Rightarrow> consent_state \<Rightarrow> bool" where
  "call_ok sha env s \<longleftrightarrow> env_hash env = sha \<and> (\<forall>e \<in> set (events s). ev_created e \<le> env_now env)"

definition mint_ok :: "(string \<Rightarrow> string) \<Rightarrow> consent_env \<Rightarrow> consent_state \<Rightarrow> bool" where
  "mint_ok sha env s \<longleftrightarrow> call_ok sha env s \<and> sha (env_token env) \<noteq> '''' \<and>
     (\<forall>e \<in> set (events s). ev_hash e \<noteq> sha (env_token env))"

definition has_account :: "consent_state \<Rightarrow> uid \<Rightarrow> bool" where
  "has_account s u \<longleftrightarrow> tbl_get acc_id (accounts s) u \<noteq> None"

definition signed_up :: "account \<Rightarrow> bool" where
  "signed_up a \<longleftrightarrow> acc_consent a = NotNeeded"

definition consent_init :: "consent_state \<Rightarrow> bool" where
  "consent_init s \<longleftrightarrow> tbl_ok acc_id (accounts s) \<and> list_all signed_up (accounts s) \<and>
     tbl_ok gu_id (guardians s) \<and> events s = []"

inductive consent_step :: "(string \<Rightarrow> string) \<Rightarrow> consent_state \<Rightarrow> consent_state \<Rightarrow> bool"
  for sha :: "string \<Rightarrow> string" where
  new_account: "tbl_get acc_id (accounts s) (acc_id a) = None \<Longrightarrow> signed_up a \<Longrightarrow>
    consent_step sha s (s\<lparr>accounts := tbl_insert a (accounts s)\<rparr>)"
| edit_account: "tbl_get acc_id (accounts s) (acc_id a) = Some b \<Longrightarrow> acc_consent a = acc_consent b \<Longrightarrow>
    consent_step sha s (s\<lparr>accounts := tbl_save acc_id a (accounts s)\<rparr>)"
| ensure: "has_account s u \<Longrightarrow> ensure_pending_for_minor env u s = (b, t) \<Longrightarrow> consent_step sha s t"
| clear: "has_account s u \<Longrightarrow> clear_pending_for_adult env u s = (b, t) \<Longrightarrow> consent_step sha s t"
| ask: "has_account s u \<Longrightarrow> mint_ok sha env s \<Longrightarrow> request_consent env u nm contact s = Inr (r, t) \<Longrightarrow>
    consent_step sha s t"
| ask_again: "has_account s u \<Longrightarrow> mint_ok sha env s \<Longrightarrow> resend env u s = Inr (r, t) \<Longrightarrow> consent_step sha s t"
| approve: "call_ok sha env s \<Longrightarrow> sha raw \<noteq> '''' \<Longrightarrow> approve_by_token env raw nm bd s = Inr (e, t) \<Longrightarrow>
    consent_step sha s t"
| decline: "call_ok sha env s \<Longrightarrow> sha raw \<noteq> '''' \<Longrightarrow> decline_by_token env raw s = Inr (e, t) \<Longrightarrow>
    consent_step sha s t"
| withdraw: "call_ok sha env s \<Longrightarrow> sha raw \<noteq> '''' \<Longrightarrow> withdraw_by_token env raw s = Inr (e, t) \<Longrightarrow>
    consent_step sha s t"
| sweep: "call_ok sha env s \<Longrightarrow> consent_step sha s (purge_unconsented env hex window s)"

inductive_cases consent_stepE: "consent_step sha s t"

section \<open>Pieces of a write\<close>

lemma write_event_simps [simp]:
  "accounts (write_event e s) = accounts s" "guardians (write_event e s) = guardians s"
  "events (write_event e s) = tbl_insert e (events s)"
  by (simp_all add: write_event_def)

lemma set_status_simps [simp]:
  "events (set_status u st s) = events s" "guardians (set_status u st s) = guardians s"
  by (simp_all add: set_status_def)

lemma send_mail_simps [simp]:
  "accounts (send_mail m s) = accounts s" "guardians (send_mail m s) = guardians s"
  "events (send_mail m s) = events s"
  by (simp_all add: send_mail_def)

lemma base_event_simps [simp]:
  "ev_child (base_event env g u ty) = u" "ev_guardian (base_event env g u ty) = g"
  "ev_type (base_event env g u ty) = ty" "ev_created (base_event env g u ty) = env_now env"
  "ev_hash (base_event env g u ty) = ''''" "ev_expires (base_event env g u ty) = None"
  by (simp_all add: base_event_def)

lemma status_ids [simp]: "map acc_id (accounts (set_status u st s)) = map acc_id (accounts s)"
  by (simp add: set_status_def o_def if_distrib cong: if_cong)

lemma status_id_set [simp]: "acc_id ` set (accounts (set_status u st s)) = acc_id ` set (accounts s)"
  by (metis status_ids set_map)

lemma consent_inv_same:
  "consent_inv s \<Longrightarrow> accounts t = accounts s \<Longrightarrow> guardians t = guardians s \<Longrightarrow> events t = events s \<Longrightarrow>
   consent_inv t"
  by (simp add: consent_inv_def refs_ok_def statuses_ok_def last_move_def)

lemma consent_inv_mail [simp]: "consent_inv (send_mail m s) = consent_inv s"
  by (auto intro: consent_inv_same)

lemma link_word_insert:
  "link_word (tbl_insert e evs) h = link_word evs h @ (if ev_hash e = h then [ev_type e] else [])"
  by (simp add: link_word_def tbl_insert_def)

lemma last_move_write:
  "not_after (events s) e \<Longrightarrow>
   last_move (write_event e s) u = (if ev_child e = u \<and> moves_status e then Some (ev_type e) else last_move s u)"
  by (simp add: last_move_def newest_insert)

text \<open>One event with the status it stands for.\<close>

lemma consent_inv_write:
  assumes inv: "consent_inv s" and new: "not_after (events s) e"
    and refs: "ev_child e \<in> acc_id ` set (accounts s)" "ev_guardian e \<in> gu_id ` set (guardians s)"
    and link: "ev_hash e \<noteq> '''' \<Longrightarrow> link_ok (link_word (events s) (ev_hash e) @ [ev_type e])"
    and open_ev: "is_open_event e \<Longrightarrow> ev_hash e \<noteq> '''' \<and> ev_expires e = Some (ev_created e + token_ttl)"
    and says: "moves_status e" "record_says (Some (ev_type e)) st"
  shows "consent_inv (set_status (ev_child e) st (write_event e s))"
proof -
  have "record_says (last_move (set_status (ev_child e) st (write_event e s)) (acc_id a)) (acc_consent a)"
    if a: "a \<in> set (accounts (set_status (ev_child e) st (write_event e s)))" for a
  proof -
    have lm: "last_move (set_status (ev_child e) st (write_event e s)) v =
        (if ev_child e = v then Some (ev_type e) else last_move s v)" for v
      using last_move_write [OF new, of v] says(1) by (simp add: last_move_def)
    obtain x where "x \<in> set (accounts s)" "a = (if acc_id x = ev_child e then x\<lparr>acc_consent := st\<rparr> else x)"
      using a by (auto simp: set_status_def)
    with inv says(2) show ?thesis by (auto simp: lm consent_inv_def statuses_ok_def)
  qed
  moreover have "sorted (map ev_created (tbl_insert e (events s)))"
    using inv new by (auto simp: consent_inv_def tbl_insert_def sorted_append not_after_def)
  moreover have "links_ok (tbl_insert e (events s))"
    using inv link by (auto simp: consent_inv_def links_ok_def link_word_insert)
  moreover have "requests_ok (tbl_insert e (events s))"
    using inv open_ev by (auto simp: consent_inv_def requests_ok_def tbl_insert_def)
  ultimately show ?thesis
    using inv refs
    by (auto simp: consent_inv_def statuses_ok_def refs_ok_def tbl_ok_def tbl_insert_def)
qed

text \<open>An event that moves no status.\<close>

lemma consent_inv_write_still:
  assumes inv: "consent_inv s" and new: "not_after (events s) e"
    and refs: "ev_child e \<in> acc_id ` set (accounts s)" "ev_guardian e \<in> gu_id ` set (guardians s)"
    and link: "ev_hash e \<noteq> '''' \<Longrightarrow> link_ok (link_word (events s) (ev_hash e) @ [ev_type e])"
    and still: "\<not> moves_status e"
  shows "consent_inv (write_event e s)"
proof -
  have "sorted (map ev_created (tbl_insert e (events s)))"
    using inv new by (auto simp: consent_inv_def tbl_insert_def sorted_append not_after_def)
  moreover have "links_ok (tbl_insert e (events s))"
    using inv link by (auto simp: consent_inv_def links_ok_def link_word_insert)
  moreover have "\<not> is_open_event e" using still by (auto simp: is_open_event_def moves_status_def open_event_types_def)
  then have "requests_ok (tbl_insert e (events s))"
    using inv by (auto simp: consent_inv_def requests_ok_def tbl_insert_def)
  moreover have "statuses_ok (write_event e s)"
    using inv still last_move_write [OF new] by (simp add: consent_inv_def statuses_ok_def)
  ultimately show ?thesis
    using inv refs by (auto simp: consent_inv_def refs_ok_def tbl_insert_def)
qed

section \<open>Links\<close>

lemma last_link:
  assumes "consent_inv s" "newest (\<lambda>e. ev_hash e = h) (events s) = Some e"
  shows "link_word (events s) h \<noteq> [] \<and> last (link_word (events s) h) = ev_type e"
  using assms newest_last [of "events s" "\<lambda>e. ev_hash e = h"]
  by (auto simp: consent_inv_def link_word_def last_map split: if_splits)

lemma link_open_last:
  "link_ok w \<Longrightarrow> w \<noteq> [] \<Longrightarrow> last w \<in> set open_event_types \<Longrightarrow> w = [last w]"
  by (cases w) (auto simp: open_event_types_def)

lemma link_approved_last:
  "link_ok w \<Longrightarrow> w \<noteq> [] \<Longrightarrow> last w = EvApproved \<Longrightarrow> \<exists>ty \<in> set open_event_types. w = [ty, EvApproved]"
  by (cases w) (auto simp: open_event_types_def)

lemma resolve_open_cases:
  assumes "resolve_open_event env s raw = Inr e"
  obtains n x where "newest (\<lambda>e. ev_hash e = env_hash env raw) (events s) = Some e" "is_open_event e"
    "ev_expires e = Some x" "env_now env < x" "newest_open_for_child s (ev_child e) = Some n"
    "ev_hash n = env_hash env raw"
  using assms
  by (auto simp: resolve_open_event_def get_event_by_token_def is_open_event_def
      split: option.splits if_splits)

lemma resolved_link:
  assumes "consent_inv s" "env_hash env raw \<noteq> ''''" "resolve_open_event env s raw = Inr e"
  shows "link_word (events s) (ev_hash e) = [ev_type e]" and "ev_hash e = env_hash env raw"
    and "e \<in> set (events s)" and "is_open_event e"
    and "newest_open_for_child s (ev_child e) = Some e"
proof -
  from resolve_open_cases [OF assms(3)] obtain n where
    n: "newest (\<lambda>e. ev_hash e = env_hash env raw) (events s) = Some e" "is_open_event e"
      "newest_open_for_child s (ev_child e) = Some n" "ev_hash n = env_hash env raw" by metis
  show e: "ev_hash e = env_hash env raw" "e \<in> set (events s)" using newest_in [OF n(1)] by auto
  show "is_open_event e" by (rule n(2))
  have "link_ok (link_word (events s) (env_hash env raw))"
    using assms(1,2) by (simp add: consent_inv_def links_ok_def)
  with link_open_last last_link [OF assms(1) n(1)] n(2)
  show w: "link_word (events s) (ev_hash e) = [ev_type e]"
    by (metis e(1) is_open_event_def)
  have "n \<in> set (events s)" using newest_in n(3) by (auto simp: newest_open_for_child_def)
  obtain x where x: "filter (\<lambda>d. ev_hash d = ev_hash e) (events s) = [x]"
    using w by (auto simp: link_word_def)
  have only: "d = x" if "d \<in> set (events s)" "ev_hash d = ev_hash e" for d
  proof -
    have "d \<in> set (filter (\<lambda>d. ev_hash d = ev_hash e) (events s))" using that by simp
    then show ?thesis unfolding x by simp
  qed
  have "n = e" using only [of n] only [of e] e n(4) \<open>n \<in> set (events s)\<close> by simp
  with n(3) show "newest_open_for_child s (ev_child e) = Some e" by simp
qed

text \<open>Rows a step finds are rows of the tables.\<close>

lemma refs_D:
  "consent_inv s \<Longrightarrow> e \<in> set (events s) \<Longrightarrow>
   ev_child e \<in> acc_id ` set (accounts s) \<and> ev_guardian e \<in> gu_id ` set (guardians s)"
  by (simp add: consent_inv_def refs_ok_def)

lemma has_account_in: "has_account s u \<longleftrightarrow> u \<in> acc_id ` set (accounts s)"
  by (simp add: has_account_def tbl_get_None_iff)

lemma account_of_id: "has_account s u \<Longrightarrow> acc_id (account_of s u) = u"
  by (auto simp: has_account_def account_of_def dest: tbl_get_key)

lemma account_of_in: "has_account s u \<Longrightarrow> account_of s u \<in> set (accounts s)"
  by (auto simp: has_account_def account_of_def dest: tbl_get_in)

lemma account_of_eq: "consent_inv s \<Longrightarrow> a \<in> set (accounts s) \<Longrightarrow> account_of s (acc_id a) = a"
  using tbl_get_eq_Some [of acc_id "accounts s" "acc_id a" a] by (simp add: account_of_def consent_inv_def)

lemma guardian_of_id:
  "g \<in> gu_id ` set (guardians s) \<Longrightarrow> gu_id (guardian_of s g) = g \<and> guardian_of s g \<in> set (guardians s)"
proof -
  assume "g \<in> gu_id ` set (guardians s)"
  then have "tbl_get gu_id (guardians s) g \<noteq> None" by (simp add: tbl_get_None_iff)
  then show ?thesis unfolding guardian_of_def by (auto dest: tbl_get_key tbl_get_in)
qed

lemma call_not_after:
  "call_ok sha env s \<Longrightarrow> ev_created e = env_now env \<Longrightarrow> not_after (events s) e"
  by (simp add: call_ok_def not_after_def)

section \<open>Every step keeps the invariant\<close>

lemma fresh_guardian_id: "gu_id g = fresh_guardian_id gs \<Longrightarrow> tbl_get gu_id gs (gu_id g) = None"
proof -
  have "x \<in> set gs \<Longrightarrow> gu_id x < fresh_guardian_id gs" for x
    by (induction gs) (auto simp: fresh_guardian_id_def)
  then show "gu_id g = fresh_guardian_id gs \<Longrightarrow> ?thesis" by (force simp: tbl_get_None_iff)
qed

lemma find_or_create_guardian:
  assumes inv: "consent_inv s" and run: "find_or_create_guardian env kind value nm child s = (g, t)"
  shows "consent_inv t" "accounts t = accounts s" "events t = events s" "g \<in> set (guardians t)"
    "outbox t = outbox s"
    "(case kind of EmailKind \<Rightarrow> gu_email g | PhoneKind \<Rightarrow> gu_phone g) = value"
    "gu_id ` set (guardians s) \<subseteq> gu_id ` set (guardians t)"
proof -
  let ?P = "\<lambda>g. (case kind of EmailKind \<Rightarrow> gu_email g | PhoneKind \<Rightarrow> gu_phone g) = value"
  have "accounts t = accounts s \<and> events t = events s \<and> outbox t = outbox s \<and> g \<in> set (guardians t) \<and> ?P g \<and>
      tbl_ok gu_id (guardians t) \<and> gu_id ` set (guardians s) \<subseteq> gu_id ` set (guardians t)"
  proof (cases "find ?P (guardians s)")
    case None
    with run inv show ?thesis
      using fresh_guardian_id [of g "guardians s"]
      by (cases kind) (auto simp: find_or_create_guardian_def Let_def tbl_insert_def consent_inv_def tbl_ok_def
          tbl_get_None_iff)
  next
    case (Some h)
    have h: "h \<in> set (guardians s)" "?P h" using find_eq_Some_conv [OF Some] by auto
    show ?thesis
    proof (cases "g = h \<and> t = s")
      case True
      with h inv show ?thesis by (cases kind) (simp_all add: consent_inv_def)
    next
      case False
      with run Some obtain u where u: "g = h\<lparr>gu_linked := Some u\<rparr>"
          "t = s\<lparr>guardians := tbl_save gu_id g (guardians s)\<rparr>"
        by (auto simp: find_or_create_guardian_def Let_def split: if_splits option.splits)
      have "g \<in> set (tbl_save gu_id g (guardians s))"
        using h(1) u(1) by (auto simp: tbl_save_def image_iff intro!: bexI [of _ h])
      moreover have "gu_id ` set (tbl_save gu_id g (guardians s)) = gu_id ` set (guardians s)"
        by (metis list.set_map tbl_keys_save)
      ultimately show ?thesis using u h(2) inv by (cases kind) (auto simp: consent_inv_def)
    qed
  qed
  then show "accounts t = accounts s" "events t = events s" "g \<in> set (guardians t)" "outbox t = outbox s"
    "(case kind of EmailKind \<Rightarrow> gu_email g | PhoneKind \<Rightarrow> gu_phone g) = value"
    "gu_id ` set (guardians s) \<subseteq> gu_id ` set (guardians t)" "consent_inv t"
    using inv by (auto simp: consent_inv_def refs_ok_def statuses_ok_def last_move_def)
qed

lemma asked_event_simps [simp]:
  "ev_type (asked_event env ty g u) = ty" "ev_child (asked_event env ty g u) = u"
  "ev_guardian (asked_event env ty g u) = g" "ev_created (asked_event env ty g u) = env_now env"
  "ev_hash (asked_event env ty g u) = env_hash env (env_token env)"
  "ev_expires (asked_event env ty g u) = Some (env_now env + token_ttl)"
  by (simp_all add: asked_event_def mint_token_def)

lemma expired_event_simps [simp]:
  "ev_type (expired_event env r u) = EvExpired" "ev_child (expired_event env r u) = u"
  "ev_guardian (expired_event env r u) = ev_guardian r" "ev_created (expired_event env r u) = env_now env"
  "ev_hash (expired_event env r u) = ''''"
  by (simp_all add: expired_event_def base_event_def)

lemma ask_state:
  assumes "ask env ty g child kind s = (r, t)"
  shows "events t = tbl_insert (asked_event env ty (gu_id g) (acc_id child)) (events s)"
    "reply_event r = asked_event env ty (gu_id g) (acc_id child)" "reply_guardian r = g"
    "accounts t = accounts (set_status (acc_id child) Pending s)" "guardians t = guardians s"
    "reply_delivery r = (if kind = EmailKind then ByEmail else NoDelivery)"
    "outbox t = outbox s @ (if kind = EmailKind then [ConsentRequestMail (gu_name g) (gu_email g)
       (child_label child) (consent_page_url (env_base_url env) (env_token env))] else [])"
  using assms
  by (auto simp: ask_def Let_def deliver_request_def send_mail_def set_status_def write_event_def
      split: if_splits)

lemma link_word_fresh: "\<forall>e \<in> set evs. ev_hash e \<noteq> h \<Longrightarrow> link_word evs h = []"
  by (simp add: link_word_def)

lemma ask_keeps:
  assumes inv: "consent_inv s" and mint: "mint_ok sha env s" and ty: "ty = Requested \<or> ty = Resent"
    and refs: "acc_id child \<in> acc_id ` set (accounts s)" "gu_id g \<in> gu_id ` set (guardians s)"
    and run: "ask env ty g child kind s = (r, t)"
  shows "consent_inv t"
proof -
  let ?e = "asked_event env ty (gu_id g) (acc_id child)"
  have "consent_inv (set_status (ev_child ?e) Pending (write_event ?e s))"
  proof (rule consent_inv_write [OF inv])
    show "not_after (events s) ?e" using mint by (auto simp: mint_ok_def intro: call_not_after)
    show "ev_hash ?e \<noteq> [] \<Longrightarrow> link_ok (link_word (events s) (ev_hash ?e) @ [ev_type ?e])"
      using mint ty by (auto simp: mint_ok_def call_ok_def link_word_fresh open_event_types_def)
    show "is_open_event ?e \<Longrightarrow> ev_hash ?e \<noteq> [] \<and> ev_expires ?e = Some (ev_created ?e + token_ttl)"
      using mint by (auto simp: mint_ok_def call_ok_def)
  qed (use refs ty in \<open>auto simp: moves_status_def record_says_def\<close>)
  then show ?thesis
    by (rule consent_inv_same) (simp_all add: ask_state [OF run] set_status_def write_event_def)
qed

lemma request_consent_cases:
  assumes "request_consent env u nm contact s = Inr (r, t)"
  obtains name kind val g s' where "clean_parent_name nm = Inr name"
    "normalize_contact env contact = Inr (kind, val)"
    "find_or_create_guardian env kind val name (account_of s u) s = (g, s')"
    "ask env Requested g (account_of s u) kind s' = (r, t)"
proof -
  from assms obtain name kind val where r: "clean_parent_name nm = Inr name"
      "normalize_contact env contact = Inr (kind, val)"
    by (auto simp: request_consent_def run_ok)
  obtain g s' where "find_or_create_guardian env kind val name (account_of s u) s = (g, s')" by fastforce
  with r that show ?thesis using assms by (simp add: request_consent_def)
qed

lemma request_consent_keeps:
  assumes inv: "consent_inv s" and mint: "mint_ok sha env s" and u: "has_account s u"
    and run: "request_consent env u nm contact s = Inr (r, t)"
  shows "consent_inv t"
proof -
  from request_consent_cases [OF run] obtain name kind val g s' where
    g: "find_or_create_guardian env kind val name (account_of s u) s = (g, s')"
    and a: "ask env Requested g (account_of s u) kind s' = (r, t)" by metis
  note f = find_or_create_guardian [OF inv g]
  have "mint_ok sha env s'" using mint f(3) by (simp add: mint_ok_def call_ok_def)
  moreover have "acc_id (account_of s u) \<in> acc_id ` set (accounts s')"
    using u f(2) by (simp add: account_of_id has_account_in)
  ultimately show ?thesis using ask_keeps [OF f(1) _ _ _ _ a] f(4) by simp
qed

lemma resend_cases:
  assumes "resend env u s = Inr (r, t)"
  obtains p kind where "newest_event_for_child s u = Some p" "ev_type p \<noteq> Declined"
    "ask env Resent (guardian_of s (ev_guardian p)) (account_of s u) kind s = (r, t)"
  using assms by (auto simp: resend_def Let_def split: option.splits if_splits)

lemma resend_keeps:
  assumes inv: "consent_inv s" and mint: "mint_ok sha env s" and u: "has_account s u"
    and run: "resend env u s = Inr (r, t)"
  shows "consent_inv t"
proof -
  from resend_cases [OF run] obtain p kind where p: "newest_event_for_child s u = Some p"
    and a: "ask env Resent (guardian_of s (ev_guardian p)) (account_of s u) kind s = (r, t)" by metis
  have "p \<in> set (events s)" using p newest_in by (auto simp: newest_event_for_child_def)
  with refs_D [OF inv] guardian_of_id have "gu_id (guardian_of s (ev_guardian p)) \<in> gu_id ` set (guardians s)"
    by (metis imageI)
  then show ?thesis using ask_keeps [OF inv mint _ _ _ a] u by (simp add: account_of_id has_account_in)
qed

lemma approve_by_token_keeps:
  assumes inv: "consent_inv s" and call: "call_ok sha env s" and raw: "sha raw \<noteq> ''''"
    and run: "approve_by_token env raw nm bd s = Inr (a, t)"
  shows "consent_inv t"
proof -
  from run obtain e where e: "resolve_open_event env s raw = Inr e"
    "record_approval env e (approval_method env s e) nm bd s = (a, t)"
    by (auto simp: approve_by_token_def run_ok)
  have h: "env_hash env raw \<noteq> ''''" using call raw by (simp add: call_ok_def)
  note l = resolved_link [OF inv h e(1)]
  from e(2) have a: "t = set_status (ev_child a) Approved (write_event a s)" "ev_type a = EvApproved"
    "ev_child a = ev_child e" "ev_guardian a = ev_guardian e" "ev_hash a = ev_hash e" "ev_created a = env_now env"
    by (auto simp: record_approval_def Let_def)
  show ?thesis unfolding a(1)
  proof (rule consent_inv_write [OF inv])
    show "not_after (events s) a" using call a(6) by (rule call_not_after)
    show "ev_hash a \<noteq> '''' \<Longrightarrow> link_ok (link_word (events s) (ev_hash a) @ [ev_type a])"
      using l(1,4) a by (simp add: is_open_event_def)
  qed (use refs_D [OF inv l(3)] a in
      \<open>auto simp: moves_status_def record_says_def is_open_event_def open_event_types_def\<close>)
qed

lemma decline_by_token_keeps:
  assumes inv: "consent_inv s" and call: "call_ok sha env s" and raw: "sha raw \<noteq> ''''"
    and run: "decline_by_token env raw s = Inr (a, t)"
  shows "consent_inv t"
proof -
  from run obtain e where e: "resolve_open_event env s raw = Inr e" "record_decline env e s = (a, t)"
    by (auto simp: decline_by_token_def run_ok)
  have h: "env_hash env raw \<noteq> ''''" using call raw by (simp add: call_ok_def)
  note l = resolved_link [OF inv h e(1)]
  from e(2) have a: "t = write_event a s" "ev_type a = Declined"
    "ev_child a = ev_child e" "ev_guardian a = ev_guardian e" "ev_hash a = ev_hash e" "ev_created a = env_now env"
    by (auto simp: record_decline_def Let_def)
  show ?thesis unfolding a(1)
  proof (rule consent_inv_write_still [OF inv])
    show "not_after (events s) a" using call a(6) by (rule call_not_after)
    show "ev_hash a \<noteq> '''' \<Longrightarrow> link_ok (link_word (events s) (ev_hash a) @ [ev_type a])"
      using l(1,4) a by (simp add: is_open_event_def)
  qed (use refs_D [OF inv l(3)] a in \<open>auto simp: moves_status_def\<close>)
qed

lemma withdraw_token_cases:
  assumes "withdraw_by_token env raw s = Inr (w, t)"
  obtains (again) "newest (\<lambda>e. ev_hash e = env_hash env raw) (events s) = Some w" "ev_type w = EvWithdrawn" "t = s"
  | (first) e where "newest (\<lambda>e. ev_hash e = env_hash env raw) (events s) = Some e" "ev_type e = EvApproved"
      "w = (base_event env (ev_guardian e) (ev_child e) EvWithdrawn)\<lparr>ev_hash := env_hash env raw\<rparr>"
      "accounts t = accounts (set_status (ev_child e) Withdrawn (write_event w s))"
      "guardians t = guardians s" "events t = tbl_insert w (events s)"
  using assms
  by (auto simp: withdraw_by_token_def get_event_by_token_def Let_def split: option.splits if_splits)

lemma withdraw_by_token_keeps:
  assumes inv: "consent_inv s" and call: "call_ok sha env s" and raw: "sha raw \<noteq> ''''"
    and run: "withdraw_by_token env raw s = Inr (w, t)"
  shows "consent_inv t"
  using run
proof (cases rule: withdraw_token_cases)
  case again
  with inv show ?thesis by simp
next
  case (first e)
  have h: "env_hash env raw \<noteq> ''''" using call raw by (simp add: call_ok_def)
  then have "link_ok (link_word (events s) (env_hash env raw))"
    using inv by (simp add: consent_inv_def links_ok_def)
  then obtain ty where w: "link_word (events s) (env_hash env raw) = [ty, EvApproved]" "ty \<in> set open_event_types"
    using link_approved_last last_link [OF inv first(1)] first(2) by metis
  have e: "e \<in> set (events s)" using newest_in [OF first(1)] by simp
  have "consent_inv (set_status (ev_child w) Withdrawn (write_event w s))"
  proof (rule consent_inv_write [OF inv])
    show "not_after (events s) w" using call by (rule call_not_after) (simp add: first(3))
    show "ev_hash w \<noteq> '''' \<Longrightarrow> link_ok (link_word (events s) (ev_hash w) @ [ev_type w])"
      using w by (simp add: first(3))
  qed (use refs_D [OF inv e] first(3) in
      \<open>auto simp: moves_status_def record_says_def is_open_event_def open_event_types_def\<close>)
  then show ?thesis by (rule consent_inv_same) (simp_all add: first)
qed

lemma record_says_open: "record_says m NotNeeded = record_says m Pending"
  by (auto simp: record_says_def split: option.splits event_type.splits)

lemma set_status_keeps:
  assumes inv: "consent_inv s" and u: "has_account s u" and old: "acc_consent (account_of s u) = NotNeeded \<or>
      acc_consent (account_of s u) = Pending" and st: "st = NotNeeded \<or> st = Pending"
  shows "consent_inv (set_status u st s)"
proof -
  have "record_says (last_move s u) st"
    using inv u old st account_of_in [OF u] account_of_id [OF u] record_says_open
    by (auto simp: consent_inv_def statuses_ok_def)
  then have "statuses_ok (set_status u st s)"
    using inv by (auto simp: consent_inv_def statuses_ok_def last_move_def set_status_def)
  then show ?thesis using inv by (simp add: consent_inv_def refs_ok_def tbl_ok_def)
qed

lemma edit_accounts_keeps:
  assumes inv: "consent_inv s" and ids: "map acc_id as = map acc_id (accounts s)"
    and st: "map acc_consent as = map acc_consent (accounts s)"
  shows "consent_inv (s\<lparr>accounts := as\<rparr>)"
proof -
  have "record_says (last_move s (acc_id a)) (acc_consent a)" if a: "a \<in> set as" for a
  proof -
    obtain i where i: "i < length as" "as ! i = a" using a by (auto simp: in_set_conv_nth)
    then have len: "i < length (accounts s)" using ids by (metis length_map)
    have "acc_id (accounts s ! i) = acc_id a" "acc_consent (accounts s ! i) = acc_consent a"
      using ids st i len by (metis nth_map)+
    then show ?thesis using inv len by (auto simp: consent_inv_def statuses_ok_def) (metis nth_mem)
  qed
  moreover have "acc_id ` set as = acc_id ` set (accounts s)" by (metis ids set_map)
  ultimately show ?thesis using inv ids
    by (simp add: consent_inv_def statuses_ok_def refs_ok_def last_move_def tbl_ok_def)
qed

lemma expire_and_purge_simps:
  assumes "newest_open_for_child s u = Some r"
  shows "events (expire_and_purge env hex u s) = tbl_insert (expired_event env r u) (events s)"
    "guardians (expire_and_purge env hex u s) = guardians s"
    "accounts (expire_and_purge env hex u s) = map (\<lambda>a. if acc_id a = u
       then (anonymize (hex u) a)\<lparr>acc_active := False, acc_deletion_at := Some (env_now env)\<rparr> else a) (accounts s)"
  using assms by (simp_all add: expire_and_purge_def Let_def)

lemma anonymize_simps [simp]:
  "acc_id (anonymize hex a) = acc_id a" "acc_consent (anonymize hex a) = acc_consent a"
  "acc_created (anonymize hex a) = acc_created a" "acc_country (anonymize hex a) = acc_country a"
  by (simp_all add: anonymize_def)

lemma expire_and_purge_keeps:
  assumes inv: "consent_inv s" and call: "call_ok sha env s" and r: "newest_open_for_child s u = Some r"
    and t: "t = expire_and_purge env hex u s"
  shows "consent_inv t" "call_ok sha env t" "newest_open_for_child t v = newest_open_for_child s v"
proof -
  let ?e = "expired_event env r u"
  note e = expire_and_purge_simps [OF r, of env hex, folded t]
  have na: "not_after (events s) ?e" using call by (rule call_not_after) simp
  have "r \<in> set (events s)" "ev_child r = u" using r newest_in by (auto simp: newest_open_for_child_def)
  then have refs: "ev_child ?e \<in> acc_id ` set (accounts s)" "ev_guardian ?e \<in> gu_id ` set (guardians s)"
    using refs_D [OF inv] by auto
  have w: "consent_inv (write_event ?e s)"
    by (rule consent_inv_write_still [OF inv na refs]) (auto simp: moves_status_def)
  have "consent_inv ((write_event ?e s)\<lparr>accounts := accounts t\<rparr>)"
    by (rule edit_accounts_keeps [OF w]) (auto simp: e(3))
  then show "consent_inv t" by (rule consent_inv_same) (use e in simp_all)
  show "call_ok sha env t" using call by (auto simp: call_ok_def tbl_insert_def e(1))
  show "newest_open_for_child t v = newest_open_for_child s v"
    by (simp add: newest_open_for_child_def e(1) newest_insert [OF na] is_open_event_def open_event_types_def)
qed

lemma purge_each_keeps:
  "consent_inv s \<Longrightarrow> call_ok sha env s \<Longrightarrow> (\<And>a. a \<in> set us \<Longrightarrow> newest_open_for_child s (acc_id a) \<noteq> None) \<Longrightarrow>
   consent_inv (purge_each env hex us s)"
proof (induction us arbitrary: s)
  case (Cons a us)
  show ?case
  proof (cases "already_purged a")
    case False
    obtain r where r: "newest_open_for_child s (acc_id a) = Some r" using Cons.prems(3) by fastforce
    note k = expire_and_purge_keeps [OF Cons.prems(1,2) r refl, of hex]
    show ?thesis using Cons.IH [OF k(1,2)] Cons.prems(3) False by (simp add: k(3))
  qed (use Cons in auto)
qed simp

lemma stale_has_request:
  "a \<in> set (stale_pending_users c s) \<Longrightarrow> \<exists>r. newest_open_for_child s (acc_id a) = Some r \<and> ev_created r \<le> c"
  by (auto simp: stale_pending_users_def latest_request_def split: option.splits)

lemma clean_orphans_keeps:
  "consent_inv s \<Longrightarrow> consent_inv (clean_orphan_guardians s)"
  unfolding clean_orphan_guardians_def consent_inv_def refs_ok_def statuses_ok_def last_move_def
  by (fastforce simp: tbl_ok_def distinct_map_filter list_ex_iff image_iff)

lemma purge_unconsented_keeps:
  "consent_inv s \<Longrightarrow> call_ok sha env s \<Longrightarrow> consent_inv (purge_unconsented env hex window s)"
  unfolding purge_unconsented_def
  by (intro clean_orphans_keeps purge_each_keeps) (auto dest: stale_has_request)

lemma new_account_keeps:
  assumes inv: "consent_inv s" and new: "tbl_get acc_id (accounts s) (acc_id a) = None" and a: "signed_up a"
  shows "consent_inv (s\<lparr>accounts := tbl_insert a (accounts s)\<rparr>)"
proof -
  have "last_move s (acc_id a) = None"
    using refs_D [OF inv] new by (simp add: last_move_def newest_None tbl_get_None_iff) metis
  then have "record_says (last_move s (acc_id a)) (acc_consent a)" using a by (simp add: record_says_def signed_up_def)
  moreover have "tbl_ok acc_id (tbl_insert a (accounts s))" using inv new by (simp add: consent_inv_def)
  moreover have "last_move (s\<lparr>accounts := as\<rparr>) = last_move s" for as by (rule ext) (simp add: last_move_def)
  ultimately show ?thesis using inv
    by (auto simp: consent_inv_def refs_ok_def statuses_ok_def tbl_insert_def)
qed

lemma edit_account_keeps:
  assumes inv: "consent_inv s" and old: "tbl_get acc_id (accounts s) (acc_id a) = Some b"
    and st: "acc_consent a = acc_consent b"
  shows "consent_inv (s\<lparr>accounts := tbl_save acc_id a (accounts s)\<rparr>)"
proof (rule edit_accounts_keeps [OF inv])
  have "acc_consent x = acc_consent b" if "x \<in> set (accounts s)" "acc_id x = acc_id a" for x
    using that old inv tbl_get_eq_Some [of acc_id "accounts s" "acc_id a" x] by (simp add: consent_inv_def)
  then show "map acc_consent (tbl_save acc_id a (accounts s)) = map acc_consent (accounts s)"
    using st by (auto simp: tbl_save_def)
qed simp

lemma ensure_keeps:
  "consent_inv s \<Longrightarrow> has_account s u \<Longrightarrow> ensure_pending_for_minor env u s = (b, t) \<Longrightarrow> consent_inv t"
  by (auto simp: ensure_pending_for_minor_def Let_def intro: set_status_keeps split: if_splits)

lemma clear_keeps:
  "consent_inv s \<Longrightarrow> has_account s u \<Longrightarrow> clear_pending_for_adult env u s = (b, t) \<Longrightarrow> consent_inv t"
  by (auto simp: clear_pending_for_adult_def Let_def intro: set_status_keeps split: if_splits)

lemma consent_step_keeps: "consent_step sha s t \<Longrightarrow> consent_inv s \<Longrightarrow> consent_inv t"
  by (induction rule: consent_step.induct)
     (auto intro: new_account_keeps edit_account_keeps ensure_keeps clear_keeps request_consent_keeps
        resend_keeps approve_by_token_keeps decline_by_token_keeps withdraw_by_token_keeps
        purge_unconsented_keeps)

lemma consent_init_inv: "consent_init s \<Longrightarrow> consent_inv s"
  by (auto simp: consent_init_def consent_inv_def refs_ok_def links_ok_def link_word_def requests_ok_def
      statuses_ok_def last_move_def record_says_def list_all_iff signed_up_def)

interpretation consent: safe_machine consent_init "consent_step sha" consent_inv for sha
  by unfold_locales (auto intro: consent_step_keeps consent_init_inv)

section \<open>What the calls do\<close>

lemma account_of_set_status:
  "has_account s v \<Longrightarrow>
   account_of (set_status u st s) v = (if v = u then (account_of s v)\<lparr>acc_consent := st\<rparr> else account_of s v)"
proof -
  let ?f = "\<lambda>a. if acc_id a = u then a\<lparr>acc_consent := st\<rparr> else a"
  assume "has_account s v"
  then obtain a where a: "tbl_get acc_id (accounts s) v = Some a" by (auto simp: has_account_def)
  have "tbl_get acc_id (accounts (set_status u st s)) v = Some (?f a)"
    using a tbl_get_map [of acc_id ?f "accounts s" v] by (simp add: set_status_def)
  then show ?thesis using a tbl_get_key [OF a] by (auto simp: account_of_def)
qed

lemma account_of_write [simp]: "account_of (write_event e s) u = account_of s u"
  by (simp add: account_of_def)

text \<open>The link a request has just minted is live until it expires.\<close>

lemma asked_link_lives:
  assumes mint: "mint_ok sha env s" and ty: "ty = Requested \<or> ty = Resent"
    and run: "ask env ty g child kind s = (r, t)"
    and later: "env_hash env' = sha" "env_now env' < env_now env + token_ttl"
  shows "resolve_open_event env' t (env_token env) = Inr (asked_event env ty (gu_id g) (acc_id child))"
proof -
  let ?e = "asked_event env ty (gu_id g) (acc_id child)"
  have na: "not_after (events s) ?e" using mint by (auto simp: mint_ok_def intro: call_not_after)
  have "env_hash env = sha" using mint by (simp add: mint_ok_def call_ok_def)
  moreover have "is_open_event ?e" using ty by (auto simp: is_open_event_def open_event_types_def)
  ultimately show ?thesis using later ty
    by (auto simp: resolve_open_event_def get_event_by_token_def newest_open_for_child_def ask_state(1) [OF run]
        newest_insert [OF na] is_open_event_def open_event_types_def)
qed

lemma approve_by_token_unlocks:
  assumes "resolve_open_event env s raw = Inr e" "has_account s (ev_child e)"
  obtains a t where "approve_by_token env raw nm bd s = Inr (a, t)"
    "acc_consent (account_of t (ev_child e)) = Approved"
proof -
  obtain a t where "record_approval env e (approval_method env s e) nm bd s = (a, t)" by fastforce
  moreover then have "t = set_status (ev_child e) Approved (write_event a s)" by (auto simp: record_approval_def Let_def)
  moreover have "has_account (write_event a s) (ev_child e)" using assms(2) by (simp add: has_account_def)
  ultimately show thesis using that assms(1) by (simp add: approve_by_token_def account_of_set_status)
qed

lemma is_exempt_append_slash: "is_exempt (p @ ''/'') = is_exempt p"
  by (simp add: is_exempt_def)

lemma gate_cases:
  "has_consent_permission (Some a) path = Inr () \<longleftrightarrow>
     acc_consent a = NotNeeded \<or> acc_consent a = Approved \<or> is_exempt path"
  by (cases "acc_consent a") (auto simp: has_consent_permission_def blocking_statuses_def)

lemma record_approved_iff: "record_says m st \<Longrightarrow> st = Approved \<longleftrightarrow> m = Some EvApproved"
  by (auto simp: record_says_def split: option.splits event_type.splits)

lemma record_withdrawn_iff: "record_says m st \<Longrightarrow> st = Withdrawn \<longleftrightarrow> m = Some EvWithdrawn"
  by (auto simp: record_says_def split: option.splits event_type.splits)

section \<open>What the sweep touches\<close>

lemma account_of_expire:
  assumes "newest_open_for_child s u = Some r" "v \<noteq> u"
  shows "account_of (expire_and_purge env hex u s) v = account_of s v"
proof -
  let ?f = "\<lambda>a. if acc_id a = u
    then (anonymize (hex u) a)\<lparr>acc_active := False, acc_deletion_at := Some (env_now env)\<rparr> else a"
  have "tbl_get acc_id (map ?f (accounts s)) v = map_option ?f (tbl_get acc_id (accounts s) v)"
    by (rule tbl_get_map) simp
  then show ?thesis using assms(2)
    by (cases "tbl_get acc_id (accounts s) v")
       (auto simp: account_of_def expire_and_purge_simps [OF assms(1)] dest: tbl_get_key)
qed

lemma purge_each_other:
  "consent_inv s \<Longrightarrow> call_ok sha env s \<Longrightarrow> (\<And>a. a \<in> set us \<Longrightarrow> newest_open_for_child s (acc_id a) \<noteq> None) \<Longrightarrow>
   v \<notin> acc_id ` set us \<Longrightarrow> account_of (purge_each env hex us s) v = account_of s v"
proof (induction us arbitrary: s)
  case (Cons a us)
  show ?case
  proof (cases "already_purged a")
    case False
    obtain r where r: "newest_open_for_child s (acc_id a) = Some r" using Cons.prems(3) by fastforce
    note k = expire_and_purge_keeps [OF Cons.prems(1,2) r refl, of hex]
    have "account_of (expire_and_purge env hex (acc_id a) s) v = account_of s v"
      using account_of_expire [OF r] Cons.prems(4) by simp
    then show ?thesis using Cons.IH [OF k(1,2)] Cons.prems(3,4) False by (simp add: k(3))
  qed (use Cons in auto)
qed simp

lemma purge_unconsented_other:
  assumes "consent_inv s" "call_ok sha env s" "v \<notin> acc_id ` set (stale_pending_users (env_now env - window) s)"
  shows "account_of (purge_unconsented env hex window s) v = account_of s v"
  using purge_each_other [OF assms(1,2) _ assms(3)] stale_has_request
  by (fastforce simp: purge_unconsented_def clean_orphan_guardians_def account_of_def)

text \<open>A request older than the life of a link is not answerable.\<close>

lemma old_request_is_dead:
  assumes inv: "consent_inv s" and h: "env_hash env raw \<noteq> ''''"
    and r: "newest_open_for_child s u = Some r" and old: "ev_created r \<le> env_now env - token_ttl"
    and res: "resolve_open_event env s raw = Inr e"
  shows "ev_child e \<noteq> u"
proof
  assume u: "ev_child e = u"
  note l = resolved_link [OF inv h res]
  from l(5) u r have "r = e" by simp
  moreover from resolve_open_cases [OF res] obtain x where "ev_expires e = Some x" "env_now env < x" by metis
  moreover have "ev_expires e = Some (ev_created e + token_ttl)"
    using inv l(3,4) by (simp add: consent_inv_def requests_ok_def)
  ultimately show False using old by simp
qed

end
