(* ===== verification/Guardian_Properties.thy ===== *)
theory Guardian_Properties
  imports Guardian_Laws
begin

text \<open>
  What parental consent and the age gate guarantee, and a concrete exchange the properties are
  evaluated on: a fourteen-year-old names a parent who has an account, and the parent approves.
\<close>

section \<open>A concrete exchange\<close>

definition demo_call :: "instant \<Rightarrow> string \<Rightarrow> consent_env" where
  "demo_call now tok = \<lparr>env_hash = (\<lambda>raw. ''h'' @ raw), env_valid_email = (\<lambda>_. True),
     env_base_url = ''https://goatza.com/'', env_now = now, env_today = PyDate 2026 11 5,
     env_token = tok, env_request = None\<rparr>"

definition demo_kid :: account where
  "demo_kid = \<lparr>acc_id = 1, acc_email = ''kid@x.in'', acc_phone = '''', acc_username = ''kid'',
     acc_country = ''IN'', acc_birthdate = Some (PyDate 2012 6 1), acc_consent = NotNeeded,
     acc_active = True, acc_deletion_at = None, acc_created = 0\<rparr>"

definition demo_mum :: account where
  "demo_mum = \<lparr>acc_id = 2, acc_email = ''Mum@x.in'', acc_phone = '''', acc_username = ''mum'',
     acc_country = ''IN'', acc_birthdate = Some (PyDate 1985 1 1), acc_consent = NotNeeded,
     acc_active = True, acc_deletion_at = None, acc_created = 0\<rparr>"

definition consent_start :: consent_state where
  "consent_start = \<lparr>accounts = [demo_kid, demo_mum], guardians = [], events = [], outbox = [],
     outstanding_tokens = [(7, 1)], blacklisted_tokens = []\<rparr>"

definition consent_locked :: consent_state where
  "consent_locked = snd (ensure_pending_for_minor (demo_call 0 '''') 1 consent_start)"

definition consent_asked :: consent_state where
  "consent_asked =
     snd (projr (request_consent (demo_call 1000 ''tok'') 1 ''Mum'' (Some ''mum@x.in'') consent_locked))"

definition consent_granted :: consent_state where
  "consent_granted = snd (projr (approve_by_token (demo_call 2000 '''') ''tok'' ''Mum'' None consent_asked))"

lemma consent_init_start: "consent_init consent_start"
  by code_simp

lemma run_locked: "consent_step (\<lambda>raw. ''h'' @ raw) consent_start consent_locked"
proof (rule consent_step.ensure)
  show "has_account consent_start 1" by code_simp
  show "ensure_pending_for_minor (demo_call 0 '''') 1 consent_start = (True, consent_locked)" by code_simp
qed

lemma demo_request: "\<exists>r. request_consent (demo_call 1000 ''tok'') 1 ''Mum'' (Some ''mum@x.in'') consent_locked
    = Inr (r, consent_asked)"
proof -
  have "\<not> isl (request_consent (demo_call 1000 ''tok'') 1 ''Mum'' (Some ''mum@x.in'') consent_locked)"
    by code_simp
  then show ?thesis unfolding consent_asked_def by (metis prod.collapse sum.collapse(2))
qed

lemma demo_mint: "mint_ok (\<lambda>raw. ''h'' @ raw) (demo_call 1000 ''tok'') consent_locked"
proof -
  have "events consent_locked = []" by code_simp
  then show ?thesis by (simp add: mint_ok_def call_ok_def demo_call_def)
qed

lemma run_asked: "consent_step (\<lambda>raw. ''h'' @ raw) consent_locked consent_asked"
proof -
  obtain r where "request_consent (demo_call 1000 ''tok'') 1 ''Mum'' (Some ''mum@x.in'') consent_locked
    = Inr (r, consent_asked)" using demo_request by blast
  moreover have "has_account consent_locked 1" by code_simp
  ultimately show ?thesis using demo_mint by (rule consent_step.ask [rotated 2])
qed

lemma demo_events: "map ev_created (events consent_asked) = [1000]"
  by code_simp

lemma demo_call_ok: "1000 \<le> now \<Longrightarrow> call_ok (\<lambda>raw. ''h'' @ raw) (demo_call now tok) consent_asked"
  using demo_events by (auto simp: call_ok_def demo_call_def)

lemma demo_approval: "\<exists>e. approve_by_token (demo_call 2000 '''') ''tok'' ''Mum'' None consent_asked
    = Inr (e, consent_granted)"
proof -
  have "\<not> isl (approve_by_token (demo_call 2000 '''') ''tok'' ''Mum'' None consent_asked)" by code_simp
  then show ?thesis unfolding consent_granted_def by (metis prod.collapse sum.collapse(2))
qed

lemma run_granted: "consent_step (\<lambda>raw. ''h'' @ raw) consent_asked consent_granted"
proof -
  obtain e where e: "approve_by_token (demo_call 2000 []) ''tok'' ''Mum'' None consent_asked
    = Inr (e, consent_granted)" using demo_approval by blast
  show ?thesis by (rule consent_step.approve [OF demo_call_ok _ e]) simp_all
qed

lemma run_to_asked: "(consent_step (\<lambda>raw. ''h'' @ raw))\<^sup>*\<^sup>* consent_start consent_asked"
  by (rule rtranclp.rtrancl_into_rtrancl [OF r_into_rtranclp [of "consent_step (\<lambda>raw. ''h'' @ raw)", OF run_locked] run_asked])

lemma run_to_granted: "(consent_step (\<lambda>raw. ''h'' @ raw))\<^sup>*\<^sup>* consent_start consent_granted"
  using run_to_asked run_granted by (rule rtranclp.rtrancl_into_rtrancl)

section \<open>The record\<close>

text \<open>
  Property C3. In every state a run reaches, the status kept on an account is what the newest event that
  moves it says: approved exactly when that event is an approval, withdrawn exactly when it is a
  withdrawal, and otherwise pending or not needed.
\<close>

theorem consent_status_follows_the_record:
  assumes "consent_init s" "(consent_step sha)\<^sup>*\<^sup>* s t" "a \<in> set (accounts t)"
  shows "record_says (last_move t (acc_id a)) (acc_consent a)"
  using consent.inv_reachable [OF assms(1,2)] assms(3) by (simp add: consent_inv_def statuses_ok_def)

theorem consent_status_follows_the_record_witness:
  "record_says (last_move consent_granted 1) Approved \<and> last_move consent_granted 1 = Some EvApproved"
proof -
  have a: "account_of consent_granted 1 \<in> set (accounts consent_granted)"
    "acc_id (account_of consent_granted 1) = 1" "acc_consent (account_of consent_granted 1) = Approved"
    "last_move consent_granted 1 = Some EvApproved"
    by code_simp+
  show ?thesis
    using consent_status_follows_the_record [OF consent_init_start run_to_granted a(1)] a by simp
qed

text \<open>
  Property C26. A link is asked once and answered at most once: in every reachable state the events that
  carry one hash are a request, then nothing, a refusal, an approval, or an approval and its withdrawal.
\<close>

theorem link_is_answered_once:
  assumes "consent_init s" "(consent_step sha)\<^sup>*\<^sup>* s t" "h \<noteq> ''''"
  shows "link_ok (link_word (events t) h)"
  using consent.inv_reachable [OF assms(1,2)] assms(3) by (simp add: consent_inv_def links_ok_def)

theorem link_is_answered_once_witness:
  "link_ok (link_word (events consent_granted) ''htok'') \<and>
   link_word (events consent_granted) ''htok'' = [Requested, EvApproved]"
proof -
  have "link_word (events consent_granted) ''htok'' = [Requested, EvApproved]" by code_simp
  then show ?thesis
    using link_is_answered_once [OF consent_init_start run_to_granted, of "''htok''"] by simp
qed

section \<open>Asking and answering\<close>

text \<open>
  Property C9. Nobody stays locked out: from every reachable state, when an account names a parent by a
  valid e-mail address exactly one mail goes out, to that address, about that child, with the URL of a consent
  page; whoever follows the URL of the mail within seven days, before any other call, can approve with the
  token it carries; the account is then approved and passes the gate on every path.
\<close>

theorem nobody_stays_locked_out:
  assumes "consent_init s" "(consent_step sha)\<^sup>*\<^sup>* s t" "mint_ok sha env t" "has_account t u"
    and "clean_parent_name nm = Inr name" "normalize_contact env contact = Inr (EmailKind, value)"
  shows "\<exists>r v tok. request_consent env u nm contact t = Inr (r, v) \<and> reply_delivery r = ByEmail \<and>
    gu_email (reply_guardian r) = value \<and>
    outbox v = outbox t @ [ConsentRequestMail (gu_name (reply_guardian r)) value (child_label (account_of t u))
      (consent_page_url (env_base_url env) tok)] \<and>
    (\<forall>env' nm' bd path. env_hash env' = sha \<and> env_now env' < env_now env + token_ttl \<longrightarrow>
       (\<exists>e w. approve_by_token env' tok nm' bd v = Inr (e, w) \<and>
          acc_consent (account_of w u) = Approved \<and>
          has_consent_permission (Some (account_of w u)) path = Inr ()))"
proof -
  have inv: "consent_inv t" using consent.inv_reachable [OF assms(1,2)] .
  obtain g t' where g: "find_or_create_guardian env EmailKind value name (account_of t u) t = (g, t')" by fastforce
  obtain r v where a: "ask env Requested g (account_of t u) EmailKind t' = (r, v)" by fastforce
  note f = find_or_create_guardian [OF inv g]
  have req: "request_consent env u nm contact t = Inr (r, v)"
    using assms(5,6) g a by (simp add: request_consent_def)
  have mint: "mint_ok sha env t'" using assms(3) f(3) by (simp add: mint_ok_def call_ok_def)
  have id: "acc_id (account_of t u) = u" using assms(4) by (rule account_of_id)
  have has: "has_account v u"
    using assms(4) f(2) ask_state(4) [OF a] by (simp add: has_account_in id)
  have "\<exists>e w. approve_by_token env' (env_token env) nm' bd v = Inr (e, w) \<and>
      acc_consent (account_of w u) = Approved \<and> has_consent_permission (Some (account_of w u)) path = Inr ()"
    if "env_hash env' = sha" "env_now env' < env_now env + token_ttl" for env' nm' bd path
    using approve_by_token_unlocks [OF asked_link_lives [OF mint _ a that], of nm' bd] has
    by (auto simp: id gate_cases) metis
  then have opens: "\<forall>env' nm' bd path. env_hash env' = sha \<and> env_now env' < env_now env + token_ttl \<longrightarrow>
       (\<exists>e w. approve_by_token env' (env_token env) nm' bd v = Inr (e, w) \<and>
          acc_consent (account_of w u) = Approved \<and>
          has_consent_permission (Some (account_of w u)) path = Inr ())" by blast
  have "gu_email g = value" using f(6) by simp
  then have "outbox v = outbox t @ [ConsentRequestMail (gu_name g) value (child_label (account_of t u))
      (consent_page_url (env_base_url env) (env_token env))]"
    using ask_state(7) [OF a] f(5) by simp
  then show ?thesis using req ask_state(3,6) [OF a] \<open>gu_email g = value\<close> opens
    by (intro exI [of _ r] exI [of _ v] exI [of _ "env_token env"]) simp
qed

lemma demo_mailed: "outbox consent_asked
    = [ConsentRequestMail ''Mum'' ''mum@x.in'' (Handle ''kid'') (consent_page_url ''https://goatza.com/'' ''tok'')]"
  by code_simp

lemma consent_page_url_inj: "consent_page_url base x = consent_page_url base y \<Longrightarrow> x = y"
  by (simp add: consent_page_url_def)

theorem nobody_stays_locked_out_witness:
  "(\<exists>r. request_consent (demo_call 1000 ''tok'') 1 ''Mum'' (Some ''mum@x.in'') consent_locked = Inr (r, consent_asked)) \<and>
     outbox consent_asked
       = [ConsentRequestMail ''Mum'' ''mum@x.in'' (Handle ''kid'') (consent_page_url ''https://goatza.com/'' ''tok'')] \<and>
     (\<exists>e w. approve_by_token (demo_call 5000 '''') ''tok'' ''Mum'' None consent_asked = Inr (e, w) \<and>
        has_consent_permission (Some (account_of w 1)) ''/feed'' = Inr ())"
proof -
  have run: "(consent_step (\<lambda>raw. ''h'' @ raw))\<^sup>*\<^sup>* consent_start consent_locked"
    using run_locked by (rule r_into_rtranclp)
  have 1: "has_account consent_locked 1" by code_simp
  have 2: "clean_parent_name ''Mum'' = Inr ''Mum''" by code_simp
  have 3: "normalize_contact (demo_call 1000 ''tok'') (Some ''mum@x.in'') = Inr (EmailKind, ''mum@x.in'')"
    by code_simp
  have 4: "env_hash (demo_call 5000 []) = (\<lambda>raw. ''h'' @ raw) \<and>
      env_now (demo_call 5000 []) < env_now (demo_call 1000 ''tok'') + token_ttl"
    by (simp add: demo_call_def token_ttl_def)
  have 5: "env_base_url (demo_call 1000 ''tok'') = ''https://goatza.com/''" by (simp add: demo_call_def)
  have 6: "outbox consent_locked = []" by code_simp
  obtain r v tok where v: "request_consent (demo_call 1000 ''tok'') 1 ''Mum'' (Some ''mum@x.in'') consent_locked = Inr (r, v)"
      "outbox v = outbox consent_locked @ [ConsentRequestMail (gu_name (reply_guardian r)) ''mum@x.in''
         (child_label (account_of consent_locked 1)) (consent_page_url (env_base_url (demo_call 1000 ''tok'')) tok)]"
      "\<exists>e w. approve_by_token (demo_call 5000 []) tok ''Mum'' None v = Inr (e, w) \<and>
        has_consent_permission (Some (account_of w 1)) ''/feed'' = Inr ()"
    using nobody_stays_locked_out [OF consent_init_start run demo_mint 1 2 3] 4 by metis
  have same: "v = consent_asked" using v(1) demo_request by auto
  then have "tok = ''tok''" using v(2) demo_mailed unfolding 5 6 by (auto dest: consent_page_url_inj)
  then show ?thesis using v(3) same demo_request demo_mailed by auto
qed

text \<open>
  Permission can be taken back for ever: whenever the newest event of a link is an approval,
  however long ago the link expired, withdrawing on it succeeds, relocks the child on every path that is
  not exempt, and a second click answers the same event and changes nothing.
\<close>

theorem withdrawal_never_lapses:
  assumes "consent_init s" "(consent_step sha)\<^sup>*\<^sup>* s t" "call_ok sha env t"
    and "get_event_by_token env t raw = Some e" "ev_type e = EvApproved"
  shows "\<exists>w v. withdraw_by_token env raw t = Inr (w, v) \<and> ev_child w = ev_child e \<and>
    acc_consent (account_of v (ev_child e)) = Withdrawn \<and>
    (\<forall>path. \<not> is_exempt path \<longrightarrow>
       has_consent_permission (Some (account_of v (ev_child e))) path = Inl Withdrawn) \<and>
    (\<forall>env'. env_hash env' = sha \<longrightarrow> withdraw_by_token env' raw v = Inr (w, v))"
proof -
  have inv: "consent_inv t" using consent.inv_reachable [OF assms(1,2)] .
  obtain w v where w: "withdraw_by_token env raw t = Inr (w, v)"
    using assms(4,5) by (auto simp: withdraw_by_token_def Let_def)
  have e: "e \<in> set (events t)" using assms(4) newest_in by (auto simp: get_event_by_token_def)
  have f: "w = (base_event env (ev_guardian e) (ev_child e) EvWithdrawn)\<lparr>ev_hash := env_hash env raw\<rparr>"
    "accounts v = accounts (set_status (ev_child e) Withdrawn (write_event w t))"
    "events v = tbl_insert w (events t)"
    using w assms(4,5) by (auto elim: withdraw_token_cases simp: get_event_by_token_def)
  have "has_account t (ev_child e)" using refs_D [OF inv e] by (simp add: has_account_in)
  then have "acc_consent (account_of (set_status (ev_child e) Withdrawn (write_event w t)) (ev_child e)) = Withdrawn"
    by (simp add: account_of_set_status has_account_def)
  then have st: "acc_consent (account_of v (ev_child e)) = Withdrawn" using f(2) by (simp add: account_of_def)
  have "not_after (events t) w" using assms(3) by (rule call_not_after) (simp add: f(1))
  then have "withdraw_by_token env' raw v = Inr (w, v)" if "env_hash env' = sha" for env'
    using that assms(3) f(1)
    by (simp add: withdraw_by_token_def get_event_by_token_def f(3) newest_insert call_ok_def)
  then show ?thesis using w st f(1) by (auto simp: has_consent_permission_def blocking_statuses_def)
qed

theorem withdrawal_never_lapses_witness:
  "\<exists>w v. withdraw_by_token (demo_call 99000000000000 '''') ''tok'' consent_granted = Inr (w, v) \<and>
     has_consent_permission (Some (account_of v 1)) ''/feed'' = Inl Withdrawn"
proof -
  have c: "call_ok (\<lambda>raw. ''h'' @ raw) (demo_call 99000000000000 '''') consent_granted"
  proof -
    have "map ev_created (events consent_granted) = [1000, 2000]" by code_simp
    then show ?thesis by (auto simp: call_ok_def demo_call_def)
  qed
  obtain e where e: "get_event_by_token (demo_call 99000000000000 '''') consent_granted ''tok'' = Some e"
      "ev_type e = EvApproved" "ev_child e = 1"
  proof -
    have "map_option (\<lambda>e. (ev_type e, ev_child e))
        (get_event_by_token (demo_call 99000000000000 '''') consent_granted ''tok'') = Some (EvApproved, 1)"
      by code_simp
    then show ?thesis using that by auto
  qed
  have "\<not> is_exempt ''/feed''" by code_simp
  then show ?thesis
    using withdrawal_never_lapses [OF consent_init_start run_to_granted c e(1,2)] e(3) by auto
qed

text \<open>
  Property C12. The gate and the record agree. In a reachable state a signed-in account reaches a path
  outside the exempt list exactly when nobody has to be asked for it, or the newest event that moved its
  status is a parent's approval; the way out, naming a parent, is open to everyone.
\<close>

theorem gate_opens_on_an_approval:
  assumes "consent_init s" "(consent_step sha)\<^sup>*\<^sup>* s t" "a \<in> set (accounts t)" "\<not> is_exempt path"
  shows "(has_consent_permission (Some a) path = Inr () \<longleftrightarrow>
      acc_consent a = NotNeeded \<or> last_move t (acc_id a) = Some EvApproved) \<and>
    has_consent_permission (Some a) ''/guardian/details'' = Inr ()"
proof -
  have "record_says (last_move t (acc_id a)) (acc_consent a)"
    using consent.inv_reachable [OF assms(1,2)] assms(3) by (simp add: consent_inv_def statuses_ok_def)
  then have "acc_consent a = Approved \<longleftrightarrow> last_move t (acc_id a) = Some EvApproved"
    by (rule record_approved_iff)
  moreover have "is_exempt ''/guardian/details''" by code_simp
  ultimately show ?thesis using assms(4) by (auto simp: gate_cases)
qed

theorem gate_opens_on_an_approval_witness:
  "has_consent_permission (Some (account_of consent_asked 1)) ''/feed'' \<noteq> Inr () \<and>
   has_consent_permission (Some (account_of consent_granted 1)) ''/feed'' = Inr ()"
proof -
  have a: "account_of consent_asked 1 \<in> set (accounts consent_asked)"
    "acc_consent (account_of consent_asked 1) = Pending" "acc_id (account_of consent_asked 1) = 1"
    "last_move consent_asked 1 = Some Requested"
    by code_simp+
  have b: "account_of consent_granted 1 \<in> set (accounts consent_granted)"
    "acc_id (account_of consent_granted 1) = 1" "last_move consent_granted 1 = Some EvApproved"
    by code_simp+
  have p: "\<not> is_exempt ''/feed''" by code_simp
  show ?thesis
    using gate_opens_on_an_approval [OF consent_init_start run_to_asked a(1) p]
      gate_opens_on_an_approval [OF consent_init_start run_to_granted b(1) p] a b by simp
qed

text \<open>
  The parent's page never offers a button that fails: it renders as awaiting an answer
  exactly for the links an approval on the same state would accept.
\<close>

theorem page_offers_what_approval_accepts:
  "(\<exists>p. consent_page env s raw = Some p \<and> page_state p = PagePending) \<longleftrightarrow>
   (\<exists>e t. approve_by_token env raw nm bd s = Inr (e, t))"
proof (cases "resolve_open_event env s raw")
  case (Inl x)
  then show ?thesis
    by (auto simp: consent_page_def open_event_or_none_def approve_by_token_def page_of_def Let_def
        split: option.splits if_splits)
next
  case (Inr e)
  obtain a t where "record_approval env e (approval_method env s e) nm bd s = (a, t)" by fastforce
  with Inr show ?thesis
    by (simp add: consent_page_def open_event_or_none_def approve_by_token_def page_of_def Let_def)
qed

text \<open>
  An approval is labelled by what is known of the contact: it is recorded as a Goatza account
  only when an account other than the child's, of a person known to be eighteen, stands behind a contact
  that is not the child's own, and as a shared contact exactly when the contact is the child's own.
\<close>

theorem approval_label_is_earned:
  assumes "approve_by_token env raw nm bd s = Inr (a, t)"
  defines "child \<equiv> account_of s (ev_child a)" and "g \<equiv> guardian_of s (ev_guardian a)"
  shows "(ev_method a = Some SharedContact \<longleftrightarrow> is_childs_own_contact child g) \<and>
    (ev_method a = Some GoatzaAccount \<longrightarrow>
       (\<exists>u b. gu_linked g = Some u \<and> u \<noteq> acc_id child \<and> acc_birthdate (account_of s u) = Some b \<and>
          birthday guardian_adult_age b \<le> env_today env))"
proof -
  from assms(1) obtain e where e: "ev_method a = Some (approval_method env s e)"
      "ev_child a = ev_child e" "ev_guardian a = ev_guardian e"
    by (auto simp: approve_by_token_def run_ok record_approval_def Let_def)
  show ?thesis
    unfolding child_def g_def e
    by (auto simp: approval_method_def Let_def linked_user_is_adult_def is_adult_account_def age_on_ge
        split: option.splits)
qed

theorem approval_label_is_earned_witness:
  "\<exists>a. approve_by_token (demo_call 2000 '''') ''tok'' ''Mum'' None consent_asked = Inr (a, consent_granted) \<and>
     ev_method a = Some GoatzaAccount \<and> birthday 18 (PyDate 1985 1 1) \<le> PyDate 2026 11 5"
proof -
  obtain a where a: "approve_by_token (demo_call 2000 '''') ''tok'' ''Mum'' None consent_asked = Inr (a, consent_granted)"
    using demo_approval by blast
  have m: "ev_method (fst (projr (approve_by_token (demo_call 2000 '''') ''tok'' ''Mum'' None consent_asked))) =
      Some GoatzaAccount"
    and g: "gu_linked (guardian_of consent_asked 1) = Some 2"
    and b: "acc_birthdate (account_of consent_asked 2) = Some (PyDate 1985 1 1)"
    and ev: "ev_guardian (fst (projr (approve_by_token (demo_call 2000 '''') ''tok'' ''Mum'' None consent_asked))) = 1"
    by code_simp+
  have "birthday guardian_adult_age (PyDate 1985 1 1) \<le> env_today (demo_call 2000 '''')"
    using approval_label_is_earned [OF a] m g b ev by (simp add: a)
  then show ?thesis using a m by (simp add: guardian_adult_age_def demo_call_def)
qed

section \<open>The sweep\<close>

text \<open>
  The nightly sweep never empties an account whose parent could still answer: with a window of
  at least the seven days a link lives, an account it changes was pending, its newest request is older
  than the window, and no link anywhere resolves to it at that moment.
\<close>

theorem sweep_spares_live_links:
  assumes "consent_init s" "(consent_step sha)\<^sup>*\<^sup>* s t" "call_ok sha env t" "token_ttl \<le> window"
    and "account_of (purge_unconsented env hex window t) u \<noteq> account_of t u"
  shows "(\<exists>a \<in> set (accounts t). acc_id a = u \<and> acc_consent a = Pending) \<and>
    (\<exists>x. latest_request t u = Some x \<and> x \<le> env_now env - window) \<and>
    (\<forall>raw e. sha raw \<noteq> '''' \<and> resolve_open_event env t raw = Inr e \<longrightarrow> ev_child e \<noteq> u)"
proof -
  have inv: "consent_inv t" using consent.inv_reachable [OF assms(1,2)] .
  have "u \<in> acc_id ` set (stale_pending_users (env_now env - window) t)"
    using purge_unconsented_other [OF inv assms(3)] assms(5) by metis
  then obtain a where a: "a \<in> set (stale_pending_users (env_now env - window) t)" "acc_id a = u" by auto
  then obtain r where r: "newest_open_for_child t u = Some r" "ev_created r \<le> env_now env - window"
    using stale_has_request by metis
  have "ev_child e \<noteq> u" if "sha raw \<noteq> ''''" "resolve_open_event env t raw = Inr e" for raw e
    using old_request_is_dead [OF inv _ r(1) _ that(2)] r(2) assms(3,4) that(1) by (simp add: call_ok_def)
  moreover have "a \<in> set (accounts t)" "acc_consent a = Pending" using a(1) by (auto simp: stale_pending_users_def)
  ultimately show ?thesis using a(2) r by (auto simp: latest_request_def)
qed

definition demo_sweep :: consent_state where
  "demo_sweep = purge_unconsented (demo_call (1000 + guardian_consent_expiry) '''') (\<lambda>_. ''0'')
     guardian_consent_expiry consent_asked"

theorem sweep_spares_live_links_witness:
  "acc_email (account_of demo_sweep 1) = ''deleted-0@deleted.invalid'' \<and>
   latest_request consent_asked 1 = Some 1000 \<and> blacklisted_tokens demo_sweep = [7]"
proof -
  have email: "acc_email (account_of demo_sweep 1) = ''deleted-0@deleted.invalid''"
    and old: "acc_email (account_of consent_asked 1) = ''kid@x.in''"
    and req: "latest_request consent_asked 1 = Some 1000"
    and bl: "blacklisted_tokens demo_sweep = [7]"
    by code_simp+
  then have ne: "account_of demo_sweep 1 \<noteq> account_of consent_asked 1" by auto
  have ttl: "token_ttl \<le> guardian_consent_expiry" by code_simp
  have c: "call_ok (\<lambda>raw. ''h'' @ raw) (demo_call (1000 + guardian_consent_expiry) '''') consent_asked"
    by (rule demo_call_ok) code_simp
  show ?thesis
    using sweep_spares_live_links [OF consent_init_start run_to_asked c ttl ne [unfolded demo_sweep_def]]
      email req bl by simp
qed

text \<open>
  Asking again restarts the thirty days: right after a request or a resend the account is not
  among the stale ones for any cut-off before that moment, however old its first request is.
\<close>

theorem asking_restarts_the_clock:
  assumes "mint_ok sha env s" "resend env u s = Inr (r, t)" "has_account s u" "cutoff < env_now env"
  shows "latest_request t u = Some (env_now env) \<and> (\<forall>a \<in> set (stale_pending_users cutoff t). acc_id a \<noteq> u)"
proof -
  obtain p kind where "newest_event_for_child s u = Some p" "ev_type p \<noteq> Declined"
    and a: "ask env Resent (guardian_of s (ev_guardian p)) (account_of s u) kind s = (r, t)"
    using assms(2) by (rule resend_cases)
  let ?e = "asked_event env Resent (gu_id (guardian_of s (ev_guardian p))) u"
  have na: "not_after (events s) ?e" using assms(1) by (auto simp: mint_ok_def intro: call_not_after)
  have "newest_open_for_child t u = Some ?e"
    using ask_state(1) [OF a] newest_insert [OF na]
    by (simp add: account_of_id [OF assms(3)] newest_open_for_child_def is_open_event_def open_event_types_def)
  then show ?thesis using assms(4) stale_has_request by (fastforce simp: latest_request_def)
qed

theorem asking_restarts_the_clock_witness:
  "\<exists>r t. resend (demo_call (2000 + guardian_consent_expiry) ''tok2'') 1 consent_asked = Inr (r, t) \<and>
     latest_request t 1 = Some (2000 + guardian_consent_expiry)"
proof -
  have hs: "map ev_hash (events consent_asked) = [''htok'']" by code_simp
  have "0 \<le> guardian_consent_expiry" by code_simp
  then have m: "mint_ok (\<lambda>raw. ''h'' @ raw) (demo_call (2000 + guardian_consent_expiry) ''tok2'') consent_asked"
    using hs demo_call_ok [of "2000 + guardian_consent_expiry" "''tok2''"]
    by (auto simp: mint_ok_def demo_call_def)
  have "\<not> isl (resend (demo_call (2000 + guardian_consent_expiry) ''tok2'') 1 consent_asked)" by code_simp
  then obtain r t where r: "resend (demo_call (2000 + guardian_consent_expiry) ''tok2'') 1 consent_asked = Inr (r, t)"
    by (metis prod.collapse sum.collapse(2))
  have "has_account consent_asked 1" by code_simp
  then have "latest_request t 1 = Some (env_now (demo_call (2000 + guardian_consent_expiry) ''tok2''))"
    using asking_restarts_the_clock [OF m r, of "env_now (demo_call (2000 + guardian_consent_expiry) ''tok2'') - 1"]
    by simp
  then show ?thesis using r by (simp add: demo_call_def)
qed

section \<open>Two answers at once\<close>

text \<open>
  Property C34. A link is resolved before the answering transaction and without a lock. When an approval and
  a refusal have both resolved it and then write in that order, both are recorded: the child is approved
  and unlocked, while the link that approved it now refuses to take the permission back and its page is gone.
\<close>

theorem racing_answers_strand_the_approval:
  assumes "call_ok sha env s" "call_ok sha env' s" "env_now env \<le> env_now env'" "has_account s (ev_child e)"
    and "resolve_open_event env s raw = Inr e" "resolve_open_event env' s raw = Inr e"
    and "approve_by_token env raw nm bd s = Inr (a, t)" "record_decline env' e t = (d, v)"
    and "env_hash env'' = sha"
  shows "acc_consent (account_of v (ev_child e)) = Approved \<and>
    withdraw_by_token env'' raw v = Inl (GuardianConsentError ''consent_not_approved'') \<and>
    consent_page env'' v raw = None"
proof -
  have t: "t = set_status (ev_child e) Approved (write_event a s)" "ev_created a = env_now env"
    using assms(5,7) by (auto simp: approve_by_token_def record_approval_def Let_def)
  have d: "v = write_event d t" "ev_type d = Declined" "ev_hash d = ev_hash e" "ev_created d = env_now env'"
    using assms(8) by (auto simp: record_decline_def Let_def)
  have h: "ev_hash e = sha raw"
    using resolve_open_cases [OF assms(5)] newest_in assms(1) by (metis (mono_tags, lifting) call_ok_def)
  have "not_after (events t) d"
    using assms(2,3) t d(4) by (auto simp: not_after_def call_ok_def tbl_insert_def)
  then have n: "get_event_by_token env'' v raw = Some d"
    using d h assms(9) by (simp add: get_event_by_token_def newest_insert)
  have "has_account (write_event a s) (ev_child e)" using assms(4) by (simp add: has_account_def)
  then have "acc_consent (account_of v (ev_child e)) = Approved"
    using d(1) t(1) by (simp add: account_of_set_status)
  then show ?thesis using n d(2)
    by (auto simp: withdraw_by_token_def consent_page_def open_event_or_none_def resolve_open_event_def
        open_event_types_def)
qed

theorem racing_answers_strand_the_approval_witness:
  "\<exists>a t d v. approve_by_token (demo_call 2000 '''') ''tok'' ''Mum'' None consent_asked = Inr (a, t) \<and>
     withdraw_by_token (demo_call 9000 '''') ''tok'' v = Inl (GuardianConsentError ''consent_not_approved'') \<and>
     acc_consent (account_of v 1) = Approved \<and>
     record_decline (demo_call 2001 '''') (hd (events consent_asked)) t = (d, v)"
proof -
  let ?e = "hd (events consent_asked)"
  have ev: "ev_child ?e = 1" by code_simp
  have res: "resolve_open_event (demo_call 2000 []) consent_asked ''tok'' = Inr ?e"
    "resolve_open_event (demo_call 2001 []) consent_asked ''tok'' = Inr ?e"
    by code_simp+
  obtain a where a: "approve_by_token (demo_call 2000 '''') ''tok'' ''Mum'' None consent_asked = Inr (a, consent_granted)"
    using demo_approval by blast
  obtain d v where d: "record_decline (demo_call 2001 '''') ?e consent_granted = (d, v)" by fastforce
  have acc: "has_account consent_asked (ev_child ?e)" unfolding ev by code_simp
  have "acc_consent (account_of v 1) = Approved \<and>
      withdraw_by_token (demo_call 9000 '''') ''tok'' v = Inl (GuardianConsentError ''consent_not_approved'')"
    using racing_answers_strand_the_approval [OF demo_call_ok demo_call_ok _ acc res a d,
        of "demo_call 9000 []"] ev by (simp add: demo_call_def)
  then show ?thesis using a d by metis
qed

section \<open>The age gate\<close>

text \<open>
  The phone number can only make the age gate stricter: the country a signup is held to is
  the declared one or the one of the dialling code, and its threshold is the higher of the two.
\<close>

theorem dialling_code_only_tightens:
  "resolve_country declared phone \<in> {normalize_country declared, country_for_dialling_code phone} \<and>
   minor_age_for (Some (resolve_country declared phone)) =
     (if country_for_dialling_code phone = '''' then minor_age_for declared
      else max (minor_age_for declared) (minor_age_for (Some (country_for_dialling_code phone))))"
  using minor_age_for_normal [of declared]
  by (auto simp: resolve_country_def Let_def max_def)

text \<open>
  Every number in the table's international form is read as the country of its dialling code,
  and no other code of the table could have matched.
\<close>

theorem dialling_code_is_unambiguous:
  assumes "(code, c) \<in> set country_by_dialling_code" "py_isdigit (code @ rest)"
  shows "country_for_dialling_code (Some (''+'' @ code @ rest)) = c \<and>
    (\<forall>other \<in> fst ` set country_by_dialling_code. startswith (code @ rest) other \<longrightarrow> other = code)"
proof -
  have st: "startswith (code @ rest) code" by (simp add: startswith_def)
  have "\<not> py_isspace d" if "d \<in> set (''+'' @ code @ rest)" for d
  proof (cases "d = CHR ''+''")
    case True
    then show ?thesis by (simp add: py_isspace_def)
  next
    case False
    with that assms(2) show ?thesis by (intro py_isdigit_not_space) (auto simp: py_isdigit_def list_all_iff)
  qed
  then have "py_strip (''+'' @ code @ rest) = ''+'' @ code @ rest" by (rule py_strip_fixed)
  moreover have "map_of country_by_dialling_code code = Some c"
    using assms(1) dialling_codes_distinct by (rule map_of_is_SomeI [rotated])
  ultimately have "country_for_dialling_code (Some (''+'' @ code @ rest)) = c"
    using assms(2) find_dialling_code [OF assms(1) st]
    by (simp add: country_for_dialling_code_def Let_def startswith_def)
  moreover have "other = code" if "other \<in> fst ` set country_by_dialling_code" "startswith (code @ rest) other"
    for other
    using dialling_code_unique [OF that(2) st that(1)] imageI [OF assms(1), of fst] by (simp only: fst_conv)
  ultimately show ?thesis by blast
qed

theorem dialling_code_is_unambiguous_witness:
  "country_for_dialling_code (Some ''+919876543210'') = ''IN''"
proof -
  have "(''91'', ''IN'') \<in> set country_by_dialling_code" by (simp add: country_by_dialling_code_def)
  moreover have "py_isdigit (''91'' @ ''9876543210'')" by code_simp
  ultimately show ?thesis using dialling_code_is_unambiguous [of "''91''" "''IN''" "''9876543210''"] by simp
qed

text \<open>
  A signup passes the age gate exactly when a date was given, it is neither in the future nor
  before 1900, and the thirteenth birthday has come; and whoever passes is, in the country held to, a minor
  exactly until the birthday its threshold names.
\<close>

theorem signup_needs_a_thirteenth_birthday:
  "(validate_signup_age today bd = Inr () \<longleftrightarrow>
      (\<exists>b. bd = Some b \<and> b \<le> today \<and> 1900 \<le> py_year b \<and> birthday 13 b \<le> today)) \<and>
   (validate_signup_age today bd = Inl (AgeGateError ''under_age'') \<longleftrightarrow>
      (\<exists>b. bd = Some b \<and> b \<le> today \<and> 1900 \<le> py_year b \<and> today < birthday 13 b)) \<and>
   (is_minor today bd country \<longleftrightarrow>
      (case bd of None \<Rightarrow> True | Some b \<Rightarrow> today < birthday (minor_age_for (Some country)) b))"
proof (cases bd)
  case None
  then show ?thesis by (auto simp: validate_signup_age_def is_minor_def)
next
  case (Some b)
  have age: "age_on b today < k \<longleftrightarrow> \<not> birthday k b \<le> today" for k
    using age_on_ge [of k b today] by linarith
  show ?thesis
    by (simp add: Some validate_signup_age_def is_minor_def earliest_plausible_birth_year_def
        minimum_signup_age_def age not_le not_less)
qed

end
