(* ===== verification/Storage_Paths.thy ===== *)
theory Storage_Paths
  imports Goatza_Prelude
begin

text \<open>
  Object keys: \<open>services/storage/paths.py\<close> and the upload types of \<open>apps/media/constants.py\<close>.

  Keys are text, so the ids in them are text too: \<open>str(uuid)\<close>. An actor switched to an organization by
  \<open>org_id\<close> keeps its user, so both ids may be present; \<open>actor.user.id\<close> on an actor without one is an
  \<open>AttributeError\<close>. \<open>None\<close> stands for the two exceptions \<open>build_folder\<close> raises.
\<close>

section \<open>Upload types\<close>

definition fixed_slot_types :: "string list" where
  "fixed_slot_types = [''profile'', ''cover'', ''organization_logo'', ''organization_cover'']"

definition temp_batch_types :: "string list" where
  "temp_batch_types = [''posts'', ''recruitments'']"

definition source_upload_types :: "string list" where
  "source_upload_types = [''posts'', ''recruitments'', ''chat'', ''highlights'']"

definition source_infix :: string where "source_infix = ''.src.''"

record key_actor =
  ka_is_org :: bool
  ka_user :: "string option"
  ka_org :: "string option"

definition user_folder :: "key_actor \<Rightarrow> string \<Rightarrow> string option" where
  "user_folder a rest = map_option (\<lambda>u. ''users/'' @ u @ rest) (ka_user a)"

definition org_folder :: "key_actor \<Rightarrow> string \<Rightarrow> string option" where
  "org_folder a rest = map_option (\<lambda>i. ''organizations/'' @ i @ rest) (ka_org a)"

definition build_folder :: "key_actor \<Rightarrow> string \<Rightarrow> string \<Rightarrow> string option" where
  "build_folder a upload_type temp_id =
     (if upload_type \<in> set [''profile'', ''cover''] then user_folder a (''/'' @ upload_type)
      else if upload_type = ''organization_logo'' then org_folder a ''/logo''
      else if upload_type = ''organization_cover'' then org_folder a ''/cover''
      else if upload_type = ''posts'' then
        (if \<not> ka_is_org a then user_folder a (''/posts/'' @ temp_id)
         else org_folder a (''/posts/'' @ temp_id))
      else if upload_type = ''recruitments'' then org_folder a (''/recruitments/'' @ temp_id)
      else if upload_type = ''chat'' then
        map_option (\<lambda>f. ''chat/'' @ f) (if \<not> ka_is_org a then user_folder a [] else org_folder a [])
      else if upload_type = ''support'' then
        (if \<not> ka_is_org a then user_folder a ''/support'' else org_folder a ''/support'')
      else if upload_type \<in> set [''achievements'', ''matches'', ''highlights'']
      then user_folder a (''/'' @ upload_type)
      else None)"

definition build_object_name :: "string \<Rightarrow> string \<Rightarrow> string" where
  "build_object_name fresh_uuid upload_type =
     (if upload_type = ''profile'' then ''profile''
      else if upload_type = ''cover'' then ''cover''
      else if upload_type = ''organization_logo'' then ''logo''
      else if upload_type = ''organization_cover'' then ''cover''
      else fresh_uuid)"

section \<open>Keys\<close>

text \<open>\<open>rpartition("/")\<close>: the last segment, and what precedes it.\<close>

definition last_segment :: "string \<Rightarrow> string" where
  "last_segment key = rev (takeWhile (\<lambda>c. c \<noteq> CHR ''/'') (rev key))"

definition folder_of :: "string \<Rightarrow> string" where
  "folder_of key = rev (drop 1 (dropWhile (\<lambda>c. c \<noteq> CHR ''/'') (rev key)))"

definition sibling_key :: "string \<Rightarrow> string \<Rightarrow> string \<Rightarrow> string" where
  "sibling_key fresh_uuid key extension = folder_of key @ ''/'' @ fresh_uuid @ extension"

text \<open>\<open>str(uuid.UUID(value)) == value\<close>: thirty-two lowercase hexadecimal digits and four hyphens.\<close>

definition is_canonical_uuid :: "string \<Rightarrow> bool" where
  "is_canonical_uuid v \<longleftrightarrow> length v = 36 \<and>
     list_all (\<lambda>i. if i \<in> set [8, 13, 18, 23] then v ! i = CHR ''-''
                  else v ! i \<in> set ''0123456789abcdef'') [0..<36]"

definition is_source_key :: "string \<Rightarrow> bool" where
  "is_source_key key =
     (let (stem, found, extension) = py_partition source_infix (last_segment key)
      in found \<and> is_canonical_uuid stem \<and> extension \<noteq> [] \<and> CHR ''.'' \<notin> set extension)"

definition actor_key_prefixes :: "key_actor \<Rightarrow> string list" where
  "actor_key_prefixes a =
     (if ka_is_org a
      then [''organizations/'' @ the (ka_org a) @ ''/'', ''chat/organizations/'' @ the (ka_org a) @ ''/'']
      else [''users/'' @ the (ka_user a) @ ''/'', ''chat/users/'' @ the (ka_user a) @ ''/''])"

text \<open>The file name below the type's own folder, when the key lies in it.\<close>

definition name_in_folder :: "key_actor \<Rightarrow> string \<Rightarrow> string \<Rightarrow> string option" where
  "name_in_folder a upload_type key =
     (if upload_type \<in> set temp_batch_types
      then (case build_folder a upload_type [] of
              None \<Rightarrow> None
            | Some parent \<Rightarrow>
                if \<not> startswith key parent then None
                else let (batch_id, slash, name) = py_partition ''/'' (drop (length parent) key)
                     in if \<not> slash \<or> \<not> is_canonical_uuid batch_id then None else Some name)
      else (case build_folder a upload_type [] of
              None \<Rightarrow> None
            | Some f \<Rightarrow>
                let folder = f @ ''/''
                in if \<not> startswith key folder then None else Some (drop (length folder) key)))"

definition is_upload_key_for :: "key_actor \<Rightarrow> string \<Rightarrow> string \<Rightarrow> bool" where
  "is_upload_key_for a upload_type key =
     (if key = [] \<or> upload_type \<in> set fixed_slot_types then False
      else case name_in_folder a upload_type key of
        None \<Rightarrow> False
      | Some name \<Rightarrow>
          let (stem, dot, extension) = py_partition ''.'' name
          in if \<not> dot \<or> CHR ''/'' \<in> set name \<or> \<not> is_canonical_uuid stem then False
             else if startswith name (stem @ source_infix)
                  then if upload_type \<notin> set source_upload_types then False
                       else let extension = drop (length source_infix - 1) extension
                            in extension \<noteq> [] \<and> CHR ''.'' \<notin> set extension
                  else extension \<noteq> [] \<and> CHR ''.'' \<notin> set extension)"

section \<open>Laws\<close>

lemma startswith_append [simp]: "startswith (p @ q) p"
  by (simp add: startswith_def)

lemma startswithD: "startswith s p \<Longrightarrow> s = p @ drop (length p) s"
  by (metis append_take_drop_id startswith_def)

lemma py_partition_char:
  "c \<notin> set a \<Longrightarrow> py_partition [c] (a @ c # b) = (a, True, b)"
  by (induction a) (auto simp: startswith_def)

lemma py_partition_found:
  "py_partition sep s = (a, True, b) \<Longrightarrow> s = a @ sep @ b"
proof (induction s arbitrary: a)
  case Nil
  then show ?case by (auto split: if_splits)
next
  case (Cons c cs)
  then show ?case
    by (auto split: if_splits prod.splits dest: startswithD)
qed

lemma py_partition_no_sep:
  "py_partition [c] s = (a, f, b) \<Longrightarrow> c \<notin> set a"
  by (induction s arbitrary: a) (auto simp: startswith_def split: if_splits prod.splits)

lemma uuid_chars:
  assumes "is_canonical_uuid v"
  shows "length v = 36" "set v \<subseteq> set ''-0123456789abcdef''"
proof -
  show len: "length v = 36" using assms by (simp add: is_canonical_uuid_def)
  have "v ! i \<in> set ''-0123456789abcdef''" if "i < 36" for i
  proof -
    have "if i \<in> set [8, 13, 18, 23] then v ! i = CHR ''-'' else v ! i \<in> set ''0123456789abcdef''"
      using assms that by (simp add: is_canonical_uuid_def list_all_iff del: set_simps)
    then show ?thesis by (auto split: if_splits)
  qed
  then show "set v \<subseteq> set ''-0123456789abcdef''" using len by (auto simp: set_conv_nth simp del: set_simps)
qed

lemma uuid_no:
  assumes "is_canonical_uuid v"
  shows "CHR ''/'' \<notin> set v" "CHR ''.'' \<notin> set v"
  using uuid_chars(2) [OF assms] by auto

text \<open>The segments of a path.\<close>

fun segments :: "string \<Rightarrow> string list" where
  "segments [] = [[]]"
| "segments (c # cs) = (if c = CHR ''/'' then [] # segments cs else (c # hd (segments cs)) # tl (segments cs))"

lemma segments_nonempty [simp]: "segments s \<noteq> []"
  by (cases s) auto

lemma segments_split: "CHR ''/'' \<notin> set a \<Longrightarrow> segments (a @ CHR ''/'' # b) = a # segments b"
  by (induction a) auto

lemma segments_plain: "CHR ''/'' \<notin> set a \<Longrightarrow> segments a = [a]"
  by (induction a) auto

text \<open>What a key says about itself: its type, whose root it lies under, and the id there.\<close>

definition key_reading :: "string \<Rightarrow> (string \<times> string \<times> string) option" where
  "key_reading key =
     (case segments key of
        [a, b, c, d] \<Rightarrow> if a = ''chat'' then Some (''chat'', b, c) else Some (c, a, b)
      | [a, b, c, d, e] \<Rightarrow> Some (c, a, b)
      | _ \<Rightarrow> None)"

definition ids_ok :: "key_actor \<Rightarrow> bool" where
  "ids_ok a \<longleftrightarrow> (\<forall>u. ka_user a = Some u \<longrightarrow> is_canonical_uuid u) \<and>
     (\<forall>i. ka_org a = Some i \<longrightarrow> is_canonical_uuid i)"

lemma name_in_folder_cases:
  assumes "name_in_folder a t key = Some name"
  obtains (in_batch) parent b where "t \<in> set temp_batch_types" "build_folder a t [] = Some parent"
      "key = parent @ b @ CHR ''/'' # name" "is_canonical_uuid b"
  | (flat) f where "t \<notin> set temp_batch_types" "build_folder a t [] = Some f" "key = f @ CHR ''/'' # name"
proof (cases "t \<in> set temp_batch_types")
  case True
  with assms obtain parent b where p: "build_folder a t [] = Some parent" "startswith key parent"
      "py_partition ''/'' (drop (length parent) key) = (b, True, name)" "is_canonical_uuid b"
    by (auto simp: name_in_folder_def Let_def split: option.splits if_splits prod.splits)
  have "key = parent @ b @ CHR ''/'' # name"
    using py_partition_found [OF p(3)] startswithD [OF p(2)] by (metis append_Cons append_Nil)
  with True p(1,4) show ?thesis using in_batch by blast
next
  case False
  with assms obtain f where f: "build_folder a t [] = Some f" "startswith key (f @ ''/'')"
      "name = drop (length (f @ ''/'')) key"
    by (auto simp: name_in_folder_def Let_def split: option.splits if_splits)
  from startswithD [OF f(2)] f(3) have "key = f @ CHR ''/'' # name" by simp
  with False f(1) show ?thesis using flat by blast
qed

lemma upload_key_name:
  assumes "is_upload_key_for a t key"
  obtains name where "name_in_folder a t key = Some name" "CHR ''/'' \<notin> set name" "t \<notin> set fixed_slot_types"
  using assms by (auto simp: is_upload_key_for_def Let_def split: if_splits option.splits prod.splits)

text \<open>Whose root a reading names: the actor's own user or organization id.\<close>

definition owner_reading :: "key_actor \<Rightarrow> string \<Rightarrow> string \<Rightarrow> bool" where
  "owner_reading a root ident \<longleftrightarrow>
     (root = ''users'' \<and> ka_user a = Some ident) \<or> (root = ''organizations'' \<and> ka_org a = Some ident)"

lemma owner_reading_slashes:
  "ids_ok a \<Longrightarrow> owner_reading a root ident \<Longrightarrow> CHR ''/'' \<notin> set root \<and> CHR ''/'' \<notin> set ident"
  by (auto simp: owner_reading_def ids_ok_def dest: uuid_no(1))

lemma user_folder_owner:
  "user_folder a rest = Some f \<Longrightarrow> \<exists>u. owner_reading a ''users'' u \<and> f = ''users'' @ CHR ''/'' # u @ rest"
  by (auto simp: user_folder_def owner_reading_def)

lemma org_folder_owner:
  "org_folder a rest = Some f \<Longrightarrow>
   \<exists>i. owner_reading a ''organizations'' i \<and> f = ''organizations'' @ CHR ''/'' # i @ rest"
  by (auto simp: org_folder_def owner_reading_def)

lemma build_folder_shape:
  assumes "build_folder a t x = Some f" "t \<notin> set fixed_slot_types"
  shows "\<exists>root ident. owner_reading a root ident \<and> CHR ''/'' \<notin> set t \<and>
    (if t = ''chat'' then f = ''chat'' @ CHR ''/'' # root @ CHR ''/'' # ident
     else if t \<in> set temp_batch_types then f = root @ CHR ''/'' # ident @ CHR ''/'' # t @ CHR ''/'' # x
     else f = root @ CHR ''/'' # ident @ CHR ''/'' # t)"
proof -
  consider "t = ''posts''" | "t = ''recruitments''" | "t = ''chat''" | "t = ''support''"
    | "t \<in> set [''achievements'', ''matches'', ''highlights'']"
    using assms by (auto simp: build_folder_def fixed_slot_types_def split: if_splits)
  then show ?thesis
  proof cases
    case 1
    with assms(1) show ?thesis
      by (cases "ka_is_org a")
         (auto simp: build_folder_def temp_batch_types_def dest!: user_folder_owner org_folder_owner)
  next
    case 2
    with assms(1) show ?thesis
      by (auto simp: build_folder_def temp_batch_types_def dest!: user_folder_owner org_folder_owner)
  next
    case 3
    with assms(1) show ?thesis
      by (cases "ka_is_org a")
         (auto simp: build_folder_def temp_batch_types_def dest!: user_folder_owner org_folder_owner)
  next
    case 4
    with assms(1) show ?thesis
      by (cases "ka_is_org a")
         (auto simp: build_folder_def temp_batch_types_def dest!: user_folder_owner org_folder_owner)
  next
    case 5
    then have "user_folder a (''/'' @ t) = Some f" using assms(1) by (auto simp: build_folder_def)
    from user_folder_owner [OF this] obtain u where
      u: "owner_reading a ''users'' u" "f = ''users'' @ CHR ''/'' # u @ ''/'' @ t" by blast
    have "t \<noteq> ''chat'' \<and> t \<notin> set temp_batch_types \<and> CHR ''/'' \<notin> set t"
      using 5 by (auto simp: temp_batch_types_def)
    with u show ?thesis by (intro exI [of _ "''users''"] exI [of _ u]) simp
  qed
qed

lemma upload_key_reading:
  assumes ids: "ids_ok a" and key: "is_upload_key_for a t key"
  shows "\<exists>root ident. key_reading key = Some (t, root, ident) \<and> owner_reading a root ident"
proof -
  from key obtain name where n: "name_in_folder a t key = Some name" "CHR ''/'' \<notin> set name"
      "t \<notin> set fixed_slot_types" by (rule upload_key_name)
  have chat: "''chat'' \<notin> set temp_batch_types" by (simp add: temp_batch_types_def)
  from n(1) show ?thesis
  proof (cases rule: name_in_folder_cases)
    case (in_batch parent b)
    from build_folder_shape [OF in_batch(2) n(3)] obtain root ident where
      o': "owner_reading a root ident" "CHR ''/'' \<notin> set t"
      and f: "if t = ''chat'' then parent = ''chat'' @ CHR ''/'' # root @ CHR ''/'' # ident
        else if t \<in> set temp_batch_types then parent = root @ CHR ''/'' # ident @ CHR ''/'' # t @ CHR ''/'' # []
        else parent = root @ CHR ''/'' # ident @ CHR ''/'' # t" by blast
    have "t \<noteq> ''chat''" using in_batch(1) chat by blast
    with f in_batch(1) have parent: "parent = root @ CHR ''/'' # ident @ CHR ''/'' # t @ CHR ''/'' # []" by simp
    have "segments key = [root, ident, t, b, name]"
      using in_batch(3) parent o' owner_reading_slashes [OF ids o'(1)] uuid_no(1) [OF in_batch(4)] n(2)
      by (simp add: segments_split segments_plain)
    with o'(1) show ?thesis by (auto simp: key_reading_def)
  next
    case (flat f)
    from build_folder_shape [OF flat(2) n(3)] obtain root ident where
      o': "owner_reading a root ident" "CHR ''/'' \<notin> set t"
        "if t = ''chat'' then f = ''chat'' @ CHR ''/'' # root @ CHR ''/'' # ident
         else if t \<in> set temp_batch_types then f = root @ CHR ''/'' # ident @ CHR ''/'' # t @ CHR ''/'' # []
         else f = root @ CHR ''/'' # ident @ CHR ''/'' # t" by blast
    note sl = owner_reading_slashes [OF ids o'(1)]
    show ?thesis
    proof (cases "t = ''chat''")
      case True
      have "key = ''chat'' @ CHR ''/'' # root @ CHR ''/'' # ident @ CHR ''/'' # name"
        using flat(3) o'(3) True by simp
      moreover have "CHR ''/'' \<notin> set ''chat''" by simp
      ultimately have "segments key = [''chat'', root, ident, name]"
        using sl n(2) by (simp only: segments_split segments_plain simp_thms)
      with True o'(1) show ?thesis by (auto simp: key_reading_def)
    next
      case False
      then have "segments key = [root, ident, t, name]"
        using flat(1,3) o' sl n(2) by (simp add: segments_split segments_plain)
      moreover have "root \<noteq> ''chat''" using o'(1) by (auto simp: owner_reading_def)
      ultimately show ?thesis using o'(1) by (auto simp: key_reading_def)
    qed
  qed
qed

text \<open>An issued name passes the check on names.\<close>

lemma name_accepted:
  assumes "is_canonical_uuid stem" "ext \<noteq> []" "CHR ''.'' \<notin> set ext" "CHR ''/'' \<notin> set ext"
    and "t \<notin> set fixed_slot_types" "name_in_folder a t key = Some name" "key \<noteq> []"
    and "name = stem @ ''.'' @ ext \<or> t \<in> set source_upload_types \<and> name = stem @ source_infix @ ext"
  shows "is_upload_key_for a t key"
proof -
  have dot: "CHR ''.'' \<notin> set stem" and sl: "CHR ''/'' \<notin> set stem" using uuid_no [OF assms(1)] by auto
  from assms(8) show ?thesis
  proof
    assume name: "name = stem @ ''.'' @ ext"
    have "py_partition ''.'' name = (stem, True, ext)"
      unfolding name using py_partition_char [OF dot, of ext] by simp
    moreover have "\<not> startswith name (stem @ source_infix)"
    proof
      assume "startswith name (stem @ source_infix)"
      from startswithD [OF this] have "''.'' @ ext = source_infix @ drop (length (stem @ source_infix)) name"
        unfolding name by simp
      then have "CHR ''.'' \<in> set ext" by (auto simp: source_infix_def)
      with assms(3) show False by simp
    qed
    ultimately show ?thesis using assms sl by (auto simp: is_upload_key_for_def name)
  next
    assume name: "t \<in> set source_upload_types \<and> name = stem @ source_infix @ ext"
    then have "py_partition ''.'' name = (stem, True, ''src.'' @ ext)"
      using py_partition_char [OF dot, of "''src.'' @ ext"] by (simp add: source_infix_def)
    moreover have "startswith name (stem @ source_infix)" using name by (simp add: startswith_def)
    ultimately show ?thesis using assms sl name
      by (auto simp: is_upload_key_for_def source_infix_def)
  qed
qed

lemma build_folder_batch:
  "t \<in> set temp_batch_types \<Longrightarrow> build_folder a t x = map_option (\<lambda>p. p @ x) (build_folder a t [])"
  by (cases "ka_user a"; cases "ka_org a")
     (auto simp: temp_batch_types_def build_folder_def user_folder_def org_folder_def)

lemma build_folder_flat: "t \<notin> set temp_batch_types \<Longrightarrow> build_folder a t x = build_folder a t y"
  by (simp add: temp_batch_types_def build_folder_def)

lemma name_in_folder_issued:
  assumes "build_folder a t temp = Some f" "t \<notin> set fixed_slot_types"
    and "t \<in> set temp_batch_types \<Longrightarrow> is_canonical_uuid temp"
  shows "name_in_folder a t (f @ CHR ''/'' # name) = Some name"
proof (cases "t \<in> set temp_batch_types")
  case True
  then obtain parent where p: "build_folder a t [] = Some parent" "f = parent @ temp"
    using assms(1) build_folder_batch [OF True, of a temp] by auto
  have "py_partition ''/'' (temp @ CHR ''/'' # name) = (temp, True, name)"
    using py_partition_char uuid_no(1) [OF assms(3) [OF True]] by simp
  with True p assms(3) show ?thesis by (simp add: name_in_folder_def)
next
  case False
  then have "build_folder a t [] = Some f"
    using assms(1) build_folder_flat [OF False, of a "[]" temp] by simp
  moreover have "startswith (f @ CHR ''/'' # name) (f @ ''/'')" by (simp add: startswith_def)
  ultimately show ?thesis using False by (simp add: name_in_folder_def)
qed

end
