(* ===== verification/Storage_Validators.thy ===== *)
theory Storage_Validators
  imports Storage_Paths
begin

text \<open>
  Is this file ours, and whose: \<open>services/storage/validators.py\<close>. The public origin
  (\<open>MEDIA_PUBLIC_BASE_URL\<close>) is an argument. A validator that raises \<open>ValueError\<close> returns its text.

  \<open>urlparse(url).path\<close> is written out from the standard library: leading control characters and blanks and
  embedded tabs and line ends are dropped, then scheme, authority, fragment, query and the parameters of
  the last segment are cut off. A bracketed authority is a \<open>ValueError\<close> when the brackets do not match;
  the check of the address inside matching brackets, and the one of an authority that normalises to a
  delimiter (none below code point 256), are left out.
\<close>

section \<open>Paths of URLs\<close>

definition url_clean :: "string \<Rightarrow> string" where
  "url_clean url =
     filter (\<lambda>c. c \<notin> {CHR 0x09, CHR 0x0A, CHR 0x0D})
       (dropWhile (\<lambda>c. (of_char c :: nat) \<le> 32) url)"

definition scheme_char :: "char \<Rightarrow> bool" where
  "scheme_char c =
     (let n = (of_char c :: nat)
      in (48 \<le> n \<and> n \<le> 57) \<or> (65 \<le> n \<and> n \<le> 90) \<or> (97 \<le> n \<and> n \<le> 122) \<or> c \<in> set ''+-.'')"

definition ascii_letter :: "char \<Rightarrow> bool" where
  "ascii_letter c = (let n = (of_char c :: nat) in (65 \<le> n \<and> n \<le> 90) \<or> (97 \<le> n \<and> n \<le> 122))"

definition split_scheme :: "string \<Rightarrow> string \<times> string" where
  "split_scheme url =
     (let (scheme, colon, rest) = py_partition '':'' url
      in if colon \<and> scheme \<noteq> '''' \<and> ascii_letter (hd scheme) \<and> list_all scheme_char scheme
         then (py_lower scheme, rest) else ('''', url))"

definition uses_params :: "string list" where
  "uses_params = ['''', ''ftp'', ''hdl'', ''prospero'', ''http'', ''imap'', ''https'', ''shttp'', ''rtsp'', ''rtsps'',
     ''rtspu'', ''sip'', ''sips'', ''mms'', ''sftp'', ''tel'']"

text \<open>\<open>_splitparams\<close>: the first semicolon after the last slash.\<close>

definition split_params :: "string \<Rightarrow> string" where
  "split_params path =
     (if CHR ''/'' \<in> set path
      then folder_of path @ ''/'' @ fst (py_partition '';'' (last_segment path))
      else fst (py_partition '';'' path))"

definition url_path :: "string \<Rightarrow> string + string" where
  "url_path url =
     (let (scheme, rest) = split_scheme (url_clean url);
          netloc = (if startswith rest ''//'' then takeWhile (\<lambda>c. c \<notin> set ''/?#'') (drop 2 rest) else '''');
          rest = (if startswith rest ''//'' then dropWhile (\<lambda>c. c \<notin> set ''/?#'') (drop 2 rest) else rest)
      in if (CHR ''['' \<in> set netloc) \<noteq> (CHR '']'' \<in> set netloc) then Inl ''Invalid IPv6 URL''
         else let path = fst (py_partition ''?'' (fst (py_partition ''#'' rest)))
              in Inr (if scheme \<in> set uses_params \<and> CHR '';'' \<in> set path then split_params path else path))"

section \<open>The validators\<close>

definition allowed_image_extensions :: "string list" where
  "allowed_image_extensions = [''jpg'', ''jpeg'', ''png'', ''webp'']"

definition allowed_video_extensions :: "string list" where
  "allowed_video_extensions = [''mp4'', ''webm'']"

definition source_not_processed_message :: string where
  "source_not_processed_message = ''This file hasn'' @ [CHR 0x27] @ ''t finished processing.''"

text \<open>\<open>key.rsplit("/", 1)[0]\<close>: the whole key when it has no slash.\<close>

definition parent_of :: "string \<Rightarrow> string" where
  "parent_of key = (if CHR ''/'' \<in> set key then folder_of key else key)"

definition same_storage_folder :: "string \<Rightarrow> string \<Rightarrow> bool" where
  "same_storage_folder key_a key_b \<longleftrightarrow>
     key_a \<noteq> '''' \<and> key_b \<noteq> '''' \<and> parent_of key_a = parent_of key_b"

definition is_valid_media_url :: "string \<Rightarrow> string \<Rightarrow> bool" where
  "is_valid_media_url base url \<longleftrightarrow> url \<noteq> '''' \<and> startswith url base"

definition extract_key_from_url :: "string \<Rightarrow> string \<Rightarrow> string" where
  "extract_key_from_url base url =
     (if url = '''' then ''''
      else let key = (if startswith url base then drop (length base) url else url)
           in fst (py_partition ''?v='' (dropWhile (\<lambda>c. c = CHR ''/'') key)))"

definition with_cache_buster :: "nat \<Rightarrow> string \<Rightarrow> string" where
  "with_cache_buster unix_ts url =
     (if url = '''' then url else fst (py_partition ''?v='' url) @ ''?v='' @ decimal unix_ts)"

definition get_file_extension :: "string \<Rightarrow> string + string" where
  "get_file_extension url =
     (case url_path url of
        Inl e \<Rightarrow> Inl e
      | Inr path \<Rightarrow> Inr (py_lower (rev (takeWhile (\<lambda>c. c \<noteq> CHR ''.'') (rev path)))))"

definition validate_file_extension :: "string list \<Rightarrow> string \<Rightarrow> string + string" where
  "validate_file_extension allowed url =
     (case get_file_extension url of
        Inl e \<Rightarrow> Inl e
      | Inr ext \<Rightarrow>
          if allowed \<noteq> [] \<and> ext \<notin> set (map py_lower allowed) then Inl (''Invalid file type: .'' @ ext)
          else Inr ext)"

text \<open>\<open>owner\<close>: the id text of the organization when one is passed (\<open>True\<close>), else of the user.\<close>

definition owner_prefix :: "bool \<times> string \<Rightarrow> string" where
  "owner_prefix owner = (if fst owner then ''organizations/'' else ''users/'') @ snd owner @ ''/''"

definition validate_public_id :: "bool \<times> string \<Rightarrow> string \<Rightarrow> string + unit" where
  "validate_public_id owner public_id =
     (if \<not> startswith public_id (owner_prefix owner) then Inl ''Invalid public_id path''
      else if is_source_key public_id then Inl source_not_processed_message
      else Inr ())"

text \<open>\<open>public_url_for\<close> of \<open>services/storage/r2.py\<close>; \<open>base\<close> is \<open>settings.MEDIA_PUBLIC_BASE_URL\<close>.\<close>

definition public_url_for :: "string \<Rightarrow> string \<Rightarrow> string" where
  "public_url_for base key = base @ ''/'' @ key"

definition validate_media ::
  "string \<Rightarrow> bool \<times> string \<Rightarrow> string list \<Rightarrow> string \<Rightarrow> string \<Rightarrow> string + unit" where
  "validate_media base owner allowed url public_id =
     (if \<not> is_valid_media_url base url then Inl ''Invalid media source''
      else case validate_file_extension allowed url of
        Inl e \<Rightarrow> Inl e
      | Inr _ \<Rightarrow>
          (case validate_public_id owner public_id of
             Inl e \<Rightarrow> Inl e
           | Inr _ \<Rightarrow>
               if extract_key_from_url base url \<noteq> public_id then Inl ''Public ID mismatch'' else Inr ()))"

definition validate_thumbnail ::
  "string \<Rightarrow> bool \<times> string \<Rightarrow> string \<Rightarrow> string \<Rightarrow> string + string" where
  "validate_thumbnail base owner parent_key url =
     (if url = '''' then Inl ''Thumbnail is required for video''
      else let key = extract_key_from_url base url
           in case validate_media base owner allowed_image_extensions url key of
                Inl e \<Rightarrow> Inl e
              | Inr _ \<Rightarrow>
                  if \<not> same_storage_folder key parent_key
                  then Inl ''Thumbnail must belong to the same upload'' else Inr key)"

section \<open>Laws\<close>

lemma py_partition_split:
  obtains rest where "s = fst (py_partition sep s) @ rest" "rest = '''' \<or> startswith rest sep"
proof (cases "py_partition sep s")
  case (fields a found b)
  then show ?thesis
  proof (cases found)
    case True
    with fields have "s = a @ sep @ b" by (auto dest: py_partition_found)
    with fields show ?thesis by (intro that [of "sep @ b"]) simp_all
  next
    case False
    with fields have "s = a"
      by (induction sep s arbitrary: a b rule: py_partition.induct) (auto split: if_splits prod.splits)
    with fields show ?thesis by (intro that [of "''''"]) simp_all
  qed
qed

lemma dropWhile_slashes:
  obtains n where "s = replicate n CHR ''/'' @ dropWhile (\<lambda>c. c = CHR ''/'') s"
proof
  have "takeWhile (\<lambda>c. c = CHR ''/'') s = replicate (length (takeWhile (\<lambda>c. c = CHR ''/'') s)) CHR ''/''"
    by (induction s) auto
  then show "s = replicate (length (takeWhile (\<lambda>c. c = CHR ''/'') s)) CHR ''/'' @ dropWhile (\<lambda>c. c = CHR ''/'') s"
    by (metis takeWhile_dropWhile_id)
qed

lemma extract_key_reading:
  assumes "is_valid_media_url base url"
  obtains n rest where "url = base @ replicate n CHR ''/'' @ extract_key_from_url base url @ rest"
    "rest = '''' \<or> startswith rest ''?v=''"
proof -
  define key where "key = drop (length base) url"
  have url: "url = base @ key" "url \<noteq> ''''"
    using assms startswithD by (auto simp: is_valid_media_url_def key_def)
  obtain n where n: "key = replicate n CHR ''/'' @ dropWhile (\<lambda>c. c = CHR ''/'') key"
    by (rule dropWhile_slashes)
  obtain rest where r: "dropWhile (\<lambda>c. c = CHR ''/'') key
      = fst (py_partition ''?v='' (dropWhile (\<lambda>c. c = CHR ''/'') key)) @ rest"
      "rest = '''' \<or> startswith rest ''?v=''"
    by (rule py_partition_split)
  have "extract_key_from_url base url = fst (py_partition ''?v='' (dropWhile (\<lambda>c. c = CHR ''/'') key))"
    using url by (simp add: extract_key_from_url_def)
  with n r url(1) show ?thesis by (intro that [of n rest]) (metis append_assoc)+
qed

lemma validate_public_id_ok:
  "validate_public_id owner pid = Inr u \<longleftrightarrow> startswith pid (owner_prefix owner) \<and> \<not> is_source_key pid"
  by (simp add: validate_public_id_def)

lemma validate_media_ok:
  "validate_media base owner allowed url pid = Inr u \<longleftrightarrow>
     is_valid_media_url base url \<and> (\<exists>ext. validate_file_extension allowed url = Inr ext) \<and>
     startswith pid (owner_prefix owner) \<and> \<not> is_source_key pid \<and> extract_key_from_url base url = pid"
proof (cases "validate_file_extension allowed url")
  case (Inr ext)
  show ?thesis
    by (cases "validate_public_id owner pid")
      (use Inr validate_public_id_ok [of owner pid u] in \<open>simp_all add: validate_media_def\<close>)
qed (simp add: validate_media_def)

lemma validate_thumbnail_ok:
  assumes "validate_thumbnail base owner parent url = Inr key"
  shows "key = extract_key_from_url base url" "same_storage_folder key parent"
    "validate_media base owner allowed_image_extensions url key = Inr ()"
proof -
  define k where "k = extract_key_from_url base url"
  show "key = extract_key_from_url base url" "same_storage_folder key parent"
    "validate_media base owner allowed_image_extensions url key = Inr ()"
    by (cases "validate_media base owner allowed_image_extensions url k";
        use assms in \<open>simp add: validate_thumbnail_def k_def [symmetric] split: if_splits\<close>)+
qed

lemma owner_prefix_inj:
  assumes "startswith pid (owner_prefix a)" "startswith pid (owner_prefix b)"
    and "CHR ''/'' \<notin> set (snd a)" "CHR ''/'' \<notin> set (snd b)"
  shows "a = b"
proof -
  obtain x y where "pid = owner_prefix a @ x" "pid = owner_prefix b @ y"
    using assms(1,2) startswithD by metis
  then have eq: "segments (owner_prefix a @ x) = segments (owner_prefix b @ y)" by simp
  have seg: "segments (owner_prefix o' @ z) = (if fst o' then ''organizations'' else ''users'') # snd o' # segments z"
    if o': "CHR ''/'' \<notin> set (snd o')" for o' z
  proof -
    have "owner_prefix o' @ z = (if fst o' then ''organizations'' else ''users'') @ CHR ''/'' # snd o' @ CHR ''/'' # z"
      by (simp add: owner_prefix_def)
    moreover have "CHR ''/'' \<notin> set (if fst o' then ''organizations'' else ''users'')" by simp
    ultimately show ?thesis using segments_split o' by metis
  qed
  from eq assms(3,4) show ?thesis by (cases a; cases b) (auto simp: seg split: if_splits)
qed

text \<open>The stamp.\<close>

lemma startswith_Cons [simp]: "startswith (c # s) (d # p) \<longleftrightarrow> c = d \<and> startswith s p"
  by (auto simp: startswith_def)

lemma startswith_Nil [simp]: "startswith s ''''" "startswith '''' (d # p) = False"
  by (simp_all add: startswith_def)

lemma stamp_partition: "fst (py_partition ''?v='' (fst (py_partition ''?v='' s) @ ''?v='' @ t)) = fst (py_partition ''?v='' s)"
proof (induction s)
  case Nil
  then show ?case by simp
next
  case (Cons c s)
  show ?case
  proof (cases "startswith (c # s) ''?v=''")
    case True
    then show ?thesis by simp
  next
    case False
    then have "\<not> startswith (c # fst (py_partition ''?v='' s) @ ''?v='' @ t) ''?v=''"
      by (cases s rule: list.exhaust; cases "tl s") (auto split: prod.splits if_splits)
    with False Cons show ?thesis by (auto split: prod.splits)
  qed
qed

lemma partition_dropWhile:
  "fst (py_partition ''?v='' (dropWhile (\<lambda>c. c = CHR ''/'') s))
     = dropWhile (\<lambda>c. c = CHR ''/'') (fst (py_partition ''?v='' s))"
  by (induction s) (auto split: prod.splits)

lemma partition_base:
  "CHR ''?'' \<notin> set base \<Longrightarrow> fst (py_partition ''?v='' (base @ s)) = base @ fst (py_partition ''?v='' s)"
  by (induction base) (auto split: prod.splits)

end
