(* ===== verification/Media_Model.thy ===== *)
theory Media_Model
  imports Social_Graph Storage_Validators
begin

text \<open>
  Server-side media processing, the rows and the rules that read them: \<open>apps/media/models.py\<close>,
  \<open>apps/media/constants.py\<close>, the selectors, and the part of the post create path a held post runs
  (\<open>PostService.validate_create_payload\<close>, \<open>create_post\<close>).

  The owner of a job is an \<open>identity\<close>: exactly one of a user and an organization, which the check
  constraint of the table demands. JSON bodies are records of the fields the code reads. The location
  service, the sport table and the roles of accounts are arguments; hashtags and mentions derived from the
  body are not part of this state. A \<open>PostMedia\<close> row is its id and its fields.
\<close>

section \<open>Constants\<close>

definition second_us :: int where "second_us = 1000000"

definition purposes :: "string list" where
  "purposes = [''posts'', ''highlights'', ''chat'', ''recruitments'']"

definition video_only_purposes :: "string list" where
  "video_only_purposes = [''highlights'']"

fun purpose_upload_types :: "string \<Rightarrow> string list" where
  "purpose_upload_types p =
     (if p = ''posts'' then [''posts'']
      else if p = ''highlights'' then [''posts'', ''highlights'']
      else if p = ''chat'' then [''chat'']
      else if p = ''recruitments'' then [''recruitments'']
      else [])"

datatype media_kind = ImageKind | VideoKind

definition source_video_content_types :: "string list" where
  "source_video_content_types =
     [''video/mp4'', ''video/quicktime'', ''video/webm'', ''video/x-m4v'', ''video/3gpp'', ''video/3gpp2'',
      ''video/x-matroska'', ''video/x-msvideo'', ''video/avi'']"

definition source_image_content_types :: "string list" where
  "source_image_content_types =
     [''image/jpeg'', ''image/png'', ''image/webp'', ''image/gif'', ''image/heic'', ''image/heif'',
      ''image/avif'', ''image/tiff'', ''image/bmp'']"

definition source_extensions :: "(string \<times> string) list" where
  "source_extensions =
     [(''video/quicktime'', ''mov''), (''video/x-m4v'', ''m4v''), (''video/3gpp'', ''3gp''),
      (''video/3gpp2'', ''3g2''), (''video/x-matroska'', ''mkv''), (''video/x-msvideo'', ''avi''),
      (''video/avi'', ''avi''), (''video/mp4'', ''mp4''), (''video/webm'', ''webm''),
      (''image/jpeg'', ''jpg''), (''image/png'', ''png''), (''image/webp'', ''webp''),
      (''image/gif'', ''gif''), (''image/heic'', ''heic''), (''image/heif'', ''heif''),
      (''image/avif'', ''avif''), (''image/tiff'', ''tif''), (''image/bmp'', ''bmp'')]"

definition source_kind :: "string \<Rightarrow> media_kind option" where
  "source_kind content_type =
     (if content_type \<in> set source_video_content_types then Some VideoKind
      else if content_type \<in> set source_image_content_types then Some ImageKind
      else None)"

definition source_kind_for_extension :: "string \<Rightarrow> media_kind option" where
  "source_kind_for_extension extension =
     (case find (\<lambda>(_, ext). ext = extension) source_extensions of
        None \<Rightarrow> None | Some (content_type, _) \<Rightarrow> source_kind content_type)"

datatype error_code =
    VideoTooLong | VideoNoVideoTrack | SourceUnreadable | SourceMissing | SourceTooLarge
  | OutputTooLarge | ProcessorUnavailable | ProcessingTimeout | Internal
  | ActorNoLongerValid | PublishRejected

definition operational_error_codes :: "error_code list" where
  "operational_error_codes = [ProcessorUnavailable, ProcessingTimeout, Internal]"

fun max_duration_seconds :: "string \<Rightarrow> nat" where
  "max_duration_seconds p = (if p = ''highlights'' \<or> p = ''chat'' then 90 else 300)"

text \<open>The user-facing sentence of a code; the two codes of publications have none in this table.\<close>

datatype sentence =
    CodeSentence error_code
  | TooLongSentence nat
  | TextSentence string
  | AtIndex string nat

definition error_message :: "error_code \<Rightarrow> string \<Rightarrow> sentence option" where
  "error_message code purpose =
     (if code \<in> set [ActorNoLongerValid, PublishRejected] then None
      else if code = VideoTooLong then Some (TooLongSentence (max_duration_seconds purpose))
      else Some (CodeSentence code))"

definition mb :: int where "mb = 1024 * 1024"
definition media_source_max_video_bytes :: int where "media_source_max_video_bytes = 300 * mb"
definition media_source_max_image_bytes :: int where "media_source_max_image_bytes = 25 * mb"
definition media_job_time_limit :: int where "media_job_time_limit = 1620 * second_us"

definition max_job_attempts :: nat where "max_job_attempts = 3"
definition source_fetch_max_retries :: nat where "source_fetch_max_retries = 2"
definition queued_redispatch_after :: int where "queued_redispatch_after = 120 * second_us"
definition stuck_grace :: int where "stuck_grace = 300 * second_us"
definition processor_unavailable_give_up :: int where "processor_unavailable_give_up = 60 * 60 * second_us"
definition failed_source_ttl :: int where "failed_source_ttl = 24 * 60 * 60 * second_us"
definition sweep_batch_size :: nat where "sweep_batch_size = 100"
definition publication_timeout :: int where "publication_timeout = 2 * 60 * 60 * second_us"

definition source_cap :: "media_kind \<Rightarrow> int" where
  "source_cap kind =
     (if kind = ImageKind then media_source_max_image_bytes else media_source_max_video_bytes)"

section \<open>Rows\<close>

datatype job_status = Queued | Processing | Ready | Failed

record media_job =
  mj_id :: nat
  mj_owner :: identity
  mj_created_by :: "uid option"
  mj_purpose :: string
  mj_upload_type :: string
  mj_kind :: media_kind
  mj_status :: job_status
  mj_source_key :: string
  mj_source_content_type :: string
  mj_source_size :: int
  mj_output_key :: string
  mj_output_url :: string
  mj_thumbnail_key :: string
  mj_thumbnail_url :: string
  mj_width :: "int option"
  mj_height :: "int option"
  mj_duration :: "int option"
  mj_size :: "int option"
  mj_error :: "error_code option"
  mj_error_detail :: string
  mj_attempts :: nat
  mj_source_deleted_at :: "instant option"
  mj_created_at :: instant
  mj_started_at :: "instant option"
  mj_finished_at :: "instant option"
  mj_updated_at :: instant

datatype publication_status = PubProcessing | Published | PubFailed | PubCancelled

text \<open>
  A media item of a create body: a job, by the id on the wire (\<open>None\<close> when it is no UUID), or a ready
  upload with its fields; \<open>None\<close> as an order is the item's index.
\<close>

record ready_media =
  rm_file_url :: string
  rm_public_id :: string
  rm_media_type :: string
  rm_thumbnail_url :: string
  rm_width :: "int option"
  rm_height :: "int option"
  rm_duration :: "int option"
  rm_size :: "int option"

datatype media_item = JobItem "nat option" "int option" | ReadyItem ready_media "int option"

record 'loc post_payload =
  pp_content :: string
  pp_post_type :: string
  pp_visibility :: string
  pp_sport :: "nat option"
  pp_location :: "'loc option"
  pp_media :: "media_item list"

text \<open>A create body of a highlight, past its serializer; what a held one stores is such a body too.\<close>

record highlight_body =
  hb_source_media :: "nat option"
  hb_job :: "nat option"
  hb_file_url :: string
  hb_public_id :: string
  hb_thumbnail_url :: string
  hb_duration :: "int option"
  hb_width :: "int option"
  hb_height :: "int option"
  hb_title :: string
  hb_visibility :: "string option"

datatype 'loc held_payload = HeldPost "'loc post_payload" | HeldHighlight highlight_body

record 'loc publication =
  pub_id :: nat
  pub_owner :: identity
  pub_created_by :: "uid option"
  pub_payload :: "'loc held_payload"
  pub_jobs :: "nat list"
  pub_status :: publication_status
  pub_result :: "nat option"
  pub_error :: "error_code option"
  pub_error_message :: "sentence option"
  pub_dismissed_at :: "instant option"
  pub_created_at :: instant
  pub_published_at :: "instant option"

record post_media =
  pm_media :: ready_media
  pm_order :: int

record post_row =
  po_id :: nat
  po_author :: identity
  po_content :: string
  po_visibility :: string
  po_media :: "(nat \<times> post_media) list"
  po_is_deleted :: bool

record highlight_row =
  hl_id :: nat
  hl_user :: uid
  hl_title :: string
  hl_file_url :: string
  hl_public_id :: string
  hl_thumbnail_url :: string
  hl_duration :: "int option"
  hl_width :: "int option"
  hl_height :: "int option"
  hl_visibility :: string
  hl_order :: int
  hl_source_post :: "nat option"
  hl_views_count :: nat
  hl_is_deleted :: bool
  hl_created_at :: instant
  hl_updated_at :: instant

record highlight_view =
  hv_highlight :: nat
  hv_viewer :: identity
  hv_is_recruiter :: bool
  hv_viewed_on :: day

datatype media_effect =
    JobUpdated identity nat job_status
  | PublicationUpdated identity nat publication_status
  | PublicationFailedNote identity nat
  | DeleteKeys "string list"
  | DeleteFolder string

record 'loc media_state =
  jobs :: "media_job list"
  publications :: "'loc publication list"
  posts :: "post_row list"
  highlights :: "highlight_row list"
  highlight_views :: "highlight_view list"
  job_queue :: "(nat \<times> nat) list"
  runs :: "(media_job \<times> nat) list"
  effects :: "media_effect list"

definition media_emit :: "media_effect \<Rightarrow> 'loc media_state \<Rightarrow> 'loc media_state" where
  "media_emit e s = s\<lparr>effects := effects s @ [e]\<rparr>"

text \<open>Ids of created rows are fresh numbers.\<close>

definition next_id :: "('r \<Rightarrow> nat) \<Rightarrow> 'r list \<Rightarrow> nat" where
  "next_id key rows = Suc (foldr max (map key rows) 0)"

definition job_of :: "'loc media_state \<Rightarrow> nat \<Rightarrow> media_job option" where
  "job_of s j = tbl_get mj_id (jobs s) j"

definition save_job :: "media_job \<Rightarrow> 'loc media_state \<Rightarrow> 'loc media_state" where
  "save_job j s = s\<lparr>jobs := tbl_save mj_id j (jobs s)\<rparr>"

definition save_publication :: "'loc publication \<Rightarrow> 'loc media_state \<Rightarrow> 'loc media_state" where
  "save_publication p s = s\<lparr>publications := tbl_save pub_id p (publications s)\<rparr>"

section \<open>Selectors\<close>

definition job_for_owner :: "'loc media_state \<Rightarrow> actor \<Rightarrow> nat \<Rightarrow> media_job option" where
  "job_for_owner s a j =
     find (\<lambda>r. mj_id r = j \<and> mj_owner r = identity_of a) (jobs s)"

definition job_for_source_key :: "'loc media_state \<Rightarrow> actor \<Rightarrow> string \<Rightarrow> media_job option" where
  "job_for_source_key s a key =
     find (\<lambda>r. mj_source_key r = key \<and> mj_owner r = identity_of a) (jobs s)"

definition resolve_for_attach :: "'loc media_state \<Rightarrow> actor \<Rightarrow> nat option \<Rightarrow> string \<Rightarrow> media_job option" where
  "resolve_for_attach s a job_id purpose =
     (case job_id of
        None \<Rightarrow> None
      | Some j \<Rightarrow>
          (case job_for_owner s a j of
             None \<Rightarrow> None
           | Some job \<Rightarrow> if mj_purpose job \<noteq> purpose then None else Some job))"

definition in_use :: "'loc media_state \<Rightarrow> media_job \<Rightarrow> nat option \<Rightarrow> bool" where
  "in_use s job publication_id =
     (if list_ex (\<lambda>p. mj_id job \<in> set (pub_jobs p)
            \<and> pub_status p \<in> set [PubProcessing, Published]
            \<and> Some (pub_id p) \<noteq> publication_id) (publications s)
      then True
      else if mj_output_key job = '''' then False
      else list_ex (\<lambda>po. list_ex (\<lambda>(_, m). rm_public_id (pm_media m) = mj_output_key job) (po_media po)) (posts s)
         \<or> list_ex (\<lambda>h. hl_public_id h = mj_output_key job) (highlights s))"

definition job_error_message :: "media_job \<Rightarrow> sentence" where
  "job_error_message job =
     (case Option.bind (mj_error job) (\<lambda>c. error_message c (mj_purpose job)) of
        None \<Rightarrow> CodeSentence Internal | Some m \<Rightarrow> m)"

fun kind_text :: "media_kind \<Rightarrow> string" where
  "kind_text ImageKind = ''image''"
| "kind_text VideoKind = ''video''"

definition kind_of_text :: "string \<Rightarrow> media_kind option" where
  "kind_of_text t = (if t = ''image'' then Some ImageKind else if t = ''video'' then Some VideoKind else None)"

definition attach_fields :: "media_job \<Rightarrow> ready_media" where
  "attach_fields job =
     \<lparr>rm_file_url = mj_output_url job, rm_public_id = mj_output_key job, rm_media_type = kind_text (mj_kind job),
      rm_thumbnail_url = mj_thumbnail_url job, rm_width = mj_width job,
      rm_height = mj_height job, rm_duration = mj_duration job,
      rm_size = mj_size job\<rparr>"

section \<open>The create path of a post\<close>

definition clamp_int :: "int option \<Rightarrow> int \<Rightarrow> int option" where
  "clamp_int v maximum =
     (case v of None \<Rightarrow> None | Some n \<Rightarrow> if n < 1 then None else if n > maximum then None else Some n)"

definition max_dimension :: int where "max_dimension = 8192"
definition max_post_video_duration :: int where "max_post_video_duration = 300"
definition max_video_bytes :: int where "max_video_bytes = 80 * mb"
definition max_image_bytes :: int where "max_image_bytes = 5 * mb"
definition max_post_media :: nat where "max_post_media = 10"

datatype account_role = PlayerRole | CoachRole | ScoutRole | OrgUserRole

record 'loc create_env =
  ce_base :: string
  ce_uuid_text :: "nat \<Rightarrow> string"
  ce_role :: "uid \<Rightarrow> account_role"
  ce_sport_exists :: "nat \<Rightarrow> bool"
  ce_location_formed :: "'loc \<Rightarrow> bool"
  ce_location_checked :: "'loc \<Rightarrow> string + unit"
  ce_location_created :: "'loc \<Rightarrow> string + unit"
  ce_now :: instant

definition job_already_used_message :: string where
  "job_already_used_message = ''This upload is already used.''"

text \<open>Whose prefix an attached file must lie under.\<close>

definition owner_of_actor :: "(nat \<Rightarrow> string) \<Rightarrow> actor \<Rightarrow> bool \<times> string" where
  "owner_of_actor text a = (case a of UserActor u \<Rightarrow> (False, text u) | OrgActor oi _ \<Rightarrow> (True, text oi))"

definition media_checks ::
  "'loc create_env \<Rightarrow> actor \<Rightarrow> nat \<Rightarrow> media_kind \<Rightarrow> string \<Rightarrow> string \<Rightarrow> string \<Rightarrow> sentence + unit" where
  "media_checks env a idx k url pid thumb =
     (let owner = owner_of_actor (ce_uuid_text env) a;
          allowed = (case k of ImageKind \<Rightarrow> allowed_image_extensions | VideoKind \<Rightarrow> allowed_video_extensions)
      in case validate_media (ce_base env) owner allowed url pid of
           Inl e \<Rightarrow> Inl (TextSentence e)
         | Inr _ \<Rightarrow>
             (if k = VideoKind \<and> thumb = '''' then Inl (AtIndex ''thumbnail_url required'' idx)
              else if thumb = '''' then Inr ()
              else case validate_thumbnail (ce_base env) owner pid thumb of
                     Inl e \<Rightarrow> Inl (TextSentence e) | Inr _ \<Rightarrow> Inr ()))"

text \<open>
  One item of the loop, in the order of its checks: the cleaned item, or the job that is still
  converting, beside the job it references. The count rules see the kind either way.
\<close>

datatype checked_item =
    CheckedMedia post_media media_kind "media_job option"
  | PendingJob media_job media_kind

definition checked_ready ::
  "'loc create_env \<Rightarrow> actor \<Rightarrow> nat \<Rightarrow> ready_media \<Rightarrow> int \<Rightarrow> media_job option \<Rightarrow> sentence + checked_item" where
  "checked_ready env a idx m order job =
     (if rm_file_url m = '''' \<or> rm_media_type m = '''' \<or> rm_public_id m = ''''
      then Inl (AtIndex ''Missing fields'' idx)
      else case kind_of_text (rm_media_type m) of
        None \<Rightarrow> Inl (AtIndex ''Invalid media_type'' idx)
      | Some k \<Rightarrow>
          (let thumb = py_strip (rm_thumbnail_url m)
           in case media_checks env a idx k (rm_file_url m) (rm_public_id m) thumb of
                Inl e \<Rightarrow> Inl e
              | Inr _ \<Rightarrow>
                  (if order < 0 then Inl (TextSentence ''Invalid media order'')
                   else Inr (CheckedMedia
                     \<lparr>pm_media = m\<lparr>rm_thumbnail_url := thumb,
                        rm_width := clamp_int (rm_width m) max_dimension,
                        rm_height := clamp_int (rm_height m) max_dimension,
                        rm_duration := (if k = VideoKind then clamp_int (rm_duration m) max_post_video_duration
                                        else None),
                        rm_size := clamp_int (rm_size m)
                          (if k = VideoKind then max_video_bytes else max_image_bytes)\<rparr>,
                      pm_order = order\<rparr> k job))))"

definition check_item ::
  "'loc create_env \<Rightarrow> 'loc media_state \<Rightarrow> actor \<Rightarrow> nat option \<Rightarrow> nat \<Rightarrow> media_item \<Rightarrow> sentence + checked_item"
where
  "check_item env s a publication_id idx item =
     (case item of
        ReadyItem m order \<Rightarrow>
          checked_ready env a idx m (case order of None \<Rightarrow> int idx | Some n \<Rightarrow> n) None
      | JobItem jid order \<Rightarrow>
          (let order = (case order of None \<Rightarrow> int idx | Some n \<Rightarrow> n)
           in case resolve_for_attach s a jid ''posts'' of
                None \<Rightarrow> Inl (AtIndex ''Invalid media'' idx)
              | Some job \<Rightarrow>
                  (if mj_status job = Failed then Inl (job_error_message job)
                   else if in_use s job publication_id then Inl (TextSentence job_already_used_message)
                   else if mj_status job \<noteq> Ready
                   then (if order < 0 then Inl (TextSentence ''Invalid media order'')
                         else Inr (PendingJob job (mj_kind job)))
                   else checked_ready env a idx (attach_fields job) order (Some job))))"

fun check_items ::
  "'loc create_env \<Rightarrow> 'loc media_state \<Rightarrow> actor \<Rightarrow> nat option \<Rightarrow> nat \<Rightarrow> media_item list \<Rightarrow>
     sentence + checked_item list" where
  "check_items env s a p idx [] = Inr []"
| "check_items env s a p idx (x # xs) =
     (case check_item env s a p idx x of
        Inl e \<Rightarrow> Inl e
      | Inr c \<Rightarrow>
          (case check_items env s a p (Suc idx) xs of Inl e \<Rightarrow> Inl e | Inr cs \<Rightarrow> Inr (c # cs)))"

fun item_kind :: "checked_item \<Rightarrow> media_kind" where
  "item_kind (CheckedMedia m k j) = k"
| "item_kind (PendingJob j k) = k"

fun item_job :: "checked_item \<Rightarrow> media_job option" where
  "item_job (CheckedMedia m k j) = j"
| "item_job (PendingJob j k) = Some j"

fun item_media :: "checked_item \<Rightarrow> post_media option" where
  "item_media (CheckedMedia m k j) = Some m"
| "item_media (PendingJob j k) = None"

definition is_pending_item :: "checked_item \<Rightarrow> bool" where
  "is_pending_item c = (item_media c = None)"

record 'loc cleaned_post =
  cl_payload :: "'loc post_payload"
  cl_media :: "post_media list"
  cl_jobs :: "nat list"
  cl_pending :: "nat list"

definition validate_create_payload ::
  "'loc create_env \<Rightarrow> 'loc media_state \<Rightarrow> actor \<Rightarrow> 'loc post_payload \<Rightarrow> nat option \<Rightarrow>
     sentence + 'loc cleaned_post" where
  "validate_create_payload env s a data publication_id =
     (let content = py_strip (pp_content data)
      in if content = '''' \<and> pp_media data = [] then Inl (TextSentence ''Post cannot be empty'')
         else if pp_post_type data \<noteq> ''normal'' then Inl (TextSentence ''Invalid post_type'')
         else if pp_visibility data \<notin> set [''public'', ''followers'']
         then Inl (TextSentence ''Invalid visibility'')
         else if (case pp_location data of None \<Rightarrow> False | Some l \<Rightarrow> \<not> ce_location_formed env l)
         then Inl (TextSentence ''Location must include latitude and longitude'')
         else if (case pp_sport data of None \<Rightarrow> False | Some sp \<Rightarrow> \<not> ce_sport_exists env sp)
         then Inl (TextSentence ''Invalid sport_id'')
         else if length (pp_media data) > max_post_media
         then Inl (TextSentence ''Maximum 10 media allowed'')
         else case check_items env s a publication_id 0 (pp_media data) of
           Inl e \<Rightarrow> Inl e
         | Inr items \<Rightarrow>
             (let images = length (filter (\<lambda>c. item_kind c = ImageKind) items);
                  videos = length (filter (\<lambda>c. item_kind c = VideoKind) items)
              in if images > 10 then Inl (TextSentence ''Max 10 images allowed'')
                 else if videos > 1 then Inl (TextSentence ''Only one video allowed'')
                 else if videos \<ge> 1 \<and> images \<ge> 1 then Inl (TextSentence ''Cannot mix images and video'')
                 else case (if list_ex is_pending_item items then Option.bind (pp_location data)
                             (\<lambda>l. case ce_location_checked env l of Inl e \<Rightarrow> Some e | Inr _ \<Rightarrow> None)
                            else None) of
                   Some e \<Rightarrow> Inl (TextSentence e)
                 | None \<Rightarrow> Inr \<lparr>cl_payload = data\<lparr>pp_content := content\<rparr>,
                           cl_media = List.map_filter item_media items,
                           cl_jobs = map mj_id (List.map_filter item_job items),
                           cl_pending = map mj_id (List.map_filter item_job (filter is_pending_item items))\<rparr>))"

text \<open>The post and its media rows; \<open>bulk_create\<close> numbers the media.\<close>

definition next_media_id :: "'loc media_state \<Rightarrow> nat" where
  "next_media_id s = next_id id (concat (map (\<lambda>po. map fst (po_media po)) (posts s)))"

definition create_post ::
  "'loc create_env \<Rightarrow> actor \<Rightarrow> 'loc cleaned_post \<Rightarrow> 'loc media_state \<Rightarrow>
     sentence + nat \<times> 'loc media_state" where
  "create_post env a cleaned s =
     (case Option.bind (pp_location (cl_payload cleaned))
         (\<lambda>l. case ce_location_created env l of Inl e \<Rightarrow> Some e | Inr _ \<Rightarrow> None) of
        Some e \<Rightarrow> Inl (TextSentence e)
      | None \<Rightarrow>
          (let new_id = next_id po_id (posts s)
           in Inr (new_id, s\<lparr>posts := tbl_insert
             \<lparr>po_id = new_id, po_author = identity_of a, po_content = pp_content (cl_payload cleaned),
              po_visibility = pp_visibility (cl_payload cleaned),
              po_media = enumerate (next_media_id s) (cl_media cleaned), po_is_deleted = False\<rparr>
             (posts s)\<rparr>)))"


section \<open>Deleting a post\<close>

text \<open>
  The owner's path removes the row and sweeps the folder of the first media, in the order of
  \<open>PostMedia.Meta\<close>; a highlight promoted from the post loses its \<open>source_post\<close> (\<open>SET_NULL\<close>).
  The moderator's path hides the row and leaves the files.
\<close>

definition delete_post :: "nat \<Rightarrow> actor \<Rightarrow> 'loc media_state \<Rightarrow> bool \<times> 'loc media_state" where
  "delete_post pid a s =
     (case find (\<lambda>po. po_id po = pid \<and> po_author po = identity_of a) (posts s) of
        None \<Rightarrow> (False, s)
      | Some po \<Rightarrow>
          (let s = (case sort_key (\<lambda>(_, m). pm_order m) (po_media po) of
                      [] \<Rightarrow> s
                    | (_, m) # _ \<Rightarrow>
                        if rm_public_id (pm_media m) = '''' then s
                        else media_emit (DeleteFolder (folder_of (rm_public_id (pm_media m)))) s)
           in (True, s\<lparr>posts := filter (\<lambda>x. po_id x \<noteq> pid) (posts s),
                       highlights := map (\<lambda>h. if hl_source_post h = Some pid
                                              then h\<lparr>hl_source_post := None\<rparr> else h) (highlights s)\<rparr>)))"

definition moderator_delete_post :: "nat \<Rightarrow> 'loc media_state \<Rightarrow> bool \<times> 'loc media_state" where
  "moderator_delete_post pid s =
     (case find (\<lambda>po. po_id po = pid) (posts s) of
        None \<Rightarrow> (False, s)
      | Some po \<Rightarrow>
          if po_is_deleted po then (False, s)
          else (True, s\<lparr>posts := map (\<lambda>x. if po_id x = pid then x\<lparr>po_is_deleted := True\<rparr> else x) (posts s)\<rparr>))"


end
