(* ===== verification/Highlights.thy ===== *)
theory Highlights
  imports Media_Model
begin

text \<open>
  Player highlights: \<open>highlight_services.py\<close> and \<open>highlight_selectors.py\<close>. A rail is one player's live
  clips; the create path takes a clip from a direct upload, from a video post, or from a media job.

  The exceptions are a datatype of their own, because an answer may carry a job's sentence. The actor is
  always signed in here: \<open>require_player\<close> on \<open>None\<close> is not a call the views make past authentication.
\<close>

datatype highlight_error = Forbidden string | NotFound string | Invalid sentence

definition max_highlights :: nat where "max_highlights = 10"
definition max_highlight_seconds :: int where "max_highlight_seconds = 90"
definition max_highlight_duration :: int where "max_highlight_duration = 90"
definition title_max_length :: nat where "title_max_length = 80"
definition public_id_max_length :: nat where "public_id_max_length = 255"

definition visibility_values :: "string list" where
  "visibility_values = [''everyone'', ''followers_and_recruiters'', ''recruiters_only'']"

text \<open>A fallible step; \<open>bind\<close> for this error type.\<close>

definition h_bind :: "highlight_error + 'a \<Rightarrow> ('a \<Rightarrow> highlight_error + 'b) \<Rightarrow> highlight_error + 'b" where
  "h_bind m f = (case m of Inl e \<Rightarrow> Inl e | Inr x \<Rightarrow> f x)"

lemma h_bind_simps [simp]: "h_bind (Inl e) f = Inl e" "h_bind (Inr x) f = f x"
  by (simp_all add: h_bind_def)

lemma h_bind_Inr: "h_bind m f = Inr y \<longleftrightarrow> (\<exists>x. m = Inr x \<and> f x = Inr y)"
  by (cases m) auto

section \<open>Guards and fields\<close>

definition require_player :: "'loc create_env \<Rightarrow> actor \<Rightarrow> highlight_error + uid" where
  "require_player env a =
     (case a of
        OrgActor _ _ \<Rightarrow> Inl (Forbidden ''Organizations do not have highlights.'')
      | UserActor u \<Rightarrow>
          if ce_role env u \<noteq> PlayerRole then Inl (Forbidden ''Only players can manage highlights.'') else Inr u)"

definition live_rail :: "'loc media_state \<Rightarrow> uid \<Rightarrow> highlight_row list" where
  "live_rail s u = filter (\<lambda>h. hl_user h = u \<and> \<not> hl_is_deleted h) (highlights s)"

definition get_owned_highlight ::
  "'loc media_state \<Rightarrow> uid \<Rightarrow> nat option \<Rightarrow> highlight_error + highlight_row" where
  "get_owned_highlight s u hid =
     (case hid of
        None \<Rightarrow> Inl (Invalid (TextSentence ''not a valid highlight id''))
      | Some i \<Rightarrow>
          (case find (\<lambda>h. hl_id h = i \<and> \<not> hl_is_deleted h) (highlights s) of
             None \<Rightarrow> Inl (NotFound ''Highlight not found.'')
           | Some h \<Rightarrow>
               if hl_user h \<noteq> u then Inl (Forbidden ''You can only manage your own highlights.'') else Inr h))"

definition clean_title :: "string \<Rightarrow> highlight_error + string" where
  "clean_title value =
     (let title = py_strip value
      in if length title > title_max_length
         then Inl (Invalid (TextSentence ''Title cannot be longer than 80 characters.'')) else Inr title)"

definition clean_visibility :: "string \<Rightarrow> highlight_error + string" where
  "clean_visibility value =
     (if value \<notin> set visibility_values then Inl (Invalid (TextSentence ''Visibility must be one of:''))
      else Inr value)"

text \<open>The serializer has made these whole numbers or absent.\<close>

definition clean_optional_int :: "int option \<Rightarrow> string \<Rightarrow> highlight_error + int option" where
  "clean_optional_int value label =
     (case value of
        None \<Rightarrow> Inr None
      | Some n \<Rightarrow>
          if n < 0 then Inl (Invalid (TextSentence (label @ '' cannot be negative.''))) else Inr (Some n))"

section \<open>Create\<close>

record clip_fields =
  cf_file_url :: string
  cf_public_id :: string
  cf_thumbnail_url :: string
  cf_duration :: "int option"
  cf_width :: "int option"
  cf_height :: "int option"

definition direct_fields :: "'loc create_env \<Rightarrow> uid \<Rightarrow> highlight_body \<Rightarrow> highlight_error + clip_fields" where
  "direct_fields env u b =
     (let file_url = py_strip (hb_file_url b); public_id = py_strip (hb_public_id b);
          thumbnail_url = py_strip (hb_thumbnail_url b); owner = (False, ce_uuid_text env u)
      in if file_url = '''' then Inl (Invalid (TextSentence ''The uploaded video URL (file_url) is required.''))
         else if public_id = ''''
         then Inl (Invalid (TextSentence ''The uploaded video id (public_id) is required.''))
         else if length public_id > public_id_max_length
         then Inl (Invalid (TextSentence ''The uploaded video id (public_id) cannot be longer than 255 characters.''))
         else if thumbnail_url = ''''
         then Inl (Invalid (TextSentence ''The video thumbnail (thumbnail_url) is required.''))
         else case validate_media (ce_base env) owner allowed_video_extensions file_url public_id of
           Inl e \<Rightarrow> Inl (Invalid (TextSentence (''Highlight video: '' @ e)))
         | Inr _ \<Rightarrow>
             (case validate_thumbnail (ce_base env) owner public_id thumbnail_url of
                Inl e \<Rightarrow> Inl (Invalid (TextSentence (''Highlight video: '' @ e)))
              | Inr _ \<Rightarrow>
                  h_bind (clean_optional_int (hb_duration b) ''Duration'') (\<lambda>d.
                  h_bind (clean_optional_int (hb_width b) ''Width'') (\<lambda>w.
                  h_bind (clean_optional_int (hb_height b) ''Height'') (\<lambda>h.
                    Inr \<lparr>cf_file_url = file_url, cf_public_id = public_id, cf_thumbnail_url = thumbnail_url,
                         cf_duration = clamp_int d max_highlight_duration, cf_width = w, cf_height = h\<rparr>)))))"

definition promote_fields ::
  "'loc media_state \<Rightarrow> uid \<Rightarrow> nat \<Rightarrow> highlight_error + clip_fields \<times> nat" where
  "promote_fields s u mid =
     (case find (\<lambda>(po, i, m). i = mid)
             (concat (map (\<lambda>po. map (\<lambda>(i, m). (po, i, m)) (po_media po)) (posts s))) of
        None \<Rightarrow> Inl (Invalid (TextSentence ''That post media no longer exists.''))
      | Some (po, i, m) \<Rightarrow>
          (if po_author po \<noteq> UserId u
           then Inl (Invalid (TextSentence ''You can only add media from your own posts.''))
           else if po_is_deleted po then Inl (Invalid (TextSentence ''That post has been deleted.''))
           else if rm_media_type (pm_media m) \<noteq> ''video''
           then Inl (Invalid (TextSentence ''Only videos can be added to highlights.''))
           else let r = pm_media m
                in Inr (\<lparr>cf_file_url = rm_file_url r, cf_public_id = rm_public_id r,
                        cf_thumbnail_url = rm_thumbnail_url r, cf_duration = rm_duration r,
                        cf_width = rm_width r, cf_height = rm_height r\<rparr>, po_id po)))"

definition check_duration :: "int option \<Rightarrow> highlight_error + unit" where
  "check_duration d =
     (case d of
        Some n \<Rightarrow>
          if n > max_highlight_seconds
          then Inl (Invalid (TextSentence ''Highlights can be at most 90 seconds long.'')) else Inr ()
      | None \<Rightarrow> Inr ())"

definition job_body :: "media_job \<Rightarrow> highlight_body" where
  "job_body job =
     \<lparr>hb_source_media = None, hb_job = None, hb_file_url = mj_output_url job,
      hb_public_id = mj_output_key job, hb_thumbnail_url = mj_thumbnail_url job,
      hb_duration = mj_duration job, hb_width = mj_width job,
      hb_height = mj_height job, hb_title = '''', hb_visibility = None\<rparr>"

definition job_fields ::
  "'loc create_env \<Rightarrow> 'loc media_state \<Rightarrow> actor \<Rightarrow> uid \<Rightarrow> nat \<Rightarrow> nat option \<Rightarrow>
     highlight_error + media_job \<times> clip_fields option" where
  "job_fields env s a u jid publication_id =
     (case resolve_for_attach s a (Some jid) ''highlights'' of
        None \<Rightarrow> Inl (Invalid (TextSentence ''Invalid media.''))
      | Some job \<Rightarrow>
          (if mj_status job = Failed then Inl (Invalid (job_error_message job))
           else if in_use s job publication_id then Inl (Invalid (TextSentence job_already_used_message))
           else if mj_status job \<noteq> Ready then Inr (job, None)
           else h_bind (check_duration (mj_duration job)) (\<lambda>_.
                h_bind (direct_fields env u (job_body job)) (\<lambda>f. Inr (job, Some f)))))"

record cleaned_highlight =
  ch_user :: uid
  ch_title :: string
  ch_visibility :: string
  ch_fields :: "clip_fields option"
  ch_source_post :: "nat option"
  ch_jobs :: "nat list"
  ch_pending :: "nat list"
  ch_payload :: "highlight_body option"

definition full_rail_message :: string where
  "full_rail_message = ''You already have 10 highlights. Delete one to add another.''"

text \<open>The body a held clip is published from: the job, the title and the visibility.\<close>

definition held_body :: "nat \<Rightarrow> string \<Rightarrow> string \<Rightarrow> highlight_body" where
  "held_body jid title visibility =
     \<lparr>hb_source_media = None, hb_job = Some jid, hb_file_url = '''', hb_public_id = '''',
      hb_thumbnail_url = '''', hb_duration = None, hb_width = None, hb_height = None,
      hb_title = title, hb_visibility = Some visibility\<rparr>"

definition clip_source ::
  "'loc create_env \<Rightarrow> 'loc media_state \<Rightarrow> actor \<Rightarrow> uid \<Rightarrow> highlight_body \<Rightarrow> nat option \<Rightarrow>
     highlight_error + media_job option \<times> clip_fields option \<times> nat option" where
  "clip_source env s a u b publication_id =
     (case hb_source_media b of
        Some mid \<Rightarrow>
          h_bind (promote_fields s u mid) (\<lambda>(f, po).
          h_bind (check_duration (cf_duration f)) (\<lambda>_. Inr (None, Some f, Some po)))
      | None \<Rightarrow>
          (case hb_job b of
             Some jid \<Rightarrow>
               h_bind (job_fields env s a u jid publication_id) (\<lambda>(job, f). Inr (Some job, f, None))
           | None \<Rightarrow> h_bind (direct_fields env u b) (\<lambda>f. Inr (None, Some f, None))))"

definition validate_create ::
  "'loc create_env \<Rightarrow> 'loc media_state \<Rightarrow> actor \<Rightarrow> highlight_body \<Rightarrow> nat option \<Rightarrow>
     highlight_error + cleaned_highlight" where
  "validate_create env s a b publication_id =
     h_bind (require_player env a) (\<lambda>u.
     h_bind (clean_title (hb_title b)) (\<lambda>title.
     h_bind (case hb_visibility b of
               None \<Rightarrow> Inr ''followers_and_recruiters''
             | Some v \<Rightarrow> if v = '''' then Inr ''followers_and_recruiters'' else clean_visibility v)
       (\<lambda>visibility.
     h_bind (clip_source env s a u b publication_id) (\<lambda>(job, fields, po).
       if job \<noteq> None \<and> fields = None \<and> length (live_rail s u) \<ge> max_highlights
       then Inl (Invalid (TextSentence full_rail_message))
       else Inr \<lparr>ch_user = u, ch_title = title, ch_visibility = visibility, ch_fields = fields,
                 ch_source_post = po,
                 ch_jobs = (case job of None \<Rightarrow> [] | Some j \<Rightarrow> [mj_id j]),
                 ch_pending = (if fields = None then (case job of None \<Rightarrow> [] | Some j \<Rightarrow> [mj_id j]) else []),
                 ch_payload = map_option (\<lambda>j. held_body (mj_id j) title visibility) job\<rparr>))))"

definition insert_highlight ::
  "instant \<Rightarrow> cleaned_highlight \<Rightarrow> 'loc media_state \<Rightarrow> highlight_error + nat \<times> 'loc media_state" where
  "insert_highlight now c s =
     (let orders = map hl_order (live_rail s (ch_user c)); new_id = next_id hl_id (highlights s)
      in if length orders \<ge> max_highlights then Inl (Invalid (TextSentence full_rail_message))
         else case ch_fields c of
           None \<Rightarrow> Inl (Invalid (TextSentence ''This video is still processing.''))
         | Some f \<Rightarrow>
             Inr (new_id, s\<lparr>highlights := tbl_insert
               \<lparr>hl_id = new_id, hl_user = ch_user c, hl_title = ch_title c, hl_file_url = cf_file_url f,
                hl_public_id = cf_public_id f, hl_thumbnail_url = cf_thumbnail_url f,
                hl_duration = cf_duration f, hl_width = cf_width f, hl_height = cf_height f,
                hl_visibility = ch_visibility c, hl_order = (if orders = [] then 0 else Max (set orders) + 1),
                hl_source_post = ch_source_post c, hl_views_count = 0, hl_is_deleted = False,
                hl_created_at = now, hl_updated_at = now\<rparr> (highlights s)\<rparr>))"

definition create_highlight ::
  "'loc create_env \<Rightarrow> actor \<Rightarrow> highlight_body \<Rightarrow> nat option \<Rightarrow> 'loc media_state \<Rightarrow>
     highlight_error + nat \<times> 'loc media_state" where
  "create_highlight env a b publication_id s =
     h_bind (validate_create env s a b publication_id) (\<lambda>c.
       if ch_pending c \<noteq> [] then Inl (Invalid (TextSentence ''This video is still processing.''))
       else insert_highlight (ce_now env) c s)"

section \<open>Update, reorder, delete\<close>

definition save_highlight :: "highlight_row \<Rightarrow> 'loc media_state \<Rightarrow> 'loc media_state" where
  "save_highlight h s = s\<lparr>highlights := tbl_save hl_id h (highlights s)\<rparr>"

definition update_highlight ::
  "'loc create_env \<Rightarrow> actor \<Rightarrow> nat option \<Rightarrow> string option \<Rightarrow> string option \<Rightarrow> 'loc media_state \<Rightarrow>
     highlight_error + highlight_row \<times> 'loc media_state" where
  "update_highlight env a hid title visibility s =
     h_bind (require_player env a) (\<lambda>u.
     h_bind (get_owned_highlight s u hid) (\<lambda>h.
       if title = None \<and> visibility = None
       then Inl (Invalid (TextSentence ''Nothing to update. Send a title or a visibility.''))
       else
         h_bind (case title of None \<Rightarrow> Inr h
                 | Some t \<Rightarrow> h_bind (clean_title t) (\<lambda>t. Inr (h\<lparr>hl_title := t\<rparr>))) (\<lambda>h.
         h_bind (case visibility of None \<Rightarrow> Inr h
                 | Some v \<Rightarrow> h_bind (clean_visibility v) (\<lambda>v. Inr (h\<lparr>hl_visibility := v\<rparr>))) (\<lambda>h.
           let h = h\<lparr>hl_updated_at := ce_now env\<rparr> in Inr (h, save_highlight h s)))))"

text \<open>\<open>ordered_ids\<close> as the body has them: \<open>None\<close> where a value is no UUID.\<close>

definition reorder_highlights ::
  "'loc create_env \<Rightarrow> actor \<Rightarrow> nat option list option \<Rightarrow> 'loc media_state \<Rightarrow>
     highlight_error + nat list \<times> 'loc media_state" where
  "reorder_highlights env a ordered_ids s =
     h_bind (require_player env a) (\<lambda>u.
       case ordered_ids of
         None \<Rightarrow> Inl (Invalid (TextSentence ''ordered_ids is required.''))
       | Some raw \<Rightarrow>
           (if list_ex (\<lambda>x. x = None) raw then Inl (Invalid (TextSentence ''not a valid highlight id''))
            else
              let wanted = map the raw; live = map hl_id (live_rail s u)
              in if \<not> distinct wanted
                 then Inl (Invalid (TextSentence ''The same highlight cannot appear twice in the new order.''))
                 else if \<not> set wanted \<subseteq> set live
                 then Inl (Invalid (TextSentence ''Some of those highlights are not yours, or no longer exist.''))
                 else if \<not> set live \<subseteq> set wanted
                 then Inl (Invalid (TextSentence ''The new order is missing highlights.''))
                 else Inr (wanted, s\<lparr>highlights := map (\<lambda>h.
                   if hl_id h \<in> set wanted
                   then h\<lparr>hl_order := int (length (takeWhile (\<lambda>i. i \<noteq> hl_id h) wanted)),
                          hl_updated_at := ce_now env\<rparr>
                   else h) (highlights s)\<rparr>)))"

definition delete_highlight ::
  "'loc create_env \<Rightarrow> actor \<Rightarrow> nat option \<Rightarrow> 'loc media_state \<Rightarrow>
     highlight_error + highlight_row \<times> 'loc media_state" where
  "delete_highlight env a hid s =
     h_bind (require_player env a) (\<lambda>u.
     h_bind (get_owned_highlight s u hid) (\<lambda>h.
       let h = h\<lparr>hl_is_deleted := True, hl_updated_at := ce_now env\<rparr>
       in Inr (h, save_highlight h s)))"

section \<open>Who sees a rail\<close>

definition recruiter_roles :: "account_role list" where "recruiter_roles = [ScoutRole, CoachRole]"

definition is_recruiter :: "(uid \<Rightarrow> account_role) \<Rightarrow> actor option \<Rightarrow> bool" where
  "is_recruiter role ao =
     (case ao of
        None \<Rightarrow> False
      | Some (OrgActor _ _) \<Rightarrow> True
      | Some (UserActor u) \<Rightarrow> role u \<in> set recruiter_roles)"

definition is_owner :: "uid option \<Rightarrow> actor option \<Rightarrow> bool" where
  "is_owner owner ao =
     (case (owner, ao) of (Some v, Some (UserActor u)) \<Rightarrow> u = v | _ \<Rightarrow> False)"

definition is_follower_of :: "social \<Rightarrow> uid option \<Rightarrow> actor option \<Rightarrow> bool" where
  "is_follower_of g owner ao =
     (case (owner, ao) of
        (Some v, Some a) \<Rightarrow> (identity_of a, UserId v) \<in> set (follow_rows g)
      | _ \<Rightarrow> False)"

text \<open>\<open>order_by("order", "created_at")\<close>.\<close>

definition rail_order :: "highlight_row list \<Rightarrow> highlight_row list" where
  "rail_order hs = sort_key hl_order (sort_key hl_created_at hs)"

definition allowed_levels :: "social \<Rightarrow> (uid \<Rightarrow> account_role) \<Rightarrow> uid \<Rightarrow> actor option \<Rightarrow> string list" where
  "allowed_levels g role owner ao =
     (if is_recruiter role ao then [''everyone'', ''followers_and_recruiters'', ''recruiters_only'']
      else if is_follower_of g (Some owner) ao then [''everyone'', ''followers_and_recruiters'']
      else [''everyone''])"

definition visible_highlights_for ::
  "social \<Rightarrow> (uid \<Rightarrow> account_role) \<Rightarrow> uid option \<Rightarrow> actor option \<Rightarrow> 'loc media_state \<Rightarrow> highlight_row list" where
  "visible_highlights_for g role owner ao s =
     (case owner of
        None \<Rightarrow> []
      | Some v \<Rightarrow>
          (let rail = rail_order (live_rail s v)
           in if is_owner owner ao then rail
              else filter (\<lambda>h. hl_visibility h \<in> set (allowed_levels g role v ao)) rail))"

definition visible_highlights_count ::
  "social \<Rightarrow> (uid \<Rightarrow> account_role) \<Rightarrow> uid option \<Rightarrow> actor option \<Rightarrow> 'loc media_state \<Rightarrow> nat" where
  "visible_highlights_count g role owner ao s = length (visible_highlights_for g role owner ao s)"

definition followed_user_ids_among :: "social \<Rightarrow> uid list \<Rightarrow> actor option \<Rightarrow> uid list" where
  "followed_user_ids_among g owner_ids ao =
     (case ao of
        None \<Rightarrow> []
      | Some a \<Rightarrow>
          remdups (List.map_filter
            (\<lambda>(f, t). case t of UserId v \<Rightarrow> if f = identity_of a \<and> v \<in> set owner_ids then Some v else None
                              | OrgId _ \<Rightarrow> None)
            (follow_rows g)))"

definition recruiter_visible_q :: "highlight_row \<Rightarrow> bool" where
  "recruiter_visible_q h \<longleftrightarrow>
     hl_visibility h \<in> set [''everyone'', ''followers_and_recruiters'', ''recruiters_only''] \<and> \<not> hl_is_deleted h"

text \<open>The grouped count of a page: owners with no visible clip are not keys of the dict.\<close>

definition visible_highlight_counts_for ::
  "social \<Rightarrow> (uid \<Rightarrow> account_role) \<Rightarrow> uid list \<Rightarrow> actor option \<Rightarrow> 'loc media_state \<Rightarrow> uid \<Rightarrow> nat option" where
  "visible_highlight_counts_for g role owner_ids ao s =
     (let visible =
        (if is_recruiter role ao then recruiter_visible_q
         else let followed = followed_user_ids_among g owner_ids ao
              in (\<lambda>h. hl_visibility h = ''everyone''
                    \<or> (hl_visibility h = ''followers_and_recruiters'' \<and> hl_user h \<in> set followed)));
          rows = filter (\<lambda>h. visible h \<and> hl_user h \<in> set owner_ids \<and> \<not> hl_is_deleted h) (highlights s)
      in (\<lambda>u. if u \<in> hl_user ` set rows then Some (length (filter (\<lambda>h. hl_user h = u) rows)) else None))"

section \<open>Views\<close>

text \<open>
  \<open>record_view\<close> on a copy of the row the caller read. \<open>get_or_create\<close> under the daily unique
  constraint: one row for a clip, a viewer and a day.
\<close>

definition record_view ::
  "(uid \<Rightarrow> account_role) \<Rightarrow> day \<Rightarrow> actor option \<Rightarrow> highlight_row option \<Rightarrow> 'loc media_state \<Rightarrow>
     bool \<times> 'loc media_state" where
  "record_view role today ao ho s =
     (case ho of
        None \<Rightarrow> (False, s)
      | Some h \<Rightarrow>
          (if ao = Some (UserActor (hl_user h)) then (False, s)
           else if \<not> list_ex (\<lambda>r. hl_id r = hl_id h \<and> \<not> hl_is_deleted r) (highlights s) then (False, s)
           else
             let s = s\<lparr>highlights := map (\<lambda>r. if hl_id r = hl_id h \<and> \<not> hl_is_deleted r
                    then r\<lparr>hl_views_count := hl_views_count r + 1\<rparr> else r) (highlights s)\<rparr>
             in (True,
                 case ao of
                   None \<Rightarrow> s
                 | Some a \<Rightarrow>
                     (if list_ex (\<lambda>v. hv_highlight v = hl_id h \<and> hv_viewer v = identity_of a \<and> hv_viewed_on v = today)
                           (highlight_views s)
                      then s
                      else s\<lparr>highlight_views := tbl_insert
                        \<lparr>hv_highlight = hl_id h, hv_viewer = identity_of a,
                         hv_is_recruiter = is_recruiter role ao, hv_viewed_on = today\<rparr>
                        (highlight_views s)\<rparr>))))"

text \<open>\<open>Count("viewer_user", distinct=True) + Count("viewer_org", distinct=True)\<close>.\<close>

definition distinct_viewers :: "highlight_view list \<Rightarrow> nat" where
  "distinct_viewers vs =
     length (remdups (List.map_filter (\<lambda>v. case hv_viewer v of UserId u \<Rightarrow> Some u | OrgId _ \<Rightarrow> None) vs))
   + length (remdups (List.map_filter (\<lambda>v. case hv_viewer v of UserId _ \<Rightarrow> None | OrgId oi \<Rightarrow> Some oi) vs))"

record highlight_stats =
  hs_highlights :: nat
  hs_views :: nat
  hs_recruiter_viewers :: nat
  hs_results :: "(nat \<times> nat \<times> nat) list"

definition highlight_stats_for :: "'loc media_state \<Rightarrow> uid option \<Rightarrow> highlight_stats" where
  "highlight_stats_for s owner =
     (case owner of
        None \<Rightarrow> \<lparr>hs_highlights = 0, hs_views = 0, hs_recruiter_viewers = 0, hs_results = []\<rparr>
      | Some u \<Rightarrow>
          (let clips = rail_order (live_rail s u);
               seen = (\<lambda>ids. filter (\<lambda>v. hv_highlight v \<in> set ids \<and> hv_is_recruiter v) (highlight_views s))
           in \<lparr>hs_highlights = length clips, hs_views = sum_list (map hl_views_count clips),
               hs_recruiter_viewers = distinct_viewers (seen (map hl_id clips)),
               hs_results = map (\<lambda>h. (hl_id h, hl_views_count h, distinct_viewers (seen [hl_id h]))) clips\<rparr>))"

end
