(* ===== verification/Media_Jobs.thy ===== *)
theory Media_Jobs
  imports Highlights
begin

text \<open>
  Held publications (\<open>publication_service.py\<close>), the life of a job (\<open>media_job_service.py\<close>), one run on
  the worker (\<open>media_processing_service.py\<close>, \<open>tasks.py\<close>) and the sweeper
  (\<open>media_sweep_service.py\<close>).

  A run is split where it holds no lock: \<open>claim\<close> hands out a copy of the row, \<open>finish_run\<close> is everything
  after it, with the outcomes of storage and of the converter as its environment. What a run writes goes to
  the row by \<open>update_fields\<close>, whatever the row says by then. \<open>pe_held\<close> are the publications another
  transaction has locked: \<open>skip_locked\<close> passes over them.
\<close>

record 'loc publish_env =
  pe_create :: "'loc create_env"
  pe_users :: "user list"
  pe_orgs :: "organization list"
  pe_members :: "member list"
  pe_held :: "nat list"
  pe_raises :: "nat \<Rightarrow> bool"

abbreviation pe_now :: "'loc publish_env \<Rightarrow> instant" where
  "pe_now env \<equiv> ce_now (pe_create env)"

section \<open>Publications\<close>

definition pub_announce :: "'loc publication \<Rightarrow> 'loc media_state \<Rightarrow> 'loc media_state" where
  "pub_announce p s = media_emit (PublicationUpdated (pub_owner p) (pub_id p) (pub_status p)) s"

definition after_change :: "'loc publication \<Rightarrow> 'loc media_state \<Rightarrow> 'loc media_state" where
  "after_change p s =
     (let s = pub_announce p s
      in if pub_status p \<noteq> PubFailed then s
         else media_emit (PublicationFailedNote (pub_owner p) (pub_id p)) s)"

definition failed_publication :: "error_code \<Rightarrow> sentence \<Rightarrow> 'loc publication \<Rightarrow> 'loc publication" where
  "failed_publication code message p =
     p\<lparr>pub_status := PubFailed, pub_error := Some code, pub_error_message := Some message\<rparr>"

definition rebuild_actor :: "'loc publish_env \<Rightarrow> 'loc publication \<Rightarrow> actor option" where
  "rebuild_actor env p =
     (case pub_owner p of
        UserId u \<Rightarrow>
          (case tbl_get user_id (pe_users env) u of
             None \<Rightarrow> None
           | Some r \<Rightarrow> if \<not> user_is_active r then None else Some (UserActor u))
      | OrgId oi \<Rightarrow>
          (case (pub_created_by p, tbl_get org_id (pe_orgs env) oi) of
             (Some u, Some org) \<Rightarrow>
               (case tbl_get user_id (pe_users env) u of
                  None \<Rightarrow> None
                | Some r \<Rightarrow>
                    (if \<not> user_is_active r \<or> org_is_suspended org then None
                     else case find (\<lambda>m. member_user m = u \<and> member_org m = oi
                                       \<and> member_status m = MemberActive) (pe_members env) of
                            None \<Rightarrow> None
                          | Some m \<Rightarrow> Some (OrgActor oi (Some m))))
           | _ \<Rightarrow> None))"

text \<open>\<open>_publish\<close> in its savepoint: the new id and state, a refusal, or \<open>_StillPending\<close>.\<close>

datatype 'loc publish_outcome = PublishedAs nat "'loc media_state" | Refused_By sentence | StillPending | Raised

text \<open>\<open>_rejection_message\<close> of the exceptions of \<open>create_highlight\<close>.\<close>

fun rejection_message :: "highlight_error \<Rightarrow> sentence" where
  "rejection_message (Forbidden m) = TextSentence m"
| "rejection_message (NotFound m) = TextSentence m"
| "rejection_message (Invalid m) = m"

definition publish_as :: "'loc publish_env \<Rightarrow> 'loc publication \<Rightarrow> actor \<Rightarrow> 'loc media_state \<Rightarrow> 'loc publish_outcome"
where
  "publish_as env p a s =
     (if pe_raises env (pub_id p) then Raised
      else case pub_payload p of
        HeldPost data \<Rightarrow>
          (case validate_create_payload (pe_create env) s a data (Some (pub_id p)) of
             Inl e \<Rightarrow> Refused_By e
           | Inr cleaned \<Rightarrow>
               (if cl_pending cleaned \<noteq> [] then StillPending
                else case create_post (pe_create env) a cleaned s of
                       Inl e \<Rightarrow> Refused_By e
                     | Inr (new_id, s) \<Rightarrow> PublishedAs new_id s))
      | HeldHighlight b \<Rightarrow>
          (case create_highlight (pe_create env) a b (Some (pub_id p)) s of
             Inl e \<Rightarrow> Refused_By (rejection_message e)
           | Inr (new_id, s) \<Rightarrow> PublishedAs new_id s))"

text \<open>\<open>try_publish\<close>: \<open>None\<close> when nothing changed.\<close>

definition try_publish ::
  "'loc publish_env \<Rightarrow> nat \<Rightarrow> 'loc media_state \<Rightarrow> publication_status option \<times> 'loc media_state" where
  "try_publish env pid s =
     (case find (\<lambda>p. pub_id p = pid \<and> pub_status p = PubProcessing \<and> pid \<notin> set (pe_held env))
             (publications s) of
        None \<Rightarrow> (None, s)
      | Some p \<Rightarrow>
          (let js = filter (\<lambda>j. mj_id j \<in> set (pub_jobs p)) (jobs s);
               settle = (\<lambda>q s. (Some (pub_status q), after_change q (save_publication q s)))
           in case find (\<lambda>j. mj_status j = Failed) js of
                Some j \<Rightarrow>
                  settle (failed_publication (case mj_error j of None \<Rightarrow> Internal | Some c \<Rightarrow> c)
                            (job_error_message j) p) s
              | None \<Rightarrow>
                  (if list_ex (\<lambda>j. mj_status j \<noteq> Ready) js then (None, s)
                   else case rebuild_actor env p of
                     None \<Rightarrow>
                       settle (failed_publication ActorNoLongerValid
                         (TextSentence ''You're no longer able to post as this page'') p) s
                   | Some a \<Rightarrow>
                       (case publish_as env p a s of
                          StillPending \<Rightarrow> (None, s)
                        | Refused_By m \<Rightarrow> settle (failed_publication PublishRejected m p) s
                        | Raised \<Rightarrow>
                            settle (failed_publication Internal
                              (TextSentence ''Something went wrong publishing this. Please try again'') p) s
                        | PublishedAs rid t \<Rightarrow>
                            settle (p\<lparr>pub_status := Published, pub_result := Some rid,
                                     pub_published_at := Some (pe_now env)\<rparr>) t))))"

definition create_publication ::
  "'loc publish_env \<Rightarrow> actor \<Rightarrow> uid \<Rightarrow> 'loc held_payload \<Rightarrow> nat list \<Rightarrow> 'loc media_state \<Rightarrow>
     nat \<times> 'loc media_state" where
  "create_publication env a u payload js s =
     (let p = \<lparr>pub_id = next_id pub_id (publications s), pub_owner = identity_of a, pub_created_by = Some u,
               pub_payload = payload, pub_jobs = remdups js, pub_status = PubProcessing,
               pub_result = None, pub_error = None, pub_error_message = None, pub_dismissed_at = None,
               pub_created_at = pe_now env, pub_published_at = None\<rparr>;
          s = pub_announce p (s\<lparr>publications := tbl_insert p (publications s)\<rparr>)
      in (pub_id p, snd (try_publish env (pub_id p) s)))"

text \<open>\<open>POST /posts/create\<close>: held while a job converts, created at once otherwise.\<close>

definition post_create ::
  "'loc publish_env \<Rightarrow> actor \<Rightarrow> uid \<Rightarrow> 'loc post_payload \<Rightarrow> 'loc media_state \<Rightarrow>
     sentence + (nat + nat) \<times> 'loc media_state" where
  "post_create env a u data s =
     (case validate_create_payload (pe_create env) s a data None of
        Inl e \<Rightarrow> Inl e
      | Inr cleaned \<Rightarrow>
          (if cl_pending cleaned \<noteq> []
           then (let (pid, t) = create_publication env a u (HeldPost (cl_payload cleaned)) (cl_jobs cleaned) s
                 in Inr (Inl pid, t))
           else case create_post (pe_create env) a cleaned s of
                  Inl e \<Rightarrow> Inl e
                | Inr (new_id, t) \<Rightarrow> Inr (Inr new_id, t)))"

text \<open>\<open>POST /highlights/create\<close>, past its serializer. A cleaned body without its payload is never pending.\<close>

definition highlight_create ::
  "'loc publish_env \<Rightarrow> actor \<Rightarrow> uid \<Rightarrow> highlight_body \<Rightarrow> 'loc media_state \<Rightarrow>
     highlight_error + (nat + nat) \<times> 'loc media_state" where
  "highlight_create env a u b s =
     h_bind (validate_create (pe_create env) s a b None) (\<lambda>c.
       case (ch_pending c, ch_payload c) of
         (_ # _, Some payload) \<Rightarrow>
           (let (pid, t) = create_publication env a u (HeldHighlight payload) (ch_jobs c) s
            in Inr (Inl pid, t))
       | _ \<Rightarrow> h_bind (insert_highlight (pe_now env) c s) (\<lambda>(new_id, t). Inr (Inr new_id, t)))"

definition owned_for_update :: "'loc media_state \<Rightarrow> actor \<Rightarrow> nat option \<Rightarrow> 'loc publication result" where
  "owned_for_update s a pid =
     (case pid of
        None \<Rightarrow> Inl (PublicationError ''not_found'')
      | Some i \<Rightarrow>
          (case find (\<lambda>p. pub_id p = i \<and> pub_owner p = identity_of a) (publications s) of
             None \<Rightarrow> Inl (PublicationError ''not_found'')
           | Some p \<Rightarrow> Inr p))"

definition cancel_publication ::
  "actor \<Rightarrow> nat option \<Rightarrow> 'loc media_state \<Rightarrow> ('loc publication \<times> 'loc media_state) result" where
  "cancel_publication a pid s =
     res_bind (owned_for_update s a pid) (\<lambda>p.
       if pub_status p = PubCancelled then Inr (p, s)
       else if pub_status p \<noteq> PubProcessing then Inl (PublicationError ''publication_not_processing'')
       else let p = p\<lparr>pub_status := PubCancelled\<rparr>
            in Inr (p, pub_announce p (save_publication p s)))"

definition dismiss_publication ::
  "instant \<Rightarrow> actor \<Rightarrow> nat option \<Rightarrow> 'loc media_state \<Rightarrow> ('loc publication \<times> 'loc media_state) result" where
  "dismiss_publication now a pid s =
     res_bind (owned_for_update s a pid) (\<lambda>p.
       if pub_status p \<noteq> PubFailed then Inl (PublicationError ''publication_not_failed'')
       else if pub_dismissed_at p = None
       then let p = p\<lparr>pub_dismissed_at := Some now\<rparr> in Inr (p, save_publication p s)
       else Inr (p, s))"

definition expire_publication :: "nat list \<Rightarrow> nat \<Rightarrow> 'loc media_state \<Rightarrow> bool \<times> 'loc media_state" where
  "expire_publication held pid s =
     (case find (\<lambda>p. pub_id p = pid \<and> pub_status p = PubProcessing \<and> pid \<notin> set held) (publications s) of
        None \<Rightarrow> (False, s)
      | Some p \<Rightarrow>
          (let q = failed_publication ProcessingTimeout (CodeSentence ProcessingTimeout) p
           in (True, after_change q (save_publication q s))))"

section \<open>The life of a job\<close>

definition update_job :: "nat \<Rightarrow> (media_job \<Rightarrow> media_job) \<Rightarrow> 'loc media_state \<Rightarrow> 'loc media_state" where
  "update_job j f s = s\<lparr>jobs := map (\<lambda>r. if mj_id r = j then f r else r) (jobs s)\<rparr>"

definition error_detail_max_chars :: nat where "error_detail_max_chars = 8000"

definition mark_failed :: "instant \<Rightarrow> nat \<Rightarrow> error_code \<Rightarrow> string \<Rightarrow> 'loc media_state \<Rightarrow> 'loc media_state" where
  "mark_failed now j code detail s =
     update_job j (\<lambda>r. r\<lparr>mj_status := Failed, mj_error := Some code,
       mj_error_detail := drop (length detail - error_detail_max_chars) detail,
       mj_finished_at := Some now, mj_updated_at := now\<rparr>) s"

definition is_finished :: "media_job \<Rightarrow> bool" where
  "is_finished r \<longleftrightarrow> mj_status r \<in> set [Ready, Failed]"

definition fail_unfinished ::
  "instant \<Rightarrow> nat \<Rightarrow> error_code \<Rightarrow> string \<Rightarrow> 'loc media_state \<Rightarrow> bool \<times> 'loc media_state" where
  "fail_unfinished now j code detail s =
     (case job_of s j of
        None \<Rightarrow> (False, s)
      | Some r \<Rightarrow> if is_finished r then (False, s) else (True, mark_failed now j code detail s))"

record converted =
  cv_width :: int
  cv_height :: int
  cv_duration :: "int option"
  cv_size :: int

definition mark_ready ::
  "instant \<Rightarrow> nat \<Rightarrow> converted \<Rightarrow> string \<Rightarrow> string \<Rightarrow> 'loc media_state \<Rightarrow> 'loc media_state" where
  "mark_ready now j res output_url thumbnail_url s =
     update_job j (\<lambda>r. r\<lparr>mj_status := Ready, mj_output_url := output_url, mj_thumbnail_url := thumbnail_url,
       mj_width := Some (cv_width res), mj_height := Some (cv_height res), mj_duration := cv_duration res,
       mj_size := Some (cv_size res), mj_error := None, mj_error_detail := '''', mj_finished_at := Some now,
       mj_source_deleted_at := Some now, mj_updated_at := now\<rparr>) s"

text \<open>The signal's receiver: every publication waiting on the job gets a chance.\<close>

definition publish_waiting ::
  "'loc publish_env \<Rightarrow> nat \<Rightarrow> 'loc media_state \<Rightarrow> 'loc media_state" where
  "publish_waiting env j s =
     foldl (\<lambda>s pid. snd (try_publish env pid s)) s
       (map pub_id (filter (\<lambda>p. j \<in> set (pub_jobs p) \<and> pub_status p = PubProcessing) (publications s)))"

definition finish :: "'loc publish_env \<Rightarrow> nat \<Rightarrow> 'loc media_state \<Rightarrow> 'loc media_state" where
  "finish env j s =
     (case job_of s j of
        None \<Rightarrow> s
      | Some r \<Rightarrow> publish_waiting env j (media_emit (JobUpdated (mj_owner r) j (mj_status r)) s))"

definition dispatch :: "bool \<Rightarrow> nat \<Rightarrow> nat list \<Rightarrow> 'loc media_state \<Rightarrow> 'loc media_state" where
  "dispatch broker_up retries js s =
     (if broker_up then s\<lparr>job_queue := job_queue s @ map (\<lambda>j. (j, retries)) js\<rparr> else s)"

definition claim ::
  "'loc publish_env \<Rightarrow> nat \<Rightarrow> 'loc media_state \<Rightarrow> media_job option \<times> 'loc media_state" where
  "claim env j s =
     (let now = pe_now env; live_after = now - (media_job_time_limit + stuck_grace)
      in case job_of s j of
           None \<Rightarrow> (None, s)
         | Some r \<Rightarrow>
             (if is_finished r then (None, s)
              else if mj_status r = Processing
                 \<and> (case mj_started_at r of None \<Rightarrow> False | Some t \<Rightarrow> t > live_after) then (None, s)
              else if mj_attempts r \<ge> max_job_attempts
              then (None, finish env j
                     (mark_failed now j ProcessingTimeout ''gave up after attempts that never finished'' s))
              else let upd = (\<lambda>r. r\<lparr>mj_status := Processing, mj_started_at := Some now,
                                  mj_attempts := mj_attempts r + 1, mj_updated_at := now\<rparr>)
                   in (Some (upd r), update_job j upd s)))"

definition release :: "instant \<Rightarrow> nat \<Rightarrow> bool \<Rightarrow> 'loc media_state \<Rightarrow> 'loc media_state" where
  "release now j refund_attempt s =
     update_job j (\<lambda>r. if mj_status r = Processing
       then r\<lparr>mj_status := Queued, mj_updated_at := now,
              mj_attempts := (if refund_attempt then mj_attempts r - 1 else mj_attempts r)\<rparr>
       else r) s"

section \<open>One run\<close>

text \<open>What a call to storage or to the converter raises, and how \<open>_fetch\<close> sorts it.\<close>

datatype call_error =
    NotFoundError string
  | ClientError string
  | NetworkError string
  | ConverterError error_code string
  | SoftTimeLimit
  | OtherException string

datatype run_failure =
    ProcessingFailure error_code string
  | SourceFetchFailure string
  | SoftLimitFailure
  | UnexpectedFailure string

fun fetch_failure :: "call_error \<Rightarrow> run_failure" where
  "fetch_failure (NotFoundError e) = ProcessingFailure SourceMissing e"
| "fetch_failure (ClientError e) = SourceFetchFailure e"
| "fetch_failure (NetworkError e) = SourceFetchFailure e"
| "fetch_failure (ConverterError c e) = ProcessingFailure c e"
| "fetch_failure SoftTimeLimit = SoftLimitFailure"
| "fetch_failure (OtherException e) = UnexpectedFailure e"

fun plain_failure :: "call_error \<Rightarrow> run_failure" where
  "plain_failure (ConverterError c e) = ProcessingFailure c e"
| "plain_failure SoftTimeLimit = SoftLimitFailure"
| "plain_failure (NotFoundError e) = UnexpectedFailure e"
| "plain_failure (ClientError e) = UnexpectedFailure e"
| "plain_failure (NetworkError e) = UnexpectedFailure e"
| "plain_failure (OtherException e) = UnexpectedFailure e"

record run_env =
  re_now :: instant
  re_can_convert :: "media_kind \<Rightarrow> bool"
  re_head :: "call_error + int option option"
  re_download :: "call_error + unit"
  re_uuid_output :: string
  re_uuid_thumbnail :: string
  re_convert :: "call_error + converted"
  re_upload_output :: "call_error + unit"
  re_upload_thumbnail :: "call_error + unit"
  re_limit_after_ready :: bool
  re_media_base :: string

definition assign_output_keys :: "run_env \<Rightarrow> media_job \<Rightarrow> media_job" where
  "assign_output_keys env r =
     (if mj_output_key r \<noteq> '''' \<and> mj_thumbnail_key r \<noteq> '''' then r
      else let extension = (if mj_kind r = VideoKind then ''.mp4'' else ''.jpg'')
           in r\<lparr>mj_output_key := sibling_key (re_uuid_output env) (mj_source_key r) extension,
                mj_thumbnail_key := sibling_key (re_uuid_thumbnail env) (mj_source_key r) ''.jpg''\<rparr>)"

text \<open>\<open>_process\<close> on the claimed copy \<open>job\<close>: the state it leaves and the exception it raises, if any.\<close>

definition process_job ::
  "run_env \<Rightarrow> media_job \<Rightarrow> 'loc media_state \<Rightarrow> run_failure option \<times> 'loc media_state" where
  "process_job env job s =
     (case re_head env of
        Inl e \<Rightarrow> (Some (fetch_failure e), s)
      | Inr None \<Rightarrow> (Some (ProcessingFailure SourceMissing ''source object is gone''), s)
      | Inr (Some bytes) \<Rightarrow>
          (if (case bytes of None \<Rightarrow> 0 | Some n \<Rightarrow> n) > source_cap (mj_kind job)
           then (Some (ProcessingFailure SourceTooLarge ''bytes''), s)
           else case re_download env of
             Inl e \<Rightarrow> (Some (fetch_failure e), s)
           | Inr _ \<Rightarrow>
               (let keyed = assign_output_keys env job;
                    s = (if keyed = job then s
                         else update_job (mj_id job)
                           (\<lambda>r. r\<lparr>mj_output_key := mj_output_key keyed,
                                  mj_thumbnail_key := mj_thumbnail_key keyed, mj_updated_at := re_now env\<rparr>) s)
                in case re_convert env of
                     Inl e \<Rightarrow> (Some (plain_failure e), s)
                   | Inr res \<Rightarrow>
                       (case re_upload_output env of
                          Inl e \<Rightarrow> (Some (plain_failure e), s)
                        | Inr _ \<Rightarrow>
                            (case re_upload_thumbnail env of
                               Inl e \<Rightarrow> (Some (plain_failure e), s)
                             | Inr _ \<Rightarrow>
                                 (let s = mark_ready (re_now env) (mj_id job) res
                                            (public_url_for (re_media_base env) (mj_output_key keyed))
                                            (public_url_for (re_media_base env) (mj_thumbnail_key keyed)) s
                                  in if re_limit_after_ready env then (Some SoftLimitFailure, s)
                                     else (None, media_emit (DeleteKeys [mj_source_key job]) s)))))))"

text \<open>
  \<open>run\<close> after its claim. The flag tells whether a \<open>SourceFetchError\<close> escapes to the task.
\<close>

definition finish_run ::
  "run_env \<Rightarrow> 'loc publish_env \<Rightarrow> media_job \<Rightarrow> 'loc media_state \<Rightarrow> bool \<times> 'loc media_state" where
  "finish_run env penv job s =
     (let j = mj_id job; now = re_now env
      in if \<not> re_can_convert env (mj_kind job)
         then (if now - mj_created_at job > processor_unavailable_give_up
               then (False, finish penv j (mark_failed now j ProcessorUnavailable ''not on PATH'' s))
               else (False, release now j True s))
         else case process_job env job s of
                (None, s) \<Rightarrow> (False, finish penv j s)
              | (Some (SourceFetchFailure e), s) \<Rightarrow> (True, release now j False s)
              | (Some (ProcessingFailure c d), s) \<Rightarrow> (False, finish penv j (mark_failed now j c d s))
              | (Some SoftLimitFailure, s) \<Rightarrow>
                  (False, finish penv j
                     (snd (fail_unfinished now j ProcessingTimeout ''Celery soft time limit exceeded'' s)))
              | (Some (UnexpectedFailure d), s) \<Rightarrow> (False, finish penv j (mark_failed now j Internal d s)))"

definition give_up :: "'loc publish_env \<Rightarrow> instant \<Rightarrow> nat \<Rightarrow> string \<Rightarrow> 'loc media_state \<Rightarrow> 'loc media_state" where
  "give_up penv now j detail s =
     (case fail_unfinished now j Internal detail s of
        (False, s) \<Rightarrow> s
      | (True, s) \<Rightarrow> finish penv j s)"

text \<open>The task around a run: a failed download is retried twice, by a new message.\<close>

definition task_after_run ::
  "bool \<Rightarrow> run_env \<Rightarrow> 'loc publish_env \<Rightarrow> nat \<Rightarrow> media_job \<Rightarrow> 'loc media_state \<Rightarrow> 'loc media_state" where
  "task_after_run broker_up env penv retries job s =
     (case finish_run env penv job s of
        (False, s) \<Rightarrow> s
      | (True, s) \<Rightarrow>
          (if retries < source_fetch_max_retries then dispatch broker_up (retries + 1) [mj_id job] s
           else give_up penv (re_now env) (mj_id job) ''source download failed'' s))"

section \<open>Creating a job\<close>

definition user_only_types :: "string list" where
  "user_only_types = [''profile'', ''cover'', ''achievements'', ''matches'', ''highlights'']"
definition org_only_types :: "string list" where
  "org_only_types = [''organization_logo'', ''organization_cover'', ''recruitments'']"

text \<open>
  \<open>resolve_upload_actor\<close> for the types a source may have. \<open>org_arg\<close> is the \<open>org_id\<close> of the body:
  absent, malformed, or an id.
\<close>

definition resolve_upload_actor ::
  "organization list \<Rightarrow> member list \<Rightarrow> uid \<Rightarrow> actor \<Rightarrow> string \<Rightarrow> oid option option \<Rightarrow> actor result" where
  "resolve_upload_actor orgs ms u a upload_type org_arg =
     res_bind
       (case org_arg of
          None \<Rightarrow> Inr a
        | Some None \<Rightarrow> Inl (MediaJobError ''org_id'')
        | Some (Some oi) \<Rightarrow>
            (case tbl_get org_id orgs oi of
               None \<Rightarrow> Inl (MediaJobError ''org_not_found'')
             | Some _ \<Rightarrow>
                 (if \<not> list_ex (\<lambda>m. member_org m = oi \<and> member_user m = u \<and> member_status m = MemberActive) ms
                  then Inl (MediaJobError ''org_id'')
                  else Inr (OrgActor oi None))))
       (\<lambda>a. if upload_type \<in> set user_only_types \<and> \<not> is_user a then Inl (MediaJobError ''type'')
            else if upload_type \<in> set org_only_types \<and> \<not> is_org a then Inl (MediaJobError ''type'')
            else Inr a)"

record job_request =
  jr_available :: bool
  jr_uuid_text :: "nat \<Rightarrow> string"
  jr_head :: "(string \<times> int option) option"
  jr_broker_up :: bool
  jr_now :: instant

text \<open>The ids a key is checked against: the acting identity, and the person behind the request.\<close>

definition key_actor_of :: "(nat \<Rightarrow> string) \<Rightarrow> uid \<Rightarrow> actor \<Rightarrow> key_actor" where
  "key_actor_of text u a =
     (case a of
        UserActor v \<Rightarrow> \<lparr>ka_is_org = False, ka_user = Some (text v), ka_org = None\<rparr>
      | OrgActor oi _ \<Rightarrow> \<lparr>ka_is_org = True, ka_user = Some (text u), ka_org = Some (text oi)\<rparr>)"

definition content_type_of :: "string \<Rightarrow> string" where
  "content_type_of ct = py_lower (py_strip (takeWhile (\<lambda>c. c \<noteq> CHR '';'') ct))"

definition extension_of :: "string \<Rightarrow> string" where
  "extension_of key = rev (takeWhile (\<lambda>c. c \<noteq> CHR ''.'') (rev key))"

text \<open>The kind of a stored object: by its content type, else by the extension of its key.\<close>

definition stored_kind :: "string \<Rightarrow> string \<Rightarrow> media_kind option" where
  "stored_kind content_type key =
     (case source_kind content_type of
        Some k \<Rightarrow> Some k
      | None \<Rightarrow> source_kind_for_extension (extension_of key))"

text \<open>The row \<open>MediaJob.objects.create\<close> makes.\<close>

definition fresh_job ::
  "nat \<Rightarrow> identity \<Rightarrow> uid \<Rightarrow> string \<Rightarrow> string \<Rightarrow> media_kind \<Rightarrow> string \<Rightarrow> string \<Rightarrow> int \<Rightarrow> instant \<Rightarrow> media_job" where
  "fresh_job i owner u purpose upload_type k key content_type size_bytes now =
     \<lparr>mj_id = i, mj_owner = owner, mj_created_by = Some u, mj_purpose = purpose, mj_upload_type = upload_type,
      mj_kind = k, mj_status = Queued, mj_source_key = key, mj_source_content_type = content_type,
      mj_source_size = size_bytes, mj_output_key = '''', mj_output_url = '''', mj_thumbnail_key = '''',
      mj_thumbnail_url = '''', mj_width = None, mj_height = None, mj_duration = None, mj_size = None,
      mj_error = None, mj_error_detail = '''', mj_attempts = 0, mj_source_deleted_at = None,
      mj_created_at = now, mj_started_at = None, mj_finished_at = None, mj_updated_at = now\<rparr>"

definition create_job ::
  "job_request \<Rightarrow> organization list \<Rightarrow> member list \<Rightarrow> uid \<Rightarrow> actor \<Rightarrow> string \<Rightarrow> string \<Rightarrow> string \<Rightarrow>
     oid option option \<Rightarrow> 'loc media_state \<Rightarrow> ((media_job \<times> bool) \<times> 'loc media_state) result" where
  "create_job req orgs ms u a key purpose upload_type org_arg s =
     (if \<not> jr_available req then Inl (MediaJobError ''server_processing_unavailable'')
      else if purpose \<notin> set purposes then Inl (MediaJobError ''purpose'')
      else if upload_type \<notin> set source_upload_types then Inl (MediaJobError ''upload_type'')
      else if upload_type \<notin> set (purpose_upload_types purpose) then Inl (MediaJobError ''upload_type'')
      else res_bind (resolve_upload_actor orgs ms u a upload_type org_arg) (\<lambda>a.
        if \<not> is_source_key key \<or> \<not> is_upload_key_for (key_actor_of (jr_uuid_text req) u a) upload_type key
        then Inl (MediaJobError ''key'')
        else case job_for_source_key s a key of
          Some job \<Rightarrow> Inr ((job, False), s)
        | None \<Rightarrow>
            (case jr_head req of
               None \<Rightarrow> Inl (MediaJobError ''SOURCE_MISSING'')
             | Some (raw_type, bytes) \<Rightarrow>
                 (let content_type = content_type_of raw_type;
                      size_bytes = (case bytes of None \<Rightarrow> 0 | Some n \<Rightarrow> n)
                  in case stored_kind content_type key of
                       None \<Rightarrow> Inl (MediaJobError ''SOURCE_UNREADABLE'')
                     | Some k \<Rightarrow>
                         (if k = ImageKind \<and> purpose \<in> set video_only_purposes
                          then Inl (MediaJobError ''purpose'')
                          else if size_bytes > source_cap k then Inl (MediaJobError ''SOURCE_TOO_LARGE'')
                          else if list_ex (\<lambda>r. mj_source_key r = key) (jobs s) then Inl IntegrityError
                          else let job = fresh_job (next_id mj_id (jobs s)) (identity_of a) u purpose upload_type
                                 k key content_type size_bytes (jr_now req);
                               s = s\<lparr>jobs := tbl_insert job (jobs s)\<rparr>
                               in Inr ((job, True), dispatch (jr_broker_up req) 0 [mj_id job] s))))))"

section \<open>The sweep\<close>

record sweep_env =
  se_now :: instant
  se_broker_up :: bool
  se_locked_jobs :: "nat list"
  se_head :: "string \<Rightarrow> bool option"

definition redispatch_queued :: "sweep_env \<Rightarrow> 'loc media_state \<Rightarrow> 'loc media_state" where
  "redispatch_queued env s =
     (let cutoff = se_now env - queued_redispatch_after;
          js = take sweep_batch_size (map mj_id (sort_key mj_created_at
            (filter (\<lambda>r. mj_status r = Queued \<and> mj_updated_at r < cutoff
                        \<and> mj_id r \<notin> set (se_locked_jobs env)) (jobs s))));
          s = s\<lparr>jobs := map (\<lambda>r. if mj_id r \<in> set js then r\<lparr>mj_updated_at := se_now env\<rparr> else r) (jobs s)\<rparr>
      in dispatch (se_broker_up env) 0 js s)"

definition dead_runs :: "sweep_env \<Rightarrow> 'loc media_state \<Rightarrow> media_job list" where
  "dead_runs env s =
     (let cutoff = se_now env - (media_job_time_limit + stuck_grace)
      in take sweep_batch_size (sort_key (\<lambda>r. the (mj_started_at r))
           (filter (\<lambda>r. mj_status r = Processing
                       \<and> (case mj_started_at r of None \<Rightarrow> False | Some t \<Rightarrow> t < cutoff)
                       \<and> mj_id r \<notin> set (se_locked_jobs env)) (jobs s))))"

definition recover_dead_runs ::
  "sweep_env \<Rightarrow> 'loc publish_env \<Rightarrow> 'loc media_state \<Rightarrow> 'loc media_state" where
  "recover_dead_runs env penv s =
     (let dead = dead_runs env s;
          requeue = map mj_id (filter (\<lambda>r. mj_attempts r < max_job_attempts) dead);
          timed_out = map mj_id (filter (\<lambda>r. \<not> mj_attempts r < max_job_attempts) dead);
          s = foldl (\<lambda>s j. mark_failed (se_now env) j ProcessingTimeout ''no run finished'' s) s timed_out;
          s = s\<lparr>jobs := map (\<lambda>r. if mj_id r \<in> set requeue
                 then r\<lparr>mj_status := Queued, mj_updated_at := se_now env\<rparr> else r) (jobs s)\<rparr>;
          s = foldl (\<lambda>s j. finish penv j s) s timed_out
      in dispatch (se_broker_up env) 0 requeue s)"

text \<open>\<open>se_head\<close> is \<open>None\<close> when the bucket cannot be reached: the loop stops there.\<close>

fun check_sources :: "sweep_env \<Rightarrow> media_job list \<Rightarrow> string list \<times> nat list" where
  "check_sources env [] = ([], [])"
| "check_sources env (r # rs) =
     (case se_head env (mj_source_key r) of
        None \<Rightarrow> ([], [])
      | Some present \<Rightarrow>
          (let (keys, ids) = check_sources env rs
           in (if present then mj_source_key r # keys else keys, mj_id r # ids)))"

definition delete_failed_sources :: "sweep_env \<Rightarrow> 'loc media_state \<Rightarrow> 'loc media_state" where
  "delete_failed_sources env s =
     (let cutoff = se_now env - failed_source_ttl;
          rs = take sweep_batch_size (sort_key (\<lambda>r. the (mj_finished_at r))
            (filter (\<lambda>r. mj_status r = Failed
                        \<and> (case mj_finished_at r of None \<Rightarrow> False | Some t \<Rightarrow> t < cutoff)
                        \<and> mj_source_deleted_at r = None) (jobs s)));
          (keys, ids) = check_sources env rs;
          s = (if keys \<noteq> [] then media_emit (DeleteKeys keys) s else s)
      in s\<lparr>jobs := map (\<lambda>r. if mj_id r \<in> set ids
             then r\<lparr>mj_source_deleted_at := Some (se_now env)\<rparr> else r) (jobs s)\<rparr>)"

definition jobs_of_publication :: "'loc media_state \<Rightarrow> 'loc publication \<Rightarrow> media_job list" where
  "jobs_of_publication s p = filter (\<lambda>r. mj_id r \<in> set (pub_jobs p)) (jobs s)"

definition settle_publications :: "'loc publish_env \<Rightarrow> 'loc media_state \<Rightarrow> 'loc media_state" where
  "settle_publications penv s =
     foldl (\<lambda>s pid. snd (try_publish penv pid s)) s
       (take sweep_batch_size (map pub_id (sort_key pub_created_at
         (filter (\<lambda>p. pub_status p = PubProcessing
                     \<and> (list_ex (\<lambda>r. mj_status r = Failed) (jobs_of_publication s p)
                        \<or> list_all (\<lambda>r. mj_status r = Ready) (jobs_of_publication s p)))
           (publications s)))))"

definition expire_publications ::
  "sweep_env \<Rightarrow> 'loc publish_env \<Rightarrow> 'loc media_state \<Rightarrow> 'loc media_state" where
  "expire_publications env penv s =
     foldl (\<lambda>s pid. snd (expire_publication (pe_held penv) pid s)) s
       (take sweep_batch_size (map pub_id (sort_key pub_created_at
         (filter (\<lambda>p. pub_status p = PubProcessing \<and> pub_created_at p < se_now env - publication_timeout)
           (publications s)))))"

definition sweep :: "sweep_env \<Rightarrow> 'loc publish_env \<Rightarrow> 'loc media_state \<Rightarrow> 'loc media_state" where
  "sweep env penv s =
     expire_publications env penv
       (settle_publications penv
         (delete_failed_sources env
           (recover_dead_runs env penv (redispatch_queued env s))))"

definition recover_after_restart :: "sweep_env \<Rightarrow> 'loc media_state \<Rightarrow> 'loc media_state" where
  "recover_after_restart env s =
     (let js = map mj_id (filter (\<lambda>r. mj_status r = Processing \<and> mj_id r \<notin> set (se_locked_jobs env)) (jobs s));
          s = s\<lparr>jobs := map (\<lambda>r. if mj_id r \<in> set js
                 then r\<lparr>mj_status := Queued, mj_updated_at := se_now env\<rparr> else r) (jobs s)\<rparr>
      in dispatch (se_broker_up env) 0 js s)"

end
