(* ===== verification/Media_Laws.thy ===== *)
theory Media_Laws
  imports Media_Jobs
begin

text \<open>
  The step relation of media processing and its invariants. A run in progress owns its row: the row is
  processing, and no other run holds a copy of it. A finished job and a settled publication stay as they
  are. What the clock is trusted for: a run is gone, killed by the hard limit, before the sweeper or
  another claim may call it dead.
\<close>

section \<open>Rows of jobs\<close>

definition row_ok :: "media_job \<Rightarrow> bool" where
  "row_ok r \<longleftrightarrow> mj_attempts r \<le> max_job_attempts \<and>
     (mj_status r = Processing \<longrightarrow> 1 \<le> mj_attempts r \<and> mj_started_at r \<noteq> None) \<and>
     (mj_status r = Failed \<longrightarrow> mj_error r \<noteq> None \<and> mj_finished_at r \<noteq> None) \<and>
     (mj_status r = Ready \<longrightarrow> mj_finished_at r \<noteq> None \<and> mj_source_deleted_at r \<noteq> None
        \<and> mj_size r \<noteq> None \<and> mj_error r = None)"

definition same_run :: "media_job \<Rightarrow> media_job \<Rightarrow> bool" where
  "same_run r job \<longleftrightarrow> mj_id r = mj_id job \<and> mj_status r = Processing \<and> mj_started_at r = mj_started_at job
     \<and> mj_source_key r = mj_source_key job \<and> mj_created_at r = mj_created_at job \<and> mj_kind r = mj_kind job"

definition run_ids :: "(media_job \<times> nat) list \<Rightarrow> nat list" where
  "run_ids rs = map (\<lambda>(job, _). mj_id job) rs"

definition job_inv :: "media_job list \<Rightarrow> (media_job \<times> nat) list \<Rightarrow> bool" where
  "job_inv rows rs \<longleftrightarrow> distinct (map mj_id rows) \<and> distinct (map mj_source_key rows) \<and> list_all row_ok rows
     \<and> distinct (run_ids rs) \<and> (\<forall>(job, n) \<in> set rs. \<exists>r \<in> set rows. same_run r job)"

definition drop_run :: "nat \<Rightarrow> (media_job \<times> nat) list \<Rightarrow> (media_job \<times> nat) list" where
  "drop_run j rs = filter (\<lambda>(job, _). mj_id job \<noteq> j) rs"

lemma job_inv_drop: "job_inv rows rs \<Longrightarrow> job_inv rows (drop_run j rs)"
  by (auto simp: job_inv_def drop_run_def run_ids_def distinct_map_filter)

lemma drop_run_ids: "j \<notin> set (run_ids (drop_run j rs))"
  by (auto simp: drop_run_def run_ids_def)

lemma job_inv_row: "job_inv rows rs \<Longrightarrow> r \<in> set rows \<Longrightarrow> row_ok r"
  by (simp add: job_inv_def list_all_iff)

lemma job_inv_id: "job_inv rows rs \<Longrightarrow> r \<in> set rows \<Longrightarrow> q \<in> set rows \<Longrightarrow> mj_id r = mj_id q \<Longrightarrow> r = q"
  by (auto simp: job_inv_def dest: inj_onD [OF distinct_map [THEN iffD1, THEN conjunct2]])

section \<open>Operations on some jobs\<close>

text \<open>\<open>touches J s t\<close>: \<open>t\<close> differs from \<open>s\<close> in the rows of \<open>J\<close> only, as far as jobs and runs go.\<close>

definition touches :: "nat set \<Rightarrow> 'l media_state \<Rightarrow> 'l media_state \<Rightarrow> bool" where
  "touches J s t \<longleftrightarrow> runs t = runs s \<and>
     (\<exists>f. jobs t = map f (jobs s) \<and>
        (\<forall>r. mj_id (f r) = mj_id r \<and> mj_source_key (f r) = mj_source_key r \<and>
             (mj_id r \<notin> J \<longrightarrow> f r = r) \<and> (row_ok r \<longrightarrow> row_ok (f r))))"

named_theorems touching

lemma touches_same: "jobs t = jobs s \<Longrightarrow> runs t = runs s \<Longrightarrow> touches J s t"
  by (auto simp: touches_def intro!: exI [of _ id])

lemma touches_trans: "touches J s t \<Longrightarrow> touches J t u \<Longrightarrow> touches J s u"
  unfolding touches_def
proof (elim conjE exE, intro conjI, simp, goal_cases)
  case (1 f g)
  then show ?case by (intro exI [of _ "g \<circ> f"]) simp
qed

lemma touches_mono: "touches J s t \<Longrightarrow> J \<subseteq> K \<Longrightarrow> touches K s t"
  by (auto simp: touches_def)

lemma touches_map:
  assumes "jobs t = map (\<lambda>r. if mj_id r \<in> J then f r else r) (jobs s)" "runs t = runs s"
    and "\<And>r. mj_id (f r) = mj_id r" "\<And>r. mj_source_key (f r) = mj_source_key r"
    and "\<And>r. row_ok r \<Longrightarrow> row_ok (f r)"
  shows "touches J s t"
  using assms by (auto simp: touches_def intro!: exI [of _ "\<lambda>r. if mj_id r \<in> J then f r else r"])

lemma touches_update [touching]:
  assumes "\<And>r. mj_id (f r) = mj_id r" "\<And>r. mj_source_key (f r) = mj_source_key r"
    and "\<And>r. row_ok r \<Longrightarrow> row_ok (f r)" "j \<in> J"
  shows "touches J s (update_job j f s)"
  by (rule touches_mono [OF touches_map [of _ "{j}" f]]) (use assms in \<open>auto simp: update_job_def\<close>)

lemma touches_fold:
  assumes "\<And>s j. j \<in> set js \<Longrightarrow> touches J s (f s j)"
  shows "touches J s (foldl f s js)"
  using assms
  by (induction js arbitrary: s) (auto intro: touches_same touches_trans)

lemma touches_inv:
  assumes inv: "job_inv (jobs s) (runs s)" and t: "touches J s t"
    and sub: "set rs \<subseteq> set (runs s)" "distinct (run_ids rs)" and free: "J \<inter> set (run_ids rs) = {}"
  shows "job_inv (jobs t) rs"
proof -
  obtain f where f: "jobs t = map f (jobs s)" "\<And>r. mj_id (f r) = mj_id r"
      "\<And>r. mj_source_key (f r) = mj_source_key r" "\<And>r. mj_id r \<notin> J \<Longrightarrow> f r = r"
      "\<And>r. row_ok r \<Longrightarrow> row_ok (f r)"
    using t by (auto simp: touches_def)
  have "map mj_id (jobs t) = map mj_id (jobs s)" "map mj_source_key (jobs t) = map mj_source_key (jobs s)"
    by (simp_all add: f)
  moreover have "list_all row_ok (jobs t)" using inv f(5) by (simp add: job_inv_def f(1) list_all_iff)
  moreover have "\<exists>q \<in> set (jobs t). same_run q job" if m: "(job, n) \<in> set rs" for job n
  proof -
    obtain r where r: "r \<in> set (jobs s)" "same_run r job"
      using inv m sub(1) by (fastforce simp: job_inv_def)
    have "mj_id r \<in> set (run_ids rs)" using r(2) m by (force simp: run_ids_def same_run_def)
    with free have "f r = r" by (auto intro: f(4))
    with r show ?thesis by (force simp: f(1))
  qed
  ultimately show ?thesis using inv sub(2) by (auto simp: job_inv_def simp del: map_map)
qed

lemma touches_inv_free:
  assumes "job_inv (jobs s) (runs s)" "touches J s t" "J \<inter> set (run_ids (runs s)) = {}"
  shows "job_inv (jobs t) (runs t)"
proof -
  have "runs t = runs s" using assms(2) by (simp add: touches_def)
  moreover have "distinct (run_ids (runs s))" using assms(1) by (simp add: job_inv_def)
  ultimately show ?thesis using touches_inv [OF assms(1,2), of "runs t"] assms(3) by simp
qed

lemma touches_inv_end:
  assumes "job_inv (jobs s) (runs s)" and "touches {j} s t"
  shows "job_inv (jobs t) (drop_run j (runs t))"
proof (rule touches_inv [OF assms])
  have "runs t = runs s" using assms(2) by (simp add: touches_def)
  then show "set (drop_run j (runs t)) \<subseteq> set (runs s)" "distinct (run_ids (drop_run j (runs t)))"
    using job_inv_drop [OF assms(1), of j] by (auto simp: drop_run_def job_inv_def)
  show "{j} \<inter> set (run_ids (drop_run j (runs t))) = {}" by (simp add: drop_run_ids)
qed

text \<open>A finished row stays, apart from the stamp of its source's deletion.\<close>

definition keeps_finished :: "media_job list \<Rightarrow> media_job list \<Rightarrow> bool" where
  "keeps_finished rows rows' \<longleftrightarrow>
     (\<forall>r \<in> set rows. is_finished r \<longrightarrow> (\<exists>x. r\<lparr>mj_source_deleted_at := x\<rparr> \<in> set rows'))"

lemma keeps_finished_refl [simp]: "keeps_finished rows rows"
  unfolding keeps_finished_def
proof (intro ballI impI)
  fix r assume "r \<in> set rows"
  then show "\<exists>x. r\<lparr>mj_source_deleted_at := x\<rparr> \<in> set rows"
    by (intro exI [of _ "mj_source_deleted_at r"]) simp
qed

lemma keeps_finished_trans: "keeps_finished a b \<Longrightarrow> keeps_finished b c \<Longrightarrow> keeps_finished a c"
  by (fastforce simp: keeps_finished_def is_finished_def)

lemma touches_keeps:
  assumes t: "touches J s t" and J: "\<And>r. r \<in> set (jobs s) \<Longrightarrow> mj_id r \<in> J \<Longrightarrow> \<not> is_finished r"
  shows "keeps_finished (jobs s) (jobs t)"
  unfolding keeps_finished_def
proof (intro ballI impI)
  fix r assume r: "r \<in> set (jobs s)" "is_finished r"
  with J have "mj_id r \<notin> J" by blast
  with t r(1) have "r \<in> set (jobs t)" by (auto simp: touches_def) (metis image_eqI)
  then show "\<exists>x. r\<lparr>mj_source_deleted_at := x\<rparr> \<in> set (jobs t)"
    by (intro exI [of _ "mj_source_deleted_at r"]) simp
qed

lemma update_job_simps [simp]:
  "runs (update_job j f s) = runs s" "publications (update_job j f s) = publications s"
  "posts (update_job j f s) = posts s" "highlights (update_job j f s) = highlights s"
  "job_queue (update_job j f s) = job_queue s" "effects (update_job j f s) = effects s"
  by (simp_all add: update_job_def)

lemma media_emit_simps [simp]:
  "jobs (media_emit e s) = jobs s" "runs (media_emit e s) = runs s" "publications (media_emit e s) = publications s"
  "posts (media_emit e s) = posts s" "highlights (media_emit e s) = highlights s"
  "job_queue (media_emit e s) = job_queue s"
  by (simp_all add: media_emit_def)

lemma dispatch_simps [simp]:
  "jobs (dispatch b n js s) = jobs s" "runs (dispatch b n js s) = runs s"
  "publications (dispatch b n js s) = publications s" "posts (dispatch b n js s) = posts s"
  "highlights (dispatch b n js s) = highlights s"
  by (simp_all add: dispatch_def)

lemma mark_failed_touches [touching]: "j \<in> J \<Longrightarrow> touches J s (mark_failed now j c d s)"
  unfolding mark_failed_def by (rule touches_update) (simp_all add: row_ok_def)

lemma mark_ready_touches [touching]: "j \<in> J \<Longrightarrow> touches J s (mark_ready now j res u v s)"
  unfolding mark_ready_def by (rule touches_update) (simp_all add: row_ok_def)

lemma release_touches [touching]: "j \<in> J \<Longrightarrow> touches J s (release now j refund s)"
  unfolding release_def by (rule touches_update) (auto simp: row_ok_def)

lemma fail_unfinished_touches [touching]: "j \<in> J \<Longrightarrow> touches J s (snd (fail_unfinished now j c d s))"
  by (auto simp: fail_unfinished_def split: option.split intro: touching touches_same)

section \<open>Publishing leaves the jobs alone\<close>

lemma create_post_frame:
  "create_post env a cleaned s = Inr (i, t) \<Longrightarrow>
     jobs t = jobs s \<and> runs t = runs s \<and> publications t = publications s \<and> job_queue t = job_queue s
       \<and> highlights t = highlights s"
  by (auto simp: create_post_def Let_def split: option.splits)

lemma insert_highlight_frame:
  "insert_highlight now c s = Inr (i, t) \<Longrightarrow>
     jobs t = jobs s \<and> runs t = runs s \<and> publications t = publications s \<and> job_queue t = job_queue s
       \<and> posts t = posts s"
  by (auto simp: insert_highlight_def Let_def split: option.splits if_splits)

lemma create_highlight_frame:
  "create_highlight env a b p s = Inr (i, t) \<Longrightarrow>
     jobs t = jobs s \<and> runs t = runs s \<and> publications t = publications s \<and> job_queue t = job_queue s
       \<and> posts t = posts s"
  by (auto simp: create_highlight_def h_bind_Inr dest: insert_highlight_frame split: if_splits)

lemma publish_as_cases:
  assumes "publish_as env p a s = PublishedAs rid t"
  obtains (post) data cleaned where "pub_payload p = HeldPost data"
      "validate_create_payload (pe_create env) s a data (Some (pub_id p)) = Inr cleaned" "cl_pending cleaned = []"
      "create_post (pe_create env) a cleaned s = Inr (rid, t)"
  | (clip) b where "pub_payload p = HeldHighlight b"
      "create_highlight (pe_create env) a b (Some (pub_id p)) s = Inr (rid, t)"
proof (cases "pub_payload p")
  case (HeldPost data)
  then show ?thesis
    using assms by (auto simp: publish_as_def split: if_splits sum.splits prod.splits intro: post)
next
  case (HeldHighlight b)
  then show ?thesis
    using assms by (auto simp: publish_as_def split: if_splits sum.splits prod.splits intro: clip)
qed

lemma publish_as_frame:
  "publish_as env p a s = PublishedAs rid t \<Longrightarrow>
     jobs t = jobs s \<and> runs t = runs s \<and> publications t = publications s \<and> job_queue t = job_queue s"
  by (cases rule: publish_as_cases) (auto dest: create_post_frame create_highlight_frame)

lemma save_publication_simps [simp]:
  "jobs (save_publication p s) = jobs s" "runs (save_publication p s) = runs s"
  "posts (save_publication p s) = posts s" "highlights (save_publication p s) = highlights s"
  "job_queue (save_publication p s) = job_queue s"
  "publications (save_publication p s) = tbl_save pub_id p (publications s)"
  by (simp_all add: save_publication_def)

lemma after_change_simps [simp]:
  "jobs (after_change p s) = jobs s" "runs (after_change p s) = runs s"
  "publications (after_change p s) = publications s"
  "posts (after_change p s) = posts s" "highlights (after_change p s) = highlights s"
  "job_queue (after_change p s) = job_queue s"
  by (simp_all add: after_change_def pub_announce_def Let_def)

text \<open>Everything \<open>try_publish\<close> can do.\<close>

lemma try_publish_cases:
  assumes "try_publish env pid s = (o', t)"
  obtains (still) "o' = None" "t = s"
  | (fails) p q c m where "p \<in> set (publications s)" "pub_id p = pid" "pub_status p = PubProcessing"
      "q = failed_publication c m p" "o' = Some PubFailed" "t = after_change q (save_publication q s)"
      "(\<exists>j \<in> set (jobs_of_publication s p). mj_status j = Failed) \<or>
       (\<forall>j \<in> set (jobs_of_publication s p). mj_status j = Ready)"
  | (publishes) p q a rid u where "p \<in> set (publications s)" "pub_id p = pid" "pub_status p = PubProcessing"
      "\<forall>j \<in> set (jobs_of_publication s p). mj_status j = Ready" "rebuild_actor env p = Some a"
      "publish_as env p a s = PublishedAs rid u"
      "q = p\<lparr>pub_status := Published, pub_result := Some rid, pub_published_at := Some (pe_now env)\<rparr>"
      "o' = Some Published" "t = after_change q (save_publication q u)"
proof (cases "find (\<lambda>p. pub_id p = pid \<and> pub_status p = PubProcessing \<and> pid \<notin> set (pe_held env)) (publications s)")
  case None
  with assms show ?thesis by (auto simp: try_publish_def intro: still)
next
  case (Some p)
  have p: "p \<in> set (publications s)" "pub_id p = pid" "pub_status p = PubProcessing"
    using find_eq_Some_conv [OF Some] by auto
  show ?thesis
  proof (cases "find (\<lambda>j. mj_status j = Failed) (jobs_of_publication s p)")
    case (Some j)
    with \<open>find _ (publications s) = Some p\<close> assms p find_eq_Some_conv [OF Some] show ?thesis
      by (auto simp: try_publish_def jobs_of_publication_def [symmetric] failed_publication_def intro!: fails [OF p refl])
  next
    case no_failed: None
    show ?thesis
    proof (cases "list_ex (\<lambda>j. mj_status j \<noteq> Ready) (jobs_of_publication s p)")
      case True
      with Some no_failed assms show ?thesis
        by (auto simp: try_publish_def jobs_of_publication_def [symmetric] intro: still)
    next
      case False
      then have ready: "\<forall>j \<in> set (jobs_of_publication s p). mj_status j = Ready" by (auto simp: list_ex_iff)
      show ?thesis
      proof (cases "rebuild_actor env p")
        case None
        with Some no_failed False ready assms show ?thesis
          by (auto simp: try_publish_def jobs_of_publication_def [symmetric] failed_publication_def
              intro!: fails [OF p refl])
      next
        case actor: (Some a)
        show ?thesis
        proof (cases "publish_as env p a s")
          case (PublishedAs rid u)
          with Some no_failed False ready actor assms show ?thesis
            by (auto simp: try_publish_def jobs_of_publication_def [symmetric]
                intro!: publishes [OF p ready actor PublishedAs refl])
        next
          case StillPending
          with Some no_failed False actor assms show ?thesis
            by (auto simp: try_publish_def jobs_of_publication_def [symmetric] intro: still)
        qed (use Some no_failed False ready actor assms in
            \<open>auto simp: try_publish_def jobs_of_publication_def [symmetric] failed_publication_def
               intro!: fails [OF p refl]\<close>)
      qed
    qed
  qed
qed

lemma try_publish_frame [simp]:
  "jobs (snd (try_publish env pid s)) = jobs s" "runs (snd (try_publish env pid s)) = runs s"
  "job_queue (snd (try_publish env pid s)) = job_queue s"
proof -
  obtain o' t where t: "try_publish env pid s = (o', t)" by fastforce
  then have "jobs t = jobs s \<and> runs t = runs s \<and> job_queue t = job_queue s"
    by (cases rule: try_publish_cases) (auto dest: publish_as_frame)
  with t show "jobs (snd (try_publish env pid s)) = jobs s" "runs (snd (try_publish env pid s)) = runs s"
    "job_queue (snd (try_publish env pid s)) = job_queue s" by simp_all
qed

lemma publish_each_frame [simp]:
  "jobs (foldl (\<lambda>s pid. snd (try_publish env pid s)) s ps) = jobs s"
  "runs (foldl (\<lambda>s pid. snd (try_publish env pid s)) s ps) = runs s"
  "job_queue (foldl (\<lambda>s pid. snd (try_publish env pid s)) s ps) = job_queue s"
  by (induction ps arbitrary: s) simp_all

lemma finish_frame [simp]:
  "jobs (finish env j s) = jobs s" "runs (finish env j s) = runs s" "job_queue (finish env j s) = job_queue s"
  by (simp_all add: finish_def publish_waiting_def split: option.split)

lemma expire_publication_frame [simp]:
  "jobs (snd (expire_publication held pid s)) = jobs s" "runs (snd (expire_publication held pid s)) = runs s"
  "job_queue (snd (expire_publication held pid s)) = job_queue s"
  by (simp_all add: expire_publication_def Let_def split: option.split)

lemma expire_each_frame [simp]:
  "jobs (foldl (\<lambda>s pid. snd (expire_publication held pid s)) s ps) = jobs s"
  "runs (foldl (\<lambda>s pid. snd (expire_publication held pid s)) s ps) = runs s"
  "job_queue (foldl (\<lambda>s pid. snd (expire_publication held pid s)) s ps) = job_queue s"
  by (induction ps arbitrary: s) simp_all


section \<open>Runs\<close>

lemma touches_pre: "touches J s t \<Longrightarrow> jobs u = jobs t \<Longrightarrow> runs u = runs t \<Longrightarrow> touches J s u"
  by (simp add: touches_def)

lemma touches_finish [touching]: "touches J s t \<Longrightarrow> touches J s (finish env j t)"
  by (rule touches_pre) simp_all

lemma touches_dispatch [touching]: "touches J s t \<Longrightarrow> touches J s (dispatch b n js t)"
  by (rule touches_pre) simp_all

lemma touches_emit [touching]: "touches J s t \<Longrightarrow> touches J s (media_emit e t)"
  by (rule touches_pre) simp_all

lemma touches_refl [touching]: "touches J s s"
  by (rule touches_same) simp_all

lemma keyed_touches:
  "mj_id job \<in> J \<Longrightarrow> touches J s (if keyed = job then s else update_job (mj_id job)
     (\<lambda>r. r\<lparr>mj_output_key := k, mj_thumbnail_key := t, mj_updated_at := u\<rparr>) s)"
  by (auto intro!: touches_update touches_refl simp: row_ok_def)

lemma process_job_touches:
  assumes "process_job env job s = (e, t)" "mj_id job \<in> J"
  shows "touches J s t"
proof -
  define keyed where "keyed = assign_output_keys env job"
  define u where "u = (if keyed = job then s else update_job (mj_id job)
     (\<lambda>r. r\<lparr>mj_output_key := mj_output_key keyed, mj_thumbnail_key := mj_thumbnail_key keyed,
            mj_updated_at := re_now env\<rparr>) s)"
  have u: "touches J s u" unfolding u_def by (rule keyed_touches [OF assms(2)])
  have "touches J u (mark_ready n (mj_id job) res o' th u)" for n res o' th
    by (rule mark_ready_touches [OF assms(2)])
  with u have m: "touches J s (mark_ready n (mj_id job) res o' th u)" for n res o' th
    by (blast intro: touches_trans)
  have t: "t = s \<or> t = u \<or> (\<exists>n res o' th. t = mark_ready n (mj_id job) res o' th u
      \<or> t = media_emit (DeleteKeys [mj_source_key job]) (mark_ready n (mj_id job) res o' th u))"
    using assms(1)
    by (simp add: process_job_def keyed_def [symmetric] u_def [symmetric] Let_def
        split: sum.splits option.splits if_splits) blast+
  then show ?thesis by (elim disjE exE) (simp_all add: touches_refl u m touches_emit)
qed

lemma finish_run_touches:
  assumes "mj_id job \<in> J"
  shows "touches J s (snd (finish_run env penv job s))"
proof -
  obtain e u where p: "process_job env job s = (e, u)" by fastforce
  have u: "touches J s u" by (rule process_job_touches [OF p assms])
  have step: "touches J u v \<Longrightarrow> touches J s v" for v by (rule touches_trans [OF u])
  show ?thesis
  proof (cases "re_can_convert env (mj_kind job)")
    case False
    then show ?thesis
      using assms by (simp add: finish_run_def Let_def touching)
  next
    case True
    then show ?thesis
      using assms u by (simp add: finish_run_def p Let_def touching step split: option.splits run_failure.splits)
  qed
qed

lemma give_up_touches: "j \<in> J \<Longrightarrow> touches J s (give_up penv now j d s)"
  using fail_unfinished_touches [of j J s now Internal d]
  by (auto simp: give_up_def intro!: touches_finish split: prod.splits bool.splits)

lemma task_touches:
  assumes "mj_id job \<in> J"
  shows "touches J s (task_after_run b env penv n job s)"
proof -
  obtain f u where p: "finish_run env penv job s = (f, u)" by fastforce
  have u: "touches J s u" using finish_run_touches [OF assms, of s env penv] p by simp
  have "touches J s (give_up penv t (mj_id job) d u)" for t d
    by (rule touches_trans [OF u give_up_touches [OF assms]])
  with u show ?thesis
    by (auto simp: task_after_run_def p intro!: touches_dispatch split: bool.splits)
qed

text \<open>A claim that hands out a run; one that does not.\<close>

lemma claim_cases:
  assumes "claim env j s = (c, t)"
  obtains (nothing) "c = None" "t = s"
  | (exhausted) r where "job_of s j = Some r" "\<not> is_finished r" "max_job_attempts \<le> mj_attempts r" "c = None"
      "\<not> (mj_status r = Processing \<and> (\<exists>x. mj_started_at r = Some x \<and> x > pe_now env - (media_job_time_limit + stuck_grace)))"
      "t = finish env j (mark_failed (pe_now env) j ProcessingTimeout ''gave up after attempts that never finished'' s)"
  | (claimed) r upd where "job_of s j = Some r" "\<not> is_finished r" "mj_attempts r < max_job_attempts"
      "\<not> (mj_status r = Processing \<and> (\<exists>x. mj_started_at r = Some x \<and> x > pe_now env - (media_job_time_limit + stuck_grace)))"
      "upd = (\<lambda>r. r\<lparr>mj_status := Processing, mj_started_at := Some (pe_now env),
                     mj_attempts := mj_attempts r + 1, mj_updated_at := pe_now env\<rparr>)"
      "c = Some (upd r)" "t = update_job j upd s"
  using assms by (auto simp: claim_def Let_def split: option.splits if_splits)

definition runs_young :: "instant \<Rightarrow> (media_job \<times> nat) list \<Rightarrow> bool" where
  "runs_young now rs \<longleftrightarrow>
     (\<forall>(job, n) \<in> set rs. \<exists>t. mj_started_at job = Some t \<and> t > now - (media_job_time_limit + stuck_grace))"

lemma live_row:
  assumes inv: "job_inv (jobs s) (runs s)" and young: "runs_young now (runs s)"
    and r: "r \<in> set (jobs s)" "mj_id r \<in> set (run_ids (runs s))"
  shows "mj_status r = Processing" "\<exists>t. mj_started_at r = Some t \<and> t > now - (media_job_time_limit + stuck_grace)"
    "\<not> is_finished r"
proof -
  obtain job n where m: "(job, n) \<in> set (runs s)" "mj_id job = mj_id r" using r(2) by (auto simp: run_ids_def)
  then obtain q where q: "q \<in> set (jobs s)" "same_run q job" using inv by (auto simp: job_inv_def)
  with m have "q = r" using job_inv_id [OF inv q(1) r(1)] by (simp add: same_run_def)
  with q m young show "mj_status r = Processing"
    "\<exists>t. mj_started_at r = Some t \<and> t > now - (media_job_time_limit + stuck_grace)" "\<not> is_finished r"
    by (auto simp: same_run_def runs_young_def is_finished_def)
qed

lemma claim_inv:
  assumes inv: "job_inv (jobs s) (runs s)" and young: "runs_young (pe_now env) (runs s)"
    and c: "claim env j s = (c, t)"
  shows "job_inv (jobs t) (case c of None \<Rightarrow> runs t | Some job \<Rightarrow> (job, n) # runs t)"
  using c
proof (cases rule: claim_cases)
  case nothing
  with inv show ?thesis by simp
next
  case (exhausted r)
  have r: "r \<in> set (jobs s)" "mj_id r = j"
    using tbl_get_in tbl_get_key exhausted(1) by (force simp: job_of_def)+
  have "j \<notin> set (run_ids (runs s))" using live_row [OF inv young r(1)] exhausted(5) r(2) by auto
  then have "{j} \<inter> set (run_ids (runs s)) = {}" by simp
  from touches_inv_free [OF inv touches_finish [OF mark_failed_touches] this] show ?thesis
    by (simp add: exhausted(4,6))
next
  case (claimed r upd)
  have r: "r \<in> set (jobs s)" "mj_id r = j"
    using tbl_get_in tbl_get_key claimed(1) by (force simp: job_of_def)+
  have "j \<notin> set (run_ids (runs s))" using live_row [OF inv young r(1)] claimed(4) r(2) by auto
  then have free: "{j} \<inter> set (run_ids (runs s)) = {}" by simp
  have ok: "row_ok (upd r)"
    using job_inv_row [OF inv r(1)] claimed(3) by (simp add: claimed(5) row_ok_def)
  have mem: "upd r \<in> set (jobs t)"
    using r by (force simp: claimed(7) update_job_def)
  have same: "runs t = runs s" by (simp add: claimed(7))
  define g where "g = (\<lambda>x. if mj_attempts x < max_job_attempts then upd x else x)"
  have "upd q = g q" if "q \<in> set (jobs s)" "mj_id q = j" for q
    using job_inv_id [OF inv that(1) r(1)] that(2) r(2) claimed(3) by (simp add: g_def)
  then have eq: "jobs t = jobs (update_job j g s)" by (simp add: claimed(7) update_job_def)
  have "touches {j} s (update_job j g s)"
    by (rule touches_update) (simp_all add: g_def claimed(5) row_ok_def)
  from touches_inv_free [OF inv this free] have inv': "job_inv (jobs t) (runs t)"
    by (simp add: eq same)
  have "same_run (upd r) (upd r)" "mj_id (upd r) = j" using r(2) by (simp_all add: same_run_def claimed(5))
  with inv' mem free show ?thesis
    by (simp add: claimed(6) job_inv_def run_ids_def same) blast
qed

end
