(* ===== verification/Highlight_Laws.thy ===== *)
theory Highlight_Laws
  imports Highlights
begin

text \<open>
  The rail: at most ten live clips per player, in an order without ties. Every write keeps it, the write a
  publication makes included.
\<close>

definition live_of :: "highlight_row list \<Rightarrow> uid \<Rightarrow> highlight_row list" where
  "live_of hs u = filter (\<lambda>h. hl_user h = u \<and> \<not> hl_is_deleted h) hs"

lemma live_rail_of: "live_rail s u = live_of (highlights s) u"
  by (simp add: live_rail_def live_of_def)

definition rail_inv :: "highlight_row list \<Rightarrow> bool" where
  "rail_inv hs \<longleftrightarrow> tbl_ok hl_id hs \<and>
     (\<forall>u. length (live_of hs u) \<le> max_highlights \<and> distinct (map hl_order (live_of hs u)))"

lemma rail_row_eq: "tbl_ok hl_id hs \<Longrightarrow> h \<in> set hs \<Longrightarrow> k \<in> set hs \<Longrightarrow> hl_id h = hl_id k \<Longrightarrow> h = k"
  by (auto simp: tbl_ok_def dest: inj_onD [OF distinct_map [THEN iffD1, THEN conjunct2]])

text \<open>A write that leaves owner, order and deletion of every row alone.\<close>

lemma rail_inv_map:
  assumes inv: "rail_inv hs"
    and f: "\<And>h. h \<in> set hs \<Longrightarrow> hl_id (f h) = hl_id h \<and> hl_user (f h) = hl_user h
      \<and> hl_order (f h) = hl_order h \<and> (hl_is_deleted h \<longrightarrow> hl_is_deleted (f h))"
  shows "rail_inv (map f hs)"
proof -
  have sub: "length (live_of (map f hs) u) \<le> length (live_of hs u) \<and>
      (distinct (map hl_order (live_of hs u)) \<longrightarrow> distinct (map hl_order (live_of (map f hs) u))) \<and>
      set (map hl_order (live_of (map f hs) u)) \<subseteq> set (map hl_order (live_of hs u))" for u
    using f
  proof (induction hs)
    case (Cons h hs)
    have "hl_user (f h) = hl_user h" "hl_order (f h) = hl_order h" "hl_is_deleted h \<longrightarrow> hl_is_deleted (f h)"
      using Cons.prems by simp_all
    moreover note Cons.IH [OF Cons.prems, OF list.set_intros(2)]
    ultimately show ?case by (auto simp: live_of_def)
  qed (simp add: live_of_def)
  have "map hl_id (map f hs) = map hl_id hs" using f by simp
  then have "tbl_ok hl_id (map f hs)" using inv by (simp add: rail_inv_def tbl_ok_def del: map_map)
  moreover have "length (live_of (map f hs) u) \<le> max_highlights \<and> distinct (map hl_order (live_of (map f hs) u))" for u
    using inv sub [of u] by (auto simp: rail_inv_def intro: order_trans)
  ultimately show ?thesis by (simp add: rail_inv_def)
qed

lemma rail_inv_save:
  assumes "rail_inv hs" "h \<in> set hs" "hl_id k = hl_id h" "hl_user k = hl_user h" "hl_order k = hl_order h"
    "hl_is_deleted h \<longrightarrow> hl_is_deleted k"
  shows "rail_inv (tbl_save hl_id k hs)"
  unfolding tbl_save_def
proof (rule rail_inv_map [OF assms(1)])
  fix x assume "x \<in> set hs"
  with assms have "hl_id x = hl_id k \<Longrightarrow> x = h" using rail_row_eq by (metis rail_inv_def)
  with assms(3-6) show "hl_id (if hl_id x = hl_id k then k else x) = hl_id x
      \<and> hl_user (if hl_id x = hl_id k then k else x) = hl_user x
      \<and> hl_order (if hl_id x = hl_id k then k else x) = hl_order x
      \<and> (hl_is_deleted x \<longrightarrow> hl_is_deleted (if hl_id x = hl_id k then k else x))" by auto
qed

lemma fresh_number: "next_id key rows \<notin> key ` set rows"
proof -
  have "x \<in> set xs \<Longrightarrow> x \<le> foldr max xs (0::nat)" for x xs by (induction xs) auto
  then have "r \<in> set rows \<Longrightarrow> key r < next_id key rows" for r
    by (auto simp: next_id_def less_Suc_eq_le)
  then show ?thesis by force
qed

lemma insert_highlight_cases:
  assumes "insert_highlight now c s = Inr (i, t)"
  obtains h f where "ch_fields c = Some f" "t = s\<lparr>highlights := highlights s @ [h]\<rparr>" "hl_id h = i" "i = next_id hl_id (highlights s)"
    "hl_user h = ch_user c" "\<not> hl_is_deleted h" "length (live_rail s (ch_user c)) < max_highlights"
    "\<And>x. x \<in> set (live_rail s (ch_user c)) \<Longrightarrow> hl_order x < hl_order h"
    "hl_public_id h = cf_public_id f" "hl_file_url h = cf_file_url f" "hl_thumbnail_url h = cf_thumbnail_url f"
    "hl_source_post h = ch_source_post c"
proof -
  obtain f where f: "ch_fields c = Some f" "length (live_rail s (ch_user c)) < max_highlights"
    using assms by (auto simp: insert_highlight_def Let_def split: if_splits option.splits)
  show ?thesis
  proof (rule that [OF f(1), of "\<lparr>hl_id = i, hl_user = ch_user c, hl_title = ch_title c, hl_file_url = cf_file_url f,
                hl_public_id = cf_public_id f, hl_thumbnail_url = cf_thumbnail_url f,
                hl_duration = cf_duration f, hl_width = cf_width f, hl_height = cf_height f,
                hl_visibility = ch_visibility c,
                hl_order = (if map hl_order (live_rail s (ch_user c)) = [] then 0
                            else Max (set (map hl_order (live_rail s (ch_user c)))) + 1),
                hl_source_post = ch_source_post c, hl_views_count = 0, hl_is_deleted = False,
                hl_created_at = now, hl_updated_at = now\<rparr>"])
    fix x assume "x \<in> set (live_rail s (ch_user c))"
    moreover from this have "hl_order x \<le> Max (set (map hl_order (live_rail s (ch_user c))))" by simp
    ultimately show "hl_order x < hl_order \<lparr>hl_id = i, hl_user = ch_user c, hl_title = ch_title c, hl_file_url = cf_file_url f,
                hl_public_id = cf_public_id f, hl_thumbnail_url = cf_thumbnail_url f,
                hl_duration = cf_duration f, hl_width = cf_width f, hl_height = cf_height f,
                hl_visibility = ch_visibility c,
                hl_order = (if map hl_order (live_rail s (ch_user c)) = [] then 0
                            else Max (set (map hl_order (live_rail s (ch_user c)))) + 1),
                hl_source_post = ch_source_post c, hl_views_count = 0, hl_is_deleted = False,
                hl_created_at = now, hl_updated_at = now\<rparr>" by auto
  qed (use assms f in \<open>auto simp: insert_highlight_def Let_def tbl_insert_def split: if_splits\<close>)
qed

lemma insert_highlight_rail:
  assumes inv: "rail_inv (highlights s)" and i: "insert_highlight now c s = Inr (i, t)"
  shows "rail_inv (highlights t)"
  using i
proof (cases rule: insert_highlight_cases)
  case (1 h f)
  have live: "live_of (highlights t) u = live_of (highlights s) u @ (if u = ch_user c then [h] else [])" for u
    using 1(5,6) by (simp add: 1(2) live_of_def)
  have "tbl_ok hl_id (highlights t)"
    using inv fresh_number [of hl_id "highlights s"] 1(3,4) by (auto simp: 1(2) rail_inv_def tbl_ok_def)
  moreover have "length (live_of (highlights t) u) \<le> max_highlights \<and> distinct (map hl_order (live_of (highlights t) u))" for u
  proof (cases "u = ch_user c")
    case True
    have "hl_order h \<notin> hl_order ` set (live_of (highlights s) u)"
      using 1(8) True by (force simp: live_rail_of)
    then show ?thesis using inv 1(7) True by (simp add: live rail_inv_def live_rail_of)
  qed (use inv in \<open>simp add: live rail_inv_def\<close>)
  ultimately show ?thesis by (simp add: rail_inv_def)
qed

lemma create_highlight_rail:
  "rail_inv (highlights s) \<Longrightarrow> create_highlight env a b p s = Inr (i, t) \<Longrightarrow> rail_inv (highlights t)"
  by (auto simp: create_highlight_def h_bind_Inr split: if_splits intro: insert_highlight_rail)

lemma owned_highlight:
  "get_owned_highlight s u hid = Inr h \<Longrightarrow> h \<in> set (highlights s) \<and> hl_user h = u \<and> \<not> hl_is_deleted h \<and> hid = Some (hl_id h)"
  by (auto simp: get_owned_highlight_def split: option.splits if_splits dest!: find_eq_Some_conv)

lemma save_highlight_rail:
  assumes "rail_inv (highlights s)" "get_owned_highlight s u hid = Inr h" "hl_id k = hl_id h" "hl_user k = hl_user h"
    "hl_order k = hl_order h"
  shows "rail_inv (highlights (save_highlight k s))"
  using rail_inv_save [OF assms(1), of h k] owned_highlight [OF assms(2)] assms(3-5)
  by (simp add: save_highlight_def)

lemma update_highlight_rail:
  assumes "rail_inv (highlights s)" "update_highlight env a hid ti vi s = Inr (h, t)"
  shows "rail_inv (highlights t)"
proof -
  obtain u g k where g: "get_owned_highlight s u hid = Inr g" "t = save_highlight k s"
      "hl_id k = hl_id g" "hl_user k = hl_user g" "hl_order k = hl_order g"
    using assms(2) by (auto simp: update_highlight_def h_bind_Inr Let_def split: if_splits option.splits)
  with save_highlight_rail [OF assms(1) g(1,3-5)] show ?thesis by simp
qed

lemma delete_highlight_rail:
  assumes "rail_inv (highlights s)" "delete_highlight env a hid s = Inr (h, t)"
  shows "rail_inv (highlights t)"
proof -
  obtain u g k where g: "get_owned_highlight s u hid = Inr g" "t = save_highlight k s"
      "hl_id k = hl_id g" "hl_user k = hl_user g" "hl_order k = hl_order g"
    using assms(2) by (auto simp: delete_highlight_def h_bind_Inr Let_def)
  with save_highlight_rail [OF assms(1) g(1,3-5)] show ?thesis by simp
qed

lemma record_view_rail:
  assumes "rail_inv (highlights s)"
  shows "rail_inv (highlights (snd (record_view role today ao ho s)))"
proof -
  have "rail_inv (map (\<lambda>r. if hl_id r = i \<and> \<not> hl_is_deleted r
      then r\<lparr>hl_views_count := hl_views_count r + 1\<rparr> else r) (highlights s))" for i
    by (rule rail_inv_map [OF assms]) simp
  with assms show ?thesis by (auto simp: record_view_def Let_def split: option.splits)
qed

lemma delete_post_rail: "rail_inv (highlights s) \<Longrightarrow> rail_inv (highlights (snd (delete_post pid a s)))"
proof (cases "find (\<lambda>po. po_id po = pid \<and> po_author po = identity_of a) (posts s)")
  case (Some po)
  assume inv: "rail_inv (highlights s)"
  have "rail_inv (map (\<lambda>h. if hl_source_post h = Some pid then h\<lparr>hl_source_post := None\<rparr> else h) (highlights s))"
    by (rule rail_inv_map [OF inv]) simp
  with Some show ?thesis
    by (auto simp: delete_post_def Let_def media_emit_def split: list.split)
qed (simp add: delete_post_def)

text \<open>A reorder numbers the live clips by their place in the request.\<close>

lemma reorder_cases:
  assumes "reorder_highlights env a ids s = Inr (wanted, t)"
  obtains u where "require_player env a = Inr u" "distinct wanted" "set wanted = hl_id ` set (live_rail s u)"
    "ids = Some (map Some wanted)"
    "t = s\<lparr>highlights := map (\<lambda>h. if hl_id h \<in> set wanted
                   then h\<lparr>hl_order := int (length (takeWhile (\<lambda>i. i \<noteq> hl_id h) wanted)), hl_updated_at := ce_now env\<rparr>
                   else h) (highlights s)\<rparr>"
proof -
  obtain u raw where u: "require_player env a = Inr u" "ids = Some raw"
    using assms by (auto simp: reorder_highlights_def h_bind_Inr split: option.splits)
  with assms have r: "\<not> list_ex (\<lambda>x. x = None) raw" "wanted = map the raw"
    by (auto simp: reorder_highlights_def Let_def split: if_splits)
  then have "Some (the x) = x" if "x \<in> set raw" for x using that by (cases x) (auto simp: list_ex_iff)
  with r(2) have "map Some wanted = raw" by (simp add: map_idI)
  with u r assms show ?thesis
    by (intro that [of u]) (auto simp: reorder_highlights_def Let_def split: if_splits)
qed

lemma place_inj: "i \<in> set xs \<Longrightarrow> k \<in> set xs \<Longrightarrow>
    length (takeWhile (\<lambda>x. x \<noteq> i) xs) = length (takeWhile (\<lambda>x. x \<noteq> k) xs) \<Longrightarrow> i = k"
  by (induction xs) (auto split: if_splits)

lemma reorder_rail:
  assumes inv: "rail_inv (highlights s)" and r: "reorder_highlights env a ids s = Inr (wanted, t)"
  shows "rail_inv (highlights t)"
  using r
proof (cases rule: reorder_cases)
  case (1 u)
  define f where "f = (\<lambda>h :: highlight_row. if hl_id h \<in> set wanted
     then h\<lparr>hl_order := int (length (takeWhile (\<lambda>i. i \<noteq> hl_id h) wanted)), hl_updated_at := ce_now env\<rparr> else h)"
  have t: "highlights t = map f (highlights s)" by (simp add: 1(5) f_def)
  have ids: "map hl_id (map f (highlights s)) = map hl_id (highlights s)" by (simp add: f_def)
  have keep: "hl_user (f h) = hl_user h" "hl_is_deleted (f h) = hl_is_deleted h" "hl_id (f h) = hl_id h" for h
    by (simp_all add: f_def)
  have live: "live_of (map f (highlights s)) v = map f (live_of (highlights s) v)" for v
    by (simp add: live_of_def filter_map o_def keep)
  have ok: "tbl_ok hl_id (highlights s)" using inv by (simp add: rail_inv_def)
  have "distinct (map hl_order (map f (live_of (highlights s) v)))" for v
  proof (cases "v = u")
    case True
    have "inj_on (\<lambda>h. hl_order (f h)) (set (live_of (highlights s) u))"
    proof (rule inj_onI)
      fix h k assume h: "h \<in> set (live_of (highlights s) u)" and k: "k \<in> set (live_of (highlights s) u)"
        and eq: "hl_order (f h) = hl_order (f k)"
      have m: "hl_id h \<in> set wanted" "hl_id k \<in> set wanted" using h k 1(3) by (simp_all add: live_rail_of)
      with eq have "hl_id h = hl_id k" using place_inj [OF m] by (simp add: f_def)
      with h k show "h = k" using rail_row_eq [OF ok] by (simp add: live_of_def)
    qed
    moreover have "distinct (live_of (highlights s) u)"
      using ok by (auto simp: live_of_def tbl_ok_def distinct_map)
    ultimately show ?thesis using True by (simp add: distinct_map comp_inj_on_iff o_def)
  next
    case False
    have "f h = h" if h: "h \<in> set (live_of (highlights s) v)" for h
    proof -
      have "hl_id h \<notin> set wanted"
      proof
        assume "hl_id h \<in> set wanted"
        then obtain k where k: "k \<in> set (live_of (highlights s) u)" "hl_id h = hl_id k"
          using 1(3) by (auto simp: live_rail_of)
        with h have "h = k" using rail_row_eq [OF ok] by (simp add: live_of_def)
        with h k False show False by (simp add: live_of_def)
      qed
      then show ?thesis by (simp add: f_def)
    qed
    then have "map f (live_of (highlights s) v) = live_of (highlights s) v" by (simp add: map_idI)
    then show ?thesis using inv by (simp add: rail_inv_def)
  qed
  moreover have "length (map f (live_of (highlights s) v)) \<le> max_highlights" for v
    using inv by (simp add: rail_inv_def)
  ultimately show ?thesis using ok ids by (simp add: t rail_inv_def live tbl_ok_def del: map_map)
qed


text \<open>Clips that carry their places in a list are shown in the order of that list.\<close>

lemma takeWhile_places: "distinct xs \<Longrightarrow> i < length xs \<Longrightarrow> length (takeWhile (\<lambda>x. x \<noteq> xs ! i) xs) = i"
proof (induction xs arbitrary: i)
  case (Cons x xs)
  then show ?case by (cases i) auto
qed simp

lemma rail_order_places:
  assumes "distinct (map hl_id hs)" "set (map hl_id hs) = set ids" "distinct ids"
    and place: "\<And>h. h \<in> set hs \<Longrightarrow> hl_order h = int (length (takeWhile (\<lambda>i. i \<noteq> hl_id h) ids))"
  shows "map hl_id (rail_order hs) = ids"
proof -
  define rs where "rs = rail_order hs"
  define p where "p = (\<lambda>i. int (length (takeWhile (\<lambda>x. x \<noteq> i) ids)))"
  have rs: "set rs = set hs" "sorted (map hl_order rs)" "distinct (map hl_id rs)"
    using assms(1) by (simp_all add: rs_def rail_order_def distinct_map)
  have inj: "inj_on p (set ids)" unfolding p_def inj_on_def using place_inj by (metis of_nat_eq_iff)
  have "map hl_order rs = map p (map hl_id rs)" using place rs(1) by (simp add: p_def)
  then have "sorted (map p (map hl_id rs))" using rs(2) by (simp only:)
  moreover have "map p ids = map int [0..<length ids]"
    by (rule nth_equalityI) (simp_all add: p_def takeWhile_places [OF assms(3)])
  then have "sorted (map p ids)" by (simp add: sorted_iff_nth_mono)
  moreover have "set (map hl_id rs) = set ids" using rs(1) assms(2) by simp
  moreover have "distinct (map p (map hl_id rs))" "distinct (map p ids)"
    using inj assms(3) rs(3) \<open>set (map hl_id rs) = set ids\<close> by (auto simp: distinct_map simp del: map_map set_map)
  ultimately have "map p (map hl_id rs) = map p ids"
    by (intro sorted_distinct_set_unique) (simp_all del: map_map)
  then show ?thesis
    using inj \<open>set (map hl_id rs) = set ids\<close> inj_on_map_eq_map [of p "map hl_id rs" ids] by (simp add: rs_def)
qed

end
