(* ===== verification/Publication_Laws.thy ===== *)
theory Publication_Laws
  imports Media_Laws Highlight_Laws
begin

text \<open>
  Held publications: what their rows say, that a settled one stays settled, and that a job is in at most
  one live publication as long as checking a body and holding it are one step.
\<close>

section \<open>Rows\<close>

definition pub_ok :: "'l publication \<Rightarrow> bool" where
  "pub_ok p \<longleftrightarrow>
     (pub_status p = Published \<longleftrightarrow> pub_result p \<noteq> None) \<and>
     (pub_status p = Published \<longleftrightarrow> pub_published_at p \<noteq> None) \<and>
     (pub_status p = PubFailed \<longleftrightarrow> pub_error p \<noteq> None) \<and>
     (pub_status p = PubFailed \<longleftrightarrow> pub_error_message p \<noteq> None) \<and>
     (pub_dismissed_at p \<noteq> None \<longrightarrow> pub_status p = PubFailed)"

definition is_live :: "'l publication \<Rightarrow> bool" where
  "is_live p \<longleftrightarrow> pub_status p \<in> set [PubProcessing, Published]"

definition pub_inv :: "'l publication list \<Rightarrow> bool" where
  "pub_inv ps \<longleftrightarrow> tbl_ok pub_id ps \<and> list_all pub_ok ps \<and>
     (\<forall>p \<in> set ps. \<forall>q \<in> set ps. is_live p \<and> is_live q \<and> set (pub_jobs p) \<inter> set (pub_jobs q) \<noteq> {} \<longrightarrow> p = q)"

definition settled_keeps :: "'l publication list \<Rightarrow> 'l publication list \<Rightarrow> bool" where
  "settled_keeps ps ps' \<longleftrightarrow>
     (\<forall>p \<in> set ps. pub_status p \<noteq> PubProcessing \<longrightarrow> (\<exists>x. p\<lparr>pub_dismissed_at := x\<rparr> \<in> set ps'))"

lemma settled_keeps_refl [simp]: "settled_keeps ps ps"
  unfolding settled_keeps_def
proof (intro ballI impI)
  fix p assume "p \<in> set ps"
  then show "\<exists>x. p\<lparr>pub_dismissed_at := x\<rparr> \<in> set ps" by (intro exI [of _ "pub_dismissed_at p"]) simp
qed

lemma settled_keeps_trans: "settled_keeps a b \<Longrightarrow> settled_keeps b c \<Longrightarrow> settled_keeps a c"
  by (fastforce simp: settled_keeps_def)

text \<open>What every operation on the publications does: \<open>moves ps ps'\<close>.\<close>

definition pubs_move :: "'l publication list \<Rightarrow> 'l publication list \<Rightarrow> bool" where
  "pubs_move ps ps' \<longleftrightarrow> (pub_inv ps \<longrightarrow> pub_inv ps' \<and> settled_keeps ps ps')"

lemma pubs_move_refl [simp]: "pubs_move ps ps"
  by (simp add: pubs_move_def)

lemma pubs_move_trans: "pubs_move a b \<Longrightarrow> pubs_move b c \<Longrightarrow> pubs_move a c"
  by (auto simp: pubs_move_def intro: settled_keeps_trans)

lemma pub_row_eq: "pub_inv ps \<Longrightarrow> p \<in> set ps \<Longrightarrow> q \<in> set ps \<Longrightarrow> pub_id p = pub_id q \<Longrightarrow> p = q"
  by (auto simp: pub_inv_def tbl_ok_def dest: inj_onD [OF distinct_map [THEN iffD1, THEN conjunct2]])

lemma in_save: "x \<in> set (tbl_save key q ps) \<Longrightarrow> x = q \<or> (x \<in> set ps \<and> key x \<noteq> key q)"
  by (auto simp: tbl_save_def split: if_splits)

lemma save_keeps_other: "x \<in> set ps \<Longrightarrow> key x \<noteq> key q \<Longrightarrow> x \<in> set (tbl_save key q ps)"
  by (force simp: tbl_save_def)

lemma save_moves:
  assumes p: "p \<in> set ps" "pub_id q = pub_id p" "pub_jobs q = pub_jobs p" "is_live q \<Longrightarrow> is_live p"
    and q: "pub_ok p \<Longrightarrow> pub_ok q"
    and st: "pub_status p = PubProcessing \<or> (\<exists>x. q = p\<lparr>pub_dismissed_at := x\<rparr>)"
  shows "pubs_move ps (tbl_save pub_id q ps)"
  unfolding pubs_move_def
proof (intro impI conjI)
  assume inv: "pub_inv ps"
  have "pub_ok q" using inv p(1) q by (auto simp: pub_inv_def list_all_iff)
  then have ok: "list_all pub_ok (tbl_save pub_id q ps)"
    using inv by (auto simp: pub_inv_def list_all_iff dest!: in_save)
  have old: "\<exists>y \<in> set ps. pub_jobs y = pub_jobs x \<and> (is_live x \<longrightarrow> is_live y) \<and> pub_id y = pub_id x"
    if "x \<in> set (tbl_save pub_id q ps)" for x
    using in_save [OF that] p by metis
  have "x = y" if x: "x \<in> set (tbl_save pub_id q ps)" "is_live x"
    and y: "y \<in> set (tbl_save pub_id q ps)" "is_live y" and int: "set (pub_jobs x) \<inter> set (pub_jobs y) \<noteq> {}" for x y
  proof -
    obtain x' y' where xy: "x' \<in> set ps" "pub_jobs x' = pub_jobs x" "is_live x'" "pub_id x' = pub_id x"
      "y' \<in> set ps" "pub_jobs y' = pub_jobs y" "is_live y'" "pub_id y' = pub_id y"
      using old [OF x(1)] old [OF y(1)] x(2) y(2) by blast
    with inv int have "x' = y'" by (auto simp: pub_inv_def)
    then have "pub_id x = pub_id y" using xy by simp
    moreover have "tbl_ok pub_id (tbl_save pub_id q ps)" using inv by (simp add: pub_inv_def)
    ultimately show ?thesis using x(1) y(1) by (metis tbl_get_eq_Some option.inject)
  qed
  with ok inv show "pub_inv (tbl_save pub_id q ps)" by (auto simp: pub_inv_def)
  show "settled_keeps ps (tbl_save pub_id q ps)"
    unfolding settled_keeps_def
  proof (intro ballI impI)
    fix x assume x: "x \<in> set ps" "pub_status x \<noteq> PubProcessing"
    show "\<exists>y. x\<lparr>pub_dismissed_at := y\<rparr> \<in> set (tbl_save pub_id q ps)"
    proof (cases "pub_id x = pub_id q")
      case True
      then have "x = p" using pub_row_eq [OF inv x(1) p(1)] p(2) by simp
      with st x(2) obtain y where "q = x\<lparr>pub_dismissed_at := y\<rparr>" by blast
      moreover have "q \<in> set (tbl_save pub_id q ps)" using p(1,2) by (force simp: tbl_save_def)
      ultimately show ?thesis by blast
    next
      case False
      with x(1) have "x \<in> set (tbl_save pub_id q ps)" by (rule save_keeps_other)
      then show ?thesis by (intro exI [of _ "pub_dismissed_at x"]) simp
    qed
  qed
qed

lemma insert_moves:
  assumes "pub_id p = next_id pub_id ps" "pub_ok p"
    and "\<And>q. q \<in> set ps \<Longrightarrow> is_live q \<Longrightarrow> set (pub_jobs q) \<inter> set (pub_jobs p) = {}"
  shows "pubs_move ps (tbl_insert p ps)"
proof -
  have "tbl_get pub_id ps (pub_id p) = None"
    using fresh_number [of pub_id ps] assms(1) by (simp add: tbl_get_None_iff)
  moreover have "settled_keeps ps (tbl_insert p ps)"
    using settled_keeps_refl [of ps] unfolding settled_keeps_def tbl_insert_def set_append by blast
  moreover have "x = y" if inv: "pub_inv ps" and x: "x \<in> set (ps @ [p])" "is_live x"
    and y: "y \<in> set (ps @ [p])" "is_live y" and int: "set (pub_jobs x) \<inter> set (pub_jobs y) \<noteq> {}" for x y
  proof -
    consider "x \<in> set ps" "y \<in> set ps" | "x = p" "y = p" | "x = p" "y \<in> set ps" | "x \<in> set ps" "y = p"
      using x(1) y(1) by auto
    then show ?thesis
    proof cases
      case 1
      with inv x y int show ?thesis unfolding pub_inv_def by blast
    next
      case 3
      with assms(3) [of y] y int show ?thesis by (simp add: Int_commute)
    next
      case 4
      with assms(3) [of x] x int show ?thesis by simp
    qed simp
  qed
  then have "pub_inv ps \<Longrightarrow> (\<forall>x \<in> set (ps @ [p]). \<forall>y \<in> set (ps @ [p]).
      is_live x \<and> is_live y \<and> set (pub_jobs x) \<inter> set (pub_jobs y) \<noteq> {} \<longrightarrow> x = y)" by blast
  ultimately show ?thesis
    using assms(2) by (simp add: pubs_move_def pub_inv_def) (simp add: tbl_insert_def)
qed

section \<open>Operations\<close>

lemma failed_moves:
  assumes "p \<in> set ps" "pub_status p = PubProcessing"
  shows "pubs_move ps (tbl_save pub_id (failed_publication c m p) ps)"
  by (rule save_moves [OF assms(1)])
    (use assms(2) in \<open>auto simp: failed_publication_def is_live_def pub_ok_def\<close>)

lemma try_publish_moves: "pubs_move (publications s) (publications (snd (try_publish env pid s)))"
proof -
  obtain o' t where t: "try_publish env pid s = (o', t)" by fastforce
  then have "pubs_move (publications s) (publications t)"
  proof (cases rule: try_publish_cases)
    case still
    then show ?thesis by simp
  next
    case (fails p q c m)
    then show ?thesis by (simp add: failed_moves)
  next
    case (publishes p q a rid u)
    have "publications u = publications s" using publish_as_frame [OF publishes(6)] by simp
    moreover have "pubs_move (publications s) (tbl_save pub_id q (publications s))"
      by (rule save_moves [OF publishes(1)]) (use publishes(3) in \<open>auto simp: publishes(7) is_live_def pub_ok_def\<close>)
    ultimately show ?thesis by (simp add: publishes(9))
  qed
  with t show ?thesis by simp
qed

lemma expire_moves: "pubs_move (publications s) (publications (snd (expire_publication held pid s)))"
proof (cases "find (\<lambda>p. pub_id p = pid \<and> pub_status p = PubProcessing \<and> pid \<notin> set held) (publications s)")
  case (Some p)
  then have "p \<in> set (publications s)" "pub_status p = PubProcessing" by (auto dest: find_eq_Some_conv)
  with Some show ?thesis by (simp add: expire_publication_def Let_def failed_moves)
qed (simp add: expire_publication_def)

lemma cancel_moves:
  "cancel_publication a pid s = Inr (p, t) \<Longrightarrow> pubs_move (publications s) (publications t) \<and> jobs t = jobs s \<and> runs t = runs s
     \<and> highlights t = highlights s"
  by (auto simp: cancel_publication_def owned_for_update_def Let_def run_ok pub_announce_def is_live_def pub_ok_def
      split: option.splits if_splits dest!: find_eq_Some_conv intro!: save_moves)

lemma dismiss_moves:
  "dismiss_publication now a pid s = Inr (p, t) \<Longrightarrow> pubs_move (publications s) (publications t) \<and> jobs t = jobs s \<and> runs t = runs s
     \<and> highlights t = highlights s"
  by (auto simp: dismiss_publication_def owned_for_update_def Let_def run_ok is_live_def pub_ok_def
      split: option.splits if_splits dest!: find_eq_Some_conv intro!: save_moves)

section \<open>A job is taken once\<close>

lemma not_in_use:
  "\<not> in_use s job None \<Longrightarrow> p \<in> set (publications s) \<Longrightarrow> is_live p \<Longrightarrow> mj_id job \<notin> set (pub_jobs p)"
  by (auto simp: in_use_def is_live_def list_ex_iff split: if_splits)

lemma check_item_job:
  assumes "check_item env s a pid idx x = Inr c" "item_job c = Some job"
  shows "\<not> in_use s job pid \<and> job \<in> set (jobs s)"
proof (cases x)
  case (ReadyItem m ord)
  with assms show ?thesis
    by (auto simp: check_item_def checked_ready_def Let_def split: option.splits if_splits sum.splits)
next
  case (JobItem jid ord)
  with assms show ?thesis
    by (auto simp: check_item_def checked_ready_def Let_def resolve_for_attach_def job_for_owner_def
        split: option.splits if_splits sum.splits dest: find_eq_Some_conv)
qed

lemma check_items_jobs:
  "check_items env s a pid idx xs = Inr cs \<Longrightarrow> c \<in> set cs \<Longrightarrow> item_job c = Some job \<Longrightarrow>
     \<not> in_use s job pid \<and> job \<in> set (jobs s)"
proof (induction xs arbitrary: idx cs)
  case Nil
  then show ?case by simp
next
  case (Cons x xs)
  then obtain d ds where "check_item env s a pid idx x = Inr d" "cs = d # ds"
      "check_items env s a pid (Suc idx) xs = Inr ds"
    by (auto split: sum.splits)
  then show ?case using Cons.IH [of "Suc idx" ds] Cons.prems(2,3) check_item_job [of env s a pid idx x d job] by auto
qed

lemma map_filter_in: "y \<in> set (List.map_filter f xs) \<Longrightarrow> \<exists>x \<in> set xs. f x = Some y"
  by (induction xs) (auto simp: List.map_filter_simps split: option.splits)

lemma validated_cases:
  assumes "validate_create_payload env s a data pid = Inr cleaned"
  obtains items where "check_items env s a pid 0 (pp_media data) = Inr items"
    "cl_jobs cleaned = map mj_id (List.map_filter item_job items)"
    "cl_pending cleaned = map mj_id (List.map_filter item_job (filter is_pending_item items))"
    "cl_media cleaned = List.map_filter item_media items"
    "length (filter (\<lambda>c. item_kind c = VideoKind) items) \<le> 1"
    "cl_payload cleaned = data\<lparr>pp_content := py_strip (pp_content data)\<rparr>"
  using assms by (auto simp: validate_create_payload_def Let_def split: if_splits sum.splits option.splits)

lemma validated_jobs_free:
  assumes "validate_create_payload env s a data None = Inr cleaned" "p \<in> set (publications s)" "is_live p"
  shows "set (pub_jobs p) \<inter> set (cl_jobs cleaned) = {}"
proof -
  obtain items where i: "check_items env s a None 0 (pp_media data) = Inr items"
    "cl_jobs cleaned = map mj_id (List.map_filter item_job items)"
    using assms(1) by (rule validated_cases)
  have "mj_id job \<notin> set (pub_jobs p)" if job: "job \<in> set (List.map_filter item_job items)" for job
  proof -
    obtain c where "c \<in> set items" "item_job c = Some job" using map_filter_in [OF job] by blast
    with check_items_jobs [OF i(1)] not_in_use [OF _ assms(2,3)] show ?thesis by blast
  qed
  then show ?thesis by (auto simp: i(2))
qed

lemma clip_job_free:
  assumes "validate_create env s a b None = Inr c" "p \<in> set (publications s)" "is_live p"
  shows "set (pub_jobs p) \<inter> set (ch_jobs c) = {}"
proof -
  have "j \<notin> set (pub_jobs p)" if "j \<in> set (ch_jobs c)" for j
    using assms(1) that not_in_use [OF _ assms(2,3)]
    by (auto simp: validate_create_def h_bind_Inr clip_source_def job_fields_def Let_def
        split: option.splits if_splits prod.splits)
  then show ?thesis by blast
qed

lemma create_publication_moves:
  assumes "\<And>p. p \<in> set (publications s) \<Longrightarrow> is_live p \<Longrightarrow> set (pub_jobs p) \<inter> set js = {}"
  shows "pubs_move (publications s) (publications (snd (create_publication env a u payload js s)))"
proof -
  let ?p = "\<lparr>pub_id = next_id pub_id (publications s), pub_owner = identity_of a, pub_created_by = Some u,
               pub_payload = payload, pub_jobs = remdups js, pub_status = PubProcessing,
               pub_result = None, pub_error = None, pub_error_message = None, pub_dismissed_at = None,
               pub_created_at = pe_now env, pub_published_at = None\<rparr>"
  have "pubs_move (publications s) (tbl_insert ?p (publications s))"
    by (rule insert_moves) (use assms in \<open>auto simp: pub_ok_def\<close>)
  also have "tbl_insert ?p (publications s) =
      publications (pub_announce ?p (s\<lparr>publications := tbl_insert ?p (publications s)\<rparr>))"
    by (simp add: pub_announce_def)
  finally show ?thesis
    by (rule pubs_move_trans) (simp add: create_publication_def Let_def try_publish_moves)
qed

lemma create_publication_frame:
  "jobs (snd (create_publication env a u payload js s)) = jobs s"
  "runs (snd (create_publication env a u payload js s)) = runs s"
  by (simp_all add: create_publication_def Let_def pub_announce_def)

lemma post_create_cases:
  assumes "post_create env a u data s = Inr (r, t)"
  obtains (held) cleaned pid where "validate_create_payload (pe_create env) s a data None = Inr cleaned"
      "cl_pending cleaned \<noteq> []" "r = Inl pid"
      "create_publication env a u (HeldPost (cl_payload cleaned)) (cl_jobs cleaned) s = (pid, t)"
  | (made) cleaned i where "validate_create_payload (pe_create env) s a data None = Inr cleaned"
      "cl_pending cleaned = []" "r = Inr i" "create_post (pe_create env) a cleaned s = Inr (i, t)"
proof -
  obtain cleaned where c: "validate_create_payload (pe_create env) s a data None = Inr cleaned"
    using assms by (cases "validate_create_payload (pe_create env) s a data None") (auto simp: post_create_def)
  show ?thesis
  proof (cases "cl_pending cleaned = []")
    case True
    with c assms show ?thesis
      by (cases "create_post (pe_create env) a cleaned s") (auto simp: post_create_def intro: made)
  next
    case False
    with c assms show ?thesis by (auto simp: post_create_def split: prod.splits intro: held)
  qed
qed

lemma post_create_moves:
  assumes "post_create env a u data s = Inr (r, t)"
  shows "pubs_move (publications s) (publications t) \<and> jobs t = jobs s \<and> runs t = runs s"
  using assms
proof (cases rule: post_create_cases)
  case (held cleaned pid)
  with create_publication_moves [of s "cl_jobs cleaned"] validated_jobs_free [OF held(1)]
    create_publication_frame [of env a u "HeldPost (cl_payload cleaned)" "cl_jobs cleaned" s]
  show ?thesis by (metis snd_conv)
next
  case (made cleaned i)
  with create_post_frame [OF made(4)] show ?thesis by simp
qed

lemma highlight_create_cases:
  assumes "highlight_create env a u b s = Inr (r, t)"
  obtains (held) c payload pid where "validate_create (pe_create env) s a b None = Inr c" "r = Inl pid"
      "ch_pending c \<noteq> []" "create_publication env a u (HeldHighlight payload) (ch_jobs c) s = (pid, t)"
  | (made) c i where "validate_create (pe_create env) s a b None = Inr c" "r = Inr i"
      "insert_highlight (pe_now env) c s = Inr (i, t)"
proof -
  obtain c where c: "validate_create (pe_create env) s a b None = Inr c"
    using assms by (auto simp: highlight_create_def h_bind_Inr)
  show ?thesis
  proof (cases "ch_pending c \<noteq> [] \<and> ch_payload c \<noteq> None")
    case True
    then obtain x xs payload where x: "ch_pending c = x # xs" "ch_payload c = Some payload"
      by (auto simp: neq_Nil_conv)
    with c assms show ?thesis
      by (auto simp: highlight_create_def split: prod.splits intro: held)
  next
    case False
    then have "h_bind (insert_highlight (pe_now env) c s) (\<lambda>(new_id, t). Inr (Inr new_id, t)) = Inr (r, t)"
      using c assms by (cases "ch_pending c"; cases "ch_payload c") (simp_all add: highlight_create_def)
    with c show ?thesis by (auto simp: h_bind_Inr intro: made)
  qed
qed

lemma highlight_create_moves:
  assumes "highlight_create env a u b s = Inr (r, t)"
  shows "pubs_move (publications s) (publications t) \<and> jobs t = jobs s \<and> runs t = runs s"
  using assms
proof (cases rule: highlight_create_cases)
  case (held c payload pid)
  with create_publication_moves [of s "ch_jobs c"] clip_job_free [OF held(1)]
    create_publication_frame [of env a u "HeldHighlight payload" "ch_jobs c" s]
  show ?thesis by (metis snd_conv)
next
  case (made c i)
  with insert_highlight_frame [OF made(3)] show ?thesis by simp
qed


section \<open>The rows they add\<close>

lemma create_post_row:
  "create_post env a cleaned s = Inr (i, t) \<Longrightarrow>
     \<exists>po. posts t = posts s @ [po] \<and> highlights t = highlights s \<and> po_author po = identity_of a \<and> po_id po = i"
  by (auto simp: create_post_def Let_def tbl_insert_def split: option.splits)

lemma create_highlight_row:
  assumes "create_highlight env a b p s = Inr (i, t)"
  shows "\<exists>h. highlights t = highlights s @ [h] \<and> posts t = posts s \<and> a = UserActor (hl_user h) \<and> hl_id h = i
    \<and> length (live_rail s (hl_user h)) < 10"
proof -
  obtain c where c: "validate_create env s a b p = Inr c" "insert_highlight (ce_now env) c s = Inr (i, t)"
    using assms by (auto simp: create_highlight_def h_bind_Inr split: if_splits)
  have "a = UserActor (ch_user c)"
    using c(1) by (auto simp: validate_create_def h_bind_Inr require_player_def split: if_splits actor.splits)
  with c(2) show ?thesis
    by (cases rule: insert_highlight_cases) (auto simp: max_highlights_def)
qed

end
