(* ===== verification/Media_Machine.thy ===== *)
theory Media_Machine
  imports Publication_Laws
begin

text \<open>
  The media pipeline as a machine: requests, queue messages, runs that end or die, the sweeper, a worker's
  restart. Requests and locked sections are atomic; a run is not, it starts at one step and ends at
  another, and anything may happen in between. \<open>media_inv\<close> is the invariant of the jobs and the runs.
\<close>

section \<open>The sweep on the jobs\<close>

lemma free_of_runs:
  assumes inv: "job_inv (jobs s) (runs s)" and young: "runs_young now (runs s)"
    and P: "\<And>r. r \<in> set (jobs s) \<Longrightarrow> P r \<Longrightarrow>
      \<not> (mj_status r = Processing \<and> (\<exists>t. mj_started_at r = Some t \<and> t > now - (media_job_time_limit + stuck_grace)))"
    and J: "J \<subseteq> mj_id ` {r \<in> set (jobs s). P r}"
  shows "J \<inter> set (run_ids (runs s)) = {}"
proof -
  have False if j: "j \<in> J" "j \<in> set (run_ids (runs s))" for j
  proof -
    obtain r where r: "r \<in> set (jobs s)" "P r" "mj_id r = j" using J j(1) by blast
    with live_row [OF inv young r(1)] j(2) P [OF r(1,2)] show False by auto
  qed
  then show ?thesis by blast
qed

lemma id_in_image:
  assumes "job_inv rows rs" "r \<in> set rows" "mj_id r \<in> mj_id ` {q \<in> set rows. P q}"
  shows "P r"
proof -
  obtain q where "q \<in> set rows" "P q" "mj_id r = mj_id q" using assms(3) by blast
  then show ?thesis using job_inv_id [OF assms(1,2)] by blast
qed

lemma redispatch_touches:
  obtains J where "touches J s (redispatch_queued env s)"
    "J \<subseteq> mj_id ` {r \<in> set (jobs s). mj_status r = Queued}"
proof -
  define js where "js = take sweep_batch_size (map mj_id (sort_key mj_created_at
    (filter (\<lambda>r. mj_status r = Queued \<and> mj_updated_at r < se_now env - queued_redispatch_after
       \<and> mj_id r \<notin> set (se_locked_jobs env)) (jobs s))))"
  show ?thesis
  proof
    show "touches (set js) s (redispatch_queued env s)"
      by (rule touches_map [where f = "\<lambda>r. r\<lparr>mj_updated_at := se_now env\<rparr>"])
        (simp_all add: redispatch_queued_def Let_def js_def row_ok_def)
    show "set js \<subseteq> mj_id ` {r \<in> set (jobs s). mj_status r = Queued}"
      by (auto simp: js_def dest!: in_set_takeD)
  qed
qed

lemma dead_runs_old:
  "r \<in> set (dead_runs env s) \<Longrightarrow> r \<in> set (jobs s) \<and> mj_status r = Processing \<and>
     (\<exists>t. mj_started_at r = Some t \<and> t < se_now env - (media_job_time_limit + stuck_grace))"
  by (auto simp: dead_runs_def Let_def dest!: in_set_takeD split: option.splits)

lemma recover_dead_touches:
  "touches (mj_id ` set (dead_runs env s)) s (recover_dead_runs env penv s)"
proof -
  define J where "J = mj_id ` set (dead_runs env s)"
  define dead where "dead = dead_runs env s"
  define requeue where "requeue = map mj_id (filter (\<lambda>r. mj_attempts r < max_job_attempts) dead)"
  define timed_out where "timed_out = map mj_id (filter (\<lambda>r. \<not> mj_attempts r < max_job_attempts) dead)"
  define s1 where "s1 = foldl (\<lambda>s j. mark_failed (se_now env) j ProcessingTimeout ''no run finished'' s) s timed_out"
  define s2 where "s2 = s1\<lparr>jobs := map (\<lambda>r. if mj_id r \<in> set requeue
      then r\<lparr>mj_status := Queued, mj_updated_at := se_now env\<rparr> else r) (jobs s1)\<rparr>"
  define s3 where "s3 = foldl (\<lambda>s j. finish penv j s) s2 timed_out"
  have sub: "set requeue \<subseteq> J" "set timed_out \<subseteq> J" by (auto simp: requeue_def timed_out_def dead_def J_def)
  have "touches J s s1" unfolding s1_def
    by (rule touches_fold) (use sub in \<open>auto intro: mark_failed_touches\<close>)
  moreover have "touches (set requeue) s1 s2"
    by (rule touches_map [where f = "\<lambda>r. r\<lparr>mj_status := Queued, mj_updated_at := se_now env\<rparr>"])
      (simp_all add: s2_def row_ok_def)
  moreover have "touches J s2 s3" unfolding s3_def
    by (rule touches_fold) (auto intro: touching)
  ultimately have "touches J s s3" using sub(1) by (blast intro: touches_trans touches_mono)
  then have "touches J s (dispatch (se_broker_up env) 0 requeue s3)" by (rule touches_dispatch)
  then show ?thesis
    by (simp add: recover_dead_runs_def Let_def J_def s3_def s2_def s1_def requeue_def timed_out_def dead_def)
qed

lemma delete_failed_shape:
  obtains ids where "jobs (delete_failed_sources env s) = map (\<lambda>r. if mj_id r \<in> set ids
      then r\<lparr>mj_source_deleted_at := Some (se_now env)\<rparr> else r) (jobs s)"
    "runs (delete_failed_sources env s) = runs s"
    "set ids \<subseteq> mj_id ` {r \<in> set (jobs s). is_finished r}"
proof -
  define rs where "rs = take sweep_batch_size (sort_key (\<lambda>r. the (mj_finished_at r))
            (filter (\<lambda>r. mj_status r = Failed
                        \<and> (case mj_finished_at r of None \<Rightarrow> False | Some t \<Rightarrow> t < se_now env - failed_source_ttl)
                        \<and> mj_source_deleted_at r = None) (jobs s)))"
  obtain keys ids where c: "check_sources env rs = (keys, ids)" by fastforce
  have "set (snd (check_sources env rs)) \<subseteq> mj_id ` set rs" for rs
    by (induction rs) (auto split: option.splits prod.splits)
  moreover have "mj_id ` set rs \<subseteq> mj_id ` {r \<in> set (jobs s). is_finished r}"
    by (auto simp: rs_def is_finished_def dest!: in_set_takeD)
  ultimately have "set ids \<subseteq> mj_id ` {r \<in> set (jobs s). is_finished r}" using c by (metis order_trans snd_conv)
  with c show ?thesis
    by (intro that [of ids]) (simp_all add: delete_failed_sources_def Let_def rs_def)
qed

lemma delete_failed_touches:
  "touches (mj_id ` {r \<in> set (jobs s). is_finished r}) s (delete_failed_sources env s)"
proof -
  obtain ids where d: "jobs (delete_failed_sources env s) = map (\<lambda>r. if mj_id r \<in> set ids
      then r\<lparr>mj_source_deleted_at := Some (se_now env)\<rparr> else r) (jobs s)"
    "runs (delete_failed_sources env s) = runs s"
    "set ids \<subseteq> mj_id ` {r \<in> set (jobs s). is_finished r}" by (rule delete_failed_shape)
  have "touches (set ids) s (delete_failed_sources env s)"
    by (rule touches_map [OF d(1,2)]) (simp_all add: row_ok_def)
  then show ?thesis using d(3) by (rule touches_mono)
qed

lemma delete_failed_keeps: "keeps_finished (jobs s) (jobs (delete_failed_sources env s))"
  unfolding keeps_finished_def
proof (intro ballI impI)
  fix r assume r: "r \<in> set (jobs s)"
  obtain ids where d: "jobs (delete_failed_sources env s) = map (\<lambda>r. if mj_id r \<in> set ids
      then r\<lparr>mj_source_deleted_at := Some (se_now env)\<rparr> else r) (jobs s)" by (rule delete_failed_shape)
  show "\<exists>x. r\<lparr>mj_source_deleted_at := x\<rparr> \<in> set (jobs (delete_failed_sources env s))"
    by (rule exI [of _ "if mj_id r \<in> set ids then Some (se_now env) else mj_source_deleted_at r"])
      (use r in \<open>force simp: d\<close>)
qed

lemma settle_frame [simp]:
  "jobs (settle_publications penv s) = jobs s" "runs (settle_publications penv s) = runs s"
  by (simp_all add: settle_publications_def)

lemma expire_frame [simp]:
  "jobs (expire_publications env penv s) = jobs s" "runs (expire_publications env penv s) = runs s"
  by (simp_all add: expire_publications_def)

lemma touches_runs: "touches J s t \<Longrightarrow> runs t = runs s"
  by (simp add: touches_def)

lemma sweep_jobs:
  assumes inv: "job_inv (jobs s) (runs s)" and young: "runs_young (se_now env) (runs s)"
  shows "job_inv (jobs (sweep env penv s)) (runs (sweep env penv s)) \<and>
    runs (sweep env penv s) = runs s \<and> keeps_finished (jobs s) (jobs (sweep env penv s))"
proof -
  define s1 where "s1 = redispatch_queued env s"
  define s2 where "s2 = recover_dead_runs env penv s1"
  define s3 where "s3 = delete_failed_sources env s2"
  obtain J where J: "touches J s s1" "J \<subseteq> mj_id ` {r \<in> set (jobs s). mj_status r = Queued}"
    unfolding s1_def by (rule redispatch_touches)
  have "J \<inter> set (run_ids (runs s)) = {}" by (rule free_of_runs [OF inv young _ J(2)]) simp
  from touches_inv_free [OF inv J(1) this] have i1: "job_inv (jobs s1) (runs s1)" .
  have k1: "keeps_finished (jobs s) (jobs s1)"
  proof (rule touches_keeps [OF J(1)])
    fix r assume "r \<in> set (jobs s)" "mj_id r \<in> J"
    with J(2) have "mj_status r = Queued" using id_in_image [OF inv, of r "\<lambda>q. mj_status q = Queued"] by blast
    then show "\<not> is_finished r" by (simp add: is_finished_def)
  qed
  have young1: "runs_young (se_now env) (runs s1)" using young touches_runs [OF J(1)] by simp
  let ?D = "mj_id ` set (dead_runs env s1)"
  have t2: "touches ?D s1 s2" unfolding s2_def by (rule recover_dead_touches)
  have "?D \<inter> set (run_ids (runs s1)) = {}"
  proof (rule free_of_runs [OF i1 young1, of "\<lambda>r. r \<in> set (dead_runs env s1)"])
    show "?D \<subseteq> mj_id ` {r \<in> set (jobs s1). r \<in> set (dead_runs env s1)}"
      using dead_runs_old [of _ env s1] by blast
  qed (use dead_runs_old [of _ env s1] in fastforce)
  from touches_inv_free [OF i1 t2 this] have i2: "job_inv (jobs s2) (runs s2)" .
  have k2: "keeps_finished (jobs s1) (jobs s2)"
  proof (rule touches_keeps [OF t2])
    fix r assume r: "r \<in> set (jobs s1)" "mj_id r \<in> ?D"
    have "?D \<subseteq> mj_id ` {q \<in> set (jobs s1). mj_status q = Processing}" using dead_runs_old [of _ env s1] by blast
    with r have "mj_status r = Processing" using id_in_image [OF i1, of r "\<lambda>q. mj_status q = Processing"] by blast
    then show "\<not> is_finished r" by (simp add: is_finished_def)
  qed
  have young2: "runs_young (se_now env) (runs s2)" using young1 touches_runs [OF t2] by simp
  let ?F = "mj_id ` {r \<in> set (jobs s2). is_finished r}"
  have t3: "touches ?F s2 s3" unfolding s3_def by (rule delete_failed_touches)
  have "?F \<inter> set (run_ids (runs s2)) = {}"
    by (rule free_of_runs [OF i2 young2, OF _ subset_refl]) (auto simp: is_finished_def)
  from touches_inv_free [OF i2 t3 this] have i3: "job_inv (jobs s3) (runs s3)" .
  have "keeps_finished (jobs s) (jobs s3)"
    using k1 k2 delete_failed_keeps [of s2 env] keeps_finished_trans unfolding s3_def by blast
  moreover have "runs s3 = runs s" using touches_runs [OF J(1)] touches_runs [OF t2] touches_runs [OF t3] by simp
  ultimately show ?thesis using i3 by (simp add: sweep_def s3_def s2_def s1_def)
qed

lemma restart_jobs:
  assumes inv: "job_inv (jobs s) (runs s)" and none: "runs s = []"
  shows "job_inv (jobs (recover_after_restart env s)) [] \<and> runs (recover_after_restart env s) = [] \<and>
    keeps_finished (jobs s) (jobs (recover_after_restart env s))"
proof -
  define J where "J = mj_id ` {r \<in> set (jobs s). mj_status r = Processing \<and> mj_id r \<notin> set (se_locked_jobs env)}"
  have t: "touches J s (recover_after_restart env s)"
    by (rule touches_map [where f = "\<lambda>r. r\<lparr>mj_status := Queued, mj_updated_at := se_now env\<rparr>"])
      (simp_all add: recover_after_restart_def Let_def row_ok_def J_def)
  have "keeps_finished (jobs s) (jobs (recover_after_restart env s))"
  proof (rule touches_keeps [OF t])
    fix r assume "r \<in> set (jobs s)" "mj_id r \<in> J"
    then have "mj_status r = Processing \<and> mj_id r \<notin> set (se_locked_jobs env)"
      using id_in_image [OF inv, of r "\<lambda>r. mj_status r = Processing \<and> mj_id r \<notin> set (se_locked_jobs env)"]
      unfolding J_def by blast
    then show "\<not> is_finished r" by (simp add: is_finished_def)
  qed
  moreover have "job_inv (jobs (recover_after_restart env s)) (runs (recover_after_restart env s))"
    by (rule touches_inv_free [OF inv t]) (simp add: none run_ids_def)
  ultimately show ?thesis using touches_runs [OF t] none by simp
qed


section \<open>What publishing keeps\<close>

text \<open>
  A relation between states that every publication attempt keeps is kept by whatever ends in one: the end
  of a run, a claim that gives up, the sweep. The contract asks nothing of the jobs.
\<close>

locale publishing =
  fixes R :: "'l media_state \<Rightarrow> 'l media_state \<Rightarrow> bool"
  assumes R_same: "publications t = publications s \<Longrightarrow> posts t = posts s \<Longrightarrow> highlights t = highlights s \<Longrightarrow> R s t"
    and R_trans: "R s t \<Longrightarrow> R t u \<Longrightarrow> R s u"
    and R_publish: "R s (snd (try_publish env pid s))"
    and R_expire: "R s (snd (expire_publication held pid s))"
begin

lemma refl: "R s s"
  by (simp add: R_same)

lemma fold:
  assumes "\<And>s x. R s (f s x)"
  shows "R s (foldl f s xs)"
  by (induction xs arbitrary: s) (auto intro: refl R_trans assms)

lemma finish: "R s (finish env j s)"
proof (cases "job_of s j")
  case (Some r)
  define u where "u = media_emit (JobUpdated (mj_owner r) j (mj_status r)) s"
  have "R s u" by (simp add: u_def R_same)
  moreover have "R u (publish_waiting env j u)"
    unfolding publish_waiting_def by (rule fold) (rule R_publish)
  ultimately have "R s (publish_waiting env j u)" by (rule R_trans)
  then show ?thesis using Some by (simp add: finish_def u_def)
qed (simp add: finish_def refl)

lemma after_finish: "R s u \<Longrightarrow> R s (finish env j u)"
  by (rule R_trans [OF _ finish])

lemma update: "R s (update_job j f s)"
  by (rule R_same) simp_all

lemma marks: "R s (mark_failed now j c d s)" "R s (mark_ready now j res o' th s)" "R s (release now j b s)"
  by (simp_all add: mark_failed_def mark_ready_def release_def update)

lemma fail_unfinished: "R s (snd (fail_unfinished now j c d s))"
  by (simp add: fail_unfinished_def refl marks split: option.split)

lemma queued: "R s (dispatch b n js s)" "R s (media_emit e s)"
  by (simp_all add: R_same)

lemma process: "process_job env job s = (e, t) \<Longrightarrow> R s t"
  by (rule R_same) (auto simp: process_job_def Let_def mark_ready_def split: sum.splits option.splits if_splits)

lemma finish_run: "R s (snd (finish_run env penv job s))"
proof -
  obtain e u where p: "process_job env job s = (e, u)" by fastforce
  note u = process [OF p]
  have then_u: "R u v \<Longrightarrow> R s v" for v by (rule R_trans [OF u])
  show ?thesis
  proof (cases "re_can_convert env (mj_kind job)")
    case False
    then show ?thesis by (simp add: finish_run_def Let_def after_finish marks)
  next
    case True
    then show ?thesis
      by (simp add: finish_run_def p Let_def after_finish then_u marks fail_unfinished u
          split: option.splits run_failure.splits)
  qed
qed

lemma give_up: "R s (give_up penv now j d s)"
proof -
  obtain b u where u: "fail_unfinished now j Internal d s = (b, u)" by fastforce
  with fail_unfinished [of s now j Internal d] have "R s u" by simp
  with u show ?thesis by (cases b) (simp_all add: give_up_def after_finish)
qed

lemma task: "R s (task_after_run b env penv n job s)"
proof -
  obtain f u where p: "finish_run env penv job s = (f, u)" by fastforce
  have u: "R s u" using finish_run [of s env penv job] p by simp
  show ?thesis
    using u R_trans [OF u queued(1)] R_trans [OF u give_up]
    by (simp add: task_after_run_def p split: bool.split)
qed

lemma claim: "claim env j s = (c, t) \<Longrightarrow> R s t"
  by (erule claim_cases) (simp_all add: refl after_finish marks update)

lemma redispatch: "R s (redispatch_queued env s)"
  by (rule R_same) (simp_all add: redispatch_queued_def Let_def)

lemma recover_dead: "R s (recover_dead_runs env penv s)"
proof -
  define bad where "bad = map mj_id (filter (\<lambda>r. \<not> mj_attempts r < max_job_attempts) (dead_runs env s))"
  define good where "good = map mj_id (filter (\<lambda>r. mj_attempts r < max_job_attempts) (dead_runs env s))"
  define s1 where "s1 = foldl (\<lambda>s j. mark_failed (se_now env) j ProcessingTimeout ''no run finished'' s) s bad"
  define s2 where "s2 = s1\<lparr>jobs := map (\<lambda>r. if mj_id r \<in> set good
      then r\<lparr>mj_status := Queued, mj_updated_at := se_now env\<rparr> else r) (jobs s1)\<rparr>"
  define s3 where "s3 = foldl (\<lambda>s j. finish penv j s) s2 bad"
  have "R s s1" unfolding s1_def by (rule fold) (rule marks)
  moreover have "R s1 s2" by (simp add: s2_def R_same)
  moreover have "R s2 s3" unfolding s3_def by (rule fold) (rule finish)
  moreover have "R s3 (dispatch (se_broker_up env) 0 good s3)" by (rule queued)
  ultimately have "R s (dispatch (se_broker_up env) 0 good s3)" by (blast intro: R_trans)
  then show ?thesis
    by (simp add: recover_dead_runs_def Let_def bad_def good_def s1_def s2_def s3_def)
qed

lemma delete_failed: "R s (delete_failed_sources env s)"
  by (rule R_same) (simp_all add: delete_failed_sources_def Let_def split: prod.split)

lemma restart: "R s (recover_after_restart env s)"
  by (rule R_same) (simp_all add: recover_after_restart_def Let_def)

lemma sweep: "R s (sweep env penv s)"
proof -
  have "R s (delete_failed_sources env (recover_dead_runs env penv (redispatch_queued env s)))"
    by (rule R_trans [OF R_trans [OF redispatch recover_dead] delete_failed])
  moreover have "R t (settle_publications penv t)" for t
    unfolding settle_publications_def by (rule fold) (rule R_publish)
  moreover have "R t (expire_publications env penv t)" for t
    unfolding expire_publications_def by (rule fold) (rule R_expire)
  ultimately show ?thesis unfolding sweep_def by (blast intro: R_trans)
qed

end

text \<open>The rows of the publications, and the rails.\<close>

interpretation pubs: publishing "\<lambda>s t. pubs_move (publications s) (publications t)"
proof
  show "pubs_move (publications s) (publications u)"
    if "pubs_move (publications s) (publications t)" "pubs_move (publications t) (publications u)"
    for s t u :: "'a media_state" using that by (rule pubs_move_trans)
qed (simp_all add: try_publish_moves expire_moves)

lemma try_publish_rail: "rail_inv (highlights s) \<Longrightarrow> rail_inv (highlights (snd (try_publish env pid s)))"
proof -
  assume inv: "rail_inv (highlights s)"
  obtain o' t where t: "try_publish env pid s = (o', t)" by fastforce
  then have "rail_inv (highlights t)"
  proof (cases rule: try_publish_cases)
    case (publishes p q a rid u)
    have "rail_inv (highlights u)" using publishes(6)
    proof (cases rule: publish_as_cases)
      case (post data cleaned)
      then show ?thesis using inv create_post_frame by metis
    next
      case (clip b)
      then show ?thesis using create_highlight_rail [OF inv] by blast
    qed
    then show ?thesis by (simp add: publishes(9))
  qed (use inv in simp_all)
  with t show ?thesis by simp
qed

interpretation rails: publishing "\<lambda>s t. rail_inv (highlights s) \<longrightarrow> rail_inv (highlights t)"
proof
  show "rail_inv (highlights s) \<longrightarrow> rail_inv (highlights (snd (expire_publication held pid s)))"
    for s :: "'a media_state" and held pid
    by (simp add: expire_publication_def Let_def split: option.split)
qed (simp_all add: try_publish_rail)

section \<open>Creating a job\<close>

lemma create_job_cases:
  assumes "create_job req orgs ms u a key purpose ut oa s = Inr ((job, new), t)"
  obtains (seen) a' where "resolve_upload_actor orgs ms u a ut oa = Inr a'" "\<not> new" "t = s"
      "job_for_source_key s a' key = Some job"
  | (fresh) a' k ct n where "resolve_upload_actor orgs ms u a ut oa = Inr a'" "new"
      "job_for_source_key s a' key = None"
      "ut \<in> set (purpose_upload_types purpose)" "ut \<in> set source_upload_types"
      "is_source_key key" "is_upload_key_for (key_actor_of (jr_uuid_text req) u a') ut key"
      "stored_kind ct key = Some k" "n \<le> source_cap k" "\<forall>r \<in> set (jobs s). mj_source_key r \<noteq> key"
      "job = fresh_job (next_id mj_id (jobs s)) (identity_of a') u purpose ut k key ct n (jr_now req)"
      "t = dispatch (jr_broker_up req) 0 [mj_id job] (s\<lparr>jobs := tbl_insert job (jobs s)\<rparr>)"
proof -
  obtain a' where a': "resolve_upload_actor orgs ms u a ut oa = Inr a'"
    using assms by (cases "resolve_upload_actor orgs ms u a ut oa") (auto simp: create_job_def split: if_splits)
  show ?thesis
  proof (cases "job_for_source_key s a' key")
    case (Some j)
    with a' assms show ?thesis by (intro seen [of a']) (auto simp: create_job_def split: if_splits)
  next
    case None
    with a' assms obtain raw bytes where h: "jr_head req = Some (raw, bytes)"
      by (auto simp: create_job_def split: if_splits option.splits)
    with None a' assms obtain k where k: "stored_kind (content_type_of raw) key = Some k"
      by (auto simp: create_job_def Let_def split: if_splits option.splits)
    define n where "n = (case bytes of None \<Rightarrow> 0 | Some n \<Rightarrow> n)"
    from None a' h k assms show ?thesis
      by (intro fresh [of a' "content_type_of raw" k n])
        (auto simp: create_job_def Let_def n_def [symmetric] list_ex_iff
          simp del: purpose_upload_types.simps split: if_splits)
  qed
qed

lemma create_job_inv:
  assumes inv: "job_inv (jobs s) (runs s)" and c: "create_job req orgs ms u a key purpose ut oa s = Inr ((job, new), t)"
  shows "job_inv (jobs t) (runs t) \<and> keeps_finished (jobs s) (jobs t) \<and> publications t = publications s"
  using c
proof (cases rule: create_job_cases)
  case (seen a')
  with inv show ?thesis by simp
next
  case (fresh a' k ct n)
  have f: "mj_id job = next_id mj_id (jobs s)" "mj_source_key job = key" "row_ok job"
    by (simp_all add: fresh(11) fresh_job_def row_ok_def)
  have "mj_id job \<notin> mj_id ` set (jobs s)" using fresh_number [of mj_id "jobs s"] f(1) by simp
  moreover have "key \<notin> mj_source_key ` set (jobs s)" using fresh(10) by blast
  moreover have "keeps_finished (jobs s) (jobs s @ [job])"
    using keeps_finished_refl [of "jobs s"] unfolding keeps_finished_def set_append by blast
  ultimately show ?thesis
    using inv f by (auto simp: fresh(12) tbl_insert_def job_inv_def)
qed

end
