(* ===== verification/Media_Steps.thy ===== *)
theory Media_Steps
  imports Media_Machine
begin

section \<open>The steps\<close>

text \<open>
  A request's result that carries the state, whatever else it answers. \<open>Queue\<close> lets the broker do what it
  likes with its messages. \<open>End\<close> is a run that comes back, \<open>Killed\<close> one that dies at a point \<open>_process\<close>
  can be left at, with nobody told; \<open>Lost\<close> one that dies before it wrote anything. \<open>runs_young\<close> is what
  the clock is trusted for: a run is gone before it is \<open>media_job_time_limit + stuck_grace\<close> old.
\<close>

inductive media_step :: "'l media_state \<Rightarrow> 'l media_state \<Rightarrow> bool" where
  Create_job: "create_job req orgs ms u a key purpose ut oa s = Inr (r, t) \<Longrightarrow> media_step s t"
| Create_post: "post_create env a u data s = Inr (r, t) \<Longrightarrow> media_step s t"
| Delete_post: "delete_post pid a s = (b, t) \<Longrightarrow> media_step s t"
| Moderate_post: "moderator_delete_post pid s = (b, t) \<Longrightarrow> media_step s t"
| Create_clip: "highlight_create env a u body s = Inr (r, t) \<Longrightarrow> media_step s t"
| Update_clip: "update_highlight cenv a hid ti vi s = Inr (h, t) \<Longrightarrow> media_step s t"
| Reorder_clips: "reorder_highlights cenv a ids s = Inr (ws, t) \<Longrightarrow> media_step s t"
| Delete_clip: "delete_highlight cenv a hid s = Inr (h, t) \<Longrightarrow> media_step s t"
| View_clip: "record_view role today ao ho s = (b, t) \<Longrightarrow> media_step s t"
| Cancel: "cancel_publication a pi s = Inr (p, t) \<Longrightarrow> media_step s t"
| Dismiss: "dismiss_publication now a pi s = Inr (p, t) \<Longrightarrow> media_step s t"
| Queue: "media_step s (s\<lparr>job_queue := q\<rparr>)"
| Claim: "(j, n) \<in> set (job_queue s) \<Longrightarrow> runs_young (pe_now env) (runs s) \<Longrightarrow> claim env j s = (c, t) \<Longrightarrow>
    media_step s (t\<lparr>runs := (case c of None \<Rightarrow> runs t | Some job \<Rightarrow> (job, n) # runs t)\<rparr>)"
| End: "(job, n) \<in> set (runs s) \<Longrightarrow> task_after_run up renv env n job s = t \<Longrightarrow>
    media_step s (t\<lparr>runs := drop_run (mj_id job) (runs t)\<rparr>)"
| Killed: "(job, n) \<in> set (runs s) \<Longrightarrow> process_job renv job s = (e, t) \<Longrightarrow>
    media_step s (t\<lparr>runs := drop_run (mj_id job) (runs t)\<rparr>)"
| Lost: "(job, n) \<in> set (runs s) \<Longrightarrow> media_step s (s\<lparr>runs := drop_run (mj_id job) (runs s)\<rparr>)"
| Sweep: "runs_young (se_now senv) (runs s) \<Longrightarrow> sweep senv env s = t \<Longrightarrow> media_step s t"
| Restart: "runs s = [] \<Longrightarrow> recover_after_restart senv s = t \<Longrightarrow> media_step s t"

inductive media_init :: "'l media_state \<Rightarrow> bool" where
  "media_init \<lparr>jobs = [], publications = [], posts = [], highlights = [], highlight_views = [],
     job_queue = [], runs = [], effects = []\<rparr>"

definition media_inv :: "'l media_state \<Rightarrow> bool" where
  "media_inv s \<longleftrightarrow> job_inv (jobs s) (runs s) \<and> pub_inv (publications s) \<and> rail_inv (highlights s)"

text \<open>What a step keeps besides the invariant.\<close>

definition media_keeps :: "'l media_state \<Rightarrow> 'l media_state \<Rightarrow> bool" where
  "media_keeps s t \<longleftrightarrow> keeps_finished (jobs s) (jobs t) \<and> settled_keeps (publications s) (publications t)"

lemma media_keeps_trans: "media_keeps s t \<Longrightarrow> media_keeps t u \<Longrightarrow> media_keeps s u"
  by (auto simp: media_keeps_def intro: keeps_finished_trans settled_keeps_trans)

section \<open>Every step keeps the invariant\<close>

lemma stepI:
  assumes "media_inv s" "job_inv (jobs t) (runs t)" "keeps_finished (jobs s) (jobs t)"
    and "pubs_move (publications s) (publications t)"
    and "rail_inv (highlights s) \<Longrightarrow> rail_inv (highlights t)"
  shows "media_inv t \<and> media_keeps s t"
  using assms by (auto simp: media_inv_def media_keeps_def pubs_move_def)

lemma quietI:
  assumes "media_inv s" "jobs t = jobs s" "runs t = runs s"
    and "pubs_move (publications s) (publications t)"
    and "rail_inv (highlights s) \<Longrightarrow> rail_inv (highlights t)"
  shows "media_inv t \<and> media_keeps s t"
  using assms by (intro stepI) (auto simp: media_inv_def)

lemma row_of_run:
  assumes "job_inv rows rs" "(job, n) \<in> set rs" "r \<in> set rows" "mj_id r = mj_id job"
  shows "same_run r job"
proof -
  obtain q where q: "q \<in> set rows" "same_run q job" using assms(1,2) by (auto simp: job_inv_def)
  then have "q = r" using job_inv_id [OF assms(1) _ assms(3)] assms(4) by (simp add: same_run_def)
  with q show ?thesis by simp
qed

lemma run_end:
  assumes inv: "media_inv s" and run: "(job, n) \<in> set (runs s)" and t: "touches {mj_id job} s t"
    and pubs: "pubs_move (publications s) (publications t)"
    and rail: "rail_inv (highlights s) \<Longrightarrow> rail_inv (highlights t)"
  shows "media_inv (t\<lparr>runs := drop_run (mj_id job) (runs t)\<rparr>)
    \<and> media_keeps s (t\<lparr>runs := drop_run (mj_id job) (runs t)\<rparr>)"
proof (rule stepI [OF inv])
  have j: "job_inv (jobs s) (runs s)" using inv by (simp add: media_inv_def)
  show "job_inv (jobs (t\<lparr>runs := drop_run (mj_id job) (runs t)\<rparr>)) (runs (t\<lparr>runs := drop_run (mj_id job) (runs t)\<rparr>))"
    using touches_inv_end [OF j t] by simp
  show "keeps_finished (jobs s) (jobs (t\<lparr>runs := drop_run (mj_id job) (runs t)\<rparr>))"
    using touches_keeps [OF t] row_of_run [OF j run] by (simp add: same_run_def is_finished_def)
qed (simp_all add: pubs rail)

lemma keeps_finishedI: "(\<And>r. r \<in> set a \<Longrightarrow> is_finished r \<Longrightarrow> r \<in> set b) \<Longrightarrow> keeps_finished a b"
proof (unfold keeps_finished_def, intro ballI impI)
  fix r assume "\<And>r. r \<in> set a \<Longrightarrow> is_finished r \<Longrightarrow> r \<in> set b" "r \<in> set a" "is_finished r"
  then show "\<exists>x. r\<lparr>mj_source_deleted_at := x\<rparr> \<in> set b" by (intro exI [of _ "mj_source_deleted_at r"]) simp
qed

lemma claim_touches:
  assumes inv: "job_inv (jobs s) (runs s)" and c: "claim env j s = (c, t)"
  shows "keeps_finished (jobs s) (jobs t)"
  using c
proof (cases rule: claim_cases)
  case nothing
  then show ?thesis by simp
next
  case (exhausted r)
  have "touches {j} s t" unfolding exhausted(6) by (rule touches_finish [OF mark_failed_touches]) simp
  moreover have "\<not> is_finished q" if "q \<in> set (jobs s)" "mj_id q \<in> {j}" for q
    using exhausted(1,2) that job_inv_id [OF inv that(1)] tbl_get_in tbl_get_key
    by (metis job_of_def singletonD)
  ultimately show ?thesis by (rule touches_keeps)
next
  case (claimed r upd)
  have "\<not> is_finished q" if "q \<in> set (jobs s)" "mj_id q = j" for q
    using claimed(1,2) that job_inv_id [OF inv that(1)] tbl_get_in tbl_get_key
    by (metis job_of_def)
  then show ?thesis
    by (intro keeps_finishedI) (force simp: claimed(7) update_job_def)
qed

lemma create_publication_rail:
  "rail_inv (highlights s) \<Longrightarrow> rail_inv (highlights (snd (create_publication env a u payload js s)))"
  by (simp add: create_publication_def Let_def pub_announce_def try_publish_rail)

lemma create_post_rail:
  assumes "post_create env a u data s = Inr (r, t)" "rail_inv (highlights s)"
  shows "rail_inv (highlights t)"
  using assms(1)
proof (cases rule: post_create_cases)
  case (held cleaned pid)
  with create_publication_rail [OF assms(2)] show ?thesis by (metis snd_conv)
next
  case (made cleaned i)
  with create_post_frame [OF made(4)] assms(2) show ?thesis by simp
qed

lemma create_clip_rail:
  assumes "highlight_create env a u b s = Inr (r, t)" "rail_inv (highlights s)"
  shows "rail_inv (highlights t)"
  using assms(1)
proof (cases rule: highlight_create_cases)
  case (held c payload pid)
  with create_publication_rail [OF assms(2)] show ?thesis by (metis snd_conv)
next
  case (made c i)
  then show ?thesis using insert_highlight_rail [OF assms(2)] by blast
qed

lemma clip_frames:
  "update_highlight cenv a hid ti vi s = Inr (h, t) \<Longrightarrow> jobs t = jobs s \<and> runs t = runs s \<and> publications t = publications s"
  "delete_highlight cenv a hid s = Inr (h, t) \<Longrightarrow> jobs t = jobs s \<and> runs t = runs s \<and> publications t = publications s"
  "reorder_highlights cenv a ids s = Inr (ws, t) \<Longrightarrow> jobs t = jobs s \<and> runs t = runs s \<and> publications t = publications s"
  by (auto simp: update_highlight_def delete_highlight_def reorder_highlights_def h_bind_Inr Let_def save_highlight_def
      split: if_splits option.splits)

lemma post_frames:
  "delete_post pid a s = (b, t) \<Longrightarrow> jobs t = jobs s \<and> runs t = runs s \<and> publications t = publications s"
  "moderator_delete_post pid s = (b, t) \<Longrightarrow> jobs t = jobs s \<and> runs t = runs s \<and> publications t = publications s
     \<and> highlights t = highlights s"
  "record_view role today ao ho s = (b, t) \<Longrightarrow> jobs t = jobs s \<and> runs t = runs s \<and> publications t = publications s"
  by (auto simp: delete_post_def moderator_delete_post_def record_view_def Let_def
      split: option.splits list.splits if_splits prod.splits)

lemma media_step_keeps:
  assumes "media_step s t" "media_inv s"
  shows "media_inv t \<and> media_keeps s t"
  using assms
proof (induction rule: media_step.induct)
  case (Create_job req orgs ms u a key purpose ut oa s r t)
  obtain job new where r: "r = (job, new)" by fastforce
  have "highlights t = highlights s"
    using Create_job(1)[unfolded r] by (cases rule: create_job_cases) simp_all
  with Create_job create_job_inv [OF _ Create_job(1)[unfolded r]] show ?case
    by (intro stepI) (auto simp: media_inv_def)
next
  case (Create_post env a u data s r t)
  then show ?case using post_create_moves create_post_rail by (intro quietI) blast+
next
  case (Delete_post pid a s b t)
  then show ?case using post_frames(1) [OF Delete_post(1)] delete_post_rail [of s pid a]
    by (intro quietI) auto
next
  case (Moderate_post pid s b t)
  then show ?case using post_frames(2) [OF Moderate_post(1)] by (intro quietI) auto
next
  case (Create_clip env a u body s r t)
  then show ?case using highlight_create_moves create_clip_rail by (intro quietI) blast+
next
  case (Update_clip cenv a hid ti vi s h t)
  then show ?case using clip_frames(1) [OF Update_clip(1)] update_highlight_rail by (intro quietI) auto
next
  case (Reorder_clips cenv a ids s ws t)
  then show ?case using clip_frames(3) [OF Reorder_clips(1)] reorder_rail by (intro quietI) auto
next
  case (Delete_clip cenv a hid s h t)
  then show ?case using clip_frames(2) [OF Delete_clip(1)] delete_highlight_rail by (intro quietI) auto
next
  case (View_clip role today ao ho s b t)
  then show ?case using post_frames(3) [OF View_clip(1)] record_view_rail [of s role today ao ho]
    by (intro quietI) auto
next
  case (Cancel a pi s p t)
  note c = cancel_moves [OF Cancel(1)]
  show ?case by (rule quietI [OF Cancel(2)]) (use c in simp_all)
next
  case (Dismiss now a pi s p t)
  note d = dismiss_moves [OF Dismiss(1)]
  show ?case by (rule quietI [OF Dismiss(2)]) (use d in simp_all)
next
  case (Queue s q)
  then show ?case by (intro quietI) auto
next
  case (Claim j n s env c t)
  note cl = Claim(3)
  have inv: "job_inv (jobs s) (runs s)" using Claim(4) by (simp add: media_inv_def)
  show ?case
  proof (rule stepI [OF Claim(4)])
    let ?t = "t\<lparr>runs := (case c of None \<Rightarrow> runs t | Some job \<Rightarrow> (job, n) # runs t)\<rparr>"
    show "job_inv (jobs ?t) (runs ?t)" using claim_inv [OF inv Claim(2) cl, of n] by simp
    show "keeps_finished (jobs s) (jobs ?t)" using claim_touches [OF inv cl] by simp
    show "pubs_move (publications s) (publications ?t)" using pubs.claim [OF cl] by simp
    show "rail_inv (highlights ?t)" if "rail_inv (highlights s)" using rails.claim [OF cl] that by simp
  qed
next
  case (End job n s up renv env t)
  have "touches {mj_id job} s t" using task_touches [of job "{mj_id job}"] End(2) by blast
  then show ?case
    by (rule run_end [OF End(3,1)]) (use End(2) pubs.task rails.task in blast)+
next
  case (Killed job n s renv e t)
  have "touches {mj_id job} s t" by (rule process_job_touches [OF Killed(2)]) simp
  then show ?case
    by (rule run_end [OF Killed(3,1)]) (use Killed(2) pubs.process rails.process in blast)+
next
  case (Lost job n s)
  then show ?case by (intro run_end) (auto intro: touches_refl)
next
  case (Sweep senv s env t)
  have "job_inv (jobs s) (runs s)" using Sweep(3) by (simp add: media_inv_def)
  from sweep_jobs [OF this Sweep(1), of env] Sweep show ?case
    using pubs.sweep [of s senv env] rails.sweep [of s senv env] by (intro stepI) auto
next
  case (Restart s senv t)
  have "job_inv (jobs s) (runs s)" using Restart(3) by (simp add: media_inv_def)
  from restart_jobs [OF this Restart(1), of senv] Restart show ?case
    using pubs.restart [of s senv] rails.restart [of s senv] by (intro stepI) auto
qed

lemma media_init_inv: "media_init s \<Longrightarrow> media_inv s"
  by (auto simp: media_init.simps media_inv_def job_inv_def pub_inv_def rail_inv_def tbl_ok_def run_ids_def live_of_def)

interpretation media: safe_machine media_init media_step media_inv
  using media_init_inv media_step_keeps by unfold_locales blast+

lemma media_run_keeps: "media_step\<^sup>*\<^sup>* s t \<Longrightarrow> media_inv s \<Longrightarrow> media_keeps s t"
proof (induction rule: rtranclp_induct)
  case base
  then show ?case by (simp add: media_keeps_def)
next
  case (step t u)
  then have "media_inv t" using media.inv_run by blast
  with step show ?case using media_step_keeps media_keeps_trans by blast
qed

end
