(* ===== verification/Media_Demo.thy ===== *)
theory Media_Demo
  imports Media_Steps
begin

text \<open>
  A run of the machine: an original is uploaded and its job created, a worker claims it, its owner posts it
  while it converts, the run ends well and the post appears, the clip is promoted to the owner's rail.
\<close>

definition demo_uuid :: "nat \<Rightarrow> string" where
  "demo_uuid n = ''0000000'' @ decimal (n mod 10) @ ''-0000-0000-0000-000000000000''"

definition demo_key :: string where
  "demo_key = ''users/'' @ demo_uuid 1 @ ''/posts/'' @ demo_uuid 7 @ ''/'' @ demo_uuid 8 @ ''.src.mov''"

definition demo_create_env :: "instant \<Rightarrow> unit create_env" where
  "demo_create_env now = \<lparr>ce_base = ''https://media.goatza.com'', ce_uuid_text = demo_uuid,
     ce_role = (\<lambda>_. PlayerRole), ce_sport_exists = (\<lambda>_. True), ce_location_formed = (\<lambda>_. True),
     ce_location_checked = (\<lambda>_. Inr ()), ce_location_created = (\<lambda>_. Inr ()), ce_now = now\<rparr>"

definition demo_env :: "instant \<Rightarrow> unit publish_env" where
  "demo_env now = \<lparr>pe_create = demo_create_env now,
     pe_users = [\<lparr>user_id = 1, user_email = [], user_is_active = True, user_is_email_verified = True,
                  user_deletion_requested_at = None\<rparr>],
     pe_orgs = [], pe_members = [], pe_held = [], pe_raises = (\<lambda>_. False)\<rparr>"

definition demo_run_env :: "instant \<Rightarrow> run_env" where
  "demo_run_env now = \<lparr>re_now = now, re_can_convert = (\<lambda>_. True), re_head = Inr (Some (Some 1000)),
     re_download = Inr (), re_uuid_output = demo_uuid 5, re_uuid_thumbnail = demo_uuid 6,
     re_convert = Inr \<lparr>cv_width = 720, cv_height = 1280, cv_duration = Some 30, cv_size = 900\<rparr>,
     re_upload_output = Inr (), re_upload_thumbnail = Inr (), re_limit_after_ready = False,
     re_media_base = ''https://media.goatza.com''\<rparr>"

definition demo_request :: job_request where
  "demo_request = \<lparr>jr_available = True, jr_uuid_text = demo_uuid,
     jr_head = Some (''video/quicktime'', Some 1000), jr_broker_up = True, jr_now = 0\<rparr>"

definition demo_body :: "unit post_payload" where
  "demo_body = \<lparr>pp_content = ''goal'', pp_post_type = ''normal'', pp_visibility = ''public'',
     pp_sport = None, pp_location = None, pp_media = [JobItem (Some 1) None]\<rparr>"

definition demo_clip :: highlight_body where
  "demo_clip = \<lparr>hb_source_media = Some 1, hb_job = None, hb_file_url = [], hb_public_id = [],
     hb_thumbnail_url = [], hb_duration = None, hb_width = None, hb_height = None,
     hb_title = ''goal'', hb_visibility = None\<rparr>"

definition media_start :: "unit media_state" where
  "media_start = \<lparr>jobs = [], publications = [], posts = [], highlights = [], highlight_views = [],
     job_queue = [], runs = [], effects = []\<rparr>"

definition demo_create_job ::
  "unit media_state \<Rightarrow> ((media_job \<times> bool) \<times> unit media_state) result" where
  "demo_create_job s =
     create_job demo_request [] [] 1 (UserActor 1) demo_key ''posts'' ''posts'' None s"

definition right_state :: "'s \<Rightarrow> 'e + 'r \<times> 's \<Rightarrow> 's" where
  "right_state d m = (case m of Inl _ \<Rightarrow> d | Inr (_, t) \<Rightarrow> t)"

lemma right_state: "\<not> isl m \<Longrightarrow> \<exists>r. m = Inr (r, right_state d m)"
  by (cases m) (auto simp: right_state_def split: prod.split)

definition demo_queued :: "unit media_state" where
  "demo_queued = right_state media_start (demo_create_job media_start)"

definition demo_claimed :: "unit media_state" where
  "demo_claimed = (case claim (demo_env 1000) 1 demo_queued of (c, t) \<Rightarrow>
     t\<lparr>runs := (case c of None \<Rightarrow> runs t | Some job \<Rightarrow> (job, 0) # runs t)\<rparr>)"

definition demo_held :: "unit media_state" where
  "demo_held = right_state demo_claimed (post_create (demo_env 2000) (UserActor 1) 1 demo_body demo_claimed)"

definition demo_posted :: "unit media_state" where
  "demo_posted =
     (let t = task_after_run True (demo_run_env 3000) (demo_env 3000) (snd (hd (runs demo_held)))
                (fst (hd (runs demo_held))) demo_held
      in t\<lparr>runs := drop_run (mj_id (fst (hd (runs demo_held)))) (runs t)\<rparr>)"

definition demo_railed :: "unit media_state" where
  "demo_railed = right_state demo_posted (highlight_create (demo_env 4000) (UserActor 1) 1 demo_clip demo_posted)"

lemma media_start_init: "media_init media_start"
  by (simp add: media_start_def media_init.simps)

lemma queued_runs: "\<not> isl (demo_create_job media_start)"
  by code_simp

lemma queued_row: "map (\<lambda>r. (mj_status r, mj_updated_at r)) (jobs demo_queued) = [(Queued, 0)] \<and> runs demo_queued = []"
  by code_simp

lemma claimed_runs: "job_queue demo_queued = [(1, 0)] \<and> runs demo_queued = []"
  by code_simp

lemma held_runs: "\<not> isl (post_create (demo_env 2000) (UserActor 1) 1 demo_body demo_claimed)"
  by code_simp

lemma posted_runs: "map (\<lambda>(job, n). (mj_id job, n)) (runs demo_held) = [(1, 0)]
    \<and> map (\<lambda>p. (pub_id p, pub_jobs p, pub_status p, pub_created_at p)) (publications demo_held)
        = [(1, [1], PubProcessing, 2000)]"
  by code_simp

lemma held_waits: "fst (try_publish (demo_env 0) 1 demo_held) = None"
  by code_simp

lemma posted_ends: "map mj_status (jobs demo_posted) = [Ready] \<and> map pub_status (publications demo_posted) = [Published]"
  by code_simp

lemma railed_runs: "\<not> isl (highlight_create (demo_env 4000) (UserActor 1) 1 demo_clip demo_posted)"
  by code_simp

end
