(* ===== verification/Media_Liveness.thy ===== *)
theory Media_Liveness
  imports Media_Steps
begin

text \<open>
  What one sweep achieves: an unfinished job nobody works on is back in the queue or failed, a publication
  that waited too long is settled.
\<close>

section \<open>Stranded jobs\<close>

lemma take_filter_all: "length (filter P xs) \<le> n \<Longrightarrow> set (take n (sort_key f (filter P xs))) = {x \<in> set xs. P x}"
  by (simp add: take_all)

lemma take_map_all: "length (filter P xs) \<le> n \<Longrightarrow> set (take n (map g (sort_key f (filter P xs)))) = g ` {x \<in> set xs. P x}"
  by (simp add: take_all)

lemma length_filter_le_imp:
  "(\<And>x. x \<in> set xs \<Longrightarrow> P x \<Longrightarrow> Q x) \<Longrightarrow> length (filter P xs) \<le> length (filter Q xs)"
  by (induction xs) auto

definition unfinished :: "'l media_state \<Rightarrow> media_job list" where
  "unfinished s = filter (\<lambda>r. \<not> is_finished r) (jobs s)"

definition stuck_at :: "instant \<Rightarrow> media_job \<Rightarrow> bool" where
  "stuck_at now r \<longleftrightarrow>
     (mj_status r = Queued \<and> mj_updated_at r < now - queued_redispatch_after) \<or>
     (mj_status r = Processing \<and> (\<exists>t. mj_started_at r = Some t \<and> t < now - (media_job_time_limit + stuck_grace)))"

definition old_queued :: "sweep_env \<Rightarrow> media_job \<Rightarrow> bool" where
  "old_queued env r \<longleftrightarrow> mj_status r = Queued \<and> mj_updated_at r < se_now env - queued_redispatch_after
     \<and> mj_id r \<notin> set (se_locked_jobs env)"

definition dead_run :: "sweep_env \<Rightarrow> media_job \<Rightarrow> bool" where
  "dead_run env r \<longleftrightarrow> mj_status r = Processing
     \<and> (case mj_started_at r of None \<Rightarrow> False | Some t \<Rightarrow> t < se_now env - (media_job_time_limit + stuck_grace))
     \<and> mj_id r \<notin> set (se_locked_jobs env)"

lemma redispatch_shape:
  assumes few: "length (unfinished s) \<le> sweep_batch_size" and inv: "job_inv (jobs s) rs"
  shows "jobs (redispatch_queued env s) =
      map (\<lambda>r. if old_queued env r then r\<lparr>mj_updated_at := se_now env\<rparr> else r) (jobs s)"
    "se_broker_up env \<Longrightarrow> r \<in> set (jobs s) \<Longrightarrow> old_queued env r \<Longrightarrow>
       (mj_id r, 0) \<in> set (job_queue (redispatch_queued env s))"
proof -
  define P where "P = old_queued env"
  have "length (filter P (jobs s)) \<le> length (unfinished s)"
    unfolding unfinished_def by (rule length_filter_le_imp) (simp add: P_def old_queued_def is_finished_def)
  with few have n: "length (filter P (jobs s)) \<le> sweep_batch_size" by simp
  define js where "js = take sweep_batch_size (map mj_id (sort_key mj_created_at (filter P (jobs s))))"
  have js: "set js = mj_id ` {r \<in> set (jobs s). P r}"
    unfolding js_def by (rule take_map_all [OF n])
  have mem: "mj_id r \<in> set js \<longleftrightarrow> P r" if "r \<in> set (jobs s)" for r
    using that job_inv_id [OF inv that] by (auto simp: js)
  have shape: "redispatch_queued env s = dispatch (se_broker_up env) 0 js
      (s\<lparr>jobs := map (\<lambda>r. if mj_id r \<in> set js then r\<lparr>mj_updated_at := se_now env\<rparr> else r) (jobs s)\<rparr>)"
    by (simp add: redispatch_queued_def Let_def js_def P_def old_queued_def [abs_def])
  show "jobs (redispatch_queued env s) =
      map (\<lambda>r. if old_queued env r then r\<lparr>mj_updated_at := se_now env\<rparr> else r) (jobs s)"
    using mem by (simp add: shape P_def)
  show "(mj_id r, 0) \<in> set (job_queue (redispatch_queued env s))"
    if "se_broker_up env" "r \<in> set (jobs s)" "old_queued env r"
    using that mem [of r] by (simp add: shape dispatch_def P_def)
qed

lemma fold_mark_failed:
  "jobs (foldl (\<lambda>s j. mark_failed now j c d s) s js) =
     map (\<lambda>r. if mj_id r \<in> set js then r\<lparr>mj_status := Failed, mj_error := Some c,
       mj_error_detail := drop (length d - error_detail_max_chars) d,
       mj_finished_at := Some now, mj_updated_at := now\<rparr> else r) (jobs s)"
  by (induction js arbitrary: s) (auto simp: mark_failed_def update_job_def)

lemma fold_mark_failed_queue:
  "job_queue (foldl (\<lambda>s j. mark_failed now j c d s) s js) = job_queue s"
  by (induction js arbitrary: s) (auto simp: mark_failed_def)

lemma fold_finish_frame:
  "jobs (foldl (\<lambda>s j. finish penv j s) s js) = jobs s"
  "job_queue (foldl (\<lambda>s j. finish penv j s) s js) = job_queue s"
  by (induction js arbitrary: s) simp_all

lemma recover_dead_outcome:
  assumes few: "length (unfinished s) \<le> sweep_batch_size" and inv: "job_inv (jobs s) rs"
    and r: "r \<in> set (jobs s)"
  shows "\<exists>q \<in> set (jobs (recover_dead_runs env penv s)). mj_id q = mj_id r \<and>
      (if \<not> dead_run env r then q = r
       else if mj_attempts r < max_job_attempts then mj_status q = Queued
         \<and> (se_broker_up env \<longrightarrow> (mj_id r, 0) \<in> set (job_queue (recover_dead_runs env penv s)))
       else mj_status q = Failed \<and> mj_error q = Some ProcessingTimeout)"
    "set (job_queue s) \<subseteq> set (job_queue (recover_dead_runs env penv s))"
proof -
  define P where "P = dead_run env"
  have "length (filter P (jobs s)) \<le> length (unfinished s)"
    unfolding unfinished_def by (rule length_filter_le_imp) (simp add: P_def dead_run_def is_finished_def)
  with few have n: "length (filter P (jobs s)) \<le> sweep_batch_size" by simp
  have d: "set (dead_runs env s) = {r \<in> set (jobs s). P r}"
    unfolding dead_runs_def Let_def using take_filter_all [OF n] by (simp add: P_def dead_run_def [abs_def])
  define good where "good = map mj_id (filter (\<lambda>r. mj_attempts r < max_job_attempts) (dead_runs env s))"
  define bad where "bad = map mj_id (filter (\<lambda>r. \<not> mj_attempts r < max_job_attempts) (dead_runs env s))"
  have good: "mj_id r \<in> set good \<longleftrightarrow> dead_run env r \<and> mj_attempts r < max_job_attempts"
    using r job_inv_id [OF inv r] by (auto simp: good_def d P_def)
  have bad: "mj_id r \<in> set bad \<longleftrightarrow> dead_run env r \<and> \<not> mj_attempts r < max_job_attempts"
    using r job_inv_id [OF inv r] by (auto simp: bad_def d P_def)
  let ?t = "recover_dead_runs env penv s"
  let ?fail = "\<lambda>r. r\<lparr>mj_status := Failed, mj_error := Some ProcessingTimeout,
       mj_error_detail := drop (length ''no run finished'' - error_detail_max_chars) ''no run finished'',
       mj_finished_at := Some (se_now env), mj_updated_at := se_now env\<rparr>"
  have rows: "jobs ?t = map (\<lambda>r. if mj_id r \<in> set good then r\<lparr>mj_status := Queued, mj_updated_at := se_now env\<rparr> else r)
      (map (\<lambda>r. if mj_id r \<in> set bad then ?fail r else r) (jobs s))"
    by (simp add: recover_dead_runs_def Let_def fold_finish_frame fold_mark_failed good_def bad_def)
  have queue: "job_queue ?t = job_queue s @ (if se_broker_up env then map (\<lambda>j. (j, 0)) good else [])"
    by (simp add: recover_dead_runs_def Let_def dispatch_def fold_finish_frame fold_mark_failed_queue good_def)
  show "set (job_queue s) \<subseteq> set (job_queue ?t)" by (simp add: queue)
  define q where "q = (if mj_id r \<in> set good then r\<lparr>mj_status := Queued, mj_updated_at := se_now env\<rparr>
      else if mj_id r \<in> set bad then ?fail r else r)"
  have "q \<in> set (jobs ?t)"
    unfolding rows set_map image_image
    by (rule image_eqI [OF _ r]) (use good bad in \<open>simp add: q_def\<close>)
  moreover have "mj_id q = mj_id r \<and> (if \<not> dead_run env r then q = r
       else if mj_attempts r < max_job_attempts then mj_status q = Queued
         \<and> (se_broker_up env \<longrightarrow> (mj_id r, 0) \<in> set (job_queue ?t))
       else mj_status q = Failed \<and> mj_error q = Some ProcessingTimeout)"
    using good bad by (simp add: q_def queue)
  ultimately show "\<exists>q \<in> set (jobs ?t). mj_id q = mj_id r \<and> (if \<not> dead_run env r then q = r
       else if mj_attempts r < max_job_attempts then mj_status q = Queued
         \<and> (se_broker_up env \<longrightarrow> (mj_id r, 0) \<in> set (job_queue ?t))
       else mj_status q = Failed \<and> mj_error q = Some ProcessingTimeout)" by blast
qed

lemma delete_failed_row:
  assumes "job_inv (jobs s) rs" "r \<in> set (jobs s)"
  shows "\<exists>q \<in> set (jobs (delete_failed_sources env s)). mj_id q = mj_id r \<and> mj_status q = mj_status r
      \<and> mj_error q = mj_error r"
    "job_queue (delete_failed_sources env s) = job_queue s"
proof -
  obtain ids where d: "jobs (delete_failed_sources env s) = map (\<lambda>r. if mj_id r \<in> set ids
      then r\<lparr>mj_source_deleted_at := Some (se_now env)\<rparr> else r) (jobs s)" by (rule delete_failed_shape)
  show "\<exists>q \<in> set (jobs (delete_failed_sources env s)). mj_id q = mj_id r \<and> mj_status q = mj_status r
      \<and> mj_error q = mj_error r"
    by (rule bexI [of _ "if mj_id r \<in> set ids then r\<lparr>mj_source_deleted_at := Some (se_now env)\<rparr> else r"])
      (use assms(2) in \<open>simp_all add: d\<close>)
  show "job_queue (delete_failed_sources env s) = job_queue s"
    by (simp add: delete_failed_sources_def Let_def split: prod.split)
qed

lemma publications_frame_queue [simp]:
  "job_queue (settle_publications penv s) = job_queue s"
  "job_queue (expire_publications env penv s) = job_queue s"
  by (simp_all add: settle_publications_def expire_publications_def)

lemma sweep_picks_up:
  assumes inv: "job_inv (jobs s) (runs s)" and young: "runs_young (se_now env) (runs s)"
    and r: "r \<in> set (jobs s)" "stuck_at (se_now env) r" "mj_id r \<notin> set (se_locked_jobs env)"
    and few: "length (unfinished s) \<le> sweep_batch_size" and up: "se_broker_up env"
  shows "\<exists>q \<in> set (jobs (sweep env penv s)). mj_id q = mj_id r \<and>
     (if mj_status r = Processing \<and> max_job_attempts \<le> mj_attempts r
      then mj_status q = Failed \<and> mj_error q = Some ProcessingTimeout
      else mj_status q = Queued \<and> (mj_id r, 0) \<in> set (job_queue (sweep env penv s)))"
proof -
  define s1 where "s1 = redispatch_queued env s"
  define s2 where "s2 = recover_dead_runs env penv s1"
  define s3 where "s3 = delete_failed_sources env s2"
  define r1 where "r1 = (if old_queued env r then r\<lparr>mj_updated_at := se_now env\<rparr> else r)"
  note shape = redispatch_shape [OF few inv, of env, folded s1_def]
  have r1: "r1 \<in> set (jobs s1)" using r(1) by (force simp: shape(1) r1_def)
  have same: "mj_id r1 = mj_id r" "mj_status r1 = mj_status r" "mj_attempts r1 = mj_attempts r"
    "mj_started_at r1 = mj_started_at r" by (simp_all add: r1_def)
  obtain J where J: "touches J s s1" "J \<subseteq> mj_id ` {r \<in> set (jobs s). mj_status r = Queued}"
    unfolding s1_def by (rule redispatch_touches)
  have "J \<inter> set (run_ids (runs s)) = {}" by (rule free_of_runs [OF inv young _ J(2)]) simp
  from touches_inv_free [OF inv J(1) this] have i1: "job_inv (jobs s1) (runs s1)" .
  have few1: "length (unfinished s1) \<le> sweep_batch_size"
  proof -
    have "length (filter (\<lambda>r. \<not> is_finished r) (map (\<lambda>r. if P r then r\<lparr>mj_updated_at := u\<rparr> else r) xs))
        = length (filter (\<lambda>r. \<not> is_finished r) xs)" for P u and xs :: "media_job list"
      by (induction xs) (simp_all add: is_finished_def)
    with few show ?thesis by (simp add: unfinished_def shape(1))
  qed
  note out = recover_dead_outcome [OF few1 i1 r1, of env penv, folded s2_def]
  obtain q where q: "q \<in> set (jobs s2)" "mj_id q = mj_id r"
      "if mj_status r = Processing \<and> max_job_attempts \<le> mj_attempts r
       then mj_status q = Failed \<and> mj_error q = Some ProcessingTimeout
       else mj_status q = Queued \<and> (mj_id r, 0) \<in> set (job_queue s2)"
  proof (cases "mj_status r = Queued")
    case True
    with r have "old_queued env r" by (auto simp: old_queued_def stuck_at_def)
    with shape(2) [OF up r(1)] have "(mj_id r, 0) \<in> set (job_queue s1)" by simp
    with out(2) have "(mj_id r, 0) \<in> set (job_queue s2)" by blast
    moreover obtain q where "q \<in> set (jobs s2)" "q = r1" using out(1) same True by (auto simp: dead_run_def)
    ultimately show ?thesis using True same by (intro that [of q]) simp_all
  next
    case False
    with r have proc: "mj_status r = Processing" by (auto simp: stuck_at_def)
    with r same have "dead_run env r1" by (auto simp: stuck_at_def dead_run_def)
    with out(1) same r(3) up obtain q where "q \<in> set (jobs s2)" "mj_id q = mj_id r"
        "if mj_attempts r < max_job_attempts then mj_status q = Queued \<and> (mj_id r, 0) \<in> set (job_queue s2)
         else mj_status q = Failed \<and> mj_error q = Some ProcessingTimeout" by (auto split: if_splits)
    with proc show ?thesis by (intro that [of q]) (auto split: if_splits)
  qed
  have i2: "job_inv (jobs s2) []"
  proof -
    have "touches (mj_id ` set (dead_runs env s1)) s1 s2" unfolding s2_def by (rule recover_dead_touches)
    from touches_inv [OF i1 this, of "[]"] show ?thesis by (simp add: run_ids_def)
  qed
  have "\<exists>x \<in> set (jobs s3). mj_id x = mj_id q \<and> mj_status x = mj_status q \<and> mj_error x = mj_error q"
    unfolding s3_def by (rule delete_failed_row(1) [OF i2 q(1)])
  moreover have "job_queue s3 = job_queue s2" unfolding s3_def by (rule delete_failed_row(2) [OF i2 q(1)])
  ultimately show ?thesis
    using q(2,3) by (auto simp: sweep_def s1_def [symmetric] s2_def [symmetric] s3_def [symmetric])
qed


section \<open>Stale publications\<close>

definition still_or_settled :: "'l publication \<Rightarrow> 'l publication \<Rightarrow> bool" where
  "still_or_settled p q \<longleftrightarrow> pub_id q = pub_id p \<and> pub_created_at q = pub_created_at p
     \<and> (q = p \<or> pub_status p = PubProcessing \<and> pub_status q \<in> set [Published, PubFailed])"

definition settling :: "'l media_state \<Rightarrow> 'l media_state \<Rightarrow> bool" where
  "settling s t \<longleftrightarrow> list_all2 still_or_settled (publications s) (publications t)"

lemma still_refl: "still_or_settled p p"
  by (simp add: still_or_settled_def)

lemma still_trans: "still_or_settled p q \<Longrightarrow> still_or_settled q r \<Longrightarrow> still_or_settled p r"
  by (auto simp: still_or_settled_def)

lemma list_all2_save:
  assumes "\<And>x. x \<in> set ps \<Longrightarrow> key x = key q \<Longrightarrow> P x q" "\<And>x. P x x"
  shows "list_all2 P ps (tbl_save key q ps)"
  using assms by (induction ps) (auto simp: tbl_save_def)

lemma settle_one:
  assumes inv: "tbl_ok pub_id ps" and p: "p \<in> set ps" "pub_status p = PubProcessing" "pub_id q = pub_id p"
      "pub_created_at q = pub_created_at p" "pub_status q \<in> set [Published, PubFailed]"
  shows "list_all2 still_or_settled ps (tbl_save pub_id q ps)"
proof (rule list_all2_save)
  fix x assume "x \<in> set ps" "pub_id x = pub_id q"
  then have "x = p" using inv p(1,3) by (metis tbl_get_eq_Some option.inject)
  with p show "still_or_settled x q" by (simp add: still_or_settled_def)
qed (rule still_refl)

definition settles_from :: "'l media_state \<Rightarrow> 'l media_state \<Rightarrow> bool" where
  "settles_from s t \<longleftrightarrow> (tbl_ok pub_id (publications s) \<longrightarrow>
     tbl_ok pub_id (publications t) \<and> settling s t)"

lemma save_settles:
  assumes "p \<in> set (publications s)" "pub_status p = PubProcessing" "pub_id q = pub_id p"
      "pub_created_at q = pub_created_at p" "pub_status q \<in> set [Published, PubFailed]"
      "publications t = tbl_save pub_id q (publications s)"
  shows "settles_from s t"
  using settle_one [OF _ assms(1-5)] by (simp add: settles_from_def settling_def assms(6))

interpretation settles: publishing settles_from
proof
  fix s t u :: "'a media_state"
  show "settles_from s t" if "publications t = publications s" "posts t = posts s" "highlights t = highlights s"
    using that by (simp add: settles_from_def settling_def list_all2_refl still_refl)
  show "settles_from s u" if "settles_from s t" "settles_from t u"
    using that list_all2_trans [of still_or_settled still_or_settled still_or_settled "publications s" "publications t" "publications u", OF still_trans]
    by (simp add: settles_from_def settling_def)
  show "settles_from s (snd (try_publish env pid s))" for env pid
  proof -
    obtain o' t where t: "try_publish env pid s = (o', t)" by fastforce
    then have "settles_from s t"
    proof (cases rule: try_publish_cases)
      case still
      then show ?thesis by (simp add: settles_from_def settling_def list_all2_refl still_refl)
    next
      case (fails p q c m)
      show ?thesis
        by (rule save_settles [OF fails(1,3), of q]) (simp_all add: fails(4,6) failed_publication_def)
    next
      case (publishes p q a rid v)
      have "publications v = publications s" using publish_as_frame [OF publishes(6)] by simp
      then show ?thesis
        by (intro save_settles [OF publishes(1,3), of q]) (simp_all add: publishes(7,9))
    qed
    with t show ?thesis by simp
  qed
  show "settles_from s (snd (expire_publication held pid s))" for held pid
  proof (cases "find (\<lambda>p. pub_id p = pid \<and> pub_status p = PubProcessing \<and> pid \<notin> set held) (publications s)")
    case (Some p)
    then have "p \<in> set (publications s)" "pub_status p = PubProcessing" by (auto dest: find_eq_Some_conv)
    with Some show ?thesis
      by (intro save_settles [of p s "failed_publication ProcessingTimeout (CodeSentence ProcessingTimeout) p"])
        (simp_all add: expire_publication_def Let_def failed_publication_def)
  qed (simp add: expire_publication_def settles_from_def settling_def list_all2_refl still_refl)
qed

lemma expire_settles:
  assumes "pid \<notin> set held" "q \<in> set (publications (snd (expire_publication held pid s)))" "pub_id q = pid"
  shows "pub_status q \<noteq> PubProcessing"
proof (cases "find (\<lambda>p. pub_id p = pid \<and> pub_status p = PubProcessing \<and> pid \<notin> set held) (publications s)")
  case None
  with assms(2) have "q \<in> set (publications s)" by (simp add: expire_publication_def)
  with None assms(1,3) show ?thesis by (simp add: find_None_conv)
next
  case (Some p)
  define f where "f = failed_publication ProcessingTimeout (CodeSentence ProcessingTimeout) p"
  from Some have "pub_id f = pid" "pub_status f = PubFailed"
    by (auto simp: f_def failed_publication_def dest: find_eq_Some_conv)
  moreover have "publications (snd (expire_publication held pid s)) = tbl_save pub_id f (publications s)"
    by (simp add: expire_publication_def Let_def Some f_def)
  ultimately show ?thesis
    using in_save [of q pub_id f "publications s"] assms(2,3) by auto
qed

lemma still_processing_count:
  "list_all2 still_or_settled ps qs \<Longrightarrow>
     length (filter (\<lambda>p. pub_status p = PubProcessing) qs) \<le> length (filter (\<lambda>p. pub_status p = PubProcessing) ps)"
  by (induction rule: list_all2_induct) (auto simp: still_or_settled_def)

lemma settling_row:
  assumes "settling s t" "p \<in> set (publications s)"
  obtains q where "q \<in> set (publications t)" "still_or_settled p q"
proof -
  from assms(2) obtain i where "i < length (publications s)" "p = publications s ! i" by (auto simp: in_set_conv_nth)
  with assms(1) show ?thesis
    by (intro that [of "publications t ! i"]) (simp_all add: settling_def list_all2_conv_all_nth)
qed

lemma settling_row_back:
  assumes "settling s t" "q \<in> set (publications t)"
  obtains p where "p \<in> set (publications s)" "still_or_settled p q"
proof -
  from assms(2) obtain i where "i < length (publications t)" "q = publications t ! i" by (auto simp: in_set_conv_nth)
  with assms(1) show ?thesis
    by (intro that [of "publications s ! i"]) (simp_all add: settling_def list_all2_conv_all_nth)
qed

lemma fold_expire_settles:
  assumes "pid \<in> set ps" "pid \<notin> set held" "tbl_ok pub_id (publications s)"
    and "q \<in> set (publications (foldl (\<lambda>s pid. snd (expire_publication held pid s)) s ps))" "pub_id q = pid"
  shows "pub_status q \<noteq> PubProcessing"
proof -
  obtain xs ys where ps: "ps = xs @ pid # ys" using split_list [OF assms(1)] by blast
  define t where "t = foldl (\<lambda>s pid. snd (expire_publication held pid s)) s xs"
  define u where "u = snd (expire_publication held pid t)"
  have fold: "settles_from v (foldl (\<lambda>s pid. snd (expire_publication held pid s)) v zs)" for v :: "'a media_state" and zs
    by (rule settles.fold) (rule settles.R_expire)
  have "settles_from s t" unfolding t_def by (rule fold)
  with assms(3) have "tbl_ok pub_id (publications t)" by (simp add: settles_from_def)
  then have "tbl_ok pub_id (publications u)" using settles.R_expire [of t held pid] by (simp add: settles_from_def u_def)
  with fold [of u ys] have "settling u (foldl (\<lambda>s pid. snd (expire_publication held pid s)) u ys)"
    by (simp add: settles_from_def)
  moreover have "q \<in> set (publications (foldl (\<lambda>s pid. snd (expire_publication held pid s)) u ys))"
    using assms(4) by (simp add: ps t_def u_def)
  ultimately obtain p where p: "p \<in> set (publications u)" "still_or_settled p q" by (rule settling_row_back)
  have "pub_id p = pid" using p(2) assms(5) unfolding still_or_settled_def by simp
  with expire_settles [OF assms(2), of p t] p(1) have "pub_status p \<noteq> PubProcessing" by (simp add: u_def)
  with p(2) show ?thesis unfolding still_or_settled_def by (elim conjE disjE) simp_all
qed

lemma sweep_expires:
  assumes ok: "tbl_ok pub_id (publications s)" and p: "p \<in> set (publications s)"
      "pub_created_at p < se_now env - publication_timeout" "pub_id p \<notin> set (pe_held penv)"
    and few: "length (filter (\<lambda>p. pub_status p = PubProcessing) (publications s)) \<le> sweep_batch_size"
  shows "\<exists>q \<in> set (publications (sweep env penv s)). still_or_settled p q \<and> pub_status q \<noteq> PubProcessing"
proof -
  define u where "u = settle_publications penv (delete_failed_sources env (recover_dead_runs env penv (redispatch_queued env s)))"
  have settle_all: "settles_from v (settle_publications penv v)" for v :: "'a media_state"
    unfolding settle_publications_def by (rule settles.fold) (rule settles.R_publish)
  have "settles_from s u" unfolding u_def
    by (rule settles.R_trans [OF settles.R_trans [OF settles.R_trans [OF settles.redispatch settles.recover_dead]
      settles.delete_failed] settle_all])
  with ok have u: "tbl_ok pub_id (publications u)" "settling s u" by (simp_all add: settles_from_def)
  define P where "P = (\<lambda>p :: 'a publication. pub_status p = PubProcessing \<and> pub_created_at p < se_now env - publication_timeout)"
  have "length (filter P (publications u)) \<le> length (filter (\<lambda>p. pub_status p = PubProcessing) (publications u))"
    by (rule length_filter_le_imp) (simp add: P_def)
  also have "\<dots> \<le> length (filter (\<lambda>p. pub_status p = PubProcessing) (publications s))"
    using still_processing_count u(2) by (simp add: settling_def)
  finally have n: "length (filter P (publications u)) \<le> sweep_batch_size" using few by simp
  define ids where "ids = take sweep_batch_size (map pub_id (sort_key pub_created_at (filter P (publications u))))"
  have ids: "set ids = pub_id ` {p \<in> set (publications u). P p}" unfolding ids_def by (rule take_map_all [OF n])
  have sw: "sweep env penv s = foldl (\<lambda>s pid. snd (expire_publication (pe_held penv) pid s)) u ids"
    by (simp add: sweep_def u_def expire_publications_def ids_def P_def)
  have "settles_from u (sweep env penv s)" unfolding sw by (rule settles.fold) (rule settles.R_expire)
  with u(1) have su: "settling u (sweep env penv s)" by (simp add: settles_from_def)
  obtain p' where p': "p' \<in> set (publications u)" "still_or_settled p p'" by (rule settling_row [OF u(2) p(1)])
  obtain q where q: "q \<in> set (publications (sweep env penv s))" "still_or_settled p' q" by (rule settling_row [OF su p'(1)])
  have "pub_status q \<noteq> PubProcessing"
  proof (cases "pub_status p' = PubProcessing")
    case True
    with p' p(2) have "pub_id p' \<in> set ids" by (auto simp: ids P_def still_or_settled_def)
    moreover have "pub_id p' \<notin> set (pe_held penv)" using p'(2) p(3) by (simp add: still_or_settled_def)
    ultimately show ?thesis
      using fold_expire_settles [OF _ _ u(1)] q by (simp add: sw still_or_settled_def)
  next
    case False
    with q(2) show ?thesis unfolding still_or_settled_def by (elim conjE disjE) simp_all
  qed
  with q p'(2) still_trans show ?thesis by blast
qed

end
