(* ===== verification/Media_Properties.thy ===== *)
theory Media_Properties
  imports Media_Demo Media_Liveness
begin

text \<open>What holds of media processing along every run of the machine, and of its single operations.\<close>

section \<open>The example states are reachable\<close>

lemma demo_queued_step: "media_step media_start demo_queued"
proof -
  obtain r where "demo_create_job media_start = Inr (r, demo_queued)"
    using right_state [OF queued_runs, of media_start, folded demo_queued_def] by blast
  then show ?thesis unfolding demo_create_job_def by (rule Create_job)
qed

lemma demo_claimed_step: "media_step demo_queued demo_claimed"
proof -
  obtain c t where c: "claim (demo_env 1000) 1 demo_queued = (c, t)" by fastforce
  have "media_step demo_queued (t\<lparr>runs := (case c of None \<Rightarrow> runs t | Some job \<Rightarrow> (job, 0) # runs t)\<rparr>)"
    by (rule Claim [OF _ _ c]) (simp_all add: claimed_runs runs_young_def)
  then show ?thesis by (simp only: demo_claimed_def c prod.case)
qed

lemma demo_held_step: "media_step demo_claimed demo_held"
proof -
  obtain r where "post_create (demo_env 2000) (UserActor 1) 1 demo_body demo_claimed = Inr (r, demo_held)"
    using right_state [OF held_runs, of demo_claimed, folded demo_held_def] by blast
  then show ?thesis by (rule Create_post)
qed

lemma demo_posted_step: "media_step demo_held demo_posted"
proof -
  obtain job where "hd (runs demo_held) = (job, 0)" "(job, 0) \<in> set (runs demo_held)"
    using posted_runs by (cases "runs demo_held") auto
  then show ?thesis
    by (simp add: demo_posted_def Let_def) (rule End [OF _ refl])
qed

lemma demo_railed_step: "media_step demo_posted demo_railed"
proof -
  obtain r where "highlight_create (demo_env 4000) (UserActor 1) 1 demo_clip demo_posted = Inr (r, demo_railed)"
    using right_state [OF railed_runs, of demo_posted, folded demo_railed_def] by blast
  then show ?thesis by (rule Create_clip)
qed

lemmas demo_steps = demo_queued_step demo_claimed_step demo_held_step demo_posted_step demo_railed_step

lemma demo_from_claimed: "media_step\<^sup>*\<^sup>* demo_claimed demo_railed"
  using demo_steps by (meson converse_rtranclp_into_rtranclp rtranclp.rtrancl_refl)

lemma demo_run: "media_step\<^sup>*\<^sup>* media_start demo_claimed" "media_step\<^sup>*\<^sup>* media_start demo_railed"
    "media_step\<^sup>*\<^sup>* media_start demo_held"
proof -
  show "media_step\<^sup>*\<^sup>* media_start demo_held"
    using demo_steps by (meson converse_rtranclp_into_rtranclp rtranclp.rtrancl_refl)
  show "media_step\<^sup>*\<^sup>* media_start demo_claimed"
    using demo_steps by (meson converse_rtranclp_into_rtranclp rtranclp.rtrancl_refl)
  then show "media_step\<^sup>*\<^sup>* media_start demo_railed" using demo_from_claimed by (rule rtranclp_trans)
qed

lemma run_of_start:
  "media_init s0 \<Longrightarrow> media_step\<^sup>*\<^sup>* s0 s \<Longrightarrow> job_inv (jobs s) (runs s) \<and> pub_inv (publications s) \<and> rail_inv (highlights s)"
  using media.inv_reachable [of s0 s] by (simp add: media_inv_def)

section \<open>Invariants\<close>

text \<open>Property C2. Whatever requests, workers and sweeps do, and in whatever order, no job is converted by
  two runs at once, a run's row is processing and carries the start of that very run, no source key has two
  jobs and no job is tried more than three times, provided killed runs are gone before they count as dead.\<close>
theorem one_run_per_job:
  assumes "media_init s0" "media_step\<^sup>*\<^sup>* s0 s"
  shows "distinct (map (\<lambda>(job, n). mj_id job) (runs s)) \<and> distinct (map mj_source_key (jobs s))
    \<and> list_all (\<lambda>(job, n). list_ex (\<lambda>r. mj_id r = mj_id job \<and> mj_status r = Processing
         \<and> mj_started_at r = mj_started_at job) (jobs s)) (runs s)
    \<and> list_all (\<lambda>r. mj_attempts r \<le> 3) (jobs s)"
proof -
  have inv: "job_inv (jobs s) (runs s)" using run_of_start [OF assms] by simp
  moreover have "list_all (\<lambda>(job, n). list_ex (\<lambda>r. mj_id r = mj_id job \<and> mj_status r = Processing
         \<and> mj_started_at r = mj_started_at job) (jobs s)) (runs s)"
    using inv unfolding job_inv_def list_all_iff list_ex_iff same_run_def by fastforce
  moreover have "list_all (\<lambda>r. mj_attempts r \<le> 3) (jobs s)"
    using inv by (auto simp: job_inv_def list_all_iff row_ok_def max_job_attempts_def)
  ultimately show ?thesis by (simp add: job_inv_def run_ids_def)
qed

lemma one_run_per_job_witness:
  "distinct (map (\<lambda>(job, n). mj_id job) (runs demo_claimed)) \<and> distinct (map mj_source_key (jobs demo_claimed))
    \<and> list_all (\<lambda>(job, n). list_ex (\<lambda>r. mj_id r = mj_id job \<and> mj_status r = Processing
         \<and> mj_started_at r = mj_started_at job) (jobs demo_claimed)) (runs demo_claimed)
    \<and> list_all (\<lambda>r. mj_attempts r \<le> 3) (jobs demo_claimed)"
  by (rule one_run_per_job [OF media_start_init demo_run(1)])

text \<open>Property C35. The columns of a job and of a held publication agree with its status in every reachable
  state: a ready job has its size and no error and its source is stamped deleted, a failed one has an error
  and an end, a published publication has its result and its time, only a failed one has an error or can be
  dismissed.\<close>
theorem rows_fit_their_status:
  assumes "media_init s0" "media_step\<^sup>*\<^sup>* s0 s"
  shows "list_all row_ok (jobs s) \<and> list_all pub_ok (publications s)"
  using run_of_start [OF assms] by (simp add: job_inv_def pub_inv_def)

lemma rows_fit_their_status_witness:
  "list_all row_ok (jobs demo_railed) \<and> list_all pub_ok (publications demo_railed)"
  by (rule rows_fit_their_status [OF media_start_init demo_run(2)])

text \<open>Property C27. One upload is in at most one post or clip that is waiting or out: two publications of a
  reachable state that share a job and are both processing or published are the same row, as long as the
  check of a body and the write that holds it are one step.\<close>
theorem job_is_held_once:
  assumes "media_init s0" "media_step\<^sup>*\<^sup>* s0 s"
    and "p \<in> set (publications s)" "q \<in> set (publications s)" "j \<in> set (pub_jobs p)" "j \<in> set (pub_jobs q)"
    and "pub_status p \<in> set [PubProcessing, Published]" "pub_status q \<in> set [PubProcessing, Published]"
  shows "p = q"
proof -
  have "pub_inv (publications s)" using run_of_start [OF assms(1,2)] by simp
  then have u: "is_live p \<and> is_live q \<and> set (pub_jobs p) \<inter> set (pub_jobs q) \<noteq> {} \<longrightarrow> p = q"
    unfolding pub_inv_def using assms(3,4) by blast
  show ?thesis by (rule u [THEN mp]) (use assms(5-8) in \<open>auto simp: is_live_def\<close>)
qed

lemma job_is_held_once_witness:
  "list_all (\<lambda>p. list_all (\<lambda>q. p = q) (publications demo_held)) (publications demo_held)
    \<and> length (publications demo_held) = 1"
proof -
  obtain r where r: "publications demo_held = [r]" "pub_jobs r = [1]" "pub_status r = PubProcessing"
    using posted_runs by (auto simp: map_eq_Cons_conv)
  have "r = r" by (rule job_is_held_once [OF media_start_init demo_run(3), of r r 1]) (simp_all add: r)
  with r(1) show ?thesis by simp
qed

text \<open>Property C25. A player's rail holds at most ten live clips in every reachable state, and no two of them
  claim the same place, however clips are added, promoted, published late, reordered and deleted.\<close>
theorem rail_never_overflows:
  assumes "media_init s0" "media_step\<^sup>*\<^sup>* s0 s"
  shows "length (live_rail s u) \<le> 10 \<and> distinct (map hl_order (live_rail s u))"
  using run_of_start [OF assms] by (simp add: rail_inv_def live_rail_of max_highlights_def)

lemma rail_never_overflows_witness:
  "length (live_rail demo_railed 1) \<le> 10 \<and> distinct (map hl_order (live_rail demo_railed 1))"
  by (rule rail_never_overflows [OF media_start_init demo_run(2)])

section \<open>What is finished stays\<close>

text \<open>Property C11. A finished job is final along every run: whatever happens later, its row is still there
  with the same outcome, files and error, only the stamp of its source's deletion may be added; and a
  publication that was published, failed or cancelled is still there, at most dismissed.\<close>
theorem finished_rows_are_final:
  assumes "media_init s0" "media_step\<^sup>*\<^sup>* s0 s" "media_step\<^sup>*\<^sup>* s t"
    and "r \<in> set (jobs s)" "mj_status r \<in> set [Ready, Failed]"
    and "p \<in> set (publications s)" "pub_status p \<noteq> PubProcessing"
  shows "(\<exists>x. r\<lparr>mj_source_deleted_at := x\<rparr> \<in> set (jobs t)) \<and> (\<exists>y. p\<lparr>pub_dismissed_at := y\<rparr> \<in> set (publications t))"
proof -
  have "media_keeps s t" using media_run_keeps [OF assms(3)] run_of_start [OF assms(1,2)] by (simp add: media_inv_def)
  then have k: "keeps_finished (jobs s) (jobs t)" "settled_keeps (publications s) (publications t)"
    by (simp_all add: media_keeps_def)
  have "is_finished r" using assms(5) by (simp add: is_finished_def)
  with k assms(4,6,7) show ?thesis unfolding keeps_finished_def settled_keeps_def by blast
qed

lemma demo_posted_step': "media_step\<^sup>*\<^sup>* media_start demo_posted"
  using demo_steps by (meson converse_rtranclp_into_rtranclp rtranclp.rtrancl_refl)

lemma finished_rows_are_final_witness:
  "(\<exists>x. (hd (jobs demo_posted))\<lparr>mj_source_deleted_at := x\<rparr> \<in> set (jobs demo_railed))
    \<and> (\<exists>y. (hd (publications demo_posted))\<lparr>pub_dismissed_at := y\<rparr> \<in> set (publications demo_railed))"
proof -
  have p: "map mj_status (jobs demo_posted) = [Ready]" "map pub_status (publications demo_posted) = [Published]"
    using posted_ends by simp_all
  then obtain r q where "jobs demo_posted = [r]" "mj_status r = Ready"
    "publications demo_posted = [q]" "pub_status q = Published"
    by (auto simp: map_eq_Cons_conv)
  then show ?thesis
    by (intro finished_rows_are_final [OF media_start_init demo_posted_step' r_into_rtranclp [of media_step, OF demo_railed_step]]) simp_all
qed

section \<open>Progress\<close>

text \<open>Property C10. No job is stranded: a job queued for over two minutes, or whose run is past the hard limit
  and the grace, is dispatched again by the next sweep, unless it has been tried three times, then it fails
  with a timeout. The sweep takes a hundred at a time, so at most a hundred jobs may be unfinished; the row is
  not locked by another transaction and the broker is up.\<close>
theorem sweep_strands_nothing:
  assumes "media_init s0" "media_step\<^sup>*\<^sup>* s0 s" "runs_young (se_now env) (runs s)"
    and "r \<in> set (jobs s)" "mj_id r \<notin> set (se_locked_jobs env)"
    and "case mj_status r of
        Queued \<Rightarrow> mj_updated_at r < se_now env - 120 * 1000000
      | Processing \<Rightarrow> the (mj_started_at r) < se_now env - (1620 + 300) * 1000000
      | _ \<Rightarrow> False"
    and "length (filter (\<lambda>x. mj_status x \<in> set [Queued, Processing]) (jobs s)) \<le> 100" "se_broker_up env"
  shows "\<exists>q \<in> set (jobs (sweep env penv s)). mj_id q = mj_id r
     \<and> (if mj_status r = Processing \<and> mj_attempts r = 3
        then mj_status q = Failed \<and> mj_error q = Some ProcessingTimeout
        else mj_status q = Queued \<and> (mj_id r, 0) \<in> set (job_queue (sweep env penv s)))"
proof -
  have inv: "job_inv (jobs s) (runs s)" using run_of_start [OF assms(1,2)] by simp
  have ok: "row_ok r" by (rule job_inv_row [OF inv assms(4)])
  have stuck: "stuck_at (se_now env) r"
    using assms(6) ok
    by (auto simp: stuck_at_def row_ok_def queued_redispatch_after_def media_job_time_limit_def stuck_grace_def
        second_us_def split: job_status.splits)
  have eq: "(\<lambda>r :: media_job. \<not> is_finished r) = (\<lambda>x. mj_status x \<in> set [Queued, Processing])"
    by (rule ext, rename_tac r, case_tac "mj_status r") (simp_all add: is_finished_def)
  have few: "length (unfinished s) \<le> sweep_batch_size"
    using assms(7) by (simp only: unfinished_def eq sweep_batch_size_def)
  have three: "max_job_attempts \<le> mj_attempts r \<longleftrightarrow> mj_attempts r = 3"
    using ok by (auto simp: row_ok_def max_job_attempts_def)
  show ?thesis using sweep_picks_up [OF inv assms(3,4) stuck assms(5) few assms(8), of penv] unfolding three .
qed

definition demo_media_sweep :: "instant \<Rightarrow> sweep_env" where
  "demo_media_sweep now = \<lparr>se_now = now, se_broker_up = True, se_locked_jobs = [], se_head = (\<lambda>_. Some True)\<rparr>"

lemma demo_queued_reached: "media_step\<^sup>*\<^sup>* media_start demo_queued"
  using demo_queued_step by blast

lemma sweep_strands_nothing_witness:
  "\<exists>r \<in> set (jobs demo_queued). \<exists>q \<in> set (jobs (sweep (demo_media_sweep 200000000) (demo_env 200000000) demo_queued)).
     mj_id q = mj_id r \<and> mj_status q = Queued
     \<and> (mj_id r, 0) \<in> set (job_queue (sweep (demo_media_sweep 200000000) (demo_env 200000000) demo_queued))"
proof -
  obtain r where r: "jobs demo_queued = [r]" "mj_status r = Queued" "mj_updated_at r = 0" "runs demo_queued = []"
    using queued_row by (auto simp: map_eq_Cons_conv)
  have "\<exists>q \<in> set (jobs (sweep (demo_media_sweep 200000000) (demo_env 200000000) demo_queued)). mj_id q = mj_id r
     \<and> (if mj_status r = Processing \<and> mj_attempts r = 3
        then mj_status q = Failed \<and> mj_error q = Some ProcessingTimeout
        else mj_status q = Queued
          \<and> (mj_id r, 0) \<in> set (job_queue (sweep (demo_media_sweep 200000000) (demo_env 200000000) demo_queued)))"
    by (rule sweep_strands_nothing [OF media_start_init demo_queued_reached])
      (simp_all add: r demo_media_sweep_def runs_young_def)
  with r show ?thesis by simp
qed

text \<open>No held post or clip waits forever: one older than two hours is settled by the next sweep,
  published or failed, with everything else of its row kept or, if it was settled before, untouched; at most
  a hundred are waiting and no other transaction holds its row.\<close>
theorem waiting_publication_settles:
  assumes "media_init s0" "media_step\<^sup>*\<^sup>* s0 s" "p \<in> set (publications s)"
    and "pub_created_at p < se_now env - 2 * 60 * 60 * 1000000" "pub_id p \<notin> set (pe_held penv)"
    and "length (filter (\<lambda>p. pub_status p = PubProcessing) (publications s)) \<le> 100"
  shows "\<exists>q \<in> set (publications (sweep env penv s)). pub_id q = pub_id p \<and> pub_status q \<noteq> PubProcessing
     \<and> (q = p \<or> pub_status p = PubProcessing \<and> pub_status q \<in> set [Published, PubFailed])"
proof -
  have ok: "tbl_ok pub_id (publications s)" using run_of_start [OF assms(1,2)] by (simp add: pub_inv_def)
  have old: "pub_created_at p < se_now env - publication_timeout"
    using assms(4) by (simp add: publication_timeout_def second_us_def)
  have few: "length (filter (\<lambda>p. pub_status p = PubProcessing) (publications s)) \<le> sweep_batch_size"
    using assms(6) by (simp add: sweep_batch_size_def)
  show ?thesis using sweep_expires [OF ok assms(3) old assms(5) few] unfolding still_or_settled_def by blast
qed

lemma waiting_publication_settles_witness:
  "\<exists>p \<in> set (publications demo_held). pub_status p = PubProcessing
    \<and> (\<exists>q \<in> set (publications (sweep (demo_media_sweep 8000000000) (demo_env 8000000000) demo_held)).
         pub_id q = pub_id p \<and> pub_status q \<noteq> PubProcessing)"
proof -
  obtain r where r: "publications demo_held = [r]" "pub_created_at r = 2000" "pub_status r = PubProcessing"
    using posted_runs by (auto simp: map_eq_Cons_conv)
  have "\<exists>q \<in> set (publications (sweep (demo_media_sweep 8000000000) (demo_env 8000000000) demo_held)).
      pub_id q = pub_id r \<and> pub_status q \<noteq> PubProcessing
      \<and> (q = r \<or> pub_status r = PubProcessing \<and> pub_status q \<in> set [Published, PubFailed])"
    by (rule waiting_publication_settles [OF media_start_init demo_run(3)])
      (simp_all add: r demo_media_sweep_def demo_env_def)
  with r show ?thesis by auto
qed

section \<open>Publishing\<close>

text \<open>Property C6. A held body appears exactly when it should: \<open>try_publish\<close> reports a publication only when
  every job it references is ready and its author may still act, and then exactly one post by that author,
  or one clip on that player's rail, which had room, is added and the row points at it; in every other case,
  errors included, no post and no clip appears.\<close>
theorem publishing_adds_one_thing_or_nothing:
  assumes "try_publish env pid s = (r, t)"
  shows "if r = Some Published
    then \<exists>p \<in> set (publications s). \<exists>a. pub_id p = pid \<and> pub_status p = PubProcessing
       \<and> list_all (\<lambda>j. mj_status j = Ready) (jobs_of_publication s p) \<and> rebuild_actor env p = Some a
       \<and> (case pub_payload p of
            HeldPost data \<Rightarrow> \<exists>po. posts t = posts s @ [po] \<and> highlights t = highlights s
              \<and> po_author po = identity_of a \<and> p\<lparr>pub_status := Published, pub_result := Some (po_id po),
                   pub_published_at := Some (pe_now env)\<rparr> \<in> set (publications t)
          | HeldHighlight b \<Rightarrow> \<exists>h. highlights t = highlights s @ [h] \<and> posts t = posts s
              \<and> a = UserActor (hl_user h) \<and> length (live_rail s (hl_user h)) < 10
              \<and> p\<lparr>pub_status := Published, pub_result := Some (hl_id h),
                   pub_published_at := Some (pe_now env)\<rparr> \<in> set (publications t))
    else posts t = posts s \<and> highlights t = highlights s"
  using assms
proof (cases rule: try_publish_cases)
  case (publishes p q a rid u)
  have out: "posts t = posts u" "highlights t = highlights u" "publications t = tbl_save pub_id q (publications s)"
    using publish_as_frame [OF publishes(6)] by (simp_all add: publishes(9))
  have q: "q \<in> set (publications t)" using publishes(1) by (force simp: out(3) tbl_save_def publishes(7))
  have ready: "list_all (\<lambda>j. mj_status j = Ready) (jobs_of_publication s p)"
    using publishes(4) by (simp add: list_all_iff)
  from publishes(6) have "case pub_payload p of
            HeldPost data \<Rightarrow> \<exists>po. posts t = posts s @ [po] \<and> highlights t = highlights s
              \<and> po_author po = identity_of a \<and> p\<lparr>pub_status := Published, pub_result := Some (po_id po),
                   pub_published_at := Some (pe_now env)\<rparr> \<in> set (publications t)
          | HeldHighlight b \<Rightarrow> \<exists>h. highlights t = highlights s @ [h] \<and> posts t = posts s
              \<and> a = UserActor (hl_user h) \<and> length (live_rail s (hl_user h)) < 10
              \<and> p\<lparr>pub_status := Published, pub_result := Some (hl_id h),
                   pub_published_at := Some (pe_now env)\<rparr> \<in> set (publications t)"
  proof (cases rule: publish_as_cases)
    case (post data cleaned)
    from create_post_row [OF post(4)] q show ?thesis by (auto simp: post(1) out publishes(7))
  next
    case (clip b)
    from create_highlight_row [OF clip(2)] q show ?thesis by (auto simp: clip(1) out publishes(7))
  qed
  with publishes(1-3,5) ready show ?thesis by (auto simp: publishes(8))
qed (simp_all add: assms)

lemma publishing_adds_one_thing_or_nothing_witness:
  "posts (snd (try_publish (demo_env 0) 1 demo_held)) = posts demo_held
   \<and> highlights (snd (try_publish (demo_env 0) 1 demo_held)) = highlights demo_held"
proof -
  have n: "fst (try_publish (demo_env 0) 1 demo_held) = None" by (rule held_waits)
  have "try_publish (demo_env 0) 1 demo_held = (None, snd (try_publish (demo_env 0) 1 demo_held))"
    by (simp add: n [symmetric])
  from publishing_adds_one_thing_or_nothing [OF this] show ?thesis by simp
qed

section \<open>Asking twice, running twice\<close>

lemma create_job_passes:
  assumes "create_job req orgs ms u a key purpose ut oa s = Inr ((job, new), t)"
    and "resolve_upload_actor orgs ms u a ut oa = Inr a'"
  shows "purpose \<in> set purposes" "ut \<in> set source_upload_types" "ut \<in> set (purpose_upload_types purpose)"
    "is_source_key key" "is_upload_key_for (key_actor_of (jr_uuid_text req) u a') ut key"
  using assms by (auto simp: create_job_def simp del: purpose_upload_types.simps split: if_splits)

text \<open>Creating a job is idempotent on its source key: the same request sent again, whatever
  storage and the broker answer by then, returns the row of the first one and changes nothing, no second
  message in the queue included.\<close>
theorem asking_again_returns_the_same_job:
  assumes "create_job req orgs ms u a key purpose ut oa s = Inr ((job, new), t)"
    and "jr_available req'" "jr_uuid_text req' = jr_uuid_text req"
  shows "create_job req' orgs ms u a key purpose ut oa t = Inr ((job, False), t)"
proof -
  obtain a' where a': "resolve_upload_actor orgs ms u a ut oa = Inr a'" "job_for_source_key t a' key = Some job"
    using assms(1)
  proof (cases rule: create_job_cases)
    case (seen a')
    then show ?thesis using that by simp
  next
    case (fresh a' k ct n)
    have "find (\<lambda>r. mj_source_key r = key \<and> mj_owner r = identity_of a') (jobs s) = None"
      using fresh(10) unfolding find_None_iff by blast
    then have "find (\<lambda>r. mj_source_key r = key \<and> mj_owner r = identity_of a') (jobs s @ [job]) = Some job"
      by (rule find_at_end) (simp add: fresh(11) fresh_job_def)
    then have "job_for_source_key t a' key = Some job"
      by (simp add: fresh(12) job_for_source_key_def tbl_insert_def)
    with fresh(1) show ?thesis using that by blast
  qed
  show ?thesis
    using create_job_passes [OF assms(1) a'(1)] a' assms(2,3)
    by (simp add: create_job_def del: purpose_upload_types.simps)
qed

lemma asking_again_returns_the_same_job_witness:
  "\<exists>job. create_job (demo_request\<lparr>jr_head := None, jr_now := 5\<rparr>) [] [] 1 (UserActor 1) demo_key ''posts'' ''posts'' None demo_queued
     = Inr ((job, False), demo_queued)"
proof -
  obtain job new where "demo_create_job media_start = Inr ((job, new), demo_queued)"
    using right_state [OF queued_runs, of media_start, folded demo_queued_def] by fastforce
  then have "create_job (demo_request\<lparr>jr_head := None, jr_now := 5\<rparr>) [] [] 1 (UserActor 1) demo_key ''posts'' ''posts'' None demo_queued
     = Inr ((job, False), demo_queued)"
    unfolding demo_create_job_def by (rule asking_again_returns_the_same_job) (simp_all add: demo_request_def)
  then show ?thesis by blast
qed

text \<open>Property C36. A run writes its outcome over whatever its row has become: when a second worker's start
  has requeued a job that is still being converted and two runs end up with it, the one that comes second
  finds the source the first one deleted and turns the ready job into a failed one, source missing, although
  its files are stored. This is what the rule of a single media worker guards against.\<close>
theorem second_run_fails_a_ready_job:
  assumes "r \<in> set (jobs s)" "mj_id r = mj_id job" "mj_status r = Ready"
    and "re_can_convert env (mj_kind job)" "re_head env = Inr None"
  shows "\<exists>q \<in> set (jobs (snd (finish_run env penv job s))). mj_id q = mj_id r \<and> mj_source_key q = mj_source_key r
    \<and> mj_output_url q = mj_output_url r \<and> mj_status q = Failed \<and> mj_error q = Some SourceMissing"
proof -
  have "snd (finish_run env penv job s) = finish penv (mj_id job)
      (mark_failed (re_now env) (mj_id job) SourceMissing ''source object is gone'' s)"
    using assms(4,5) by (simp add: finish_run_def process_job_def Let_def)
  then have rows: "jobs (snd (finish_run env penv job s)) =
      jobs (mark_failed (re_now env) (mj_id job) SourceMissing ''source object is gone'' s)" by simp
  have "\<exists>q \<in> set (jobs (mark_failed now (mj_id job) SourceMissing d s)). mj_id q = mj_id r
      \<and> mj_source_key q = mj_source_key r \<and> mj_output_url q = mj_output_url r
      \<and> mj_status q = Failed \<and> mj_error q = Some SourceMissing" for now d
    by (rule bexI [of _ "r\<lparr>mj_status := Failed, mj_error := Some SourceMissing,
       mj_error_detail := drop (length d - error_detail_max_chars) d,
       mj_finished_at := Some now, mj_updated_at := now\<rparr>"])
      (use assms(1,2) in \<open>force simp: mark_failed_def update_job_def\<close>)+
  then show ?thesis unfolding rows .
qed

lemma second_run_fails_a_ready_job_witness:
  "\<exists>r \<in> set (jobs demo_posted). mj_status r = Ready \<and>
    (\<exists>q \<in> set (jobs (snd (finish_run ((demo_run_env 4000)\<lparr>re_head := Inr None\<rparr>) (demo_env 4000) r demo_posted))).
       mj_status q = Failed \<and> mj_error q = Some SourceMissing)"
proof -
  obtain r where r: "jobs demo_posted = [r]" "mj_status r = Ready"
    using posted_ends by (auto simp: map_eq_Cons_conv)
  have "\<exists>q \<in> set (jobs (snd (finish_run ((demo_run_env 4000)\<lparr>re_head := Inr None\<rparr>) (demo_env 4000) r demo_posted))).
      mj_id q = mj_id r \<and> mj_source_key q = mj_source_key r \<and> mj_output_url q = mj_output_url r
      \<and> mj_status q = Failed \<and> mj_error q = Some SourceMissing"
    by (rule second_run_fails_a_ready_job) (simp_all add: r demo_run_env_def)
  with r show ?thesis by auto
qed

end
