(* ===== verification/Upload_Laws.thy ===== *)
theory Upload_Laws
  imports Media_Jobs
begin

text \<open>
  Keys and URLs from the upload to the attach: where the outputs of a job lie, and what the validators read
  back from the URL the worker stores.
\<close>

section \<open>Siblings\<close>

lemma folder_last:
  assumes "CHR ''/'' \<notin> set name"
  shows "folder_of (f @ CHR ''/'' # name) = f" "last_segment (f @ CHR ''/'' # name) = name"
proof -
  have "takeWhile (\<lambda>c. c \<noteq> CHR ''/'') (rev name @ CHR ''/'' # rev f) = rev name"
    "dropWhile (\<lambda>c. c \<noteq> CHR ''/'') (rev name @ CHR ''/'' # rev f) = CHR ''/'' # rev f"
    using assms takeWhile_append2 [of "rev name" "\<lambda>c. c \<noteq> CHR ''/''" "CHR ''/'' # rev f"]
      dropWhile_append2 [of "rev name" "\<lambda>c. c \<noteq> CHR ''/''" "CHR ''/'' # rev f"] by auto
  then show "folder_of (f @ CHR ''/'' # name) = f" "last_segment (f @ CHR ''/'' # name) = name"
    by (simp_all add: folder_of_def last_segment_def)
qed

text \<open>Digits, lower-case letters, hyphen, dot and slash; a host name has no slash.\<close>

definition key_char :: "char \<Rightarrow> bool" where
  "key_char c = (let n = (of_char c :: nat) in (45 \<le> n \<and> n \<le> 57) \<or> (97 \<le> n \<and> n \<le> 122))"

definition host_char :: "char \<Rightarrow> bool" where
  "host_char c \<longleftrightarrow> key_char c \<and> c \<noteq> CHR ''/''"

lemma key_char_no: "list_all key_char s \<Longrightarrow> \<not> key_char c \<Longrightarrow> c \<notin> set s"
  by (auto simp: list_all_iff)

lemma host_char_no: "list_all host_char s \<Longrightarrow> \<not> key_char c \<or> c = CHR ''/'' \<Longrightarrow> c \<notin> set s"
  by (auto simp: list_all_iff host_char_def)

lemma not_key_chars:
  "\<not> key_char (CHR ''?'')" "\<not> key_char (CHR ''#'')" "\<not> key_char (CHR '';'')" "\<not> key_char (CHR ''['')"
  "\<not> key_char (CHR '']'')" "\<not> key_char (CHR 0x09)" "\<not> key_char (CHR 0x0A)" "\<not> key_char (CHR 0x0D)"
  by (simp_all add: key_char_def)

lemma uuid_key_chars: "is_canonical_uuid v \<Longrightarrow> list_all key_char v"
proof -
  assume v: "is_canonical_uuid v"
  have "list_all key_char ''-0123456789abcdef''" by (simp add: key_char_def)
  then show ?thesis using uuid_chars(2) [OF v] unfolding list_all_iff by blast
qed

text \<open>The folder an upload lies in, for the types a player or an organization posts from.\<close>

lemma upload_folder:
  assumes key: "is_upload_key_for (key_actor_of text u a) t key"
    and t: "t = ''posts'' \<or> t = ''highlights'' \<and> is_user a"
    and ids: "\<And>n. is_canonical_uuid (text n)"
  obtains f name where "key = f @ CHR ''/'' # name" "CHR ''/'' \<notin> set name" "list_all key_char f"
    "startswith f (owner_prefix (owner_of_actor text a))"
proof -
  obtain name where n: "name_in_folder (key_actor_of text u a) t key = Some name" "CHR ''/'' \<notin> set name"
    using key by (rule upload_key_name)
  have chars: "list_all key_char (text n)" for n by (rule uuid_key_chars [OF ids])
  have fixed: "list_all key_char ''users/''" "list_all key_char ''organizations/''" "list_all key_char ''/posts/''"
    "list_all key_char ''/highlights''" by (simp_all add: key_char_def)
  have prefix: "\<exists>rest. f = owner_prefix (owner_of_actor text a) @ rest \<and> list_all key_char f"
    if b: "build_folder (key_actor_of text u a) t [] = Some f" for f
  proof (cases a)
    case (UserActor v)
    with b t have "f = ''users/'' @ text v @ ''/posts/'' \<or> f = ''users/'' @ text v @ ''/highlights''"
      by (auto simp: build_folder_def key_actor_of_def user_folder_def org_folder_def)
    then show ?thesis
    proof
      assume "f = ''users/'' @ text v @ ''/posts/''"
      then have "f = owner_prefix (owner_of_actor text a) @ ''posts/''" "list_all key_char f"
        using chars [of v] fixed(1,3) by (simp_all add: UserActor owner_of_actor_def owner_prefix_def)
      then show ?thesis by blast
    next
      assume "f = ''users/'' @ text v @ ''/highlights''"
      then have "f = owner_prefix (owner_of_actor text a) @ ''highlights''" "list_all key_char f"
        using chars [of v] fixed(1,4) by (simp_all add: UserActor owner_of_actor_def owner_prefix_def)
      then show ?thesis by blast
    qed
  next
    case (OrgActor oi m)
    with b t have "f = ''organizations/'' @ text oi @ ''/posts/''"
      by (auto simp: build_folder_def key_actor_of_def user_folder_def org_folder_def is_user_def)
    then have "f = owner_prefix (owner_of_actor text a) @ ''posts/''" "list_all key_char f"
      using chars [of oi] fixed(2,3) by (simp_all add: OrgActor owner_of_actor_def owner_prefix_def)
    then show ?thesis by blast
  qed
  from n(1) show ?thesis
  proof (cases rule: name_in_folder_cases)
    case (in_batch parent b)
    with prefix obtain rest where "parent = owner_prefix (owner_of_actor text a) @ rest" "list_all key_char parent"
      by blast
    with in_batch n(2) uuid_key_chars [OF in_batch(4)] show ?thesis
      by (intro that [of "parent @ b" name]) simp_all
  next
    case (flat f)
    with prefix obtain rest where "f = owner_prefix (owner_of_actor text a) @ rest" "list_all key_char f"
      by blast
    with flat n(2) show ?thesis by (intro that [of f name]) simp_all
  qed
qed

section \<open>Reading a stored URL\<close>

lemma no_mark: "CHR ''?'' \<notin> set s \<Longrightarrow> fst (py_partition ''?v='' s) = s"
  using partition_base [of s "[]"] by simp

lemma no_char_partition: "c \<notin> set s \<Longrightarrow> fst (py_partition [c] s) = s"
  by (induction s) (auto split: prod.splits)

lemma url_path_stored:
  assumes host: "list_all host_char host" and key: "list_all key_char key"
  shows "url_path (''https://'' @ host @ CHR ''/'' # key) = Inr (CHR ''/'' # key)"
proof -
  define rest where "rest = host @ CHR ''/'' # key"
  define url where "url = ''https://'' @ rest"
  have r: "list_all key_char rest"
  proof -
    have "list_all key_char host" using host by (simp add: list_all_iff host_char_def)
    moreover have "key_char (CHR ''/'')" by (simp add: key_char_def)
    ultimately show ?thesis using key by (simp add: rest_def)
  qed
  have "CHR ''/'' \<notin> set host" "CHR ''?'' \<notin> set host" "CHR ''#'' \<notin> set host"
    using host_char_no [OF host] not_key_chars by simp_all
  then have out: "c \<in> set host \<Longrightarrow> c \<notin> set ''/?#''" for c by auto
  have "filter (\<lambda>c. c \<notin> {CHR 0x09, CHR 0x0A, CHR 0x0D}) rest = rest"
    by (rule filter_True) (use key_char_no [OF r] not_key_chars in blast)
  then have "url_clean url = url" by (simp add: url_clean_def url_def)
  moreover have "split_scheme url = (''https'', ''//'' @ rest)"
    by (simp add: split_scheme_def url_def ascii_letter_def scheme_char_def py_lower_def py_lower_char_def)
  moreover have "takeWhile (\<lambda>c. c \<notin> set ''/?#'') rest = host"
    "dropWhile (\<lambda>c. c \<notin> set ''/?#'') rest = CHR ''/'' # key"
    unfolding rest_def
    using takeWhile_append2 [of host "\<lambda>c. c \<notin> set ''/?#''" "CHR ''/'' # key", OF out]
      dropWhile_append2 [of host "\<lambda>c. c \<notin> set ''/?#''" "CHR ''/'' # key", OF out] by simp_all
  moreover have "CHR ''['' \<notin> set host" "CHR '']'' \<notin> set host"
    using host_char_no [OF host] not_key_chars by simp_all
  moreover have "CHR ''?'' \<notin> set (CHR ''/'' # key)" "CHR ''#'' \<notin> set (CHR ''/'' # key)" "CHR '';'' \<notin> set (CHR ''/'' # key)"
    using key_char_no [OF key] not_key_chars by simp_all
  moreover from this have "fst (py_partition ''?'' (fst (py_partition ''#'' (CHR ''/'' # key)))) = CHR ''/'' # key"
    using no_char_partition by metis
  ultimately have "url_path url = Inr (CHR ''/'' # key)"
    unfolding url_path_def Let_def by simp
  then show ?thesis by (simp add: url_def rest_def)
qed

lemma stored_extension:
  assumes "list_all host_char host" "list_all key_char key" "key = stem @ CHR ''.'' # ext" "CHR ''.'' \<notin> set ext"
  shows "get_file_extension (''https://'' @ host @ CHR ''/'' # key) = Inr (py_lower ext)"
proof -
  have "takeWhile (\<lambda>c. c \<noteq> CHR ''.'') (rev ext @ CHR ''.'' # rev (CHR ''/'' # stem)) = rev ext"
    using assms(4) by (subst takeWhile_append2) auto
  then have "takeWhile (\<lambda>c. c \<noteq> CHR ''.'') (rev (CHR ''/'' # key)) = rev ext" by (simp add: assms(3))
  then show ?thesis using url_path_stored [OF assms(1,2)] by (simp add: get_file_extension_def)
qed

lemma one_dot_no_source:
  assumes "CHR ''.'' \<notin> set u" "CHR ''.'' \<notin> set ext" "CHR ''/'' \<notin> set (u @ CHR ''.'' # ext)"
  shows "\<not> is_source_key (f @ CHR ''/'' # u @ CHR ''.'' # ext)"
proof
  assume src: "is_source_key (f @ CHR ''/'' # u @ CHR ''.'' # ext)"
  obtain a b where "py_partition source_infix (u @ CHR ''.'' # ext) = (a, True, b)"
    using src folder_last(2) [OF assms(3), of f]
    by (cases "py_partition source_infix (u @ CHR ''.'' # ext)") (auto simp: is_source_key_def Let_def)
  then have "u @ CHR ''.'' # ext = a @ source_infix @ b" by (rule py_partition_found)
  then have "length (filter (\<lambda>c. c = CHR ''.'') (u @ CHR ''.'' # ext))
      = length (filter (\<lambda>c. c = CHR ''.'') (a @ source_infix @ b))" by simp
  moreover have "filter (\<lambda>c. c = CHR ''.'') u = []" "filter (\<lambda>c. c = CHR ''.'') ext = []"
    using assms(1,2) by (auto simp: filter_empty_conv)
  ultimately show False by (simp add: source_infix_def)
qed

lemma stored_file_valid:
  assumes host: "list_all host_char host" and f: "list_all key_char f" "startswith f (owner_prefix owner)"
    and u: "is_canonical_uuid u" and ext: "list_all host_char ext" "CHR ''.'' \<notin> set ext" "py_lower ext \<in> set (map py_lower allowed)"
    and base: "base = ''https://'' @ host" and key: "key = f @ CHR ''/'' # u @ CHR ''.'' # ext"
  shows "validate_media base owner allowed (base @ CHR ''/'' # key) key = Inr ()"
    "extract_key_from_url base (base @ CHR ''/'' # key) = key"
proof -
  have "list_all key_char ext" "key_char (CHR ''/'')" "key_char (CHR ''.'')"
    using ext(1) by (simp_all add: list_all_iff host_char_def key_char_def)
  then have kc: "list_all key_char key" using f(1) uuid_key_chars [OF u] by (simp add: key)
  have sl: "CHR ''/'' \<notin> set ext" using host_char_no [OF ext(1)] by simp
  have pre: "startswith key (owner_prefix owner)"
    using startswithD [OF f(2)] by (metis key append_assoc startswith_append)
  have "hd (owner_prefix owner) \<noteq> CHR ''/''" "owner_prefix owner \<noteq> []"
    by (cases "fst owner"; simp add: owner_prefix_def)+
  then have "dropWhile (\<lambda>c. c = CHR ''/'') (owner_prefix owner @ x) = owner_prefix owner @ x" for x
    by (cases "owner_prefix owner") auto
  then have dw: "dropWhile (\<lambda>c. c = CHR ''/'') key = key" using startswithD [OF pre] by metis
  have "CHR ''?'' \<notin> set key" using key_char_no [OF kc] not_key_chars by blast
  then show ex: "extract_key_from_url base (base @ CHR ''/'' # key) = key"
    by (simp add: extract_key_from_url_def dw no_mark)
  have "get_file_extension (base @ CHR ''/'' # key) = Inr (py_lower ext)"
    using stored_extension [OF host kc, of "f @ CHR ''/'' # u" ext] ext(2) by (simp add: base key)
  then have "\<exists>e. validate_file_extension allowed (base @ CHR ''/'' # key) = Inr e"
    using ext(3) by (simp add: validate_file_extension_def)
  moreover have "is_valid_media_url base (base @ CHR ''/'' # key)" by (simp add: is_valid_media_url_def base)
  moreover have "\<not> is_source_key key"
    unfolding key by (rule one_dot_no_source) (use uuid_no [OF u] ext(2) sl in simp_all)
  ultimately show "validate_media base owner allowed (base @ CHR ''/'' # key) key = Inr ()"
    using pre ex by (simp add: validate_media_ok)
qed

end
