(* ===== verification/Upload_Properties.thy ===== *)
theory Upload_Properties
  imports Upload_Laws Highlight_Laws Media_Demo
begin

text \<open>What holds of uploaded files, from the key to the post and the clip that show them.\<close>

section \<open>Keys\<close>

text \<open>A key belongs to one owner and one type: when the check of upload keys accepts a key for two
  actors, possibly for different types, the types agree and some user or organization is an id of both
  actors. Nobody creates a job on another account's upload.\<close>
theorem key_belongs_to_one_owner:
  assumes "ids_ok a" "ids_ok b" "is_upload_key_for a t key" "is_upload_key_for b t' key"
  shows "t = t' \<and> ((\<exists>u. ka_user a = Some u \<and> ka_user b = Some u) \<or> (\<exists>i. ka_org a = Some i \<and> ka_org b = Some i))"
  using upload_key_reading [OF assms(1,3)] upload_key_reading [OF assms(2,4)]
  by (auto simp: owner_reading_def)

lemma demo_key_accepted:
  "is_upload_key_for \<lparr>ka_is_org = False, ka_user = Some (demo_uuid 1), ka_org = None\<rparr> ''posts'' demo_key"
  "is_canonical_uuid (demo_uuid 1)" "is_canonical_uuid (demo_uuid 2)"
  by code_simp+

lemma key_belongs_to_one_owner_witness:
  "\<not> is_upload_key_for \<lparr>ka_is_org = False, ka_user = Some (demo_uuid 2), ka_org = None\<rparr> ''posts'' demo_key"
proof
  assume other: "is_upload_key_for \<lparr>ka_is_org = False, ka_user = Some (demo_uuid 2), ka_org = None\<rparr> ''posts'' demo_key"
  have "demo_uuid 1 \<noteq> demo_uuid 2" by code_simp
  with key_belongs_to_one_owner [OF _ _ demo_key_accepted(1) other] demo_key_accepted(2,3) show False
    by (simp add: ids_ok_def)
qed

text \<open>Every key the signature endpoint can issue is accepted when the job is created: the object
  an actor uploads under a fresh name in the folder built for a type, with the source infix where the type
  takes sources and without it, passes the check for that actor and type.\<close>
theorem issued_key_is_accepted:
  assumes "build_folder a t batch = Some f" "t \<notin> set fixed_slot_types"
    and "if t \<in> set temp_batch_types then is_canonical_uuid batch else True" "is_canonical_uuid stem"
    and "ext \<noteq> []" "CHR ''.'' \<notin> set ext" "CHR ''/'' \<notin> set ext"
  shows "is_upload_key_for a t (f @ ''/'' @ build_object_name stem t @ ''.'' @ ext)
    \<and> (if t \<in> set source_upload_types then is_upload_key_for a t (f @ ''/'' @ build_object_name stem t @ source_infix @ ext) else True)"
proof -
  have stem: "build_object_name stem t = stem"
    using assms(2) by (auto simp: build_object_name_def fixed_slot_types_def)
  have name: "name_in_folder a t (f @ CHR ''/'' # n) = Some n" for n
    by (rule name_in_folder_issued [OF assms(1,2)]) (use assms(3) in \<open>simp split: if_splits\<close>)
  have "is_upload_key_for a t (f @ CHR ''/'' # n)"
    if "n = stem @ ''.'' @ ext \<or> t \<in> set source_upload_types \<and> n = stem @ source_infix @ ext" for n
    by (rule name_accepted [OF assms(4,5,6,7,2) name _ that]) simp
  then show ?thesis by (simp add: stem)
qed

lemma issued_key_is_accepted_witness:
  "is_upload_key_for \<lparr>ka_is_org = False, ka_user = Some (demo_uuid 1), ka_org = None\<rparr> ''posts''
     ((''users/'' @ demo_uuid 1 @ ''/posts/'' @ demo_uuid 2) @ ''/'' @ build_object_name (demo_uuid 1) ''posts'' @ ''.'' @ ''mp4'')"
  by (rule issued_key_is_accepted [of _ _ "demo_uuid 2", THEN conjunct1])
    (use demo_key_accepted(2,3) in \<open>simp_all add: build_folder_def user_folder_def fixed_slot_types_def\<close>)

section \<open>Files of posts\<close>

lemma checked_ready_shape:
  assumes "checked_ready env a idx m order job = Inr c"
  obtains k pm where "c = CheckedMedia pm k job" "rm_file_url (pm_media pm) = rm_file_url m"
    "rm_public_id (pm_media pm) = rm_public_id m" "rm_thumbnail_url (pm_media pm) = py_strip (rm_thumbnail_url m)"
    "kind_of_text (rm_media_type (pm_media pm)) = Some k" "pm_order pm = order" "0 \<le> order"
    "media_checks env a idx k (rm_file_url m) (rm_public_id m) (py_strip (rm_thumbnail_url m)) = Inr ()"
proof -
  obtain k where k: "kind_of_text (rm_media_type m) = Some k"
    using assms by (auto simp: checked_ready_def split: if_splits option.splits)
  show ?thesis
  proof (cases "media_checks env a idx k (rm_file_url m) (rm_public_id m) (py_strip (rm_thumbnail_url m))")
    case (Inl e)
    with assms k show ?thesis by (simp add: checked_ready_def Let_def split: if_splits)
  next
    case (Inr u)
    with assms k show ?thesis
      by (intro that [of "\<lparr>pm_media = m\<lparr>rm_thumbnail_url := py_strip (rm_thumbnail_url m),
                        rm_width := clamp_int (rm_width m) max_dimension,
                        rm_height := clamp_int (rm_height m) max_dimension,
                        rm_duration := (if k = VideoKind then clamp_int (rm_duration m) max_post_video_duration
                                        else None),
                        rm_size := clamp_int (rm_size m)
                          (if k = VideoKind then max_video_bytes else max_image_bytes)\<rparr>,
                      pm_order = order\<rparr>" k])
        (auto simp: checked_ready_def Let_def split: if_splits)
  qed
qed

text \<open>What a checked item's media satisfies.\<close>

definition media_checked :: "'l create_env \<Rightarrow> actor \<Rightarrow> post_media \<Rightarrow> bool" where
  "media_checked env a m \<longleftrightarrow> 0 \<le> pm_order m \<and> (\<exists>k idx. kind_of_text (rm_media_type (pm_media m)) = Some k
     \<and> media_checks env a idx k (rm_file_url (pm_media m)) (rm_public_id (pm_media m)) (rm_thumbnail_url (pm_media m)) = Inr ())"

lemma checked_ready_checked:
  "checked_ready env a idx x order job = Inr c \<Longrightarrow> item_media c = Some m \<Longrightarrow> media_checked env a m"
  by (erule checked_ready_shape) (auto simp: media_checked_def)

lemma check_item_checked:
  "check_item env s a pid idx x = Inr c \<Longrightarrow> item_media c = Some m \<Longrightarrow> media_checked env a m"
  by (auto simp: check_item_def Let_def split: media_item.splits option.splits if_splits dest: checked_ready_checked)

lemma check_items_checked:
  "check_items env s a pid idx xs = Inr cs \<Longrightarrow> c \<in> set cs \<Longrightarrow> item_media c = Some m \<Longrightarrow> media_checked env a m"
proof (induction xs arbitrary: idx cs)
  case (Cons x xs)
  then obtain d ds where d: "check_item env s a pid idx x = Inr d" "cs = d # ds"
      "check_items env s a pid (Suc idx) xs = Inr ds" by (auto split: sum.splits)
  show ?case
  proof (cases "c = d")
    case True
    with d(1) Cons.prems(3) check_item_checked show ?thesis by blast
  next
    case False
    with d(2) Cons.prems(2) Cons.IH [OF d(3) _ Cons.prems(3)] show ?thesis by simp
  qed
qed simp

lemma validated_media_reading:
  assumes "validate_media base owner allowed url key = Inr u"
  obtains n rest where "url = base @ replicate n CHR ''/'' @ key @ rest" "rest = '''' \<or> startswith rest ''?v=''"
    "startswith key (owner_prefix owner)" "\<not> is_source_key key"
proof -
  have v: "is_valid_media_url base url" "startswith key (owner_prefix owner)" "\<not> is_source_key key"
    "extract_key_from_url base url = key"
    using assms by (simp_all add: validate_media_ok)
  from v(1) obtain n rest where "url = base @ replicate n CHR ''/'' @ extract_key_from_url base url @ rest"
      "rest = '''' \<or> startswith rest ''?v=''" by (rule extract_key_reading)
  with v show ?thesis using that by metis
qed

lemma media_checks_passed:
  assumes "media_checks env a idx k url key thumb = Inr u"
  shows "validate_media (ce_base env) (owner_of_actor (ce_uuid_text env) a)
      (case k of ImageKind \<Rightarrow> allowed_image_extensions | VideoKind \<Rightarrow> allowed_video_extensions) url key = Inr ()"
    "k = VideoKind \<Longrightarrow> thumb \<noteq> ''''"
    "thumb \<noteq> '''' \<Longrightarrow> \<exists>tk. validate_thumbnail (ce_base env) (owner_of_actor (ce_uuid_text env) a) key thumb = Inr tk"
  using assms by (auto simp: media_checks_def Let_def split: sum.splits if_splits)

text \<open>Property C13. A post shows only its author's own files: each media of a body the create path accepts has
  a URL that is the media origin, slashes, the stored key and at most a cache stamp, the key lies under the
  acting user's or organization's own prefix and is no unprocessed source; a thumbnail's key lies under it too and in the
  same folder, and a video has one.\<close>
theorem posts_show_own_files:
  assumes "validate_create_payload env s a data pid = Inr cleaned" "m \<in> set (cl_media cleaned)"
  shows "\<exists>n rest. rm_file_url (pm_media m) = ce_base env @ replicate n CHR ''/'' @ rm_public_id (pm_media m) @ rest
     \<and> (rest = '''' \<or> startswith rest ''?v='')
     \<and> startswith (rm_public_id (pm_media m)) (owner_prefix (owner_of_actor (ce_uuid_text env) a))
     \<and> \<not> is_source_key (rm_public_id (pm_media m))
     \<and> (if rm_thumbnail_url (pm_media m) = '''' then rm_media_type (pm_media m) = ''image''
        else let key = extract_key_from_url (ce_base env) (rm_thumbnail_url (pm_media m))
             in startswith key (owner_prefix (owner_of_actor (ce_uuid_text env) a)) \<and> \<not> is_source_key key
              \<and> same_storage_folder key (rm_public_id (pm_media m)))"
proof -
  obtain items where i: "check_items env s a pid 0 (pp_media data) = Inr items"
      "cl_media cleaned = List.map_filter item_media items"
    using assms(1) by (rule validated_cases)
  obtain c where "c \<in> set items" "item_media c = Some m" using assms(2) map_filter_in by (metis i(2))
  then have "media_checked env a m" using check_items_checked [OF i(1)] by blast
  then obtain k idx where k: "kind_of_text (rm_media_type (pm_media m)) = Some k"
      "media_checks env a idx k (rm_file_url (pm_media m)) (rm_public_id (pm_media m)) (rm_thumbnail_url (pm_media m)) = Inr ()"
    by (auto simp: media_checked_def)
  note c = media_checks_passed [OF k(2)]
  have img: "rm_media_type (pm_media m) = ''image''" if "rm_thumbnail_url (pm_media m) = ''''"
    using c(2) k(1) that by (auto simp: kind_of_text_def split: if_splits)
  have thumb: "let key = extract_key_from_url (ce_base env) (rm_thumbnail_url (pm_media m))
      in startswith key (owner_prefix (owner_of_actor (ce_uuid_text env) a)) \<and> \<not> is_source_key key
        \<and> same_storage_folder key (rm_public_id (pm_media m))" if "rm_thumbnail_url (pm_media m) \<noteq> ''''"
  proof -
    note t = that
    obtain tk where tk: "validate_thumbnail (ce_base env) (owner_of_actor (ce_uuid_text env) a)
        (rm_public_id (pm_media m)) (rm_thumbnail_url (pm_media m)) = Inr tk" using c(3) [OF t] by blast
    note v = validate_thumbnail_ok [OF tk]
    have "startswith tk (owner_prefix (owner_of_actor (ce_uuid_text env) a))" "\<not> is_source_key tk"
      using v(3) by (simp_all add: validate_media_ok)
    with v(1,2) show ?thesis by (simp add: Let_def)
  qed
  from c(1) show ?thesis
    by (rule validated_media_reading) (use img thumb in \<open>auto simp del: append_assoc\<close>)
qed

definition demo_photo :: ready_media where
  "demo_photo = \<lparr>rm_file_url = ''https://media.goatza.com/users/'' @ demo_uuid 1 @ ''/posts/a.jpg?v=7'',
     rm_public_id = ''users/'' @ demo_uuid 1 @ ''/posts/a.jpg'', rm_media_type = ''image'', rm_thumbnail_url = [],
     rm_width = None, rm_height = None, rm_duration = None, rm_size = None\<rparr>"

definition demo_photo_body :: "unit post_payload" where
  "demo_photo_body = demo_body\<lparr>pp_media := [ReadyItem demo_photo None]\<rparr>"

lemma demo_photo_cleaned:
  "case validate_create_payload (demo_create_env 0) media_start (UserActor 1) demo_photo_body None of
     Inl _ \<Rightarrow> False | Inr c \<Rightarrow> map pm_order (cl_media c) = [0]"
  by code_simp

lemma posts_show_own_files_witness:
  "\<exists>m :: post_media. startswith (rm_public_id (pm_media m)) (''users/'' @ demo_uuid 1 @ ''/'') \<and> \<not> is_source_key (rm_public_id (pm_media m))"
proof -
  obtain c where c: "validate_create_payload (demo_create_env 0) media_start (UserActor 1) demo_photo_body None = Inr c"
      "map pm_order (cl_media c) = [0]"
    using demo_photo_cleaned by (auto split: sum.splits)
  then obtain m where "m \<in> set (cl_media c)" by (auto simp: map_eq_Cons_conv)
  from posts_show_own_files [OF c(1) this]
  have "startswith (rm_public_id (pm_media m)) (owner_prefix (owner_of_actor (ce_uuid_text (demo_create_env 0)) (UserActor 1)))
      \<and> \<not> is_source_key (rm_public_id (pm_media m))" by blast
  moreover have "owner_prefix (owner_of_actor (ce_uuid_text (demo_create_env 0)) (UserActor 1)) = ''users/'' @ demo_uuid 1 @ ''/''"
    by (simp add: owner_prefix_def owner_of_actor_def demo_create_env_def)
  ultimately show ?thesis by (intro exI [of _ m]) simp
qed

section \<open>Outputs of the worker\<close>

text \<open>Property C14. What the worker stores, the create path accepts: for an upload of a user or an organization
  under a key issued to them, the ready file and the thumbnail a run names and stores at the media origin pass
  every check of an attached item, whoever of those posts it.\<close>
theorem worker_outputs_are_accepted:
  assumes "is_upload_key_for (key_actor_of (ce_uuid_text cenv) u a) t (mj_source_key job)"
    and "t = ''posts'' \<or> t = ''highlights'' \<and> is_user a" "mj_output_key job = ''''"
    and "\<And>n. is_canonical_uuid (ce_uuid_text cenv n)"
    and "is_canonical_uuid (re_uuid_output env)" "is_canonical_uuid (re_uuid_thumbnail env)"
    and "ce_base cenv = ''https://'' @ host" "list_all host_char host"
  shows "let keyed = assign_output_keys env job
    in media_checks cenv a idx (mj_kind job) (public_url_for (ce_base cenv) (mj_output_key keyed)) (mj_output_key keyed)
         (public_url_for (ce_base cenv) (mj_thumbnail_key keyed)) = Inr ()"
proof -
  obtain f name where f: "mj_source_key job = f @ CHR ''/'' # name" "CHR ''/'' \<notin> set name" "list_all key_char f"
      "startswith f (owner_prefix (owner_of_actor (ce_uuid_text cenv) a))"
    using upload_folder [OF assms(1,2,4)] by blast
  have folder: "folder_of (mj_source_key job) = f" using folder_last(1) [OF f(2)] by (simp add: f(1))
  define ext where "ext = (if mj_kind job = VideoKind then ''mp4'' else ''jpg'')"
  define keyed where "keyed = assign_output_keys env job"
  have keys: "mj_output_key keyed = f @ CHR ''/'' # re_uuid_output env @ CHR ''.'' # ext"
    "mj_thumbnail_key keyed = f @ CHR ''/'' # re_uuid_thumbnail env @ CHR ''.'' # ''jpg''"
    using assms(3) by (simp_all add: keyed_def assign_output_keys_def Let_def sibling_key_def folder ext_def)
  define allowed where "allowed = (case mj_kind job of ImageKind \<Rightarrow> allowed_image_extensions | VideoKind \<Rightarrow> allowed_video_extensions)"
  have ext: "list_all host_char ext" "CHR ''.'' \<notin> set ext" "py_lower ext \<in> set (map py_lower allowed)"
    by (cases "mj_kind job"; simp add: ext_def allowed_def host_char_def key_char_def allowed_image_extensions_def
        allowed_video_extensions_def)+
  have jpg: "list_all host_char ''jpg''" "CHR ''.'' \<notin> set ''jpg''" "py_lower ''jpg'' \<in> set (map py_lower allowed_image_extensions)"
    by (simp_all add: host_char_def key_char_def allowed_image_extensions_def)
  note out = stored_file_valid [OF assms(8) f(3,4) assms(5) ext assms(7) keys(1)]
  note thumb = stored_file_valid [OF assms(8) f(3,4) assms(6) jpg assms(7) keys(2)]
  have "folder_of (mj_output_key keyed) = f" "folder_of (mj_thumbnail_key keyed) = f"
    using folder_last(1) [of "re_uuid_output env @ CHR ''.'' # ext" f] folder_last(1) [of "re_uuid_thumbnail env @ CHR ''.'' # ''jpg''" f]
      uuid_no [OF assms(5)] uuid_no [OF assms(6)] host_char_no [OF ext(1)] host_char_no [OF jpg(1)] by (simp_all add: keys)
  then have "same_storage_folder (mj_thumbnail_key keyed) (mj_output_key keyed)"
    by (simp add: same_storage_folder_def parent_of_def keys)
  then have "validate_thumbnail (ce_base cenv) (owner_of_actor (ce_uuid_text cenv) a) (mj_output_key keyed)
      (ce_base cenv @ CHR ''/'' # mj_thumbnail_key keyed) = Inr (mj_thumbnail_key keyed)"
    using thumb by (simp add: validate_thumbnail_def)
  then show ?thesis
    using out(1) by (simp add: keyed_def [symmetric] allowed_def media_checks_def public_url_for_def Let_def)
qed

lemma one_digit: "n < 10 \<Longrightarrow> \<exists>c \<in> set ''0123456789''. decimal n = [c]"
proof -
  assume "n < 10"
  then have "n \<in> set [0..<10]" by simp
  moreover have "list_all (\<lambda>n. list_ex (\<lambda>c. decimal n = [c]) ''0123456789'') [0..<10]" by code_simp
  ultimately show ?thesis unfolding list_all_iff list_ex_iff by blast
qed

lemma demo_uuid_canonical: "is_canonical_uuid (demo_uuid n)"
proof -
  obtain c where c: "c \<in> set ''0123456789''" "decimal (n mod 10) = [c]" using one_digit [of "n mod 10"] by auto
  from c(1) have "c \<in> set ''0123456789abcdef''" by auto
  then have "is_canonical_uuid (''0000000'' @ [c] @ ''-0000-0000-0000-000000000000'')"
    by (simp add: is_canonical_uuid_def upt_rec_numeral upt_conv_Cons)
  then show ?thesis by (simp add: demo_uuid_def c(2))
qed

lemma worker_outputs_are_accepted_witness:
  "\<exists>job. mj_source_key job = demo_key \<and> (let keyed = assign_output_keys (demo_run_env 0) job
    in media_checks (demo_create_env 0) (UserActor 1) 0 (mj_kind job)
         (public_url_for (ce_base (demo_create_env 0)) (mj_output_key keyed)) (mj_output_key keyed)
         (public_url_for (ce_base (demo_create_env 0)) (mj_thumbnail_key keyed)) = Inr ())"
proof -
  define job where "job = fresh_job 1 (UserId 1) 1 ''posts'' ''posts'' VideoKind demo_key ''video/quicktime'' 1000 0"
  have key: "is_upload_key_for (key_actor_of (ce_uuid_text (demo_create_env 0)) 1 (UserActor 1)) ''posts'' (mj_source_key job)"
    using demo_key_accepted(1) by (simp add: job_def fresh_job_def key_actor_of_def demo_create_env_def)
  have "let keyed = assign_output_keys (demo_run_env 0) job
    in media_checks (demo_create_env 0) (UserActor 1) 0 (mj_kind job)
         (public_url_for (ce_base (demo_create_env 0)) (mj_output_key keyed)) (mj_output_key keyed)
         (public_url_for (ce_base (demo_create_env 0)) (mj_thumbnail_key keyed)) = Inr ()"
    by (rule worker_outputs_are_accepted [where host = "''media.goatza.com''", OF key])
      (simp_all add: job_def fresh_job_def demo_create_env_def demo_run_env_def demo_uuid_canonical host_char_def key_char_def)
  then show ?thesis by (intro exI [of _ job]) (simp add: job_def fresh_job_def)
qed

section \<open>Clips\<close>

lemma map_filter_set: "set (List.map_filter f xs) = {y. \<exists>x \<in> set xs. f x = Some y}"
  by (induction xs) (auto simp: List.map_filter_simps split: option.splits)

lemma count_of_user:
  "filter (\<lambda>h. hl_user h = u) xs = rows \<Longrightarrow>
     (if u \<in> hl_user ` set xs then Some (length (filter (\<lambda>h. hl_user h = u) xs)) else None)
       = (if rows = [] then None else Some (length rows))"
proof -
  assume eq: "filter (\<lambda>h. hl_user h = u) xs = rows"
  have "u \<in> hl_user ` set xs \<longleftrightarrow> rows \<noteq> []" unfolding eq [symmetric] filter_empty_conv by auto
  with eq show ?thesis by simp
qed


text \<open>A reorder does what it was asked: the player's rail, as the page shows it, lists exactly the
  ids of the request in their order, whatever the other rails hold, and nothing but places and timestamps of
  that player's live clips changes.\<close>
theorem reorder_shows_the_asked_order:
  assumes "rail_inv (highlights s)" "reorder_highlights env (UserActor u) (Some (map Some ids)) s = Inr (wanted, t)"
  shows "map hl_id (rail_order (live_rail t u)) = ids
    \<and> (if v = u then True else live_rail t v = live_rail s v)
    \<and> posts t = posts s \<and> map (\<lambda>h. h\<lparr>hl_order := 0, hl_updated_at := 0\<rparr>) (highlights t)
        = map (\<lambda>h. h\<lparr>hl_order := 0, hl_updated_at := 0\<rparr>) (highlights s)"
  using assms(2)
proof (cases rule: reorder_cases)
  case (1 w)
  have w: "w = u" "ids = wanted"
    using 1(1,4) by (auto simp: require_player_def inj_map_eq_map [OF inj_Some] split: if_splits)
  define f where "f = (\<lambda>h :: highlight_row. if hl_id h \<in> set wanted
     then h\<lparr>hl_order := int (length (takeWhile (\<lambda>i. i \<noteq> hl_id h) wanted)), hl_updated_at := ce_now env\<rparr> else h)"
  have t: "highlights t = map f (highlights s)" "posts t = posts s" by (simp_all add: 1(5) f_def)
  have f: "hl_user (f h) = hl_user h" "hl_is_deleted (f h) = hl_is_deleted h" "hl_id (f h) = hl_id h"
    "f h\<lparr>hl_order := 0, hl_updated_at := 0\<rparr> = h\<lparr>hl_order := 0, hl_updated_at := 0\<rparr>" for h
    by (simp_all add: f_def)
  have live: "live_rail t x = map f (live_rail s x)" for x
    by (simp add: live_rail_def t filter_map o_def f)
  have ok: "tbl_ok hl_id (highlights s)" using assms(1) by (simp add: rail_inv_def)
  have ids: "set wanted = hl_id ` set (live_rail s u)" "distinct wanted" using 1(2,3) w by simp_all
  have other: "map f (live_rail s v) = live_rail s v" if "v \<noteq> u"
  proof (rule map_idI)
    fix h assume h: "h \<in> set (live_rail s v)"
    have "hl_id h \<notin> set wanted"
    proof
      assume "hl_id h \<in> set wanted"
      then obtain k where "k \<in> set (live_rail s u)" "hl_id h = hl_id k" using ids(1) by auto
      with h that rail_row_eq [OF ok, of h k] show False by (simp add: live_rail_def)
    qed
    then show "f h = h" by (simp add: f_def)
  qed
  have "map hl_id (rail_order (live_rail t u)) = wanted"
  proof (rule rail_order_places)
    show "distinct (map hl_id (live_rail t u))"
    proof -
      have "distinct (map hl_id (live_rail s u))"
        using ok by (simp add: live_rail_def tbl_ok_def distinct_map_filter)
      then show ?thesis by (simp add: live f o_def)
    qed
    show "set (map hl_id (live_rail t u)) = set wanted" using ids(1) by (simp add: live f image_image)
    show "hl_order h = int (length (takeWhile (\<lambda>i. i \<noteq> hl_id h) wanted))" if "h \<in> set (live_rail t u)" for h
      using that ids(1) by (auto simp: live f_def)
  qed (rule ids(2))
  moreover have "if v = u then True else live_rail t v = live_rail s v" using other by (simp add: live)
  ultimately show ?thesis using w(2) by (simp add: t o_def f)
qed

definition demo_clip_row :: "nat \<Rightarrow> uid \<Rightarrow> int \<Rightarrow> highlight_row" where
  "demo_clip_row i u place = \<lparr>hl_id = i, hl_user = u, hl_title = [], hl_file_url = [], hl_public_id = [],
     hl_thumbnail_url = [], hl_duration = None, hl_width = None, hl_height = None, hl_visibility = ''everyone'',
     hl_order = place, hl_source_post = None, hl_views_count = 0, hl_is_deleted = False,
     hl_created_at = 0, hl_updated_at = 0\<rparr>"

definition demo_rail :: "unit media_state" where
  "demo_rail = media_start\<lparr>highlights := [demo_clip_row 1 1 0, demo_clip_row 2 1 1, demo_clip_row 3 2 0, demo_clip_row 4 1 5]\<rparr>"

lemma reorder_shows_the_asked_order_witness:
  "\<exists>t. reorder_highlights (demo_create_env 9) (UserActor 1) (Some (map Some [4, 1, 2])) demo_rail = Inr ([4, 1, 2], t)
     \<and> map hl_id (rail_order (live_rail t 1)) = [4, 1, 2] \<and> live_rail t 2 = live_rail demo_rail 2"
proof -
  have inv: "rail_inv (highlights demo_rail)"
    by (simp add: demo_rail_def demo_clip_row_def rail_inv_def live_of_def tbl_ok_def max_highlights_def)
  have "case reorder_highlights (demo_create_env 9) (UserActor 1) (Some (map Some [4, 1, 2])) demo_rail of
      Inl _ \<Rightarrow> False | Inr (w, t) \<Rightarrow> w = [4, 1, 2]" by code_simp
  then obtain t where t: "reorder_highlights (demo_create_env 9) (UserActor 1) (Some (map Some [4, 1, 2])) demo_rail = Inr ([4, 1, 2], t)"
    by (auto split: sum.splits)
  show ?thesis
    using t reorder_shows_the_asked_order [OF inv t, of 2] by (intro exI [of _ t]) simp
qed

text \<open>Property C37. The chip of a card tells how many clips a visit would show: for every viewer but the owner,
  the grouped count of a page and the count on the player's own page agree for each player of the page, the
  dict leaving out those with nothing to see. Recruiters, followers and strangers fall under one matrix.\<close>
theorem chip_counts_agree:
  assumes "u \<in> set owner_ids" "\<not> is_owner (Some u) ao"
  shows "visible_highlight_counts_for g role owner_ids ao s u =
     (let n = visible_highlights_count g role (Some u) ao s in if n = 0 then None else Some n)"
proof -
  define seen where "seen = (\<lambda>h :: highlight_row. hl_visibility h \<in> set (allowed_levels g role u ao))"
  define rows where "rows = filter (\<lambda>h. hl_user h = u \<and> seen h \<and> \<not> hl_is_deleted h) (highlights s)"
  have page: "visible_highlights_count g role (Some u) ao s = length rows"
    using assms(2) by (simp add: visible_highlights_count_def visible_highlights_for_def Let_def rail_order_def
        filter_sort live_rail_def rows_def seen_def conj_ac)
  have mem: "u \<in> set (followed_user_ids_among g owner_ids ao) \<longleftrightarrow> is_follower_of g (Some u) ao"
    using assms(1) by (cases ao) (force simp: followed_user_ids_among_def is_follower_of_def map_filter_set
        split: identity.splits if_splits)+
  have chip: "visible_highlight_counts_for g role owner_ids ao s u = (if rows = [] then None else Some (length rows))"
  proof (cases "is_recruiter role ao")
    case True
    have "filter (\<lambda>h. hl_user h = u) (filter (\<lambda>h. recruiter_visible_q h \<and> hl_user h \<in> set owner_ids \<and> \<not> hl_is_deleted h) (highlights s)) = rows"
      using True assms(1) by (auto simp: rows_def seen_def allowed_levels_def recruiter_visible_q_def intro: filter_cong)
    from count_of_user [OF this] show ?thesis using True by (simp add: visible_highlight_counts_for_def Let_def)
  next
    case False
    have "filter (\<lambda>h. hl_user h = u) (filter (\<lambda>h. (hl_visibility h = ''everyone'' \<or> (hl_visibility h = ''followers_and_recruiters''
          \<and> hl_user h \<in> set (followed_user_ids_among g owner_ids ao))) \<and> hl_user h \<in> set owner_ids \<and> \<not> hl_is_deleted h) (highlights s)) = rows"
      using False assms(1) mem by (auto simp: rows_def seen_def allowed_levels_def intro!: filter_cong)
    from count_of_user [OF this] show ?thesis using False by (simp add: visible_highlight_counts_for_def Let_def)
  qed
  show ?thesis by (simp add: chip page)
qed

definition demo_graph :: social where
  "demo_graph = \<lparr>follow_rows = [(UserId 3, UserId 1)], counts = (\<lambda>_. None), block_rows = [], blocked_cache = (\<lambda>_. None), sent_notes = []\<rparr>"

lemma chip_counts_agree_witness:
  "visible_highlight_counts_for demo_graph (\<lambda>_. ScoutRole) [1, 2] (Some (UserActor 3)) demo_rail 1
     = (let n = visible_highlights_count demo_graph (\<lambda>_. ScoutRole) (Some 1) (Some (UserActor 3)) demo_rail
        in if n = 0 then None else Some n)"
  by (rule chip_counts_agree) (simp_all add: is_owner_def)

text \<open>Property C39. Deleting a post deletes the file under a clip that was promoted from it: the clip stays live
  on its owner's rail, its source forgotten, its file id and its URL unchanged, while the folder that file
  lies in is swept.\<close>
theorem deleting_a_post_sweeps_promoted_files:
  assumes "tbl_ok po_id (posts s)" "po \<in> set (posts s)" "po_author po = identity_of a" "po_media po = [(i, m)]"
    and "h \<in> set (highlights s)" "\<not> hl_is_deleted h" "hl_source_post h = Some (po_id po)"
    and "hl_public_id h = rm_public_id (pm_media m)" "hl_public_id h \<noteq> ''''"
  shows "let t = snd (delete_post (po_id po) a s)
    in h\<lparr>hl_source_post := None\<rparr> \<in> set (live_rail t (hl_user h))
     \<and> DeleteFolder (folder_of (hl_public_id h)) \<in> set (effects t)"
proof -
  have "find (\<lambda>x. po_id x = po_id po \<and> po_author x = identity_of a) (posts s) = Some po"
  proof (rule find_unique [OF assms(2)])
    show "po_id po = po_id po \<and> po_author po = identity_of a" using assms(3) by simp
    show "x = po" if "x \<in> set (posts s)" "po_id x = po_id po \<and> po_author x = identity_of a" for x
      using assms(1,2) that by (auto simp: tbl_ok_def dest: inj_onD [OF distinct_map [THEN iffD1, THEN conjunct2]])
  qed
  note found = this
  have key: "rm_public_id (pm_media m) \<noteq> ''''" using assms(8,9) by simp
  have d: "snd (delete_post (po_id po) a s) =
      (media_emit (DeleteFolder (folder_of (hl_public_id h))) s)\<lparr>posts := filter (\<lambda>x. po_id x \<noteq> po_id po) (posts s),
         highlights := map (\<lambda>x. if hl_source_post x = Some (po_id po) then x\<lparr>hl_source_post := None\<rparr> else x) (highlights s)\<rparr>"
    unfolding delete_post_def found assms(8)
    using key by (simp add: assms(4) Let_def media_emit_def)
  have "h\<lparr>hl_source_post := None\<rparr> \<in> (\<lambda>x. if hl_source_post x = Some (po_id po) then x\<lparr>hl_source_post := None\<rparr> else x) ` set (highlights s)"
    by (rule image_eqI [OF _ assms(5)]) (simp add: assms(7))
  with assms(6) show ?thesis by (simp add: d Let_def live_rail_def media_emit_def)
qed

definition demo_video :: ready_media where
  "demo_video = \<lparr>rm_file_url = ''https://media.goatza.com/users/1/posts/b/v.mp4'', rm_public_id = ''users/1/posts/b/v.mp4'',
     rm_media_type = ''video'', rm_thumbnail_url = ''https://media.goatza.com/users/1/posts/b/t.jpg'',
     rm_width = None, rm_height = None, rm_duration = Some 30, rm_size = None\<rparr>"

definition demo_post :: post_row where
  "demo_post = \<lparr>po_id = 1, po_author = UserId 1, po_content = [], po_visibility = ''public'',
     po_media = [(1, \<lparr>pm_media = demo_video, pm_order = 0\<rparr>)], po_is_deleted = False\<rparr>"

definition demo_promoted :: "unit media_state" where
  "demo_promoted = right_state media_start (highlight_create (demo_env 0) (UserActor 1) 1 demo_clip (media_start\<lparr>posts := [demo_post]\<rparr>))"

lemma promoted_row:
  "map (\<lambda>h. (hl_user h, hl_is_deleted h, hl_source_post h, hl_public_id h)) (highlights demo_promoted)
     = [(1, False, Some 1, ''users/1/posts/b/v.mp4'')] \<and> posts demo_promoted = [demo_post]"
  by code_simp

lemma deleting_a_post_sweeps_promoted_files_witness:
  "DeleteFolder (folder_of ''users/1/posts/b/v.mp4'') \<in> set (effects (snd (delete_post 1 (UserActor 1) demo_promoted)))
    \<and> length (live_rail (snd (delete_post 1 (UserActor 1) demo_promoted)) 1) > 0"
proof -
  obtain h where h: "highlights demo_promoted = [h]" "hl_user h = 1" "\<not> hl_is_deleted h" "hl_source_post h = Some 1"
      "hl_public_id h = ''users/1/posts/b/v.mp4''" "posts demo_promoted = [demo_post]"
    using promoted_row by (auto simp: map_eq_Cons_conv)
  have "let t = snd (delete_post (po_id demo_post) (UserActor 1) demo_promoted)
    in h\<lparr>hl_source_post := None\<rparr> \<in> set (live_rail t (hl_user h))
     \<and> DeleteFolder (folder_of (hl_public_id h)) \<in> set (effects t)"
    by (rule deleting_a_post_sweeps_promoted_files [where i = 1 and m = "\<lparr>pm_media = demo_video, pm_order = 0\<rparr>"])
      (simp_all add: h demo_post_def demo_video_def tbl_ok_def identity_of_def)
  moreover have "po_id demo_post = 1" by (simp add: demo_post_def)
  ultimately show ?thesis by (auto simp: Let_def h(2,5) length_pos_if_in_set simp del: One_nat_def)
qed

text \<open>Property C38. Deleting a post can sweep everything its author ever uploaded: the checks accept a file id
  directly below the author's root, the folder swept on deletion is taken from that id, and so a post
  exists, for every user and every organization, whose deletion removes all objects below the root, other
  posts, logos and clips included. A member who may post for an organization can wipe its media.\<close>
theorem deleting_a_post_can_sweep_the_account:
  assumes "\<And>n. is_canonical_uuid (ce_uuid_text env n)" "ce_base env = ''https://'' @ host" "list_all host_char host"
  shows "\<exists>data cleaned i t. validate_create_payload env s a data None = Inr cleaned
     \<and> create_post env a cleaned s = Inr (i, t)
     \<and> DeleteFolder (owner_prefix (owner_of_actor (ce_uuid_text env) a)) \<in> set (effects (snd (delete_post i a t)))"
proof -
  define root where "root = owner_prefix (owner_of_actor (ce_uuid_text env) a)"
  define u where "u = ce_uuid_text env 0"
  define key where "key = root @ CHR ''/'' # u @ CHR ''.'' # ''jpg''"
  define m where "m = \<lparr>rm_file_url = ce_base env @ CHR ''/'' # key, rm_public_id = key, rm_media_type = ''image'',
     rm_thumbnail_url = '''', rm_width = None, rm_height = None, rm_duration = None, rm_size = None\<rparr>"
  define data :: "'a post_payload" where "data = \<lparr>pp_content = '''', pp_post_type = ''normal'', pp_visibility = ''public'',
     pp_sport = None, pp_location = None, pp_media = [ReadyItem m None]\<rparr>"
  have u: "is_canonical_uuid u" using assms(1) by (simp add: u_def)
  have chars: "list_all key_char root"
    using uuid_key_chars [OF assms(1)]
    by (cases a) (simp_all add: root_def owner_prefix_def owner_of_actor_def key_char_def)
  have jpg: "list_all host_char ''jpg''" "CHR ''.'' \<notin> set ''jpg''" "py_lower ''jpg'' \<in> set (map py_lower allowed_image_extensions)"
    by (simp_all add: host_char_def key_char_def allowed_image_extensions_def)
  have "validate_media (ce_base env) (owner_of_actor (ce_uuid_text env) a) allowed_image_extensions (ce_base env @ CHR ''/'' # key) key = Inr ()"
    by (rule stored_file_valid(1) [OF assms(3) chars _ u jpg assms(2) key_def]) (simp add: root_def startswith_def)
  then have "media_checks env a 0 ImageKind (ce_base env @ CHR ''/'' # key) key '''' = Inr ()"
    by (simp add: media_checks_def)
  then have item: "check_items env s a None 0 (pp_media data) = Inr [CheckedMedia \<lparr>pm_media = m, pm_order = 0\<rparr> ImageKind None]"
    by (simp add: data_def check_item_def checked_ready_def m_def kind_of_text_def key_def clamp_int_def py_strip_def assms(2))
  define cleaned where "cleaned = \<lparr>cl_payload = data, cl_media = [\<lparr>pm_media = m, pm_order = 0\<rparr>], cl_jobs = [], cl_pending = []\<rparr>"
  have "validate_create_payload env s a data None = Inr cleaned"
    using item by (simp add: validate_create_payload_def cleaned_def data_def Let_def max_post_media_def
        is_pending_item_def List.map_filter_simps py_strip_def)
  moreover define po where "po = \<lparr>po_id = next_id po_id (posts s), po_author = identity_of a, po_content = '''',
     po_visibility = ''public'', po_media = [(next_media_id s, \<lparr>pm_media = m, pm_order = 0\<rparr>)], po_is_deleted = False\<rparr>"
  define t where "t = s\<lparr>posts := posts s @ [po]\<rparr>"
  have "create_post env a cleaned s = Inr (po_id po, t)"
    by (simp add: create_post_def cleaned_def data_def Let_def t_def po_def tbl_insert_def enumerate_eq_zip)
  moreover have "find (\<lambda>x. po_id x = po_id po \<and> po_author x = identity_of a) (posts s @ [po]) = Some po"
  proof (rule find_at_end)
    have "po_id po \<notin> po_id ` set (posts s)" using fresh_number [of po_id "posts s"] by (simp add: po_def)
    then show "find (\<lambda>x. po_id x = po_id po \<and> po_author x = identity_of a) (posts s) = None"
      unfolding find_None_iff by (metis imageI)
  qed (simp add: po_def)
  then have "DeleteFolder (folder_of key) \<in> set (effects (snd (delete_post (po_id po) a t)))"
    by (simp add: delete_post_def t_def Let_def po_def m_def media_emit_def) (simp add: key_def)
  moreover have "folder_of key = root"
    unfolding key_def by (rule folder_last(1)) (use uuid_no(1) [OF u] in simp)
  ultimately show ?thesis unfolding root_def by metis
qed

lemma deleting_a_post_can_sweep_the_account_witness:
  "\<exists>i t. DeleteFolder (''users/'' @ demo_uuid 1 @ ''/'') \<in> set (effects (snd (delete_post i (UserActor 1) (t :: unit media_state))))"
proof -
  have e: "ce_uuid_text (demo_create_env 0) = demo_uuid" "ce_base (demo_create_env 0) = ''https://'' @ ''media.goatza.com''"
    by (simp_all add: demo_create_env_def)
  have "list_all host_char ''media.goatza.com''" by (simp add: host_char_def key_char_def)
  from deleting_a_post_can_sweep_the_account [OF _ e(2) this, of media_start "UserActor 1"]
  have "\<exists>i t. DeleteFolder (owner_prefix (owner_of_actor demo_uuid (UserActor 1))) \<in> set (effects (snd (delete_post i (UserActor 1) (t :: unit media_state))))"
    unfolding e(1) using demo_uuid_canonical by blast
  then show ?thesis by (simp add: owner_prefix_def owner_of_actor_def)
qed

end
