(* ===== verification/Usernames.thy ===== *)
theory Usernames
  imports Social_Graph
begin

text \<open>
  Handles: \<open>apps/usernames/services/username_service.py\<close> and the format rules of
  \<open>utils/validations.py\<close>. One registry row per handle and per owner; the display columns of users and
  organizations are the rows of \<open>accounts\<close>, each unique within its own table.

  The handle a method reads off the instance it was given is an argument (\<open>loaded\<close>): the row may have
  changed since. \<open>random.randint\<close> is a parameter, the \<open>n\<close>-th draw between two bounds. Of the cache, the
  entries keyed by a handle are kept; the second deletion, after the commit, repeats the first. Characters are
  HOL's, so the lower case of letters outside their range is not looked at.
\<close>

section \<open>Format\<close>

definition username_min_length :: nat where "username_min_length = 3"
definition username_max_length :: nat where "username_max_length = 30"

definition handle_char :: "char \<Rightarrow> bool" where
  "handle_char c \<longleftrightarrow> c \<in> set ''abcdefghijklmnopqrstuvwxyz0123456789_''"

definition reserved_usernames :: "string list" where
  "reserved_usernames =
     [''auth'', ''card'', ''chat'', ''coaching'', ''cv'', ''explore'', ''guidelines'', ''highlights'', ''home'',
      ''join'', ''matches'', ''messages'', ''notifications'', ''organization'', ''posts'', ''r'',
      ''recruitments'', ''safety'', ''scouting'', ''search'', ''org-invite'',
      ''admin'', ''root'', ''support'', ''help'', ''api'', ''system'', ''null'', ''undefined'', ''owner'',
      ''moderator'', ''staff'', ''login'', ''signup'', ''me'', ''settings'', ''profile'', ''user'', ''users'',
      ''dashboard'',
      ''www'', ''static'', ''assets'', ''media'', ''cdn'', ''img'', ''favicon'', ''robots'', ''sitemap'',
      ''.well-known'',
      ''logout'', ''register'', ''verify'', ''reset'', ''password'', ''oauth'', ''callback'', ''token'',
      ''refresh'',
      ''feed'', ''discover'', ''trending'', ''saved'', ''mentions'', ''verifications'', ''squad'', ''squads'',
      ''team'', ''teams'', ''club'', ''academy'', ''trials'', ''about'', ''terms'', ''privacy'', ''legal'',
      ''contact'', ''download'', ''app'', ''pricing'', ''blog'', ''careers'', ''press'',
      ''goatza'', ''goatzaapp'', ''official'', ''verified'', ''security'', ''billing'', ''noreply'',
      ''no-reply'']"

text \<open>\<open>"__" in username\<close>.\<close>

fun double_underscore :: "string \<Rightarrow> bool" where
  "double_underscore (a # b # s) \<longleftrightarrow> (a = CHR ''_'' \<and> b = CHR ''_'') \<or> double_underscore (b # s)"
| "double_underscore s \<longleftrightarrow> False"

definition validate_username_format :: "string \<Rightarrow> string result" where
  "validate_username_format raw =
     (let u = py_lower (py_strip raw)
      in if length u < username_min_length then Inl (ValueError ''Username must be at least 3 characters'')
         else if length u > username_max_length
         then Inl (ValueError ''Username cannot be longer than 30 characters'')
         else if \<not> list_all handle_char u then Inl (ValueError ''Only letters, numbers, and underscores allowed'')
         else if hd u = CHR ''_'' \<or> last u = CHR ''_''
         then Inl (ValueError ''Username cannot start or end with underscore'')
         else if double_underscore u then Inl (ValueError ''Username cannot contain consecutive underscores'')
         else if list_all is_digit_char u then Inl (ValueError ''Username cannot be only numbers'')
         else if u \<in> set reserved_usernames then Inl (ValueError ''This username is not allowed'')
         else Inr u)"

section \<open>State\<close>

record registration =
  ur_handle :: string
  ur_owner :: identity

record named_account =
  na_owner :: identity
  na_username :: "string option"

datatype name_key =
  ProfileLookup string | PublicUser string | PublicOrg string | PublicCv string | UserDetails string string

record name_state =
  registry :: "registration list"
  accounts :: "named_account list"
  name_cache :: "(name_key \<times> identity) list"

definition registered :: "name_state \<Rightarrow> string \<Rightarrow> registration option" where
  "registered s u = tbl_get ur_handle (registry s) u"

definition registration_of :: "name_state \<Rightarrow> identity \<Rightarrow> registration option" where
  "registration_of s a = tbl_get ur_owner (registry s) a"

fun same_table :: "identity \<Rightarrow> identity \<Rightarrow> bool" where
  "same_table (UserId u) (UserId v) = True"
| "same_table (OrgId i) (OrgId k) = True"
| "same_table a b = False"

section \<open>The cache\<close>

definition cache_keys_for :: "identity \<Rightarrow> string \<Rightarrow> name_key list" where
  "cache_keys_for a username =
     (if username = '''' then []
      else ProfileLookup username #
        (case a of
           UserId _ \<Rightarrow> [PublicUser username, PublicCv username, UserDetails username ''mini'', UserDetails username ''full'']
         | OrgId _ \<Rightarrow> [PublicOrg username]))"

definition invalidate :: "identity \<Rightarrow> string list \<Rightarrow> name_state \<Rightarrow> name_state" where
  "invalidate a usernames s =
     s\<lparr>name_cache := filter (\<lambda>(k, _). k \<notin> set (concat (map (cache_keys_for a) usernames))) (name_cache s)\<rparr>"

definition handle_text :: "string option \<Rightarrow> string" where
  "handle_text loaded = py_lower (py_strip (case loaded of None \<Rightarrow> '''' | Some u \<Rightarrow> u))"

section \<open>Claim and release\<close>

text \<open>The display column is written when the loaded instance differs; it is unique within its table.\<close>

definition write_display :: "identity \<Rightarrow> string option \<Rightarrow> string \<Rightarrow> name_state \<Rightarrow> name_state result" where
  "write_display a loaded u s =
     (if loaded = Some u then Inr s
      else if list_ex (\<lambda>r. na_owner r \<noteq> a \<and> same_table a (na_owner r) \<and> na_username r = Some u) (accounts s)
      then Inl IntegrityError
      else Inr (s\<lparr>accounts := map (\<lambda>r. if na_owner r = a then r\<lparr>na_username := Some u\<rparr> else r) (accounts s)\<rparr>))"

definition register_handle :: "identity \<Rightarrow> string \<Rightarrow> name_state \<Rightarrow> name_state result" where
  "register_handle a u s =
     (if map_option ur_handle (registration_of s a) = Some u then Inr s
      else let s = s\<lparr>registry := filter (\<lambda>r. ur_owner r \<noteq> a) (registry s)\<rparr>
           in if registered s u \<noteq> None then Inl (UsernameTaken u)
              else Inr (s\<lparr>registry := tbl_insert \<lparr>ur_handle = u, ur_owner = a\<rparr> (registry s)\<rparr>))"

definition claim_username :: "identity \<Rightarrow> string option \<Rightarrow> string \<Rightarrow> name_state \<Rightarrow> (string \<times> name_state) result" where
  "claim_username a loaded raw s =
     res_bind (validate_username_format raw) (\<lambda>u.
     res_bind (register_handle a u s) (\<lambda>s.
     res_bind (write_display a loaded u s) (\<lambda>s.
       Inr (u, invalidate a [handle_text loaded, u] s))))"

definition is_available :: "string \<Rightarrow> identity option \<Rightarrow> name_state \<Rightarrow> bool result" where
  "is_available raw exclude s =
     res_bind (validate_username_format raw) (\<lambda>u.
       Inr (case registered s u of None \<Rightarrow> True | Some r \<Rightarrow> Some (ur_owner r) = exclude))"

definition release_username :: "identity \<Rightarrow> string option \<Rightarrow> name_state \<Rightarrow> name_state" where
  "release_username a loaded s =
     invalidate a [handle_text loaded] (s\<lparr>registry := filter (\<lambda>r. ur_owner r \<noteq> a) (registry s)\<rparr>)"

text \<open>The purge of an account: the handle goes back, then the column is emptied.\<close>

definition purge_handle :: "uid \<Rightarrow> string option \<Rightarrow> name_state \<Rightarrow> name_state" where
  "purge_handle u loaded s =
     (let s = release_username (UserId u) loaded s
      in s\<lparr>accounts := map (\<lambda>r. if na_owner r = UserId u then r\<lparr>na_username := None\<rparr> else r) (accounts s)\<rparr>)"

section \<open>Resolve\<close>

definition resolve_username :: "string \<Rightarrow> name_state \<Rightarrow> (identity \<times> name_state) result" where
  "resolve_username raw s =
     (if raw = '''' then Inl (ValueError ''Username is required'')
      else let u = py_lower (py_strip raw)
           in case map_of (name_cache s) (ProfileLookup u) of
                Some a \<Rightarrow> Inr (a, s)
              | None \<Rightarrow>
                  (case registered s u of
                     None \<Rightarrow> Inl (ValueError ''Profile not found'')
                   | Some r \<Rightarrow> Inr (ur_owner r, s\<lparr>name_cache := (ProfileLookup u, ur_owner r) # name_cache s\<rparr>)))"

section \<open>Generated handles\<close>

definition generate_suffix_room :: nat where "generate_suffix_room = 8"
definition generate_claim_attempts :: nat where "generate_claim_attempts = 5"

text \<open>\<open>re.sub(r"_+", "_", slug)\<close> and the two strips.\<close>

fun collapse_underscores :: "string \<Rightarrow> string" where
  "collapse_underscores (a # b # s) =
     (if a = CHR ''_'' \<and> b = CHR ''_'' then collapse_underscores (b # s) else a # collapse_underscores (b # s))"
| "collapse_underscores s = s"

definition rstrip_underscores :: "string \<Rightarrow> string" where
  "rstrip_underscores s = rev (dropWhile (\<lambda>c. c = CHR ''_'') (rev s))"

definition slugify :: "string \<Rightarrow> string" where
  "slugify base =
     rstrip_underscores (dropWhile (\<lambda>c. c = CHR ''_'') (collapse_underscores (filter handle_char (py_lower base))))"

fun generate_fallback :: "identity \<Rightarrow> string" where
  "generate_fallback (UserId _) = ''player''"
| "generate_fallback (OrgId _) = ''club''"

definition handle_stem :: "identity \<Rightarrow> string \<Rightarrow> string" where
  "handle_stem a base =
     (let stem = rstrip_underscores (take (username_max_length - generate_suffix_room) (slugify base))
      in if length stem < username_min_length \<or> list_all is_digit_char stem \<or> stem \<in> set reserved_usernames
         then generate_fallback a else stem)"

type_synonym draws = "nat \<Rightarrow> nat \<Rightarrow> nat \<Rightarrow> nat"

definition suffix_digits :: "nat \<Rightarrow> nat" where
  "suffix_digits attempts = (if attempts < 20 then 4 else generate_suffix_room)"

definition suffixed :: "draws \<Rightarrow> string \<Rightarrow> nat \<Rightarrow> string" where
  "suffixed rnd stem n =
     stem @ decimal (if n = 0 then rnd 0 10 99
                     else rnd n (10 ^ (suffix_digits n - 1)) (10 ^ suffix_digits n - 1))"

text \<open>The loop of \<open>generate\<close>: \<open>None\<close> when it never ends.\<close>

partial_function (option) free_handle :: "draws \<Rightarrow> (string \<Rightarrow> bool) \<Rightarrow> string \<Rightarrow> nat \<Rightarrow> string option" where
  "free_handle rnd taken stem n =
     (if \<not> taken (suffixed rnd stem n) then Some (suffixed rnd stem n)
      else free_handle rnd taken stem (n + 1))"

definition generate_handle :: "draws \<Rightarrow> identity \<Rightarrow> string \<Rightarrow> name_state \<Rightarrow> string result option" where
  "generate_handle rnd a base s =
     map_option (\<lambda>u. if validate_username_format u = Inr u then Inr u else Inl AssertionError)
       (free_handle rnd (\<lambda>u. registered s u \<noteq> None) (handle_stem a base) 0)"

text \<open>
  \<open>generate_and_claim\<close>: the other requests between the \<open>i\<close>-th read and its write are \<open>meanwhile i\<close>.
\<close>

fun claim_tries ::
  "(nat \<Rightarrow> draws) \<Rightarrow> (nat \<Rightarrow> name_state \<Rightarrow> name_state) \<Rightarrow> identity \<Rightarrow> string option \<Rightarrow> string \<Rightarrow> nat \<Rightarrow>
     name_state \<Rightarrow> (string \<times> name_state) result option" where
  "claim_tries rnds meanwhile a loaded base 0 s = Some (Inl (UsernameTaken base))"
| "claim_tries rnds meanwhile a loaded base (Suc n) s =
     (case generate_handle (rnds n) a base s of
        None \<Rightarrow> None
      | Some (Inl e) \<Rightarrow> Some (Inl e)
      | Some (Inr u) \<Rightarrow>
          (case claim_username a loaded u (meanwhile n s) of
             Inl (UsernameTaken _) \<Rightarrow> claim_tries rnds meanwhile a loaded base n (meanwhile n s)
           | Inl e \<Rightarrow> Some (Inl e)
           | Inr r \<Rightarrow> Some (Inr r)))"

definition generate_and_claim ::
  "(nat \<Rightarrow> draws) \<Rightarrow> (nat \<Rightarrow> name_state \<Rightarrow> name_state) \<Rightarrow> identity \<Rightarrow> string option \<Rightarrow> string \<Rightarrow>
     name_state \<Rightarrow> (string \<times> name_state) result option" where
  "generate_and_claim rnds meanwhile a loaded base s =
     claim_tries rnds meanwhile a loaded base generate_claim_attempts s"

text \<open>\<open>OrganizationService._create_with_handle\<close>: the row is created with the handle, then claims it.\<close>

definition create_named_org :: "oid \<Rightarrow> string \<Rightarrow> name_state \<Rightarrow> (string \<times> name_state) result" where
  "create_named_org oi u s =
     (if list_ex (\<lambda>r. same_table (OrgId oi) (na_owner r) \<and> na_username r = Some u) (accounts s)
      then Inl IntegrityError
      else claim_username (OrgId oi) (Some u) u
             (s\<lparr>accounts := tbl_insert \<lparr>na_owner = OrgId oi, na_username = Some u\<rparr> (accounts s)\<rparr>))"

fun create_with_handle ::
  "(nat \<Rightarrow> draws) \<Rightarrow> (nat \<Rightarrow> name_state \<Rightarrow> name_state) \<Rightarrow> oid \<Rightarrow> string \<Rightarrow> nat \<Rightarrow>
     name_state \<Rightarrow> (string \<times> name_state) option result option" where
  "create_with_handle rnds meanwhile oi base 0 s = Some (Inr None)"
| "create_with_handle rnds meanwhile oi base (Suc n) s =
     (case generate_handle (rnds n) (OrgId oi) base s of
        None \<Rightarrow> None
      | Some (Inl e) \<Rightarrow> Some (Inl e)
      | Some (Inr u) \<Rightarrow>
          (case create_named_org oi u (meanwhile n s) of
             Inr r \<Rightarrow> Some (Inr (Some r))
           | Inl e \<Rightarrow>
               (case e of
                  IntegrityError \<Rightarrow> create_with_handle rnds meanwhile oi base n (meanwhile n s)
                | UsernameTaken _ \<Rightarrow> create_with_handle rnds meanwhile oi base n (meanwhile n s)
                | _ \<Rightarrow> Some (Inl e))))"

end
