(* ===== verification/Username_Laws.thy ===== *)
theory Username_Laws
  imports Usernames
begin

text \<open>
  What a valid handle is, that generated ones are valid, and the machine of the namespace: the registry and
  the display columns say the same, and every cached handle is true.
\<close>

section \<open>Valid handles\<close>

definition handle_ok :: "string \<Rightarrow> bool" where
  "handle_ok u \<longleftrightarrow> 3 \<le> length u \<and> length u \<le> 30 \<and> list_all handle_char u \<and> hd u \<noteq> CHR ''_'' \<and> last u \<noteq> CHR ''_''
     \<and> \<not> double_underscore u \<and> \<not> list_all is_digit_char u \<and> u \<notin> set reserved_usernames"

lemma handle_char_plain: "handle_char c \<Longrightarrow> \<not> py_isspace c \<and> py_lower_char c = c"
proof -
  have "list_all (\<lambda>c. \<not> py_isspace c \<and> py_lower_char c = c) ''abcdefghijklmnopqrstuvwxyz0123456789_''"
    by code_simp
  then show "handle_char c \<Longrightarrow> \<not> py_isspace c \<and> py_lower_char c = c"
    unfolding handle_char_def list_all_iff by blast
qed

lemma dropWhile_none: "list_all (\<lambda>c. \<not> P c) s \<Longrightarrow> dropWhile P s = s"
  by (cases s) auto

lemma plain_handle: "list_all handle_char u \<Longrightarrow> py_lower (py_strip u) = u"
proof -
  assume u: "list_all handle_char u"
  then have "list_all (\<lambda>c. \<not> py_isspace c) u" "list_all (\<lambda>c. \<not> py_isspace c) (rev u)"
    using handle_char_plain by (auto simp: list_all_iff)
  then have "py_strip u = u" by (simp add: py_strip_def dropWhile_none)
  moreover have "py_lower u = u" using u handle_char_plain by (simp add: py_lower_def list_all_iff map_idI)
  ultimately show ?thesis by simp
qed

lemma validate_ok:
  "validate_username_format raw = Inr u \<longleftrightarrow> u = py_lower (py_strip raw) \<and> handle_ok u"
  by (auto simp: validate_username_format_def Let_def handle_ok_def username_min_length_def username_max_length_def)

lemma validate_self: "validate_username_format u = Inr u \<longleftrightarrow> handle_ok u"
  using plain_handle [of u] by (auto simp: validate_ok handle_ok_def)

lemma handle_text_ok: "handle_ok u \<Longrightarrow> handle_text (Some u) = u"
  using plain_handle [of u] by (simp add: handle_text_def handle_ok_def)

section \<open>Generated handles are valid\<close>

lemma double_cons: "double_underscore (a # s) \<longleftrightarrow> (s \<noteq> [] \<and> a = CHR ''_'' \<and> hd s = CHR ''_'') \<or> double_underscore s"
  by (cases s) auto

lemma double_append:
  "double_underscore (s @ t) \<Longrightarrow> s \<noteq> [] \<Longrightarrow> last s \<noteq> CHR ''_'' \<Longrightarrow> double_underscore s \<or> double_underscore t"
proof (induction s)
  case (Cons a s)
  then show ?case by (cases "s = []") (auto simp: double_cons)
qed simp

lemma no_double_digits: "list_all is_digit_char t \<Longrightarrow> \<not> double_underscore t"
  by (induction t rule: double_underscore.induct) (auto simp: is_digit_char_def)

lemma reserved_no_digit: "u \<in> set reserved_usernames \<Longrightarrow> \<not> is_digit_char (last u)"
proof -
  have "list_all (\<lambda>u. \<not> is_digit_char (last u)) reserved_usernames" by code_simp
  then show "u \<in> set reserved_usernames \<Longrightarrow> \<not> is_digit_char (last u)" unfolding list_all_iff by blast
qed

definition stem_ok :: "string \<Rightarrow> bool" where
  "stem_ok s \<longleftrightarrow> 3 \<le> length s \<and> length s \<le> 22 \<and> list_all handle_char s \<and> hd s \<noteq> CHR ''_'' \<and> last s \<noteq> CHR ''_''
     \<and> \<not> double_underscore s \<and> \<not> list_all is_digit_char s"

lemma digit_handle_char: "is_digit_char c \<Longrightarrow> handle_char c \<and> c \<noteq> CHR ''_''"
  by (auto simp: is_digit_char_def handle_char_def)

lemma stem_suffix_ok:
  assumes s: "stem_ok s" and t: "list_all is_digit_char t" "t \<noteq> []" "length t \<le> 8"
  shows "handle_ok (s @ t)"
proof -
  have "s \<noteq> []" using s by (auto simp: stem_ok_def)
  moreover have "is_digit_char (last t)" using t by (simp add: list_all_iff)
  moreover have "list_all handle_char t" using t(1) digit_handle_char by (simp add: list_all_iff)
  moreover have "\<not> double_underscore (s @ t)"
    using double_append [of s t] no_double_digits [OF t(1)] s \<open>s \<noteq> []\<close> by (auto simp: stem_ok_def)
  moreover have "s @ t \<notin> set reserved_usernames"
    using reserved_no_digit [of "s @ t"] \<open>is_digit_char (last t)\<close> t(2) by auto
  ultimately show ?thesis
    using s t(2,3) digit_handle_char [of "last t"] by (simp add: handle_ok_def stem_ok_def)
qed

lemma reserved_stem: "stem_ok ''player'' \<and> stem_ok ''club''"
  by code_simp

lemma collapse_handle: "list_all handle_char s \<Longrightarrow> list_all handle_char (collapse_underscores s)"
  by (induction s rule: collapse_underscores.induct) auto

lemma collapse_hd: "s \<noteq> [] \<Longrightarrow> collapse_underscores s \<noteq> [] \<and> hd (collapse_underscores s) = hd s"
  by (induction s rule: collapse_underscores.induct) auto

lemma collapse_single: "\<not> double_underscore (collapse_underscores s)"
proof (induction s rule: collapse_underscores.induct)
  case (1 a b s)
  then show ?case using collapse_hd [of "b # s"] by (auto simp: double_cons)
qed auto

lemma double_drop: "double_underscore (drop n s) \<Longrightarrow> double_underscore s"
proof (induction s arbitrary: n)
  case (Cons a s)
  then show ?case by (cases n) (auto simp: double_cons)
qed simp

lemma double_take: "double_underscore (take n s) \<Longrightarrow> double_underscore s"
proof (induction s arbitrary: n)
  case (Cons a s)
  then show ?case by (cases n) (auto simp: double_cons take_Cons' split: if_splits)
qed simp

lemma dropWhile_is_drop: "\<exists>n. dropWhile P s = drop n s"
proof (induction s)
  case (Cons a s)
  then obtain n where "dropWhile P s = drop n s" by blast
  then have "dropWhile P (a # s) = (if P a then drop (Suc n) (a # s) else drop 0 (a # s))" by simp
  then show ?case by (metis (full_types))
qed simp

lemma dropWhile_clean:
  assumes "list_all handle_char s" "\<not> double_underscore s"
  shows "list_all handle_char (dropWhile P s) \<and> \<not> double_underscore (dropWhile P s)"
proof -
  obtain n where "dropWhile P s = drop n s" using dropWhile_is_drop by blast
  then show ?thesis using assms double_drop [of n s] by (auto simp: list_all_iff dest: in_set_dropD)
qed

lemma rstrip_take: "\<exists>n. rstrip_underscores s = take n s"
proof -
  obtain n where "dropWhile (\<lambda>c. c = CHR ''_'') (rev s) = drop n (rev s)" using dropWhile_is_drop by blast
  then have "rstrip_underscores s = take (length s - n) s" by (simp add: rstrip_underscores_def rev_drop)
  then show ?thesis by blast
qed

lemma rstrip_last: "rstrip_underscores s \<noteq> [] \<Longrightarrow> last (rstrip_underscores s) \<noteq> CHR ''_''"
  using hd_dropWhile [of "\<lambda>c. c = CHR ''_''" "rev s"] by (auto simp: rstrip_underscores_def last_rev)

lemma handle_stem_ok: "stem_ok (handle_stem a base)"
proof -
  let ?q = "dropWhile (\<lambda>c. c = CHR ''_'') (collapse_underscores (filter handle_char (py_lower base)))"
  let ?s = "rstrip_underscores (take 22 (rstrip_underscores ?q))"
  have q: "list_all handle_char ?q" "\<not> double_underscore ?q" "?q \<noteq> [] \<Longrightarrow> hd ?q \<noteq> CHR ''_''"
  proof -
    have c: "list_all handle_char (collapse_underscores (filter handle_char (py_lower base)))"
      by (rule collapse_handle) (simp add: list_all_iff)
    show "list_all handle_char ?q" "\<not> double_underscore ?q"
      using dropWhile_clean [OF c collapse_single] by blast+
    show "?q \<noteq> [] \<Longrightarrow> hd ?q \<noteq> CHR ''_''"
      using hd_dropWhile [of "\<lambda>c. c = CHR ''_''" "collapse_underscores (filter handle_char (py_lower base))"] by blast
  qed
  obtain m k where s: "?s = take m ?q" "?s = take k (take 22 (rstrip_underscores ?q))"
    using rstrip_take by (metis take_take)
  have len: "length ?s \<le> 22" using s(2) by simp
  have "stem_ok ?s" if "3 \<le> length ?s" "\<not> list_all is_digit_char ?s"
  proof -
    have ne: "?s \<noteq> []" using that(1) by auto
    moreover have "hd ?s = hd ?q" using s(1) ne by (metis hd_take take_eq_Nil gr0I)
    moreover have "?q \<noteq> []" using s(1) ne by auto
    moreover have "list_all handle_char ?s" using q(1) s(1) by (metis in_set_takeD list_all_iff)
    moreover have "\<not> double_underscore ?s" using q(2) s(1) double_take by metis
    ultimately show ?thesis using that len q(3) rstrip_last by (simp add: stem_ok_def)
  qed
  then show ?thesis
    using reserved_stem by (cases a) (auto simp: handle_stem_def slugify_def Let_def username_min_length_def
      username_max_length_def generate_suffix_room_def)
qed

section \<open>The loop of generate\<close>

definition draws_in_range :: "draws \<Rightarrow> bool" where
  "draws_in_range rnd \<longleftrightarrow> (\<forall>n lo hi. lo \<le> hi \<longrightarrow> lo \<le> rnd n lo hi \<and> rnd n lo hi \<le> hi)"

definition draws_everything :: "draws \<Rightarrow> bool" where
  "draws_everything rnd \<longleftrightarrow> (\<forall>lo hi k m. lo \<le> k \<longrightarrow> k \<le> hi \<longrightarrow> (\<exists>n\<ge>m. rnd n lo hi = k))"

lemma suffixed_ok:
  assumes "draws_in_range rnd" "stem_ok stem"
  shows "handle_ok (suffixed rnd stem n)"
proof -
  have "rnd 0 10 99 \<le> 99" "rnd n 1000 9999 \<le> 9999" "rnd n 10000000 99999999 \<le> 99999999"
    using assms(1) unfolding draws_in_range_def by simp_all
  then have "(if n = 0 then rnd 0 10 99 else rnd n (10 ^ (suffix_digits n - 1)) (10 ^ suffix_digits n - 1)) < 10 ^ 8"
    by (auto simp: suffix_digits_def generate_suffix_room_def)
  then show ?thesis
    unfolding suffixed_def using stem_suffix_ok [OF assms(2)] decimal_digits decimal_length [of _ 8] by simp
qed

lemma free_handle_stops:
  "m \<le> n \<Longrightarrow> \<not> taken (suffixed rnd stem n) \<Longrightarrow>
     \<exists>k. free_handle rnd taken stem m = Some (suffixed rnd stem k) \<and> \<not> taken (suffixed rnd stem k)"
proof (induction "n - m" arbitrary: m)
  case 0
  then show ?case by (subst free_handle.simps) auto
next
  case (Suc d)
  show ?case
  proof (cases "taken (suffixed rnd stem m)")
    case True
    then have "m + 1 \<le> n" using Suc.prems by (cases "m = n") auto
    moreover have "d = n - (m + 1)" using Suc.hyps(2) by simp
    ultimately show ?thesis using Suc.hyps(1) [of "m + 1"] Suc.prems(2) True by (simp add: free_handle.simps [of _ _ _ m])
  next
    case False
    then show ?thesis by (subst free_handle.simps) auto
  qed
qed

text \<open>Fewer rows than eight-digit numbers: some suffix is free.\<close>

lemma free_suffix_exists:
  assumes "length (registry s) < 9 * 10 ^ 7"
  shows "\<exists>k. 10 ^ 7 \<le> k \<and> k \<le> 10 ^ 8 - 1 \<and> registered s (stem @ decimal k) = None"
proof (rule ccontr)
  assume none: "\<not> ?thesis"
  let ?K = "{10 ^ 7 ..< 10 ^ 8} :: nat set"
  have "(\<lambda>k. stem @ decimal k) ` ?K \<subseteq> ur_handle ` set (registry s)"
  proof
    fix u assume "u \<in> (\<lambda>k. stem @ decimal k) ` ?K"
    then obtain k where "k \<in> ?K" "u = stem @ decimal k" by blast
    with none have "registered s u \<noteq> None" by (auto simp: not_less less_Suc_eq_le)
    then show "u \<in> ur_handle ` set (registry s)" unfolding registered_def tbl_get_None_iff by blast
  qed
  then have "card ((\<lambda>k. stem @ decimal k) ` ?K) \<le> card (ur_handle ` set (registry s))" by (rule card_mono [rotated]) simp
  also have "\<dots> \<le> length (registry s)" by (metis card_image_le card_length finite_set le_trans)
  finally have "card ?K \<le> length (registry s)"
    by (subst (asm) card_image) (auto intro: inj_onI dest: decimal_inj)
  then show False using assms by simp
qed

lemma generate_ends:
  assumes "draws_in_range rnd" "draws_everything rnd" "length (registry s) < 9 * 10 ^ 7"
  shows "\<exists>u. generate_handle rnd a base s = Some (Inr u) \<and> handle_ok u \<and> registered s u = None"
proof -
  let ?stem = "handle_stem a base"
  obtain k where k: "10 ^ 7 \<le> k" "k \<le> 10 ^ 8 - 1" "registered s (?stem @ decimal k) = None"
    using free_suffix_exists [OF assms(3)] by blast
  obtain n where n: "20 \<le> n" "rnd n (10 ^ 7) (10 ^ 8 - 1) = k"
    using assms(2) k(1,2) unfolding draws_everything_def by blast
  have "suffixed rnd ?stem n = ?stem @ decimal k"
    using n by (simp add: suffixed_def suffix_digits_def generate_suffix_room_def)
  then obtain j where "free_handle rnd (\<lambda>u. registered s u \<noteq> None) ?stem 0 = Some (suffixed rnd ?stem j)"
      "registered s (suffixed rnd ?stem j) = None"
    using free_handle_stops [of 0 n "\<lambda>u. registered s u \<noteq> None" rnd ?stem] k(3) by auto
  moreover have "handle_ok (suffixed rnd ?stem j)" by (rule suffixed_ok [OF assms(1) handle_stem_ok])
  ultimately show ?thesis by (simp add: generate_handle_def validate_self)
qed

end
