(* ===== verification/Username_Machine.thy ===== *)
theory Username_Machine
  imports Username_Laws
begin

text \<open>
  The machine of the namespace: accounts appear, claim, are purged, handles are resolved and cache entries
  expire. \<open>name_inv\<close> is what the registry, the display columns and the cache keep of one another; every
  step keeps it, as long as each method is given an instance that is not stale.
\<close>

definition registered_pairs :: "name_state \<Rightarrow> (identity \<times> string) set" where
  "registered_pairs s = (\<lambda>r. (ur_owner r, ur_handle r)) ` set (registry s)"

definition shown_pairs :: "name_state \<Rightarrow> (identity \<times> string) set" where
  "shown_pairs s = {(a, u). \<exists>r \<in> set (accounts s). na_owner r = a \<and> na_username r = Some u}"

definition cached_pairs :: "name_state \<Rightarrow> (identity \<times> string) set" where
  "cached_pairs s = {(a, u). (ProfileLookup u, a) \<in> set (name_cache s)}"

definition name_inv :: "name_state \<Rightarrow> bool" where
  "name_inv s \<longleftrightarrow> tbl_ok ur_handle (registry s) \<and> tbl_ok ur_owner (registry s) \<and> tbl_ok na_owner (accounts s)
     \<and> registered_pairs s = shown_pairs s \<and> cached_pairs s \<subseteq> registered_pairs s
     \<and> list_all (\<lambda>r. handle_ok (ur_handle r)) (registry s)"

text \<open>The instance a request works on carries the column as it is.\<close>

definition fresh_instance :: "identity \<Rightarrow> string option \<Rightarrow> name_state \<Rightarrow> bool" where
  "fresh_instance a loaded s \<longleftrightarrow> map_option na_username (tbl_get na_owner (accounts s) a) = Some loaded"

inductive name_step :: "name_state \<Rightarrow> name_state \<Rightarrow> bool" where
  Join: "tbl_get na_owner (accounts s) a = None \<Longrightarrow>
     name_step s (s\<lparr>accounts := tbl_insert \<lparr>na_owner = a, na_username = None\<rparr> (accounts s)\<rparr>)"
| Found: "tbl_get na_owner (accounts s) (OrgId oi) = None \<Longrightarrow> handle_ok u \<Longrightarrow> create_named_org oi u s = Inr (v, t) \<Longrightarrow> name_step s t"
| Claim: "fresh_instance a loaded s \<Longrightarrow> claim_username a loaded raw s = Inr (u, t) \<Longrightarrow> name_step s t"
| Purge: "fresh_instance (UserId u) loaded s \<Longrightarrow> name_step s (purge_handle u loaded s)"
| Resolve: "resolve_username raw s = Inr (a, t) \<Longrightarrow> name_step s t"
| Evict: "name_step s (s\<lparr>name_cache := filter keep (name_cache s)\<rparr>)"

section \<open>The tables as sets of pairs\<close>

lemma registered_pair: "(a, u) \<in> registered_pairs s \<longleftrightarrow> (\<exists>r \<in> set (registry s). ur_owner r = a \<and> ur_handle r = u)"
  by (auto simp: registered_pairs_def)

lemma row_unique: "tbl_ok key rows \<Longrightarrow> r \<in> set rows \<Longrightarrow> q \<in> set rows \<Longrightarrow> key r = key q \<Longrightarrow> r = q"
  using inj_onD [of key "set rows" r q] by (simp add: tbl_ok_def distinct_map)

lemma name_invD:
  assumes "name_inv s"
  shows "tbl_ok ur_handle (registry s)" "tbl_ok ur_owner (registry s)" "tbl_ok na_owner (accounts s)"
    "registered_pairs s = shown_pairs s" "cached_pairs s \<subseteq> registered_pairs s"
    "r \<in> set (registry s) \<Longrightarrow> handle_ok (ur_handle r)"
  using assms unfolding name_inv_def list_all_iff by auto

lemma registered_iff:
  assumes "name_inv s"
  shows "registered s u = Some r \<longleftrightarrow> r = \<lparr>ur_handle = u, ur_owner = ur_owner r\<rparr> \<and> (ur_owner r, u) \<in> registered_pairs s"
    (is "_ \<longleftrightarrow> ?eq \<and> _")
proof -
  have "?eq \<longleftrightarrow> ur_handle r = u" by (cases r) auto
  moreover have "r \<in> set (registry s) \<longleftrightarrow> (\<exists>q \<in> set (registry s). ur_owner q = ur_owner r \<and> ur_handle q = u)"
    if u: "ur_handle r = u"
  proof
    assume "\<exists>q \<in> set (registry s). ur_owner q = ur_owner r \<and> ur_handle q = u"
    then obtain q where "q \<in> set (registry s)" "ur_owner q = ur_owner r" "ur_handle q = u" by blast
    moreover have "q = r" by (rule registration.equality) (use \<open>ur_owner q = ur_owner r\<close> \<open>ur_handle q = u\<close> u in simp_all)
    ultimately show "r \<in> set (registry s)" by blast
  qed (use u in blast)
  ultimately show ?thesis
    unfolding registered_def tbl_get_eq_Some [OF name_invD(1) [OF assms]] registered_pair by blast
qed

lemma registered_none: "registered s u = None \<longleftrightarrow> (\<forall>a. (a, u) \<notin> registered_pairs s)"
  unfolding registered_def tbl_get_None_iff registered_pair by blast

lemma one_owner: "name_inv s \<Longrightarrow> (a, u) \<in> registered_pairs s \<Longrightarrow> (b, u) \<in> registered_pairs s \<Longrightarrow> a = b"
  using row_unique [OF name_invD(1)] unfolding registered_pair by metis

lemma one_handle: "name_inv s \<Longrightarrow> (a, u) \<in> registered_pairs s \<Longrightarrow> (a, v) \<in> registered_pairs s \<Longrightarrow> u = v"
  using row_unique [OF name_invD(2)] unfolding registered_pair by metis

lemma pair_valid: "name_inv s \<Longrightarrow> (a, u) \<in> registered_pairs s \<Longrightarrow> handle_ok u"
  using name_invD(6) unfolding registered_pair by blast

lemma fresh_pair:
  assumes "name_inv s" "fresh_instance a loaded s"
  shows "(a, u) \<in> registered_pairs s \<longleftrightarrow> loaded = Some u"
proof -
  note ok = name_invD(3) [OF assms(1)]
  obtain r where "tbl_get na_owner (accounts s) a = Some r" "na_username r = loaded"
    using assms(2) by (auto simp: fresh_instance_def)
  then have r: "r \<in> set (accounts s)" "na_owner r = a" "na_username r = loaded"
    unfolding tbl_get_eq_Some [OF ok] by blast+
  have "q = r" if "q \<in> set (accounts s)" "na_owner q = a" for q
    using row_unique [OF ok that(1) r(1)] that(2) r(2) by simp
  with r show ?thesis unfolding name_invD(4) [OF assms(1)] shown_pairs_def by blast
qed

lemma registration_of_iff:
  assumes "name_inv s"
  shows "map_option ur_handle (registration_of s a) = Some u \<longleftrightarrow> (a, u) \<in> registered_pairs s"
proof -
  have "tbl_get ur_owner (registry s) a = Some r \<longleftrightarrow> r \<in> set (registry s) \<and> ur_owner r = a" for r
    by (rule tbl_get_eq_Some [OF name_invD(2) [OF assms]])
  then show ?thesis unfolding registration_of_def registered_pair map_option_eq_Some by blast
qed

section \<open>What a claim does\<close>

lemma invalidated:
  "cached_pairs (invalidate a us s) = {(b, v). (b, v) \<in> cached_pairs s \<and> v \<notin> set us - {''''}}"
  "registry (invalidate a us s) = registry s" "accounts (invalidate a us s) = accounts s"
proof -
  have "ProfileLookup v \<in> set (cache_keys_for a w) \<longleftrightarrow> v = w \<and> w \<noteq> ''''" for v w
    by (auto simp: cache_keys_for_def split: identity.splits)
  then show "cached_pairs (invalidate a us s) = {(b, v). (b, v) \<in> cached_pairs s \<and> v \<notin> set us - {''''}}"
    by (auto simp: cached_pairs_def invalidate_def)
qed (simp_all add: invalidate_def)

lemma handle_ok_ne: "handle_ok u \<Longrightarrow> u \<noteq> ''''"
  by (auto simp: handle_ok_def)

lemma registered_pairs_cong: "registry t = registry s \<Longrightarrow> registered_pairs t = registered_pairs s"
  by (simp add: registered_pairs_def)

lemma shown_pairs_cong: "accounts t = accounts s \<Longrightarrow> shown_pairs t = shown_pairs s"
  by (simp add: shown_pairs_def)

lemma key_filter_ok: "tbl_ok key rows \<Longrightarrow> tbl_ok key (filter P rows)"
  by (simp add: tbl_ok_def distinct_map_filter)

lemma key_map_ok: "(\<And>r. key (f r) = key r) \<Longrightarrow> tbl_ok key (map f rows) = tbl_ok key rows"
  by (simp add: tbl_ok_def comp_def)

lemma register_done:
  assumes inv: "name_inv s" and free: "\<forall>b. (b, u) \<in> registered_pairs s \<longrightarrow> b = a"
  obtains t where "register_handle a u s = Inr t" "accounts t = accounts s" "name_cache t = name_cache s"
    "registered_pairs t = {(b, v). (b, v) \<in> registered_pairs s \<and> b \<noteq> a} \<union> {(a, u)}"
    "tbl_ok ur_handle (registry t)" "tbl_ok ur_owner (registry t)"
proof (cases "map_option ur_handle (registration_of s a) = Some u")
  case True
  then have "(a, u) \<in> registered_pairs s" using registration_of_iff [OF inv] by simp
  then have "registered_pairs s = {(b, v). (b, v) \<in> registered_pairs s \<and> b \<noteq> a} \<union> {(a, u)}"
    using one_handle [OF inv] by blast
  then show ?thesis using that [of s] True name_invD(1,2) [OF inv] by (simp add: register_handle_def)
next
  case False
  let ?s = "s\<lparr>registry := filter (\<lambda>r. ur_owner r \<noteq> a) (registry s)\<rparr>"
  have p: "registered_pairs ?s = {(b, v). (b, v) \<in> registered_pairs s \<and> b \<noteq> a}"
    by (auto simp: registered_pairs_def)
  then have none: "registered ?s u = None" unfolding registered_none using free by blast
  let ?t = "?s\<lparr>registry := tbl_insert \<lparr>ur_handle = u, ur_owner = a\<rparr> (registry ?s)\<rparr>"
  have "tbl_get ur_owner (registry ?s) a = None" by (auto simp: tbl_get_None_iff)
  moreover have "tbl_get ur_handle (registry ?s) u = None" using none by (simp add: registered_def)
  ultimately have "tbl_ok ur_handle (registry ?t)" "tbl_ok ur_owner (registry ?t)"
    using name_invD(1,2) [OF inv] by (simp_all add: key_filter_ok)
  moreover have "registered_pairs ?t = registered_pairs ?s \<union> {(a, u)}"
    by (auto simp: registered_pairs_def tbl_insert_def)
  moreover have "register_handle a u s = Inr ?t"
    using False none unfolding register_handle_def Let_def by (simp only: if_False if_not_P not_True_eq_False simp_thms)
  ultimately show ?thesis using that [of ?t] p by simp
qed

lemma register_refused:
  assumes inv: "name_inv s" and taken: "(b, u) \<in> registered_pairs s" "b \<noteq> a"
  shows "register_handle a u s = Inl (UsernameTaken u)"
proof -
  let ?s = "s\<lparr>registry := filter (\<lambda>r. ur_owner r \<noteq> a) (registry s)\<rparr>"
  have "(b, u) \<in> registered_pairs ?s" using taken by (auto simp: registered_pairs_def)
  then have "registered ?s u \<noteq> None" unfolding registered_none by blast
  moreover have "map_option ur_handle (registration_of s a) \<noteq> Some u"
    using registration_of_iff [OF inv] one_owner [OF inv] taken by blast
  ultimately show ?thesis by (simp add: register_handle_def Let_def)
qed

lemma shown_update:
  assumes "fresh_instance a loaded s"
    "accounts t = map (\<lambda>r. if na_owner r = a then r\<lparr>na_username := Some u\<rparr> else r) (accounts s)"
  shows "shown_pairs t = {(b, v). (b, v) \<in> shown_pairs s \<and> b \<noteq> a} \<union> {(a, u)}"
proof -
  obtain r where "tbl_get na_owner (accounts s) a = Some r"
    using assms(1) by (auto simp: fresh_instance_def)
  then have r: "r \<in> set (accounts s)" "na_owner r = a" by (auto dest: tbl_get_in tbl_get_key)
  have "(b, v) \<in> shown_pairs t \<longleftrightarrow> (b, v) \<in> shown_pairs s \<and> b \<noteq> a \<or> b = a \<and> v = u" for b v
  proof (cases "b = a")
    case True
    have "r\<lparr>na_username := Some u\<rparr> \<in> set (accounts t)" unfolding assms(2) using r by force
    moreover have "na_owner (r\<lparr>na_username := Some u\<rparr>) = a" "na_username (r\<lparr>na_username := Some u\<rparr>) = Some u"
      using r(2) by simp_all
    ultimately have "(a, u) \<in> shown_pairs t" unfolding shown_pairs_def by blast
    moreover have "v = u" if shown: "(a, v) \<in> shown_pairs t"
    proof -
      obtain q where "q \<in> set (accounts t)" "na_owner q = a" "na_username q = Some v"
        using shown unfolding shown_pairs_def by blast
      then obtain p where p: "q = (if na_owner p = a then p\<lparr>na_username := Some u\<rparr> else p)" "na_owner q = a"
          "na_username q = Some v"
        unfolding assms(2) set_map by blast
      then show ?thesis by (cases "na_owner p = a") simp_all
    qed
    ultimately have "(a, v) \<in> shown_pairs t \<longleftrightarrow> v = u" by blast
    then show ?thesis using True by blast
  next
    case False
    then show ?thesis unfolding shown_pairs_def assms(2) by (auto simp: image_iff)
  qed
  then show ?thesis by auto
qed

lemma display_done:
  assumes inv: "name_inv s" and fresh: "fresh_instance a loaded s"
    and free: "\<forall>b. (b, u) \<in> shown_pairs s \<longrightarrow> b = a" and rows: "accounts q = accounts s"
  obtains t where "write_display a loaded u q = Inr t" "registry t = registry q" "name_cache t = name_cache q"
    "shown_pairs t = {(b, v). (b, v) \<in> shown_pairs s \<and> b \<noteq> a} \<union> {(a, u)}" "tbl_ok na_owner (accounts t)"
proof (cases "loaded = Some u")
  case True
  have "shown_pairs s = {(b, v). (b, v) \<in> shown_pairs s \<and> b \<noteq> a} \<union> {(a, u)}"
  proof -
    have "(a, v) \<in> shown_pairs s \<longleftrightarrow> v = u" for v
      using fresh_pair [OF inv fresh, of v] True unfolding name_invD(4) [OF inv] by blast
    then show ?thesis by blast
  qed
  then show ?thesis
    using that [of q] True name_invD(3) [OF inv] rows shown_pairs_cong [OF rows] by (simp add: write_display_def)
next
  case False
  have clear: "\<not> list_ex (\<lambda>r. na_owner r \<noteq> a \<and> same_table a (na_owner r) \<and> na_username r = Some u) (accounts q)"
    using free unfolding rows shown_pairs_def list_ex_iff by blast
  let ?t = "q\<lparr>accounts := map (\<lambda>r. if na_owner r = a then r\<lparr>na_username := Some u\<rparr> else r) (accounts q)\<rparr>"
  have "write_display a loaded u q = Inr ?t" using clear False by (simp add: write_display_def)
  moreover have "shown_pairs ?t = {(b, v). (b, v) \<in> shown_pairs s \<and> b \<noteq> a} \<union> {(a, u)}"
    by (rule shown_update [OF fresh]) (simp add: rows)
  moreover have "tbl_ok na_owner (accounts ?t)" using name_invD(3) [OF inv] by (simp add: rows key_map_ok)
  ultimately show ?thesis using that [of ?t] by simp
qed

lemma claim_done:
  assumes inv: "name_inv s" and fresh: "fresh_instance a loaded s"
    and valid: "validate_username_format raw = Inr u" and free: "\<forall>b. (b, u) \<in> registered_pairs s \<longrightarrow> b = a"
  obtains t where "claim_username a loaded raw s = Inr (u, t)" "name_inv t"
    "registered_pairs t = {(b, v). (b, v) \<in> registered_pairs s \<and> b \<noteq> a} \<union> {(a, u)}"
proof -
  have ok: "handle_ok u" using valid unfolding validate_ok by blast
  obtain q where q: "register_handle a u s = Inr q" "accounts q = accounts s" "name_cache q = name_cache s"
      "registered_pairs q = {(b, v). (b, v) \<in> registered_pairs s \<and> b \<noteq> a} \<union> {(a, u)}"
      "tbl_ok ur_handle (registry q)" "tbl_ok ur_owner (registry q)"
    using register_done [OF inv free] by blast
  have "\<forall>b. (b, u) \<in> shown_pairs s \<longrightarrow> b = a" using free unfolding name_invD(4) [OF inv] .
  then obtain p where p: "write_display a loaded u q = Inr p" "registry p = registry q" "name_cache p = name_cache q"
      "shown_pairs p = {(b, v). (b, v) \<in> shown_pairs s \<and> b \<noteq> a} \<union> {(a, u)}" "tbl_ok na_owner (accounts p)"
    using display_done [OF inv fresh _ q(2)] by blast
  let ?t = "invalidate a [handle_text loaded, u] p"
  have pairs: "registered_pairs ?t = {(b, v). (b, v) \<in> registered_pairs s \<and> b \<noteq> a} \<union> {(a, u)}"
    using q(4) registered_pairs_cong [of ?t q] by (simp add: invalidated p(2))
  have shown: "shown_pairs ?t = registered_pairs ?t"
    unfolding pairs name_invD(4) [OF inv] using p(4) shown_pairs_cong [of ?t p] by (simp add: invalidated)
  have cached: "(b, v) \<in> cached_pairs s" "v \<noteq> u" "b \<noteq> a" if "(b, v) \<in> cached_pairs ?t" for b v
  proof -
    have v: "(b, v) \<in> cached_pairs p" "v \<notin> {handle_text loaded, u} - {''''}" using that unfolding invalidated by auto
    then show s: "(b, v) \<in> cached_pairs s" using p(3) q(3) by (simp add: cached_pairs_def)
    show "v \<noteq> u" using v(2) handle_ok_ne [OF ok] by auto
    show "b \<noteq> a"
    proof
      assume "b = a"
      then have "(a, v) \<in> registered_pairs s" using s name_invD(5) [OF inv] by blast
      then have "loaded = Some v" "handle_ok v" using fresh_pair [OF inv fresh] pair_valid [OF inv] by blast+
      then show False using v(2) handle_text_ok [of v] handle_ok_ne [of v] by simp
    qed
  qed
  have "handle_ok w" if "(b, w) \<in> registered_pairs ?t" for b w
    using that ok pair_valid [OF inv, of b w] unfolding pairs by blast
  then have "list_all (\<lambda>r. handle_ok (ur_handle r)) (registry ?t)" unfolding registered_pair list_all_iff by blast
  moreover have "cached_pairs ?t \<subseteq> registered_pairs ?t"
    using cached name_invD(5) [OF inv] unfolding pairs by blast
  ultimately have "name_inv ?t"
    using q(5,6) p(2,5) shown unfolding name_inv_def by (simp add: invalidated)
  moreover have "claim_username a loaded raw s = Inr (u, ?t)"
    using valid q(1) p(1) by (simp add: claim_username_def)
  ultimately show ?thesis using that pairs by blast
qed

lemma claim_refused:
  assumes "name_inv s" "validate_username_format raw = Inr u" "(b, u) \<in> registered_pairs s" "b \<noteq> a"
  shows "claim_username a loaded raw s = Inl (UsernameTaken u)"
  using register_refused [OF assms(1,3,4)] assms(2) by (simp add: claim_username_def)

lemma name_claim_cases:
  assumes "name_inv s" "fresh_instance a loaded s" "claim_username a loaded raw s = Inr (u, t)"
  shows "validate_username_format raw = Inr u" "\<forall>b. (b, u) \<in> registered_pairs s \<longrightarrow> b = a" "name_inv t"
    "registered_pairs t = {(b, v). (b, v) \<in> registered_pairs s \<and> b \<noteq> a} \<union> {(a, u)}"
proof -
  obtain w where w: "validate_username_format raw = Inr w"
    using assms(3) by (cases "validate_username_format raw") (auto simp: claim_username_def)
  have free: "\<forall>b. (b, w) \<in> registered_pairs s \<longrightarrow> b = a"
    using claim_refused [OF assms(1) w] assms(3) by fastforce
  obtain q where q: "claim_username a loaded raw s = Inr (w, q)" "name_inv q"
      "registered_pairs q = {(b, v). (b, v) \<in> registered_pairs s \<and> b \<noteq> a} \<union> {(a, w)}"
    using claim_done [OF assms(1,2) w free] by blast
  then have "w = u" "q = t" using assms(3) by simp_all
  with w free q(2,3) show "validate_username_format raw = Inr u" "\<forall>b. (b, u) \<in> registered_pairs s \<longrightarrow> b = a" "name_inv t"
    "registered_pairs t = {(b, v). (b, v) \<in> registered_pairs s \<and> b \<noteq> a} \<union> {(a, u)}" by simp_all
qed

section \<open>The steps\<close>

lemma join_keeps:
  assumes inv: "name_inv s" and new: "tbl_get na_owner (accounts s) a = None"
  shows "name_inv (s\<lparr>accounts := tbl_insert \<lparr>na_owner = a, na_username = None\<rparr> (accounts s)\<rparr>)"
proof -
  let ?t = "s\<lparr>accounts := tbl_insert \<lparr>na_owner = a, na_username = None\<rparr> (accounts s)\<rparr>"
  have "shown_pairs ?t = shown_pairs s" by (auto simp: shown_pairs_def tbl_insert_def)
  moreover have "registered_pairs ?t = registered_pairs s" "cached_pairs ?t = cached_pairs s"
    by (simp_all add: registered_pairs_def cached_pairs_def)
  ultimately show ?thesis using inv new unfolding name_inv_def by auto
qed

text \<open>An organization is created with the handle in its column, which the claim then registers.\<close>

lemma register_other_fields:
  "register_handle a u (s\<lparr>accounts := rows\<rparr>) = map_sum id (\<lambda>t. t\<lparr>accounts := rows\<rparr>) (register_handle a u s)"
  by (auto simp: register_handle_def registration_of_def registered_def Let_def)

lemma found_keeps:
  assumes inv: "name_inv s" and new: "tbl_get na_owner (accounts s) (OrgId oi) = None" and ok: "handle_ok u"
    and created: "create_named_org oi u s = Inr (v, t)"
  shows "name_inv t"
proof -
  let ?a = "OrgId oi" and ?rows = "tbl_insert \<lparr>na_owner = OrgId oi, na_username = Some u\<rparr> (accounts s)"
  have v: "validate_username_format u = Inr u" using ok by (simp add: validate_self)
  have created: "claim_username ?a (Some u) u (s\<lparr>accounts := ?rows\<rparr>) = Inr (v, t)"
    using created by (simp add: create_named_org_def split: if_splits)
  have free: "\<forall>b. (b, u) \<in> registered_pairs s \<longrightarrow> b = ?a"
  proof (intro allI impI, rule ccontr)
    fix b assume "(b, u) \<in> registered_pairs s" "b \<noteq> ?a"
    then have "register_handle ?a u s = Inl (UsernameTaken u)" by (rule register_refused [OF inv])
    then show False using created v by (simp add: claim_username_def register_other_fields)
  qed
  obtain q where q: "register_handle ?a u s = Inr q" "name_cache q = name_cache s" "accounts q = accounts s"
      "registered_pairs q = {(b, v). (b, v) \<in> registered_pairs s \<and> b \<noteq> ?a} \<union> {(?a, u)}"
      "tbl_ok ur_handle (registry q)" "tbl_ok ur_owner (registry q)"
    using register_done [OF inv free] by blast
  have t: "t = invalidate ?a [handle_text (Some u), u] (q\<lparr>accounts := ?rows\<rparr>)"
    using created v q(1) by (auto simp: claim_username_def register_other_fields write_display_def)
  have no_old: "(?a, w) \<notin> registered_pairs s" for w
    using new unfolding name_invD(4) [OF inv] shown_pairs_def tbl_get_None_iff by (auto simp: image_iff)
  have pairs: "registered_pairs t = registered_pairs s \<union> {(?a, u)}"
    using q(4) no_old registered_pairs_cong [of t q] by (auto simp: t invalidated)
  have "shown_pairs t = shown_pairs s \<union> {(?a, u)}"
    by (auto simp: t invalidated shown_pairs_def tbl_insert_def)
  then have "registered_pairs t = shown_pairs t" unfolding pairs name_invD(4) [OF inv] by (rule sym)
  moreover have "cached_pairs t \<subseteq> registered_pairs t"
  proof -
    have "cached_pairs t \<subseteq> cached_pairs s" unfolding t invalidated using q(2) by (auto simp: cached_pairs_def)
    then show ?thesis using name_invD(5) [OF inv] unfolding pairs by blast
  qed
  moreover have "list_all (\<lambda>r. handle_ok (ur_handle r)) (registry t)"
  proof -
    have "handle_ok w" if "(b, w) \<in> registered_pairs t" for b w
      using that ok pair_valid [OF inv, of b w] unfolding pairs by blast
    then show ?thesis unfolding registered_pair list_all_iff by blast
  qed
  moreover have "tbl_ok ur_handle (registry t)" "tbl_ok ur_owner (registry t)" "tbl_ok na_owner (accounts t)"
    using q(5,6) name_invD(3) [OF inv] new by (simp_all add: t invalidated)
  ultimately show ?thesis by (simp add: name_inv_def)
qed

lemma purge_keeps:
  assumes inv: "name_inv s" and fresh: "fresh_instance (UserId i) loaded s"
  shows "name_inv (purge_handle i loaded s)"
proof -
  let ?a = "UserId i" and ?t = "purge_handle i loaded s"
  have parts: "registry ?t = filter (\<lambda>r. ur_owner r \<noteq> ?a) (registry s)"
      "accounts ?t = map (\<lambda>r. if na_owner r = ?a then r\<lparr>na_username := None\<rparr> else r) (accounts s)"
      "cached_pairs ?t = {(b, v). (b, v) \<in> cached_pairs s \<and> v \<notin> {handle_text loaded} - {''''}}"
    by (auto simp: purge_handle_def release_username_def Let_def invalidate_def cached_pairs_def cache_keys_for_def)
  have pairs: "registered_pairs ?t = {(b, v). (b, v) \<in> registered_pairs s \<and> b \<noteq> ?a}"
    unfolding registered_pairs_def parts by auto
  have "shown_pairs ?t = {(b, v). (b, v) \<in> shown_pairs s \<and> b \<noteq> ?a}"
    unfolding shown_pairs_def parts by force
  then have "registered_pairs ?t = shown_pairs ?t" unfolding pairs name_invD(4) [OF inv] by simp
  moreover have "cached_pairs ?t \<subseteq> registered_pairs ?t"
  proof clarify
    fix b v assume c: "(b, v) \<in> cached_pairs ?t"
    then have r: "(b, v) \<in> registered_pairs s" using name_invD(5) [OF inv] unfolding parts by blast
    have "b \<noteq> ?a"
    proof
      assume "b = ?a"
      then have "loaded = Some v" "handle_ok v" using r fresh_pair [OF inv fresh] pair_valid [OF inv] by blast+
      then show False using c handle_text_ok [of v] handle_ok_ne [of v] unfolding parts by simp
    qed
    with r show "(b, v) \<in> registered_pairs ?t" unfolding pairs by blast
  qed
  moreover have "tbl_ok na_owner (accounts ?t)" using name_invD(3) [OF inv] by (simp add: parts key_map_ok)
  ultimately show ?thesis
    using name_invD(1,2,6) [OF inv] by (simp add: name_inv_def parts key_filter_ok list_all_iff)
qed

lemma resolve_shape:
  assumes "resolve_username raw s = Inr (a, t)"
  shows "t = s \<or> (\<exists>r. registered s (py_lower (py_strip raw)) = Some r
      \<and> t = s\<lparr>name_cache := (ProfileLookup (py_lower (py_strip raw)), ur_owner r) # name_cache s\<rparr>)"
  using assms by (auto simp: resolve_username_def Let_def split: if_splits option.splits)

lemma cache_keeps:
  assumes "name_inv s" "cached_pairs (s\<lparr>name_cache := c\<rparr>) \<subseteq> registered_pairs s"
  shows "name_inv (s\<lparr>name_cache := c\<rparr>)"
  using assms registered_pairs_cong [of "s\<lparr>name_cache := c\<rparr>" s] shown_pairs_cong [of "s\<lparr>name_cache := c\<rparr>" s]
  by (simp add: name_inv_def)

lemma name_inv_step: "name_step s t \<Longrightarrow> name_inv s \<Longrightarrow> name_inv t"
proof (induction rule: name_step.induct)
  case (Resolve raw s a t)
  let ?u = "py_lower (py_strip raw)"
  have "name_inv (s\<lparr>name_cache := (ProfileLookup ?u, ur_owner r) # name_cache s\<rparr>)" if "registered s ?u = Some r" for r
  proof (rule cache_keeps [OF Resolve.prems])
    have "(ur_owner r, ?u) \<in> registered_pairs s" using registered_iff [OF Resolve.prems] that by blast
    then show "cached_pairs (s\<lparr>name_cache := (ProfileLookup ?u, ur_owner r) # name_cache s\<rparr>) \<subseteq> registered_pairs s"
      using name_invD(5) [OF Resolve.prems] by (auto simp: cached_pairs_def)
  qed
  then show ?case using resolve_shape [OF Resolve.hyps] Resolve.prems by blast
next
  case (Evict s keep)
  show ?case by (rule cache_keeps [OF Evict.prems]) (use name_invD(5) [OF Evict.prems] in \<open>auto simp: cached_pairs_def\<close>)
qed (blast intro: join_keeps found_keeps purge_keeps name_claim_cases(3))+

definition name_start :: "name_state \<Rightarrow> bool" where
  "name_start s \<longleftrightarrow> s = \<lparr>registry = [], accounts = [], name_cache = []\<rparr>"

lemma name_start_inv: "name_start s \<Longrightarrow> name_inv s"
  by (simp add: name_start_def name_inv_def registered_pairs_def shown_pairs_def cached_pairs_def tbl_ok_def)

interpretation namespace: safe_machine name_start name_step name_inv
  by unfold_locales (blast intro: name_start_inv name_inv_step)+

end
