(* ===== verification/Username_Properties.thy ===== *)
theory Username_Properties
  imports Username_Machine
begin

text \<open>
  The properties of handles: the shared namespace, the transparent cache, the end of the generator's loop, what
  "available" promises, and the rename over a stale instance.
\<close>

section \<open>The namespace\<close>

definition keeps_names :: "name_state \<Rightarrow> bool" where
  "keeps_names t \<longleftrightarrow>
     (\<forall>r \<in> set (registry t). \<forall>q \<in> set (registry t). ur_handle r = ur_handle q \<or> ur_owner r = ur_owner q \<longrightarrow> r = q)
     \<and> (\<forall>r \<in> set (accounts t). \<forall>u. na_username r = Some u \<longrightarrow>
          validate_username_format u = Inr u \<and> map_option ur_owner (registered t u) = Some (na_owner r))
     \<and> (\<forall>u a. (ProfileLookup u, a) \<in> set (name_cache t) \<longrightarrow> map_option ur_owner (registered t u) = Some a)"

lemma registered_owner:
  "name_inv s \<Longrightarrow> map_option ur_owner (registered s u) = Some a \<longleftrightarrow> (a, u) \<in> registered_pairs s"
proof
  assume "name_inv s" "(a, u) \<in> registered_pairs s"
  then have "registered s u = Some \<lparr>ur_handle = u, ur_owner = a\<rparr>" by (simp add: registered_iff)
  then show "map_option ur_owner (registered s u) = Some a" by simp
qed (auto simp: registered_iff)

lemma inv_keeps_names: "name_inv t \<Longrightarrow> keeps_names t"
proof -
  assume inv: "name_inv t"
  have "(na_owner r, u) \<in> registered_pairs t" if "r \<in> set (accounts t)" "na_username r = Some u" for r u
    using that unfolding name_invD(4) [OF inv] shown_pairs_def by blast
  moreover have "(a, u) \<in> registered_pairs t" if "(ProfileLookup u, a) \<in> set (name_cache t)" for u a
    using that name_invD(5) [OF inv] unfolding cached_pairs_def by blast
  moreover have "r = q" if "r \<in> set (registry t)" "q \<in> set (registry t)" "ur_handle r = ur_handle q \<or> ur_owner r = ur_owner q" for r q
    using that row_unique [OF name_invD(1) [OF inv]] row_unique [OF name_invD(2) [OF inv]] by blast
  ultimately show ?thesis
    unfolding keeps_names_def registered_owner [OF inv] validate_self using pair_valid [OF inv] by blast
qed

text \<open>
  Property C16. However accounts appear, claim, rename, are purged, are looked up and fall out of the cache:
  a handle has one owner over users and organizations together, an account one handle, every displayed handle
  is a valid one registered to the account that shows it, and a cached handle leads to its owner.
\<close>

theorem handle_namespace:
  assumes "name_start s" "name_step\<^sup>*\<^sup>* s t"
  shows "keeps_names t"
  by (rule inv_keeps_names [OF namespace.inv_reachable [OF assms]])

section \<open>The cache\<close>

text \<open>
  Property C28. The cache of resolve is never seen: in every reachable state resolve answers what the registry
  holds for the handle, whoever renamed, released or claimed it before.
\<close>

theorem resolve_is_the_registry:
  assumes "name_start s" "name_step\<^sup>*\<^sup>* s t" "raw \<noteq> ''''"
  shows "map_sum id fst (resolve_username raw t) =
    (case registered t (py_lower (py_strip raw)) of
       None \<Rightarrow> Inl (ValueError ''Profile not found'') | Some r \<Rightarrow> Inr (ur_owner r))"
proof -
  have inv: "name_inv t" by (rule namespace.inv_reachable [OF assms(1,2)])
  let ?u = "py_lower (py_strip raw)"
  show ?thesis
  proof (cases "map_of (name_cache t) (ProfileLookup ?u)")
    case None
    then show ?thesis using assms(3) by (simp add: resolve_username_def Let_def split: option.split)
  next
    case (Some a)
    then have "(a, ?u) \<in> registered_pairs t"
      using name_invD(5) [OF inv] map_of_SomeD by (fastforce simp: cached_pairs_def)
    then have "map_option ur_owner (registered t ?u) = Some a" by (simp only: registered_owner [OF inv])
    then obtain r where "registered t ?u = Some r" "ur_owner r = a" by blast
    then show ?thesis using assms(3) Some by (simp add: resolve_username_def Let_def)
  qed
qed

section \<open>Generated handles\<close>

text \<open>
  Property C17. generate() comes back. With draws that stay between their bounds and reach every number at some
  time, and fewer than ninety million handles in the registry, the loop ends on a handle that is valid (the
  assertion behind it never trips) and that nobody holds.
\<close>

theorem generated_handle_terminates:
  assumes "draws_in_range rnd" "draws_everything rnd" "length (registry s) < 9 * 10 ^ 7"
  shows "\<exists>u. generate_handle rnd a base s = Some (Inr u) \<and> is_available u None s = Inr True"
proof -
  obtain u where "generate_handle rnd a base s = Some (Inr u)" "handle_ok u" "registered s u = None"
    using generate_ends [OF assms] by blast
  then show ?thesis using validate_self [of u] by (simp add: is_available_def)
qed

section \<open>Availability\<close>

text \<open>
  Property C29. "Available" is what a claim finds out: in every reachable state, and for an account whose loaded
  row is up to date, the availability check says yes to exactly the handles its claim then takes, and errs on
  exactly the malformed ones.
\<close>

theorem available_is_claimable:
  assumes "name_start s" "name_step\<^sup>*\<^sup>* s t" "fresh_instance a loaded t"
  shows "is_available raw (Some a) t = map_sum id (\<lambda>_. True) (claim_username a loaded raw t)
    \<or> is_available raw (Some a) t = Inr False
      \<and> claim_username a loaded raw t = Inl (UsernameTaken (py_lower (py_strip raw)))"
proof -
  have inv: "name_inv t" by (rule namespace.inv_reachable [OF assms(1,2)])
  show ?thesis
  proof (cases "validate_username_format raw")
    case (Inl e)
    then show ?thesis by (simp add: is_available_def claim_username_def)
  next
    case (Inr u)
    show ?thesis
    proof (cases "\<forall>b. (b, u) \<in> registered_pairs t \<longrightarrow> b = a")
      case True
      obtain q where "claim_username a loaded raw t = Inr (u, q)"
        using claim_done [OF inv assms(3) Inr True] by blast
      moreover have "is_available raw (Some a) t = Inr True"
      proof (cases "registered t u")
        case (Some r)
        then have "(ur_owner r, u) \<in> registered_pairs t" using registered_iff [OF inv] by blast
        with True Some Inr show ?thesis by (simp add: is_available_def)
      qed (simp add: is_available_def Inr)
      ultimately show ?thesis by simp
    next
      case False
      then obtain b where b: "(b, u) \<in> registered_pairs t" "b \<noteq> a" by blast
      have "registered t u = Some \<lparr>ur_handle = u, ur_owner = b\<rparr>" using b(1) registered_iff [OF inv] by simp
      then have "is_available raw (Some a) t = Inr False" using b(2) Inr by (simp add: is_available_def)
      moreover have "u = py_lower (py_strip raw)" using Inr unfolding validate_ok by blast
      ultimately show ?thesis using claim_refused [OF inv Inr b] by simp
    qed
  qed
qed

section \<open>A rename over a stale instance\<close>

lemma register_free:
  assumes "registered s v = None"
  shows "register_handle b v s =
    Inr (s\<lparr>registry := tbl_insert \<lparr>ur_handle = v, ur_owner = b\<rparr> (filter (\<lambda>r. ur_owner r \<noteq> b) (registry s))\<rparr>)"
proof -
  have none: "v \<notin> ur_handle ` set (registry s)" using assms by (simp add: registered_def tbl_get_None_iff)
  have "registered (s\<lparr>registry := filter (\<lambda>r. ur_owner r \<noteq> b) (registry s)\<rparr>) v = None"
    using none by (auto simp: registered_def tbl_get_None_iff)
  moreover have "map_option ur_handle (registration_of s b) \<noteq> Some v"
    using none by (auto simp: registration_of_def dest!: tbl_get_in)
  ultimately show ?thesis unfolding register_handle_def Let_def by auto
qed

definition drifted :: "identity \<Rightarrow> string \<Rightarrow> string \<Rightarrow> name_state \<Rightarrow> bool" where
  "drifted a u v q \<longleftrightarrow> map_option ur_owner (registered q u) = Some a \<and> fresh_instance a (Some v) q
     \<and> (\<forall>b loaded. b \<noteq> a \<longrightarrow> same_table b a \<longrightarrow> loaded \<noteq> Some v \<longrightarrow>
          is_available v (Some b) q = Inr True \<and> claim_username b loaded v q = Inl IntegrityError)"

text \<open>
  Property C30. A save that re-sends the handle it loaded, committed after a rename, splits the two tables: the
  registry goes back to the old handle, the column keeps the new one. The new handle then tests as available to
  every other account of that kind, and taking it fails on the column's constraint, which is not the answer
  "taken".
\<close>

theorem stale_rename_drifts:
  assumes "name_start s0" "name_step\<^sup>*\<^sup>* s0 s" "fresh_instance a (Some u) s" "u \<noteq> v"
    "claim_username a (Some u) v s = Inr (v, t)"
  shows "\<exists>q. claim_username a (Some u) u t = Inr (u, q) \<and> drifted a u v q"
proof -
  have inv: "name_inv s" by (rule namespace.inv_reachable [OF assms(1,2)])
  note t = name_claim_cases [OF inv assms(3,5)]
  have u: "(a, u) \<in> registered_pairs s" using fresh_pair [OF inv assms(3)] by blast
  then have ok: "validate_username_format u = Inr u" using pair_valid [OF inv] validate_self by blast
  have free: "\<forall>b. (b, u) \<in> registered_pairs t \<longrightarrow> b = a" using one_owner [OF inv u] t(4) assms(4) by blast
  obtain p where p: "register_handle a u t = Inr p" "accounts p = accounts t" "name_cache p = name_cache t"
      "registered_pairs p = {(b, w). (b, w) \<in> registered_pairs t \<and> b \<noteq> a} \<union> {(a, u)}"
      "tbl_ok ur_handle (registry p)" "tbl_ok ur_owner (registry p)"
    using register_done [OF t(3) free] by blast
  let ?q = "invalidate a [handle_text (Some u), u] p"
  have pairs: "registered_pairs ?q = {(b, w). (b, w) \<in> registered_pairs t \<and> b \<noteq> a} \<union> {(a, u)}"
    using p(4) registered_pairs_cong [of ?q p] by (simp add: invalidated)
  have v_free: "registered ?q v = None"
    unfolding registered_none pairs using one_owner [OF t(3), of a v] t(4) assms(4) by blast
  have "(a, v) \<in> shown_pairs ?q"
    using t(4) shown_pairs_cong [of ?q t] unfolding name_invD(4) [OF t(3)] by (simp add: invalidated p(2))
  then obtain r where r: "r \<in> set (accounts ?q)" "na_owner r = a" "na_username r = Some v"
    unfolding shown_pairs_def by blast
  have v: "validate_username_format v = Inr v" using t(1) validate_ok validate_self by blast
  have "claim_username b loaded v ?q = Inl IntegrityError" if "b \<noteq> a" "same_table b a" "loaded \<noteq> Some v" for b loaded
  proof -
    have "list_ex (\<lambda>r. na_owner r \<noteq> b \<and> same_table b (na_owner r) \<and> na_username r = Some v) (accounts ?q)"
      using r that unfolding list_ex_iff by auto
    then show ?thesis using that(3) v by (simp add: claim_username_def register_free [OF v_free] write_display_def)
  qed
  moreover have "is_available v (Some b) ?q = Inr True" for b using v v_free by (simp add: is_available_def)
  moreover have "fresh_instance a (Some v) ?q"
  proof -
    have "tbl_ok na_owner (accounts ?q)" using name_invD(3) [OF t(3)] by (simp add: invalidated p(2))
    then have "tbl_get na_owner (accounts ?q) a = Some r" using r(1,2) by (simp add: tbl_get_eq_Some)
    then show ?thesis using r(3) by (simp add: fresh_instance_def)
  qed
  moreover have "map_option ur_owner (registered ?q u) = Some a"
  proof -
    have "(a, u) \<in> registered_pairs ?q" unfolding pairs by blast
    then obtain k where "k \<in> set (registry ?q)" "ur_owner k = a" "ur_handle k = u" unfolding registered_pair by blast
    moreover have "tbl_ok ur_handle (registry ?q)" using p(5) by (simp add: invalidated)
    ultimately have "registered ?q u = Some k" by (simp add: registered_def tbl_get_eq_Some)
    then show ?thesis using \<open>ur_owner k = a\<close> by simp
  qed
  moreover have "claim_username a (Some u) u t = Inr (u, ?q)"
    using ok p(1) by (simp add: claim_username_def write_display_def)
  ultimately show ?thesis unfolding drifted_def by blast
qed

section \<open>Witnesses\<close>

definition names0 :: name_state where
  "names0 = \<lparr>registry = [], accounts = [], name_cache = []\<rparr>"

definition names1 :: name_state where
  "names1 = \<lparr>registry = [], accounts = [\<lparr>na_owner = UserId 1, na_username = None\<rparr>], name_cache = []\<rparr>"

definition names2 :: name_state where
  "names2 = \<lparr>registry = [\<lparr>ur_handle = ''asha07'', ur_owner = UserId 1\<rparr>],
     accounts = [\<lparr>na_owner = UserId 1, na_username = Some ''asha07''\<rparr>], name_cache = []\<rparr>"

definition names3 :: name_state where
  "names3 = names2\<lparr>name_cache := [(ProfileLookup ''asha07'', UserId 1)]\<rparr>"

lemma names_steps: "name_step names0 names1" "name_step names1 names2" "name_step names2 names3"
proof -
  have "name_step names0 (names0\<lparr>accounts := tbl_insert \<lparr>na_owner = UserId 1, na_username = None\<rparr> (accounts names0)\<rparr>)"
    by (rule Join) (simp add: names0_def tbl_get_def)
  then show "name_step names0 names1" by (simp add: names0_def names1_def tbl_insert_def)
  have "fresh_instance (UserId 1) None names1" by (simp add: fresh_instance_def names1_def tbl_get_def)
  moreover have "claim_username (UserId 1) None ''Asha07'' names1 = Inr (''asha07'', names2)" by code_simp
  ultimately show "name_step names1 names2" by (rule Claim)
  have "resolve_username ''Asha07'' names2 = Inr (UserId 1, names3)" by code_simp
  then show "name_step names2 names3" by (rule Resolve)
qed

lemma names_run: "name_step\<^sup>*\<^sup>* names0 names3"
  using names_steps by (meson converse_rtranclp_into_rtranclp rtranclp.rtrancl_refl)

lemma names_start: "name_start names0"
  by (simp add: name_start_def names0_def)

lemma names_fresh: "fresh_instance (UserId 1) (Some ''asha07'') names3"
  by (simp add: fresh_instance_def names3_def names2_def tbl_get_def)

theorem handle_namespace_witness: "keeps_names names3"
  by (rule handle_namespace [OF names_start names_run])

theorem resolve_is_the_registry_witness:
  "map_sum id fst (resolve_username ''ASHA07'' names3) = Inr (UserId 1) \<and> name_cache names3 \<noteq> []"
proof -
  have "registered names3 (py_lower (py_strip ''ASHA07'')) = Some \<lparr>ur_handle = ''asha07'', ur_owner = UserId 1\<rparr>"
    by code_simp
  then show ?thesis
    using resolve_is_the_registry [OF names_start names_run, of "''ASHA07''"] by (simp add: names3_def)
qed

theorem available_is_claimable_witness:
  "is_available ''asha_07'' (Some (UserId 1)) names3
      = map_sum id (\<lambda>_. True) (claim_username (UserId 1) (Some ''asha07'') ''asha_07'' names3)
    \<or> is_available ''asha_07'' (Some (UserId 1)) names3 = Inr False
      \<and> claim_username (UserId 1) (Some ''asha07'') ''asha_07'' names3
        = Inl (UsernameTaken (py_lower (py_strip ''asha_07'')))"
  by (rule available_is_claimable [OF names_start names_run names_fresh])

definition sweeping_draws :: draws where
  "sweeping_draws n lo hi = lo + n mod (hi + 1 - lo)"

theorem generated_handle_terminates_witness:
  "\<exists>u. generate_handle sweeping_draws (OrgId 4) ''Green Valley'' names3 = Some (Inr u)
     \<and> is_available u None names3 = Inr True"
proof (rule generated_handle_terminates)
  show "draws_in_range sweeping_draws"
    unfolding draws_in_range_def
  proof (intro allI impI)
    fix n lo hi :: nat assume "lo \<le> hi"
    then have "n mod (hi + 1 - lo) < hi + 1 - lo" by simp
    then show "lo \<le> sweeping_draws n lo hi \<and> sweeping_draws n lo hi \<le> hi"
      unfolding sweeping_draws_def by linarith
  qed
  show "draws_everything sweeping_draws"
    unfolding draws_everything_def
  proof (intro allI impI)
    fix lo hi k m :: nat assume k: "lo \<le> k" "k \<le> hi"
    define d where "d = hi + 1 - lo"
    have d: "k - lo < d" "0 < d" using k by (simp_all add: d_def)
    have "sweeping_draws ((k - lo) + m * d) lo hi = lo + ((k - lo) + m * d) mod d"
      by (simp only: sweeping_draws_def d_def)
    also have "\<dots> = k" using d k by (simp only: mod_mult_self1 mod_less le_add_diff_inverse)
    finally have "sweeping_draws ((k - lo) + m * d) lo hi = k" .
    moreover have "m \<le> m * d" using d(2) by (cases d) auto
    then have "m \<le> (k - lo) + m * d" by (rule trans_le_add2)
    ultimately show "\<exists>n\<ge>m. sweeping_draws n lo hi = k" by blast
  qed
  show "length (registry names3) < 9 * 10 ^ 7" by (simp add: names3_def names2_def)
qed

theorem stale_rename_drifts_witness:
  "\<exists>t q. claim_username (UserId 1) (Some ''asha07'') ''asha_fc'' names3 = Inr (''asha_fc'', t)
     \<and> claim_username (UserId 1) (Some ''asha07'') ''asha07'' t = Inr (''asha07'', q)
     \<and> drifted (UserId 1) ''asha07'' ''asha_fc'' q"
proof -
  have "list_all (\<lambda>r. fst r = ''asha_fc'') (case claim_username (UserId 1) (Some ''asha07'') ''asha_fc'' names3 of
      Inl e \<Rightarrow> [] | Inr r \<Rightarrow> [r])"
    "\<not> isl (claim_username (UserId 1) (Some ''asha07'') ''asha_fc'' names3)" by code_simp+
  then obtain t where t: "claim_username (UserId 1) (Some ''asha07'') ''asha_fc'' names3 = Inr (''asha_fc'', t)"
    by (cases "claim_username (UserId 1) (Some ''asha07'') ''asha_fc'' names3") auto
  show ?thesis using stale_rename_drifts [OF names_start names_run names_fresh _ t] t by auto
qed

end
