(* ===== verification/Reports.thy ===== *)
theory Reports
  imports Social_Graph
begin

text \<open>
  Reports and what moderators do with them: \<open>apps/moderation/services/report_services.py\<close>, the report rows of
  \<open>apps/moderation/models.py\<close>, the request of \<open>report_serializers.py\<close> and the batch actions of
  \<open>apps/moderation/admin.py\<close>, with the takedowns of posts, comments, messages and recruitments they call.

  The objects a method works on were loaded before it runs: a report and, with it, its target and the target's
  author (\<open>list_select_related\<close>). They are arguments (\<open>held\<close>), beside the rows as they are now. A save with
  \<open>update_fields\<close> writes those fields of the row and fails when the row is gone or a constraint is broken.
  Ids print in decimal; \<open>isoformat\<close> is a parameter.
\<close>

section \<open>Vocabulary\<close>

datatype report_category =
  Spam | Harassment | HateSpeech | NuditySexual | Violence | ScamFraud | ImpersonationFake | MinorSafety | SelfHarm
  | OtherCategory

definition category_value :: "report_category \<Rightarrow> string" where
  "category_value c = (case c of Spam \<Rightarrow> ''spam'' | Harassment \<Rightarrow> ''harassment'' | HateSpeech \<Rightarrow> ''hate_speech''
     | NuditySexual \<Rightarrow> ''nudity_sexual'' | Violence \<Rightarrow> ''violence'' | ScamFraud \<Rightarrow> ''scam_fraud''
     | ImpersonationFake \<Rightarrow> ''impersonation_fake'' | MinorSafety \<Rightarrow> ''minor_safety'' | SelfHarm \<Rightarrow> ''self_harm''
     | OtherCategory \<Rightarrow> ''other'')"

definition category_label :: "report_category \<Rightarrow> string" where
  "category_label c = (case c of Spam \<Rightarrow> ''Spam'' | Harassment \<Rightarrow> ''Harassment'' | HateSpeech \<Rightarrow> ''Hate Speech''
     | NuditySexual \<Rightarrow> ''Nudity / Sexual Content'' | Violence \<Rightarrow> ''Violence'' | ScamFraud \<Rightarrow> ''Scam / Fraud''
     | ImpersonationFake \<Rightarrow> ''Impersonation / Fake Account'' | MinorSafety \<Rightarrow> ''Minor Safety''
     | SelfHarm \<Rightarrow> ''Self Harm'' | OtherCategory \<Rightarrow> ''Other'')"

definition all_categories :: "report_category list" where
  "all_categories = [Spam, Harassment, HateSpeech, NuditySexual, Violence, ScamFraud, ImpersonationFake, MinorSafety,
     SelfHarm, OtherCategory]"

datatype report_status = Pending | Reviewing | ActionTaken | Dismissed

datatype report_action = NoAction | ContentRemoved | WarningSent | AccountSuspended

definition open_report_statuses :: "report_status list" where "open_report_statuses = [Pending, Reviewing]"

definition severe_categories :: "report_category list" where "severe_categories = [MinorSafety, SelfHarm, Violence]"

definition priority_reporter_threshold :: nat where "priority_reporter_threshold = 3"
definition max_details_length :: nat where "max_details_length = 2000"

definition target_not_found :: error where "target_not_found = NotFoundError ''Not found''"

text \<open>Which of the six target columns is set, and to what.\<close>

datatype target =
  TUser uid | TOrg oid | TPost nat | TComment nat | TMessage nat | TRecruitment nat

datatype json = JNull | JText string | JList "json list" | JObject "(string \<times> json) list"

section \<open>Rows\<close>

record person_profile =
  pp_name :: string
  pp_about :: string
  pp_photo :: string

record mod_user =
  mu_id :: uid
  mu_username :: "string option"
  mu_profile :: "person_profile option"
  mu_role :: string
  mu_created :: instant
  mu_active :: bool
  mu_staff :: bool
  mu_superuser :: bool

record club_profile =
  cp_description :: string
  cp_logo :: string

record mod_org =
  mo_id :: oid
  mo_username :: string
  mo_name :: string
  mo_profile :: "club_profile option"
  mo_type :: string
  mo_suspended :: bool

record shown_media =
  sm_url :: string
  sm_type :: string
  sm_thumbnail :: "string option"

record mod_post =
  mpo_id :: nat
  mpo_author :: identity
  mpo_content :: string
  mpo_media :: "shown_media list"
  mpo_visibility :: string
  mpo_comments :: nat
  mpo_deleted :: bool
  mpo_created :: instant

record mod_comment =
  mcm_id :: nat
  mcm_author :: identity
  mcm_text :: string
  mcm_post :: nat
  mcm_parent :: "nat option"
  mcm_replies :: nat
  mcm_deleted :: bool
  mcm_created :: instant

record mod_message =
  mms_id :: nat
  mms_sender :: identity
  mms_content :: string
  mms_media :: string
  mms_type :: string
  mms_thread :: nat
  mms_deleted :: bool
  mms_created :: instant

record mod_recruitment =
  mr_id :: nat
  mr_org :: oid
  mr_title :: string
  mr_short :: string
  mr_description :: string
  mr_status :: string
  mr_deleted :: bool
  mr_deleted_at :: "instant option"
  mr_created :: instant

record thread =
  th_id :: nat
  th_last :: "nat option"
  th_last_at :: "instant option"

record report =
  rp_id :: nat
  rp_reporter :: identity
  rp_target :: "target option"
  rp_category :: report_category
  rp_details :: string
  rp_snapshot :: json
  rp_status :: report_status
  rp_priority :: bool
  rp_reviewed_by :: "uid option"
  rp_reviewed_at :: "instant option"
  rp_note :: string
  rp_action :: report_action

text \<open>What leaves the database: a mail (subject, body, recipient), a warning, a message event.\<close>

datatype mod_effect =
  Mail string string string
| Warning identity "target option"
| MessageGone nat nat

record mod_state =
  m_users :: "mod_user list"
  m_orgs :: "mod_org list"
  m_posts :: "mod_post list"
  m_comments :: "mod_comment list"
  m_messages :: "mod_message list"
  m_recruitments :: "mod_recruitment list"
  m_threads :: "thread list"
  m_participants :: "(nat \<times> identity) list"
  outstanding_tokens :: "(nat \<times> uid) list"
  blacklisted_tokens :: "nat list"
  reports :: "report list"
  next_report :: nat
  m_effects :: "mod_effect list"

definition mod_emit :: "mod_effect \<Rightarrow> mod_state \<Rightarrow> mod_state" where
  "mod_emit e s = s\<lparr>m_effects := m_effects s @ [e]\<rparr>"

definition report_open :: "report \<Rightarrow> bool" where
  "report_open r \<longleftrightarrow> rp_status r \<in> set open_report_statuses"

section \<open>Loading a target with its author\<close>

datatype target_row =
  UserRow mod_user | OrgRow mod_org | PostRow mod_post | CommentRow mod_comment | MessageRow mod_message
  | RecruitmentRow mod_recruitment

record held =
  h_row :: target_row
  h_user :: "mod_user option"
  h_org :: "mod_org option"

definition target_row_of :: "mod_state \<Rightarrow> target \<Rightarrow> target_row option" where
  "target_row_of s t = (case t of
       TUser u \<Rightarrow> map_option UserRow (tbl_get mu_id (m_users s) u)
     | TOrg oi \<Rightarrow> map_option OrgRow (tbl_get mo_id (m_orgs s) oi)
     | TPost p \<Rightarrow> map_option PostRow (tbl_get mpo_id (m_posts s) p)
     | TComment c \<Rightarrow> map_option CommentRow (tbl_get mcm_id (m_comments s) c)
     | TMessage m \<Rightarrow> map_option MessageRow (tbl_get mms_id (m_messages s) m)
     | TRecruitment r \<Rightarrow> map_option RecruitmentRow (tbl_get mr_id (m_recruitments s) r))"

fun target_of :: "target_row \<Rightarrow> target" where
  "target_of (UserRow u) = TUser (mu_id u)"
| "target_of (OrgRow x) = TOrg (mo_id x)"
| "target_of (PostRow p) = TPost (mpo_id p)"
| "target_of (CommentRow c) = TComment (mcm_id c)"
| "target_of (MessageRow m) = TMessage (mms_id m)"
| "target_of (RecruitmentRow r) = TRecruitment (mr_id r)"

fun author_of :: "target_row \<Rightarrow> identity" where
  "author_of (UserRow u) = UserId (mu_id u)"
| "author_of (OrgRow x) = OrgId (mo_id x)"
| "author_of (PostRow p) = mpo_author p"
| "author_of (CommentRow c) = mcm_author c"
| "author_of (MessageRow m) = mms_sender m"
| "author_of (RecruitmentRow r) = OrgId (mr_org r)"

definition load_target :: "mod_state \<Rightarrow> target \<Rightarrow> held option" where
  "load_target s t = map_option (\<lambda>row.
     \<lparr>h_row = row,
      h_user = (case author_of row of UserId u \<Rightarrow> tbl_get mu_id (m_users s) u | OrgId _ \<Rightarrow> None),
      h_org = (case author_of row of UserId _ \<Rightarrow> None | OrgId oi \<Rightarrow> tbl_get mo_id (m_orgs s) oi)\<rparr>)
     (target_row_of s t)"

section \<open>The snapshot\<close>

definition json_author :: "mod_user option \<Rightarrow> mod_org option \<Rightarrow> json" where
  "json_author u x = (case u of
       Some u \<Rightarrow> JObject [(''type'', JText ''user''), (''id'', JText (decimal (mu_id u))),
         (''username'', JText (case mu_username u of None \<Rightarrow> '''' | Some n \<Rightarrow> n)),
         (''name'', JText (case mu_profile u of None \<Rightarrow> '''' | Some p \<Rightarrow> pp_name p))]
     | None \<Rightarrow> (case x of
         Some x \<Rightarrow> JObject [(''type'', JText ''organization''), (''id'', JText (decimal (mo_id x))),
           (''username'', JText (mo_username x)), (''name'', JText (mo_name x))]
       | None \<Rightarrow> JNull))"

definition snapshot_user :: "(instant \<Rightarrow> string) \<Rightarrow> mod_user \<Rightarrow> json" where
  "snapshot_user isoformat u = JObject
     [(''type'', JText ''user''), (''id'', JText (decimal (mu_id u))),
      (''username'', JText (case mu_username u of None \<Rightarrow> '''' | Some n \<Rightarrow> n)),
      (''name'', JText (case mu_profile u of None \<Rightarrow> '''' | Some p \<Rightarrow> pp_name p)),
      (''bio'', JText (case mu_profile u of None \<Rightarrow> '''' | Some p \<Rightarrow> pp_about p)),
      (''avatar_url'', JText (case mu_profile u of None \<Rightarrow> '''' | Some p \<Rightarrow> pp_photo p)),
      (''role'', JText (mu_role u)), (''created_at'', JText (isoformat (mu_created u)))]"

definition snapshot_org :: "mod_org \<Rightarrow> json" where
  "snapshot_org x = JObject
     [(''type'', JText ''organization''), (''id'', JText (decimal (mo_id x))), (''username'', JText (mo_username x)),
      (''name'', JText (mo_name x)),
      (''bio'', JText (case mo_profile x of None \<Rightarrow> '''' | Some p \<Rightarrow> cp_description p)),
      (''avatar_url'', JText (case mo_profile x of None \<Rightarrow> '''' | Some p \<Rightarrow> cp_logo p)),
      (''org_type'', JText (mo_type x))]"

definition snapshot_post :: "(instant \<Rightarrow> string) \<Rightarrow> mod_post \<Rightarrow> json \<Rightarrow> json" where
  "snapshot_post isoformat p author = JObject
     [(''type'', JText ''post''), (''id'', JText (decimal (mpo_id p))), (''content'', JText (mpo_content p)),
      (''media'', JList (map (\<lambda>m. JObject [(''url'', JText (sm_url m)), (''media_type'', JText (sm_type m)),
         (''thumbnail_url'', JText (case sm_thumbnail m of None \<Rightarrow> '''' | Some t \<Rightarrow> t))]) (mpo_media p))),
      (''author'', author), (''visibility'', JText (mpo_visibility p)),
      (''created_at'', JText (isoformat (mpo_created p)))]"

definition snapshot_comment :: "(instant \<Rightarrow> string) \<Rightarrow> mod_comment \<Rightarrow> json \<Rightarrow> json" where
  "snapshot_comment isoformat c author = JObject
     [(''type'', JText ''comment''), (''id'', JText (decimal (mcm_id c))), (''text'', JText (mcm_text c)),
      (''author'', author), (''post_id'', JText (decimal (mcm_post c))),
      (''parent_comment_id'', case mcm_parent c of None \<Rightarrow> JNull | Some p \<Rightarrow> JText (decimal p)),
      (''created_at'', JText (isoformat (mcm_created c)))]"

definition snapshot_message :: "(instant \<Rightarrow> string) \<Rightarrow> mod_message \<Rightarrow> json \<Rightarrow> json" where
  "snapshot_message isoformat m sender = JObject
     [(''type'', JText ''message''), (''id'', JText (decimal (mms_id m))), (''text'', JText (mms_content m)),
      (''media_url'', JText (mms_media m)), (''message_type'', JText (mms_type m)), (''sender'', sender),
      (''conversation_id'', JText (decimal (mms_thread m))), (''created_at'', JText (isoformat (mms_created m)))]"

definition snapshot_recruitment :: "(instant \<Rightarrow> string) \<Rightarrow> mod_recruitment \<Rightarrow> json \<Rightarrow> json" where
  "snapshot_recruitment isoformat r organization = JObject
     [(''type'', JText ''recruitment''), (''id'', JText (decimal (mr_id r))), (''title'', JText (mr_title r)),
      (''excerpt'', JText (take 300 (if mr_short r \<noteq> '''' then mr_short r else mr_description r))),
      (''organization'', organization), (''status'', JText (mr_status r)),
      (''created_at'', JText (isoformat (mr_created r)))]"

definition snapshot :: "(instant \<Rightarrow> string) \<Rightarrow> held \<Rightarrow> json" where
  "snapshot isoformat h = (let author = json_author (h_user h) (h_org h) in
     case h_row h of
       UserRow u \<Rightarrow> snapshot_user isoformat u
     | OrgRow x \<Rightarrow> snapshot_org x
     | PostRow p \<Rightarrow> snapshot_post isoformat p author
     | CommentRow c \<Rightarrow> snapshot_comment isoformat c author
     | MessageRow m \<Rightarrow> snapshot_message isoformat m author
     | RecruitmentRow r \<Rightarrow> snapshot_recruitment isoformat r author)"

section \<open>Saving\<close>

text \<open>The partial unique indexes: one open report per reporter and target.\<close>

definition open_by :: "identity \<Rightarrow> target \<Rightarrow> mod_state \<Rightarrow> report list" where
  "open_by a t s = filter (\<lambda>r. rp_reporter r = a \<and> rp_target r = Some t \<and> report_open r) (reports s)"

definition breaks_unique :: "report \<Rightarrow> mod_state \<Rightarrow> bool" where
  "breaks_unique r s \<longleftrightarrow> report_open r \<and>
     list_ex (\<lambda>q. rp_id q \<noteq> rp_id r \<and> rp_reporter q = rp_reporter r \<and> rp_target q \<noteq> None
       \<and> rp_target q = rp_target r \<and> report_open q) (reports s)"

text \<open>\<open>report.save(update_fields=...)\<close>: \<open>f\<close> writes the fields of the row with that id.\<close>

definition save_report :: "nat \<Rightarrow> (report \<Rightarrow> report) \<Rightarrow> mod_state \<Rightarrow> mod_state result" where
  "save_report i f s = (case tbl_get rp_id (reports s) i of
       None \<Rightarrow> Inl DatabaseError
     | Some r \<Rightarrow>
         if breaks_unique (f r) s then Inl IntegrityError
         else Inr (s\<lparr>reports := map (\<lambda>q. if rp_id q = i then f q else q) (reports s)\<rparr>))"

text \<open>\<open>save(update_fields=...)\<close> on a row of another table, with no constraint to break.\<close>

definition saved :: "('r \<Rightarrow> nat) \<Rightarrow> nat \<Rightarrow> ('r \<Rightarrow> 'r) \<Rightarrow> 'r list \<Rightarrow> 'r list result" where
  "saved key k f rows =
     (if tbl_get key rows k = None then Inl DatabaseError
      else Inr (map (\<lambda>r. if key r = k then f r else r) rows))"

section \<open>Filing\<close>

definition is_self :: "identity \<Rightarrow> target_row \<Rightarrow> bool" where
  "is_self a row \<longleftrightarrow> author_of row = a"

definition require_visible :: "identity \<Rightarrow> target_row \<Rightarrow> mod_state \<Rightarrow> unit result" where
  "require_visible a row s = (case row of
       PostRow p \<Rightarrow> if mpo_deleted p then Inl target_not_found else Inr ()
     | CommentRow c \<Rightarrow> if mcm_deleted c then Inl target_not_found else Inr ()
     | RecruitmentRow r \<Rightarrow> if mr_deleted r then Inl target_not_found else Inr ()
     | MessageRow m \<Rightarrow> if (mms_thread m, a) \<in> set (m_participants s) then Inr () else Inl target_not_found
     | _ \<Rightarrow> Inr ())"

definition category_of :: "string \<Rightarrow> report_category option" where
  "category_of raw = find (\<lambda>c. category_value c = raw) all_categories"

text \<open>The answer: a refusal with its message, or the report's id, whether it was there, its status, its priority.\<close>

datatype report_answer = Refused string | Filed nat bool report_status bool

definition payload :: "report \<Rightarrow> bool \<Rightarrow> report_answer" where
  "payload r already = Filed (rp_id r) already (rp_status r) (rp_priority r)"

definition validate_report :: "actor option \<Rightarrow> string \<Rightarrow> held list \<Rightarrow> mod_state \<Rightarrow> string option result" where
  "validate_report actor category given s = (case actor of
       None \<Rightarrow> Inr (Some ''Authentication required'')
     | Some a \<Rightarrow>
         if length given \<noteq> 1 then Inr (Some ''Exactly one target is required'')
         else if category_of category = None then Inr (Some ''Invalid category'')
         else if is_self (identity_of a) (h_row (hd given)) then Inr (Some ''You cannot report your own content'')
         else res_bind (require_visible (identity_of a) (h_row (hd given)) s) (\<lambda>_. Inr None))"

definition apply_reporter_threshold :: "nat \<Rightarrow> target \<Rightarrow> mod_state \<Rightarrow> mod_state" where
  "apply_reporter_threshold i t s =
     (let pile = filter (\<lambda>r. rp_target r = Some t \<and> report_open r) (reports s);
          reporters = length (remdups (map rp_reporter pile))
      in if reporters < priority_reporter_threshold then s
         else s\<lparr>reports := map (\<lambda>r. if rp_target r = Some t \<and> report_open r then r\<lparr>rp_priority := True\<rparr> else r)
                             (reports s)\<rparr>)"

subsection \<open>The alert\<close>

record mod_settings =
  site_admin_base_url :: string
  moderation_alert_email :: string

definition rstrip_slash :: "string \<Rightarrow> string" where
  "rstrip_slash s = rev (dropWhile (\<lambda>c. c = CHR ''/'') (rev s))"

definition admin_url :: "mod_settings \<Rightarrow> nat \<Rightarrow> string" where
  "admin_url conf i =
     (let base = rstrip_slash (site_admin_base_url conf);
          path = ''/admin/moderation/report/'' @ decimal i @ ''/change/''
      in if base \<noteq> '''' then base @ path else path)"

fun json_get :: "json \<Rightarrow> string \<Rightarrow> json option" where
  "json_get (JObject kvs) k = map_of kvs k"
| "json_get _ k = None"

fun json_text :: "json option \<Rightarrow> string" where
  "json_text (Some (JText t)) = t"
| "json_text _ = ''''"

definition nested_username :: "json \<Rightarrow> string \<Rightarrow> string" where
  "nested_username j k = (case json_get j k of None \<Rightarrow> '''' | Some o' \<Rightarrow> json_text (json_get o' ''username''))"

definition target_label :: "json \<Rightarrow> string" where
  "target_label j =
     (let kind = (case json_get j ''type'' of None \<Rightarrow> ''content'' | k \<Rightarrow> json_text k);
          candidates = [json_text (json_get j ''username''), nested_username j ''author'',
            nested_username j ''sender'', nested_username j ''organization''];
          handle = (case find (\<lambda>h. h \<noteq> '''') candidates of None \<Rightarrow> '''' | Some h \<Rightarrow> h);
          label = py_strip (kind @ '' '' @ json_text (json_get j ''id''))
      in if handle \<noteq> '''' then label @ '' (@'' @ handle @ '')'' else label)"

definition identity_of_report :: "report \<Rightarrow> mod_state \<Rightarrow> string" where
  "identity_of_report r s = (case rp_reporter r of
       UserId u \<Rightarrow> ''@'' @ (case Option.bind (tbl_get mu_id (m_users s) u) mu_username of
                           None \<Rightarrow> decimal u | Some n \<Rightarrow> if n = '''' then decimal u else n) @ '' (user)''
     | OrgId oi \<Rightarrow> ''@'' @ (case tbl_get mo_id (m_orgs s) oi of
                           None \<Rightarrow> decimal oi | Some x \<Rightarrow> if mo_username x = '''' then decimal oi else mo_username x)
                        @ '' (organization)'')"

definition newline :: string where "newline = [char_of (10 :: nat)]"

definition alert :: "mod_settings \<Rightarrow> report \<Rightarrow> mod_state \<Rightarrow> mod_state" where
  "alert conf r s =
     (if moderation_alert_email conf = '''' then s
      else mod_emit (Mail (''[Goatza] Priority report: '' @ category_value (rp_category r))
        (''Category:  '' @ category_label (rp_category r) @ '' ('' @ category_value (rp_category r) @ '')'' @ newline
         @ ''Target:    '' @ target_label (rp_snapshot r) @ newline
         @ ''Reporter:  '' @ identity_of_report r s @ newline
         @ ''Details:   '' @ (if rp_details r = '''' then ''-'' else rp_details r) @ newline @ newline
         @ ''Review it: '' @ admin_url conf (rp_id r))
        (moderation_alert_email conf)) s)"

subsection \<open>The write\<close>

text \<open>
  \<open>_create_report\<close>. The unique index refuses a concurrent duplicate; the \<open>except\<close> branch then queries inside
  the same atomic block, which the refused insert has marked for rollback, so the query raises.
\<close>

definition create_report ::
  "mod_settings \<Rightarrow> (instant \<Rightarrow> string) \<Rightarrow> identity \<Rightarrow> held \<Rightarrow> report_category \<Rightarrow> string \<Rightarrow> mod_state
     \<Rightarrow> (report_answer \<times> mod_state) result" where
  "create_report conf isoformat a h category details s =
     (let severe = (category \<in> set severe_categories);
          t = target_of (h_row h);
          i = next_report s;
          r = \<lparr>rp_id = i, rp_reporter = a, rp_target = Some t, rp_category = category, rp_details = details,
               rp_snapshot = snapshot isoformat h, rp_status = Pending, rp_priority = severe, rp_reviewed_by = None,
               rp_reviewed_at = None, rp_note = '''', rp_action = NoAction\<rparr>
      in if breaks_unique r s then Inl TransactionManagementError
         else if target_row_of s t = None then Inl IntegrityError
         else let s = s\<lparr>reports := tbl_insert r (reports s), next_report := i + 1\<rparr>;
                  s = (if severe then s else apply_reporter_threshold i t s);
                  s = (if severe then alert conf r s else s)
              in Inr (case tbl_get rp_id (reports s) i of
                        None \<Rightarrow> payload r False | Some r \<Rightarrow> payload r False, s))"

text \<open>
  \<open>ReportService.create\<close>: what other requests do between the check and the insert is \<open>meanwhile\<close>.
\<close>

definition create_checked ::
  "(mod_state \<Rightarrow> mod_state) \<Rightarrow> mod_settings \<Rightarrow> (instant \<Rightarrow> string) \<Rightarrow> actor option \<Rightarrow> string \<Rightarrow> string \<Rightarrow> held list
     \<Rightarrow> mod_state \<Rightarrow> (report_answer \<times> mod_state) result" where
  "create_checked meanwhile conf isoformat actor category details given s =
     res_bind (validate_report actor category given s) (\<lambda>error. case error of
       Some message \<Rightarrow> Inr (Refused message, s)
     | None \<Rightarrow>
         let a = identity_of (the actor); h = hd given; t = target_of (h_row h)
         in case open_by a t s of
              r # _ \<Rightarrow> Inr (payload r True, s)
            | [] \<Rightarrow> create_report conf isoformat a h (the (category_of category))
                      (take max_details_length (py_strip details)) (meanwhile s))"

text \<open>
  The request: the fields are validated first, then the target is looked up; every miss has the words of the
  service.
\<close>

definition report_form :: "string \<Rightarrow> string \<Rightarrow> error option" where
  "report_form category details =
     (if category_of category = None then Some (ValidationError ''category'')
      else if length (py_strip details) > max_details_length then Some (ValidationError ''details'') else None)"

definition create_by_target ::
  "mod_settings \<Rightarrow> (instant \<Rightarrow> string) \<Rightarrow> actor option \<Rightarrow> string \<Rightarrow> string \<Rightarrow> target \<Rightarrow> mod_state
     \<Rightarrow> (report_answer \<times> mod_state) result" where
  "create_by_target conf isoformat actor category details t s =
     (case report_form category details of
        Some e \<Rightarrow> Inl e
      | None \<Rightarrow> (case load_target s t of
          None \<Rightarrow> Inl target_not_found
        | Some h \<Rightarrow> create_checked id conf isoformat actor category (py_strip details) [h] s))"

section \<open>Status transitions\<close>

definition mark_reviewing :: "report \<Rightarrow> uid \<Rightarrow> mod_state \<Rightarrow> (bool \<times> mod_state) result" where
  "mark_reviewing r staff s =
     (if rp_status r \<noteq> Pending then Inr (False, s)
      else res_bind (save_report (rp_id r) (\<lambda>q. q\<lparr>rp_status := Reviewing, rp_reviewed_by := Some staff\<rparr>) s)
             (\<lambda>s. Inr (True, s)))"

definition resolve_siblings ::
  "report \<Rightarrow> held option \<Rightarrow> uid \<Rightarrow> instant \<Rightarrow> report_status \<Rightarrow> report_action \<Rightarrow> mod_state \<Rightarrow> mod_state" where
  "resolve_siblings r h staff now status action s = (case h of
       None \<Rightarrow> s
     | Some h \<Rightarrow>
         s\<lparr>reports := map (\<lambda>q.
             if rp_target q = Some (target_of (h_row h)) \<and> report_open q \<and> rp_id q \<noteq> rp_id r
             then q\<lparr>rp_status := status, rp_action := action, rp_reviewed_by := Some staff, rp_reviewed_at := Some now,
                    rp_note := ''Auto-resolved with report '' @ decimal (rp_id r)\<rparr>
             else q) (reports s)\<rparr>)"

definition resolve_report ::
  "report \<Rightarrow> held option \<Rightarrow> uid \<Rightarrow> instant \<Rightarrow> report_status \<Rightarrow> report_action \<Rightarrow> string \<Rightarrow> mod_state
     \<Rightarrow> (bool \<times> mod_state) result" where
  "resolve_report r h staff now status action note s =
     (if \<not> report_open r then Inr (False, s)
      else res_bind (save_report (rp_id r)
             (\<lambda>q. q\<lparr>rp_status := status, rp_reviewed_by := Some staff, rp_reviewed_at := Some now, rp_action := action,
                    rp_note := (if note \<noteq> '''' then note else rp_note q)\<rparr>) s)
             (\<lambda>s. Inr (True, resolve_siblings r h staff now status action s)))"

definition dismiss_report :: "report \<Rightarrow> held option \<Rightarrow> uid \<Rightarrow> instant \<Rightarrow> string \<Rightarrow> mod_state \<Rightarrow> (bool \<times> mod_state) result" where
  "dismiss_report r h staff now note s = resolve_report r h staff now Dismissed NoAction note s"

section \<open>Takedowns\<close>

definition take_down_post :: "mod_post \<Rightarrow> mod_state \<Rightarrow> (bool \<times> mod_state) result" where
  "take_down_post p s =
     (if mpo_deleted p then Inr (False, s)
      else res_bind (saved mpo_id (mpo_id p) (\<lambda>q. q\<lparr>mpo_deleted := True\<rparr>) (m_posts s))
             (\<lambda>rows. Inr (True, s\<lparr>m_posts := rows\<rparr>)))"

definition take_down_comment :: "mod_comment \<Rightarrow> mod_state \<Rightarrow> (bool \<times> mod_state) result" where
  "take_down_comment c s =
     (if mcm_deleted c then Inr (False, s)
      else let replies = map mcm_id (filter (\<lambda>q. mcm_parent q = Some (mcm_id c) \<and> \<not> mcm_deleted q) (m_comments s));
               removed = (if mcm_parent c = None then 1 + length replies else 1);
               rows = (if mcm_parent c = None
                       then map (\<lambda>q. if mcm_id q \<in> set replies then q\<lparr>mcm_deleted := True\<rparr> else q) (m_comments s)
                       else m_comments s)
           in res_bind (saved mcm_id (mcm_id c) (\<lambda>q. q\<lparr>mcm_deleted := True\<rparr>) rows) (\<lambda>rows.
                Inr (True, s\<lparr>
                  m_comments := map (\<lambda>q. if Some (mcm_id q) = mcm_parent c
                                         then q\<lparr>mcm_replies := mcm_replies q - 1\<rparr> else q) rows,
                  m_posts := map (\<lambda>p. if mpo_id p = mcm_post c then p\<lparr>mpo_comments := mpo_comments p - removed\<rparr> else p)
                               (m_posts s)\<rparr>)))"

definition newest_shown :: "nat \<Rightarrow> mod_message list \<Rightarrow> mod_message option" where
  "newest_shown th rows =
     (case sort_key (\<lambda>m. - mms_created m) (filter (\<lambda>m. mms_thread m = th \<and> \<not> mms_deleted m) rows) of
        [] \<Rightarrow> None | m # _ \<Rightarrow> Some m)"

definition take_down_message :: "mod_message \<Rightarrow> mod_state \<Rightarrow> (bool \<times> mod_state) result" where
  "take_down_message m s =
     (if mms_deleted m then Inr (False, s)
      else res_bind (saved mms_id (mms_id m) (\<lambda>q. q\<lparr>mms_deleted := True\<rparr>) (m_messages s)) (\<lambda>rows.
        let previous = newest_shown (mms_thread m) rows;
            threads = map (\<lambda>th. if th_id th = mms_thread m \<and> th_last th = Some (mms_id m)
                                then th\<lparr>th_last := map_option mms_id previous, th_last_at := map_option mms_created previous\<rparr>
                                else th) (m_threads s)
        in Inr (True, mod_emit (MessageGone (mms_thread m) (mms_id m)) (s\<lparr>m_messages := rows, m_threads := threads\<rparr>))))"

definition take_down_recruitment :: "instant \<Rightarrow> mod_recruitment \<Rightarrow> mod_state \<Rightarrow> (bool \<times> mod_state) result" where
  "take_down_recruitment now r s =
     (if mr_deleted r then Inr (False, s)
      else res_bind (saved mr_id (mr_id r) (\<lambda>q. q\<lparr>mr_deleted := True, mr_deleted_at := Some now\<rparr>) (m_recruitments s))
             (\<lambda>rows. Inr (True, s\<lparr>m_recruitments := rows\<rparr>)))"

definition soft_delete :: "instant \<Rightarrow> target_row \<Rightarrow> mod_state \<Rightarrow> (bool \<times> mod_state) result" where
  "soft_delete now row s = (case row of
       PostRow p \<Rightarrow> take_down_post p s
     | CommentRow c \<Rightarrow> take_down_comment c s
     | MessageRow m \<Rightarrow> take_down_message m s
     | RecruitmentRow r \<Rightarrow> take_down_recruitment now r s
     | _ \<Rightarrow> Inr (False, s))"

section \<open>Enforcement\<close>

type_synonym mod_outcome = "bool \<times> string option"

definition gone_message :: string where "gone_message = ''The reported content no longer exists''"

fun removable :: "target_row \<Rightarrow> bool" where
  "removable (UserRow _) = False"
| "removable (OrgRow _) = False"
| "removable _ = True"

definition not_removable_message :: string where
  "not_removable_message = ''Remove content only applies to a post, comment, message or recruitment''"

definition settle ::
  "report \<Rightarrow> held option \<Rightarrow> uid \<Rightarrow> instant \<Rightarrow> report_action \<Rightarrow> string \<Rightarrow> mod_state \<Rightarrow> (mod_outcome \<times> mod_state) result" where
  "settle r h staff now action note s =
     res_bind (resolve_report r h staff now ActionTaken action note s) (\<lambda>(_, s). Inr ((True, None), s))"

text \<open>With no target the column is \<open>None\<close>, which is not removable either.\<close>

definition remove_content :: "report \<Rightarrow> held option \<Rightarrow> uid \<Rightarrow> instant \<Rightarrow> string \<Rightarrow> mod_state \<Rightarrow> (mod_outcome \<times> mod_state) result" where
  "remove_content r h staff now note s = (case h of
       None \<Rightarrow> Inr ((False, Some not_removable_message), s)
     | Some x \<Rightarrow>
         if \<not> removable (h_row x) then Inr ((False, Some not_removable_message), s)
         else res_bind (soft_delete now (h_row x) s) (\<lambda>(_, s). settle r h staff now ContentRemoved note s))"

definition warned_about :: "target_row \<Rightarrow> target option" where
  "warned_about row = (case row of
       PostRow _ \<Rightarrow> Some (target_of row) | CommentRow _ \<Rightarrow> Some (target_of row)
     | RecruitmentRow _ \<Rightarrow> Some (target_of row) | _ \<Rightarrow> None)"

definition warn_author :: "report \<Rightarrow> held option \<Rightarrow> uid \<Rightarrow> instant \<Rightarrow> string \<Rightarrow> mod_state \<Rightarrow> (mod_outcome \<times> mod_state) result" where
  "warn_author r h staff now note s = (case h of
       None \<Rightarrow> Inr ((False, Some gone_message), s)
     | Some x \<Rightarrow> settle r h staff now WarningSent note (mod_emit (Warning (author_of (h_row x)) (warned_about (h_row x))) s))"

definition blacklist_tokens :: "uid \<Rightarrow> mod_state \<Rightarrow> mod_state" where
  "blacklist_tokens u s =
     s\<lparr>blacklisted_tokens := blacklisted_tokens s @
         filter (\<lambda>t. t \<notin> set (blacklisted_tokens s)) (map fst (filter (\<lambda>(_, v). v = u) (outstanding_tokens s)))\<rparr>"

definition suspend_user :: "report \<Rightarrow> held option \<Rightarrow> uid \<Rightarrow> instant \<Rightarrow> string \<Rightarrow> mod_state \<Rightarrow> (mod_outcome \<times> mod_state) result" where
  "suspend_user r h staff now note s = (case h of
       None \<Rightarrow> Inr ((False, Some gone_message), s)
     | Some x \<Rightarrow> (case h_user x of
           None \<Rightarrow> Inr ((False, Some (if h_org x \<noteq> None
                     then ''That target belongs to an organization: use Suspend organization''
                     else ''Could not resolve a user account to suspend'')), s)
         | Some u \<Rightarrow>
             if mu_staff u \<or> mu_superuser u
             then Inr ((False, Some ''Staff accounts cannot be suspended from the queue''), s)
             else res_bind (if mu_active u
                            then saved mu_id (mu_id u) (\<lambda>v. v\<lparr>mu_active := False\<rparr>) (m_users s)
                            else Inr (m_users s)) (\<lambda>rows.
                  settle r h staff now AccountSuspended note (blacklist_tokens (mu_id u) (s\<lparr>m_users := rows\<rparr>)))))"

definition suspend_organization :: "report \<Rightarrow> held option \<Rightarrow> uid \<Rightarrow> instant \<Rightarrow> string \<Rightarrow> mod_state \<Rightarrow> (mod_outcome \<times> mod_state) result" where
  "suspend_organization r h staff now note s = (case h of
       None \<Rightarrow> Inr ((False, Some gone_message), s)
     | Some x \<Rightarrow> (case h_org x of
           None \<Rightarrow> Inr ((False, Some (if h_user x \<noteq> None
                     then ''That target belongs to a user: use Suspend user account''
                     else ''Could not resolve an organization to suspend'')), s)
         | Some b \<Rightarrow>
             res_bind (if mo_suspended b then Inr (m_orgs s)
                       else saved mo_id (mo_id b) (\<lambda>v. v\<lparr>mo_suspended := True\<rparr>) (m_orgs s)) (\<lambda>rows.
               settle r h staff now AccountSuspended note (s\<lparr>m_orgs := rows\<rparr>))))"

section \<open>The admin's own writes, and hard deletes\<close>

text \<open>
  The change form: of a report the status and the note can be typed; the row is loaded in the request that saves it.
\<close>

definition edit_resolution :: "nat \<Rightarrow> report_status \<Rightarrow> string \<Rightarrow> mod_state \<Rightarrow> mod_state result" where
  "edit_resolution i status note s = save_report i (\<lambda>q. q\<lparr>rp_status := status, rp_note := note\<rparr>) s"

text \<open>Django's delete action and delete button, which \<open>ReportAdmin\<close> leaves in place.\<close>

definition erase_reports :: "nat list \<Rightarrow> mod_state \<Rightarrow> mod_state" where
  "erase_reports ids s = s\<lparr>reports := filter (\<lambda>r. rp_id r \<notin> set ids) (reports s)\<rparr>"

text \<open>
  What the deletion of a row does to the table of reports. \<open>reporter_user\<close> and \<open>reporter_org\<close> cascade: the reports
  an account filed go with it. The target columns and \<open>reviewed_by\<close> are set to null.
\<close>

definition account_behind :: "target \<Rightarrow> identity option" where
  "account_behind t = (case t of TUser u \<Rightarrow> Some (UserId u) | TOrg oi \<Rightarrow> Some (OrgId oi) | _ \<Rightarrow> None)"

definition unlink :: "target \<Rightarrow> report \<Rightarrow> report" where
  "unlink t r = r\<lparr>rp_target := (if rp_target r = Some t then None else rp_target r),
     rp_reviewed_by := (case rp_reviewed_by r of None \<Rightarrow> None | Some u \<Rightarrow> if t = TUser u then None else Some u)\<rparr>"

definition forget_target :: "target \<Rightarrow> mod_state \<Rightarrow> mod_state" where
  "forget_target t s =
     s\<lparr>reports := map (unlink t) (filter (\<lambda>r. account_behind t \<noteq> Some (rp_reporter r)) (reports s))\<rparr>"

section \<open>The batch actions of the queue\<close>

text \<open>The selection is loaded once, with its targets; each call commits on its own, an exception ends the loop.\<close>

definition load_selection :: "nat list \<Rightarrow> mod_state \<Rightarrow> (report \<times> held option) list" where
  "load_selection ids s =
     map (\<lambda>r. (r, Option.bind (rp_target r) (load_target s))) (filter (\<lambda>r. rp_id r \<in> set ids) (reports s))"

fun each_report ::
  "(report \<Rightarrow> held option \<Rightarrow> mod_state \<Rightarrow> ('a \<times> mod_state) result) \<Rightarrow> (report \<times> held option) list \<Rightarrow> mod_state
     \<Rightarrow> 'a list \<times> error option \<times> mod_state" where
  "each_report op [] s = ([], None, s)"
| "each_report op ((r, h) # rest) s = (case op r h s of
       Inl e \<Rightarrow> ([], Some e, s)
     | Inr (x, s) \<Rightarrow> (case each_report op rest s of (xs, e, s) \<Rightarrow> (x # xs, e, s)))"

definition enforce_batch ::
  "(report \<Rightarrow> held option \<Rightarrow> mod_state \<Rightarrow> ('a \<times> mod_state) result) \<Rightarrow> nat list \<Rightarrow> mod_state
     \<Rightarrow> 'a list \<times> error option \<times> mod_state" where
  "enforce_batch op ids s = each_report op (load_selection ids s) s"

end
