(* ===== verification/Report_Laws.thy ===== *)
theory Report_Laws
  imports Reports
begin

text \<open>
  What each operation does to the table of reports: what was filed stays as it was filed, a row goes only by an
  admin's deletion or with the account that filed it, and a reporter has one open report on a target.
\<close>

section \<open>The invariant and the steps\<close>

definition same_slot :: "report \<Rightarrow> report \<Rightarrow> bool" where
  "same_slot r q \<longleftrightarrow> report_open r \<and> report_open q \<and> rp_target r \<noteq> None \<and> rp_target r = rp_target q
     \<and> rp_reporter r = rp_reporter q"

definition report_inv :: "mod_state \<Rightarrow> bool" where
  "report_inv s \<longleftrightarrow> tbl_ok rp_id (reports s) \<and> (\<forall>r \<in> set (reports s). rp_id r < next_report s)
     \<and> (\<forall>r \<in> set (reports s). \<forall>q \<in> set (reports s). same_slot r q \<longrightarrow> rp_id r = rp_id q)"

definition same_reports :: "mod_state \<Rightarrow> mod_state \<Rightarrow> bool" where
  "same_reports s t \<longleftrightarrow> reports t = reports s \<and> next_report t = next_report s"

inductive mod_step :: "mod_state \<Rightarrow> mod_state \<Rightarrow> bool" where
  File: "create_report conf isoformat a h category details s = Inr (answer, t) \<Longrightarrow> mod_step s t"
| Review: "mark_reviewing r staff s = Inr (moved, t) \<Longrightarrow> mod_step s t"
| Dismiss: "dismiss_report r h staff now note s = Inr (moved, t) \<Longrightarrow> mod_step s t"
| Remove: "remove_content r h staff now note s = Inr (out, t) \<Longrightarrow> mod_step s t"
| Warn: "warn_author r h staff now note s = Inr (out, t) \<Longrightarrow> mod_step s t"
| Suspend_User: "suspend_user r h staff now note s = Inr (out, t) \<Longrightarrow> mod_step s t"
| Suspend_Org: "suspend_organization r h staff now note s = Inr (out, t) \<Longrightarrow> mod_step s t"
| Edit: "edit_resolution i status note s = Inr t \<Longrightarrow> mod_step s t"
| Erase: "mod_step s (erase_reports ids s)"
| Forget: "mod_step s (forget_target tg s)"
| Elsewhere: "same_reports s t \<Longrightarrow> mod_step s t"

section \<open>Writes that close, forget or mark rows\<close>

text \<open>\<open>filed_as r q\<close>: \<open>q\<close> is the report \<open>r\<close> later on.\<close>

definition filed_as :: "report \<Rightarrow> report \<Rightarrow> bool" where
  "filed_as r q \<longleftrightarrow> rp_id q = rp_id r \<and> rp_reporter q = rp_reporter r \<and> rp_category q = rp_category r
     \<and> rp_details q = rp_details r \<and> rp_snapshot q = rp_snapshot r \<and> rp_target q \<in> {rp_target r, None}"

lemma filed_as_refl: "filed_as r r"
  by (simp add: filed_as_def)

lemma filed_as_trans: "filed_as r q \<Longrightarrow> filed_as q p \<Longrightarrow> filed_as r p"
  by (auto simp: filed_as_def)

text \<open>A bulk write that opens nothing keeps the invariant.\<close>

lemma report_invI:
  assumes "tbl_ok rp_id (reports t)" "\<And>r. r \<in> set (reports t) \<Longrightarrow> rp_id r < next_report t"
    "\<And>r q. r \<in> set (reports t) \<Longrightarrow> q \<in> set (reports t) \<Longrightarrow> same_slot r q \<Longrightarrow> rp_id r = rp_id q"
  shows "report_inv t"
  using assms unfolding report_inv_def by blast

lemma report_invD:
  assumes "report_inv s"
  shows "tbl_ok rp_id (reports s)" "r \<in> set (reports s) \<Longrightarrow> rp_id r < next_report s"
    "r \<in> set (reports s) \<Longrightarrow> q \<in> set (reports s) \<Longrightarrow> same_slot r q \<Longrightarrow> rp_id r = rp_id q"
  using assms unfolding report_inv_def by blast+

lemma map_ids_ok: "(\<And>r. rp_id (g r) = rp_id r) \<Longrightarrow> tbl_ok rp_id (map g rows) = tbl_ok rp_id rows"
  by (simp add: tbl_ok_def comp_def)

lemma bulk_keeps:
  assumes inv: "report_inv s" and g: "\<And>r. filed_as r (g r)" "\<And>r. report_open (g r) \<Longrightarrow> report_open r"
    and t: "reports t = map g (reports s)" "next_report t = next_report s"
  shows "report_inv t"
proof (rule report_invI)
  have ids: "rp_id (g r) = rp_id r" for r using g(1) [of r] by (simp add: filed_as_def)
  show "tbl_ok rp_id (reports t)" unfolding t(1) using report_invD(1) [OF inv] ids by (simp add: map_ids_ok)
  show "rp_id r < next_report t" if r: "r \<in> set (reports t)" for r
    using r report_invD(2) [OF inv] ids unfolding t by auto
  have slot: "same_slot r q" if "same_slot (g r) (g q)" for r q
    using that g(1) [of r] g(1) [of q] g(2) [of r] g(2) [of q] unfolding same_slot_def filed_as_def by auto
  show "rp_id p = rp_id q" if pq: "p \<in> set (reports t)" "q \<in> set (reports t)" "same_slot p q" for p q
  proof -
    obtain p' q' where "p = g p'" "q = g q'" "p' \<in> set (reports s)" "q' \<in> set (reports s)"
      using pq(1,2) unfolding t(1) by auto
    then show ?thesis using report_invD(3) [OF inv] slot pq(3) ids by metis
  qed
qed

lemma filter_keeps:
  assumes inv: "report_inv s" and t: "reports t = filter P (reports s)" "next_report t = next_report s"
  shows "report_inv t"
proof (rule report_invI)
  show "tbl_ok rp_id (reports t)"
    using report_invD(1) [OF inv] by (simp add: t(1) tbl_ok_def distinct_map_filter)
  show "rp_id r < next_report t" if "r \<in> set (reports t)" for r
    using that report_invD(2) [OF inv, of r] by (simp add: t)
  show "rp_id r = rp_id q" if "r \<in> set (reports t)" "q \<in> set (reports t)" "same_slot r q" for r q
    using that report_invD(3) [OF inv, of r q] by (simp add: t(1))
qed

lemma same_reports_inv: "same_reports s t \<Longrightarrow> report_inv s \<Longrightarrow> report_inv t"
  unfolding same_reports_def report_inv_def by simp

section \<open>A save\<close>

lemma save_shape:
  assumes "save_report i f s = Inr t" "\<And>r. filed_as r (f r)"
  shows "reports t = map (\<lambda>q. if rp_id q = i then f q else q) (reports s)" "next_report t = next_report s"
  using assms(1) by (auto simp: save_report_def split: option.splits if_splits)

lemma save_keeps:
  assumes inv: "report_inv s" and run: "save_report i f s = Inr t" and f: "\<And>r. filed_as r (f r)"
  shows "report_inv t"
proof -
  obtain r where r: "tbl_get rp_id (reports s) i = Some r" "\<not> breaks_unique (f r) s"
    using run by (auto simp: save_report_def split: option.splits if_splits)
  note t = save_shape [OF run f]
  have ok: "tbl_ok rp_id (reports s)" using inv by (simp add: report_inv_def)
  have ri: "r \<in> set (reports s)" "rp_id r = i" using r(1) unfolding tbl_get_eq_Some [OF ok] by blast+
  let ?g = "\<lambda>q. if rp_id q = i then f q else q"
  have ids: "rp_id (?g q) = rp_id q" for q using f [of q] by (simp add: filed_as_def)
  have only: "q = r" if "q \<in> set (reports s)" "rp_id q = i" for q
    using ok ri that inj_onD [of rp_id "set (reports s)" q r] by (simp add: tbl_ok_def distinct_map)
  have clash: "rp_id q = i" if "q \<in> set (reports s)" "same_slot q (f r)" for q
    using r(2) that f [of r] ri unfolding breaks_unique_def list_ex_iff filed_as_def same_slot_def by auto
  have slot: "rp_id p = rp_id q" if "p \<in> set (reports s)" "q \<in> set (reports s)" "same_slot (?g p) (?g q)" for p q
  proof (cases "rp_id p = i")
    case True
    then have "p = r" using only that(1) by blast
    show ?thesis
    proof (cases "rp_id q = i")
      case False
      then have "same_slot q (f r)" using that(3) \<open>p = r\<close> True by (auto simp: same_slot_def)
      then show ?thesis using clash [OF that(2)] True by simp
    qed (simp add: True)
  next
    case False
    show ?thesis
    proof (cases "rp_id q = i")
      case True
      then have "q = r" using only that(2) by blast
      then have "same_slot p (f r)" using that(3) True False by simp
      then show ?thesis using clash [OF that(1)] False by simp
    next
      case q: False
      then show ?thesis using report_invD(3) [OF inv that(1,2)] that(3) False by simp
    qed
  qed
  show ?thesis
  proof (rule report_invI)
    show "tbl_ok rp_id (reports t)" unfolding t(1) using ok ids by (simp add: map_ids_ok)
    show "rp_id q < next_report t" if q: "q \<in> set (reports t)" for q
    proof -
      obtain q' where "q = ?g q'" "q' \<in> set (reports s)" using q unfolding t(1) set_map by (elim imageE)
      then show ?thesis using report_invD(2) [OF inv, of q'] ids [of q'] t(2) by (simp only:)
    qed
    show "rp_id p = rp_id q" if pq: "p \<in> set (reports t)" "q \<in> set (reports t)" "same_slot p q" for p q
    proof -
      obtain p' q' where "p = ?g p'" "q = ?g q'" "p' \<in> set (reports s)" "q' \<in> set (reports s)"
        using pq(1,2) unfolding t(1) set_map by (elim imageE)
      then show ?thesis using slot [of p' q'] pq(3) ids [of p'] ids [of q'] by (simp only:)
    qed
  qed
qed

section \<open>The operations\<close>

text \<open>\<open>rows_move s t\<close>: rows are rewritten one by one as \<open>filed_as\<close> allows, and new ones come after them.\<close>

definition rows_move :: "mod_state \<Rightarrow> mod_state \<Rightarrow> bool" where
  "rows_move s t \<longleftrightarrow> next_report s \<le> next_report t \<and> (\<exists>g new. reports t = map g (reports s) @ new
     \<and> (\<forall>r. filed_as r (g r)) \<and> (\<forall>q \<in> set new. next_report s \<le> rp_id q))"

definition report_safe :: "mod_state \<Rightarrow> mod_state \<Rightarrow> bool" where
  "report_safe s t \<longleftrightarrow> rows_move s t \<and> (report_inv s \<longrightarrow> report_inv t)"

lemma rows_moveI:
  "reports t = map g (reports s) \<Longrightarrow> (\<And>r. filed_as r (g r)) \<Longrightarrow> next_report t = next_report s \<Longrightarrow> rows_move s t"
  unfolding rows_move_def by (intro conjI exI [of _ g] exI [of _ "[]"]) simp_all

lemma safe_same: "same_reports s t \<Longrightarrow> report_safe s t"
proof -
  assume same: "same_reports s t"
  then have "reports t = map (\<lambda>r. r) (reports s)" by (simp add: same_reports_def)
  then have "rows_move s t" by (rule rows_moveI) (use same in \<open>simp_all add: filed_as_refl same_reports_def\<close>)
  then show ?thesis using same_reports_inv [OF same] by (simp add: report_safe_def)
qed

lemma rows_move_trans: "rows_move s t \<Longrightarrow> rows_move t u \<Longrightarrow> rows_move s u"
proof -
  assume "rows_move s t" "rows_move t u"
  then obtain g f new more where g: "reports t = map g (reports s) @ new" "\<forall>r. filed_as r (g r)"
        "\<forall>q \<in> set new. next_report s \<le> rp_id q" "next_report s \<le> next_report t"
      and f: "reports u = map f (reports t) @ more" "\<forall>r. filed_as r (f r)"
        "\<forall>q \<in> set more. next_report t \<le> rp_id q" "next_report t \<le> next_report u"
    unfolding rows_move_def by blast
  have "reports u = map (\<lambda>r. f (g r)) (reports s) @ map f new @ more" using g(1) f(1) by simp
  moreover have "\<forall>r. filed_as r (f (g r))" using g(2) f(2) filed_as_trans by blast
  moreover have "rp_id (f q) = rp_id q" for q using f(2) by (simp add: filed_as_def)
  then have "\<forall>q \<in> set (map f new @ more). next_report s \<le> rp_id q"
    using g(3,4) f(3) by (auto intro: order_trans)
  ultimately show ?thesis unfolding rows_move_def using order_trans [OF g(4) f(4)] by (intro exI conjI)
qed

lemma safe_trans: "report_safe s t \<Longrightarrow> report_safe t u \<Longrightarrow> report_safe s u"
  unfolding report_safe_def using rows_move_trans by blast

lemma safe_from: "report_safe u t \<Longrightarrow> same_reports s u \<Longrightarrow> report_safe s t"
  by (blast intro: safe_trans safe_same)

lemma safe_bulk:
  assumes "\<And>r. filed_as r (g r)" "\<And>r. report_open (g r) \<Longrightarrow> report_open r"
    "reports t = map g (reports s)" "next_report t = next_report s"
  shows "report_safe s t"
  using bulk_keeps [OF _ assms] rows_moveI [OF assms(3,1,4)] by (simp add: report_safe_def)

lemma safe_save:
  assumes "save_report i f s = Inr t" "\<And>r. filed_as r (f r)"
  shows "report_safe s t"
proof -
  have "rows_move s t"
    by (rule rows_moveI [OF save_shape(1) [OF assms]]) (use assms(2) filed_as_refl save_shape(2) [OF assms] in simp_all)
  then show ?thesis using save_keeps [OF _ assms] by (simp add: report_safe_def)
qed

lemma resolve_siblings_safe:
  assumes "status \<in> {ActionTaken, Dismissed}"
  shows "report_safe s (resolve_siblings r h staff now status action s)"
proof (cases h)
  case (Some x)
  show ?thesis
    by (rule safe_bulk [where g = "\<lambda>q. if rp_target q = Some (target_of (h_row x)) \<and> report_open q \<and> rp_id q \<noteq> rp_id r
        then q\<lparr>rp_status := status, rp_action := action, rp_reviewed_by := Some staff, rp_reviewed_at := Some now,
          rp_note := ''Auto-resolved with report '' @ decimal (rp_id r)\<rparr> else q"])
      (use assms in \<open>auto simp: filed_as_def resolve_siblings_def Some split: if_splits\<close>)
qed (simp add: resolve_siblings_def safe_same same_reports_def)

lemma resolve_safe:
  assumes "resolve_report r h staff now status action note s = Inr (b, t)" "status \<in> {ActionTaken, Dismissed}"
  shows "report_safe s t"
proof (cases "report_open r")
  case True
  then obtain u where u: "save_report (rp_id r) (\<lambda>q. q\<lparr>rp_status := status, rp_reviewed_by := Some staff,
        rp_reviewed_at := Some now, rp_action := action, rp_note := (if note \<noteq> [] then note else rp_note q)\<rparr>) s = Inr u"
      "t = resolve_siblings r h staff now status action u"
    using assms(1) by (auto simp: resolve_report_def res_bind_eq_Inr)
  have "report_safe s u" by (rule safe_save [OF u(1)]) (simp add: filed_as_def)
  then show ?thesis unfolding u(2) using resolve_siblings_safe [OF assms(2)] safe_trans by blast
next
  case False
  then show ?thesis using assms(1) by (simp add: resolve_report_def safe_same same_reports_def)
qed

lemma settle_safe: "settle r h staff now action note s = Inr (out, t) \<Longrightarrow> report_safe s t"
  by (auto simp: settle_def res_bind_eq_Inr intro: resolve_safe)

lemma mark_reviewing_safe: "mark_reviewing r staff s = Inr (b, t) \<Longrightarrow> report_safe s t"
  by (auto simp: mark_reviewing_def res_bind_eq_Inr safe_same same_reports_def filed_as_def split: if_splits
      intro: safe_save)

lemma soft_delete_same: "soft_delete now row s = Inr (b, t) \<Longrightarrow> same_reports s t"
  by (cases row)
    (auto simp: soft_delete_def take_down_post_def take_down_comment_def take_down_message_def take_down_recruitment_def
      mod_emit_def same_reports_def res_bind_eq_Inr Let_def split: if_splits)

lemma remove_content_safe: "remove_content r h staff now note s = Inr (out, t) \<Longrightarrow> report_safe s t"
  by (cases h) (auto simp: remove_content_def res_bind_eq_Inr safe_same same_reports_def split: if_splits
      dest!: settle_safe intro: safe_from soft_delete_same)

lemma warn_author_safe: "warn_author r h staff now note s = Inr (out, t) \<Longrightarrow> report_safe s t"
  by (cases h) (auto simp: warn_author_def same_reports_def mod_emit_def safe_same dest!: settle_safe elim!: safe_from)

lemma suspend_user_safe: "suspend_user r h staff now note s = Inr (out, t) \<Longrightarrow> report_safe s t"
  by (cases h; cases "h_user (the h)")
    (auto simp: suspend_user_def res_bind_eq_Inr same_reports_def blacklist_tokens_def safe_same split: if_splits
      dest!: settle_safe elim!: safe_from)

lemma suspend_organization_safe: "suspend_organization r h staff now note s = Inr (out, t) \<Longrightarrow> report_safe s t"
  by (cases h; cases "h_org (the h)")
    (auto simp: suspend_organization_def res_bind_eq_Inr same_reports_def safe_same split: if_splits
      dest!: settle_safe elim!: safe_from)

lemma edit_resolution_safe: "edit_resolution i status note s = Inr t \<Longrightarrow> report_safe s t"
  by (simp only: edit_resolution_def) (erule safe_save, simp add: filed_as_def)

lemma threshold_safe: "report_safe s (apply_reporter_threshold i tg s)"
proof -
  have "report_safe s (s\<lparr>reports := map (\<lambda>r. if rp_target r = Some tg \<and> report_open r then r\<lparr>rp_priority := True\<rparr> else r)
      (reports s)\<rparr>)"
    by (rule safe_bulk [where g = "\<lambda>r. if rp_target r = Some tg \<and> report_open r then r\<lparr>rp_priority := True\<rparr> else r"])
      (auto simp: filed_as_def report_open_def split: if_splits)
  then show ?thesis by (simp add: apply_reporter_threshold_def Let_def safe_same same_reports_def)
qed

section \<open>Filing, and every run\<close>

lemma insert_safe:
  assumes r: "rp_id r = next_report s" "\<not> breaks_unique r s"
    and t: "reports t = tbl_insert r (reports s)" "next_report t = next_report s + 1"
  shows "report_safe s t"
proof -
  have "reports t = map (\<lambda>q. q) (reports s) @ [r]" by (simp add: t(1) tbl_insert_def)
  moreover have "\<forall>q \<in> set [r]. next_report s \<le> rp_id q" "next_report s \<le> next_report t" by (simp_all add: r(1) t(2))
  ultimately have "rows_move s t" unfolding rows_move_def using filed_as_refl by blast
  moreover have "report_inv t" if inv: "report_inv s"
  proof (rule report_invI)
    have fresh: "rp_id q < next_report s" if "q \<in> set (reports s)" for q using report_invD(2) [OF inv that] .
    then have "tbl_get rp_id (reports s) (rp_id r) = None" unfolding tbl_get_None_iff r(1) by (metis imageE less_irrefl)
    then show "tbl_ok rp_id (reports t)" unfolding t(1) using report_invD(1) [OF inv] by simp
    show "rp_id q < next_report t" if "q \<in> set (reports t)" for q
      using that fresh [of q] r(1) unfolding t tbl_insert_def by auto
    have clash: "\<not> same_slot q r" "\<not> same_slot r q" if "q \<in> set (reports s)" for q
      using r that fresh [of q] unfolding breaks_unique_def list_ex_iff same_slot_def by auto
    show "rp_id p = rp_id q" if "p \<in> set (reports t)" "q \<in> set (reports t)" "same_slot p q" for p q
      using that clash report_invD(3) [OF inv] unfolding t(1) tbl_insert_def by auto
  qed
  ultimately show ?thesis by (simp add: report_safe_def)
qed

lemma alert_same: "same_reports s (alert conf r s)"
  by (simp add: alert_def same_reports_def mod_emit_def)

definition filed_row :: "(instant \<Rightarrow> string) \<Rightarrow> identity \<Rightarrow> held \<Rightarrow> report_category \<Rightarrow> string \<Rightarrow> mod_state \<Rightarrow> report" where
  "filed_row isoformat a h category details s =
     \<lparr>rp_id = next_report s, rp_reporter = a, rp_target = Some (target_of (h_row h)), rp_category = category,
      rp_details = details, rp_snapshot = snapshot isoformat h, rp_status = Pending,
      rp_priority = (category \<in> set severe_categories), rp_reviewed_by = None, rp_reviewed_at = None, rp_note = '''',
      rp_action = NoAction\<rparr>"

definition with_report :: "report \<Rightarrow> mod_state \<Rightarrow> mod_state" where
  "with_report r s = s\<lparr>reports := tbl_insert r (reports s), next_report := next_report s + 1\<rparr>"

lemma create_shape:
  assumes "create_report conf isoformat a h category details s = Inr (answer, t)"
  defines "r \<equiv> filed_row isoformat a h category details s"
  shows "\<not> breaks_unique r s"
    "t = (if category \<in> set severe_categories then alert conf r (with_report r s)
          else apply_reporter_threshold (next_report s) (target_of (h_row h)) (with_report r s))"
    "answer = (case tbl_get rp_id (reports t) (next_report s) of None \<Rightarrow> payload r False | Some r \<Rightarrow> payload r False)"
  using assms(1) unfolding create_report_def Let_def r_def filed_row_def with_report_def by (auto split: if_splits)

lemma create_report_safe:
  assumes "create_report conf isoformat a h category details s = Inr (answer, t)"
  shows "report_safe s t"
proof -
  let ?r = "filed_row isoformat a h category details s"
  note c = create_shape [OF assms]
  have "report_safe s (with_report ?r s)"
    by (rule insert_safe [OF _ c(1)]) (simp_all add: filed_row_def with_report_def)
  moreover have "report_safe (with_report ?r s) t"
    unfolding c(2) using safe_same [OF alert_same] threshold_safe by simp
  ultimately show ?thesis by (rule safe_trans)
qed

text \<open>Deletions: of chosen rows, and with an account.\<close>

lemma unlink_filed: "filed_as r (unlink tg r)"
  by (simp add: filed_as_def unlink_def)

lemma forget_target_keeps: "report_inv s \<Longrightarrow> report_inv (forget_target tg s)"
proof -
  assume inv: "report_inv s"
  let ?u = "s\<lparr>reports := filter (\<lambda>r. account_behind tg \<noteq> Some (rp_reporter r)) (reports s)\<rparr>"
  have "report_inv ?u" by (rule filter_keeps [OF inv]) simp_all
  then show ?thesis
    by (rule bulk_keeps [where g = "unlink tg"])
      (simp_all add: unlink_filed forget_target_def, simp add: unlink_def report_open_def)
qed

lemma mod_step_cases:
  assumes "mod_step s t"
  obtains (safe) "report_safe s t" | (erased) ids where "t = erase_reports ids s"
    | (forgot) tg where "t = forget_target tg s"
  using assms
  by (cases rule: mod_step.cases)
    (auto simp: dismiss_report_def intro: create_report_safe mark_reviewing_safe resolve_safe remove_content_safe
      warn_author_safe suspend_user_safe suspend_organization_safe edit_resolution_safe safe_same)

lemma mod_step_keeps: "report_inv s \<Longrightarrow> mod_step s t \<Longrightarrow> report_inv t"
  by (erule mod_step_cases) (auto simp: report_safe_def forget_target_keeps erase_reports_def intro: filter_keeps)

definition queue_start :: "mod_state \<Rightarrow> bool" where
  "queue_start s \<longleftrightarrow> reports s = [] \<and> next_report s = 0"

lemma queue_start_inv: "queue_start s \<Longrightarrow> report_inv s"
  by (simp add: queue_start_def report_inv_def tbl_ok_def)

interpretation queue: safe_machine queue_start mod_step report_inv
  by unfold_locales (use queue_start_inv mod_step_keeps in blast)+

text \<open>What a row was filed as is what every later row of its id says, along every run.\<close>

definition evidence_kept :: "mod_state \<Rightarrow> mod_state \<Rightarrow> bool" where
  "evidence_kept s t \<longleftrightarrow> next_report s \<le> next_report t
     \<and> (\<forall>q \<in> set (reports t). rp_id q < next_report s \<longrightarrow> (\<exists>r \<in> set (reports s). filed_as r q))"

lemma move_kept: "rows_move s t \<Longrightarrow> evidence_kept s t"
  unfolding rows_move_def evidence_kept_def by (elim conjE exE) (auto dest: leD)

lemma evidence_kept_trans: "evidence_kept s t \<Longrightarrow> evidence_kept t u \<Longrightarrow> evidence_kept s u"
proof -
  assume a: "evidence_kept s t" "evidence_kept t u"
  have "\<exists>r \<in> set (reports s). filed_as r q" if q: "q \<in> set (reports u)" "rp_id q < next_report s" for q
  proof -
    have "rp_id q < next_report t" using a(1) q(2) by (simp add: evidence_kept_def)
    then obtain p where p: "p \<in> set (reports t)" "filed_as p q" using a(2) q(1) by (auto simp: evidence_kept_def)
    then have "rp_id p < next_report s" using q(2) by (simp add: filed_as_def)
    then obtain r where "r \<in> set (reports s)" "filed_as r p" using a(1) p(1) by (auto simp: evidence_kept_def)
    then show ?thesis using p(2) filed_as_trans by blast
  qed
  then show ?thesis using a by (auto simp: evidence_kept_def)
qed

lemma mod_step_kept: "mod_step s t \<Longrightarrow> evidence_kept s t"
proof (erule mod_step_cases)
  show "evidence_kept s t" if "report_safe s t" using that move_kept by (simp add: report_safe_def)
  show "evidence_kept s t" if "t = erase_reports ids s" for ids
    using that filed_as_refl by (auto simp: evidence_kept_def erase_reports_def)
  show "evidence_kept s t" if "t = forget_target tg s" for tg
    using that unlink_filed by (auto simp: evidence_kept_def forget_target_def)
qed

interpretation evidence: safe_machine "\<lambda>t. same_reports s t" mod_step "evidence_kept s" for s
proof
  show "same_reports s t \<Longrightarrow> evidence_kept s t" for t
    using filed_as_refl by (auto simp: same_reports_def evidence_kept_def)
  show "evidence_kept s u" if "evidence_kept s t" "mod_step t u" for t u
    using evidence_kept_trans [OF that(1)] mod_step_kept [OF that(2)] by blast
qed

text \<open>The two ways a row can go.\<close>

lemma moved_present: "rows_move s t \<Longrightarrow> rp_id ` set (reports s) \<subseteq> rp_id ` set (reports t)"
proof -
  assume "rows_move s t"
  then obtain g new where g: "reports t = map g (reports s) @ new" "\<forall>r. filed_as r (g r)"
    unfolding rows_move_def by blast
  have "rp_id (g r) = rp_id r" for r using g(2) by (simp add: filed_as_def)
  then have "rp_id ` g ` set (reports s) = rp_id ` set (reports s)" by (simp add: image_image)
  then show ?thesis by (simp add: g(1) image_Un)
qed

lemma unlink_id: "rp_id (unlink tg r) = rp_id r"
  by (simp add: unlink_def)

lemma row_gone:
  assumes "mod_step s t" "r \<in> set (reports s)" "rp_id r \<notin> rp_id ` set (reports t)"
  shows "(\<exists>ids. rp_id r \<in> set ids \<and> t = erase_reports ids s)
    \<or> (\<exists>tg. account_behind tg = Some (rp_reporter r) \<and> t = forget_target tg s)"
  using assms(1)
proof (cases rule: mod_step_cases)
  case safe
  then have "rp_id ` set (reports s) \<subseteq> rp_id ` set (reports t)" using moved_present by (simp add: report_safe_def)
  then show ?thesis using assms(2,3) by blast
next
  case (erased ids)
  then have "rp_id r \<in> set ids" using assms(2,3) by (auto simp: erase_reports_def)
  then show ?thesis using erased by blast
next
  case (forgot tg)
  have "account_behind tg = Some (rp_reporter r)"
  proof (rule ccontr)
    assume "account_behind tg \<noteq> Some (rp_reporter r)"
    then have "unlink tg r \<in> set (reports t)" using assms(2) by (simp add: forgot forget_target_def)
    then show False using assms(3) unlink_id by (metis imageI)
  qed
  then show ?thesis using forgot by blast
qed

end
