(* ===== verification/Report_Properties.thy ===== *)
theory Report_Properties
  imports Report_Laws
begin

text \<open>
  The properties of reports: one open report per reporter and target, evidence that stays, one decision for the
  whole pile, duplicates and their race, what a batch over one target does, and what a stranger cannot learn.
\<close>

section \<open>One open report\<close>

lemma at_most_one: "distinct xs \<Longrightarrow> (\<And>x y. x \<in> set xs \<Longrightarrow> y \<in> set xs \<Longrightarrow> x = y) \<Longrightarrow> length xs \<le> 1"
  by (cases xs; cases "tl xs") fastforce+

lemma id_determines: "tbl_ok rp_id rows \<Longrightarrow> r \<in> set rows \<Longrightarrow> q \<in> set rows \<Longrightarrow> rp_id r = rp_id q \<Longrightarrow> r = q"
  using inj_onD [of rp_id "set rows" r q] by (simp add: tbl_ok_def distinct_map)

lemma open_by_unique:
  assumes inv: "report_inv s" and rq: "r \<in> set (open_by a tg s)" "q \<in> set (open_by a tg s)"
  shows "r = q"
proof -
  have "r \<in> set (reports s)" "q \<in> set (reports s)" "same_slot r q"
    using rq by (simp_all add: open_by_def same_slot_def)
  then show ?thesis using report_invD(3) [OF inv] id_determines [OF report_invD(1) [OF inv]] by blast
qed

text \<open>
  Property C18. A reporter has at most one open report on a target, whatever was filed, reviewed, closed, retyped in
  the admin, taken down, erased or hard-deleted before, by moderators with rows however stale.
\<close>

theorem one_open_report:
  assumes "queue_start s" "mod_step\<^sup>*\<^sup>* s t"
  shows "length (open_by a tg t) \<le> 1"
proof (rule at_most_one)
  have inv: "report_inv t" by (rule queue.inv_reachable [OF assms])
  have "distinct (reports t)" using report_invD(1) [OF inv] by (simp add: tbl_ok_def distinct_map)
  then show "distinct (open_by a tg t)" by (simp add: open_by_def)
  show "r = q" if "r \<in> set (open_by a tg t)" "q \<in> set (open_by a tg t)" for r q
    by (rule open_by_unique [OF inv that])
qed

section \<open>Evidence\<close>

text \<open>
  Property C19. A report outlives its content. Along every run whatever row has the id of a filed report has its
  reporter, category, details and snapshot, and its target or none; and the row leaves the table by two acts
  only: an admin deletes that report, or the account that filed it is deleted for good. Nothing done to the reported
  content, its author or the other reports takes it away.
\<close>

theorem evidence_survives:
  assumes "queue_start s0" "mod_step\<^sup>*\<^sup>* s0 s" "r \<in> set (reports s)" "mod_step\<^sup>*\<^sup>* s t"
  shows "(\<forall>q \<in> set (reports t). rp_id q = rp_id r \<longrightarrow> filed_as r q)
    \<and> (\<forall>q \<in> set (reports t). \<forall>u. rp_id q = rp_id r \<and> mod_step t u \<and> rp_id r \<notin> rp_id ` set (reports u) \<longrightarrow>
         (\<exists>ids. rp_id r \<in> set ids \<and> u = erase_reports ids t)
         \<or> (\<exists>tg. account_behind tg = Some (rp_reporter r) \<and> u = forget_target tg t))"
proof -
  have inv: "report_inv s" by (rule queue.inv_reachable [OF assms(1,2)])
  have kept: "evidence_kept s t" by (rule evidence.inv_reachable [OF _ assms(4)]) (simp add: same_reports_def)
  have same: "filed_as r q" if q: "q \<in> set (reports t)" "rp_id q = rp_id r" for q
  proof -
    have "rp_id q < next_report s" using report_invD(2) [OF inv assms(3)] q(2) by simp
    then obtain p where p: "p \<in> set (reports s)" "filed_as p q" using kept q(1) unfolding evidence_kept_def by blast
    then have "rp_id p = rp_id r" using q(2) by (simp add: filed_as_def)
    then have "p = r" by (rule id_determines [OF report_invD(1) [OF inv] p(1) assms(3)])
    then show ?thesis using p(2) by simp
  qed
  have gone: "(\<exists>ids. rp_id r \<in> set ids \<and> u = erase_reports ids t)
      \<or> (\<exists>tg. account_behind tg = Some (rp_reporter r) \<and> u = forget_target tg t)"
    if "q \<in> set (reports t)" "rp_id q = rp_id r" "mod_step t u" "rp_id r \<notin> rp_id ` set (reports u)" for q u
    using row_gone [OF that(3,1)] that(2,4) same [OF that(1,2)] by (simp add: filed_as_def)
  show ?thesis by (intro conjI ballI allI impI) (erule (1) same, elim conjE, erule (3) gone)
qed

section \<open>Closing\<close>

lemma load_target_of: "load_target s tg = Some h \<Longrightarrow> target_of (h_row h) = tg"
  by (cases tg) (auto simp: load_target_def target_row_of_def dest: tbl_get_key)

definition closed_as :: "report \<Rightarrow> uid \<Rightarrow> instant \<Rightarrow> report_status \<Rightarrow> report_action \<Rightarrow> string \<Rightarrow> report \<Rightarrow> report" where
  "closed_as r staff now status action note q =
     q\<lparr>rp_status := status, rp_reviewed_by := Some staff, rp_reviewed_at := Some now, rp_action := action,
       rp_note := (if rp_id q \<noteq> rp_id r then ''Auto-resolved with report '' @ decimal (rp_id r)
                   else if note \<noteq> '''' then note else rp_note q)\<rparr>"

lemma save_closing:
  assumes "tbl_get rp_id (reports s) i \<noteq> None" "\<And>q. \<not> report_open (f q)"
  shows "save_report i f s = Inr (s\<lparr>reports := map (\<lambda>q. if rp_id q = i then f q else q) (reports s)\<rparr>)"
  using assms by (auto simp: save_report_def breaks_unique_def)

text \<open>
  Property C20. One decision clears the pile: closing an open report closes every open report on its target with
  the same mod_outcome, reviewer and time, the others with a note that names it, and touches no other row; a report
  that was closed before keeps its first decision.
\<close>

theorem closing_clears_the_pile:
  assumes "queue_start s0" "mod_step\<^sup>*\<^sup>* s0 s" "r \<in> set (reports s)" "report_open r" "rp_target r = Some tg"
    "load_target s tg = Some h" "status \<in> {ActionTaken, Dismissed}"
  shows "resolve_report r (Some h) staff now status action note s =
      Inr (True, s\<lparr>reports := map (\<lambda>q. if rp_target q = Some tg \<and> report_open q
        then closed_as r staff now status action note q else q) (reports s)\<rparr>)"
proof -
  have inv: "report_inv s" by (rule queue.inv_reachable [OF assms(1,2)])
  let ?f = "\<lambda>q. q\<lparr>rp_status := status, rp_reviewed_by := Some staff, rp_reviewed_at := Some now, rp_action := action,
    rp_note := (if note \<noteq> '''' then note else rp_note q)\<rparr>"
  have closed: "\<not> report_open (?f q)" for q using assms(7) by (auto simp: report_open_def open_report_statuses_def)
  have "tbl_get rp_id (reports s) (rp_id r) \<noteq> None" using assms(3) by (auto simp: tbl_get_None_iff)
  then have save: "save_report (rp_id r) ?f s
      = Inr (s\<lparr>reports := map (\<lambda>q. if rp_id q = rp_id r then ?f q else q) (reports s)\<rparr>)"
    by (rule save_closing [OF _ closed])
  have only: "q = r" if "q \<in> set (reports s)" "rp_id q = rp_id r" for q
    using id_determines [OF report_invD(1) [OF inv] that(1) assms(3) that(2)] .
  let ?g = "\<lambda>q. if rp_target q = Some tg \<and> report_open q \<and> rp_id q \<noteq> rp_id r
    then q\<lparr>rp_status := status, rp_action := action, rp_reviewed_by := Some staff, rp_reviewed_at := Some now,
      rp_note := ''Auto-resolved with report '' @ decimal (rp_id r)\<rparr> else q"
  let ?c = "\<lambda>q. if rp_target q = Some tg \<and> report_open q then closed_as r staff now status action note q else q"
  have row: "?g (if rp_id q = rp_id r then ?f q else q) = ?c q" if "q \<in> set (reports s)" for q
  proof (cases "rp_id q = rp_id r")
    case True
    then have "q = r" using only that by blast
    then show ?thesis using assms(4,5) by (simp add: closed_as_def)
  next
    case False
    then show ?thesis by (simp add: closed_as_def)
  qed
  have "map ?g (map (\<lambda>q. if rp_id q = rp_id r then ?f q else q) (reports s)) = map ?c (reports s)"
    unfolding map_map by (rule map_cong [OF refl]) (simp only: o_apply row)
  then have "resolve_siblings r (Some h) staff now status action
      (s\<lparr>reports := map (\<lambda>q. if rp_id q = rp_id r then ?f q else q) (reports s)\<rparr>) = s\<lparr>reports := map ?c (reports s)\<rparr>"
    unfolding resolve_siblings_def option.case load_target_of [OF assms(6)] by simp
  then show ?thesis using save assms(4) by (simp add: resolve_report_def)
qed

section \<open>Duplicates\<close>

lemma open_by_none: "open_by a tg s = [] \<Longrightarrow> q \<in> set (reports s) \<Longrightarrow> rp_reporter q = a \<Longrightarrow> rp_target q = Some tg \<Longrightarrow> \<not> report_open q"
  by (auto simp: open_by_def filter_empty_conv)

text \<open>What is in the table after a report was filed.\<close>

lemma filed_is_open:
  assumes inv: "report_inv s" and run: "create_report conf isoformat a h category details s = Inr (answer, t)"
  obtains q where "q \<in> set (open_by a (target_of (h_row h)) t)" "rp_id q = next_report s" "answer = payload q False"
    "next_report t = next_report s + 1"
proof -
  let ?r = "filed_row isoformat a h category details s" and ?tg = "target_of (h_row h)"
  note c = create_shape [OF run]
  have inv_t: "report_inv t" using create_report_safe [OF run] inv by (simp add: report_safe_def)
  define g where "g = (\<lambda>r. if category \<notin> set severe_categories \<and> rp_target r = Some ?tg \<and> report_open r
    \<and> priority_reporter_threshold \<le> length (remdups (map rp_reporter
        (filter (\<lambda>r. rp_target r = Some ?tg \<and> report_open r) (reports (with_report ?r s)))))
    then r\<lparr>rp_priority := True\<rparr> else r)"
  have rows: "reports t = map g (reports s @ [?r])" "next_report t = next_report s + 1"
    unfolding c(2) g_def
    by (auto simp: apply_reporter_threshold_def Let_def with_report_def alert_def mod_emit_def tbl_insert_def map_idI)
  have g: "rp_id (g ?r) = next_report s" "rp_reporter (g ?r) = a" "rp_target (g ?r) = Some ?tg" "report_open (g ?r)"
    by (simp_all add: g_def filed_row_def report_open_def open_report_statuses_def)
  have "g ?r \<in> set (reports t)" unfolding rows by simp
  moreover have "tbl_get rp_id (reports t) (next_report s) = Some (g ?r)"
    using calculation g(1) by (simp add: tbl_get_eq_Some [OF report_invD(1) [OF inv_t]])
  ultimately show ?thesis using that [of "g ?r"] c(3) g rows(2) by (simp add: open_by_def)
qed

lemma create_checked_fresh:
  assumes "validate_report (Some actor) category [h] s = Inr None" "open_by (identity_of actor) (target_of (h_row h)) s = []"
  shows "create_checked meanwhile conf isoformat (Some actor) category details [h] s =
    create_report conf isoformat (identity_of actor) h (the (category_of category))
      (take max_details_length (py_strip details)) (meanwhile s)"
  using assms by (simp add: create_checked_def Let_def)

text \<open>
  Property C21. Reporting the same thing again, under any category and with any words, is answered with the id,
  status and priority of the first report and writes nothing. When the second request had passed its check
  before the first one wrote, it is not answered so: the insert is refused by the unique index, and reading the
  first report inside the broken transaction raises.
\<close>

theorem duplicate_report_is_answered:
  assumes "queue_start s0" "mod_step\<^sup>*\<^sup>* s0 s" "target_of (h_row h') = target_of (h_row h)"
    "create_checked id conf isoformat (Some actor) category details [h] s = Inr (Filed i False status priority, t)"
    "validate_report (Some actor) category' [h'] t = Inr None" "validate_report (Some actor) category' [h'] s = Inr None"
  shows "create_checked id conf isoformat (Some actor) category' details' [h'] t = Inr (Filed i True status priority, t)
    \<and> create_checked (\<lambda>_. t) conf isoformat (Some actor) category' details' [h'] s = Inl TransactionManagementError"
proof -
  let ?a = "identity_of actor" and ?tg = "target_of (h_row h)"
  have inv: "report_inv s" by (rule queue.inv_reachable [OF assms(1,2)])
  have valid: "validate_report (Some actor) category [h] s = Inr None" and none: "open_by ?a ?tg s = []"
    using assms(4) by (auto simp: create_checked_def res_bind_eq_Inr Let_def payload_def split: option.splits list.splits)
  then have run: "create_report conf isoformat ?a h (the (category_of category))
      (take max_details_length (py_strip details)) s = Inr (Filed i False status priority, t)"
    using assms(4) create_checked_fresh [OF valid none, of id] by simp
  obtain q where q: "q \<in> set (open_by ?a ?tg t)" "rp_id q = next_report s"
      "Filed i False status priority = payload q False" "next_report t = next_report s + 1"
    using filed_is_open [OF inv run] by blast
  have inv_t: "report_inv t" using create_report_safe [OF run] inv by (simp add: report_safe_def)
  obtain p rest where pr: "open_by ?a ?tg t = p # rest" using q(1) by (cases "open_by ?a ?tg t") auto
  then have "p = q" using open_by_unique [OF inv_t, of p ?a ?tg q] q(1) by simp
  with pr have first: "open_by ?a ?tg t = q # rest" by simp
  have "create_checked id conf isoformat (Some actor) category' details' [h'] t = Inr (Filed i True status priority, t)"
    using assms(5) first q(3) assms(3) by (simp add: create_checked_def Let_def payload_def)
  moreover have "breaks_unique (filed_row isoformat ?a h' (the (category_of category'))
      (take max_details_length (py_strip details')) t) t"
    using q assms(3) unfolding breaks_unique_def list_ex_iff
    by (auto simp: filed_row_def report_open_def open_report_statuses_def open_by_def intro!: bexI [of _ q])
  then have "create_checked (\<lambda>_. t) conf isoformat (Some actor) category' details' [h'] s = Inl TransactionManagementError"
    using create_checked_fresh [OF assms(6), of "\<lambda>_. t"] none assms(3)
    by (simp add: create_report_def Let_def filed_row_def)
  ultimately show ?thesis by simp
qed

section \<open>What a stranger learns\<close>

definition hidden_from :: "identity \<Rightarrow> target \<Rightarrow> mod_state \<Rightarrow> bool" where
  "hidden_from a tg s \<longleftrightarrow> (case load_target s tg of
       None \<Rightarrow> True
     | Some h \<Rightarrow> author_of (h_row h) \<noteq> a \<and> (case h_row h of
           PostRow p \<Rightarrow> mpo_deleted p | CommentRow c \<Rightarrow> mcm_deleted c | RecruitmentRow r \<Rightarrow> mr_deleted r
         | MessageRow m \<Rightarrow> (mms_thread m, a) \<notin> set (m_participants s) | _ \<Rightarrow> False))"

text \<open>
  Property C40. The endpoint is no oracle: a post, comment or recruitment taken down, a message of a thread the
  reporter is not in and an id that never existed get the same answer, whatever category and text are sent.
\<close>

theorem no_report_oracle:
  assumes "hidden_from (identity_of actor) tg s"
  shows "create_by_target conf isoformat (Some actor) category details tg s =
    Inl (case report_form category details of Some e \<Rightarrow> e | None \<Rightarrow> target_not_found)"
proof (cases "report_form category details")
  case None
  then have "category_of category \<noteq> None" by (auto simp: report_form_def split: if_splits)
  then show ?thesis using assms None
    by (cases "load_target s tg")
      (auto simp: create_by_target_def hidden_from_def create_checked_def validate_report_def is_self_def
        require_visible_def split: target_row.splits)
qed (simp add: create_by_target_def)

section \<open>A batch over one comment\<close>

text \<open>The rows a loaded reply \<open>c\<close> and its post, counting \<open>k\<close>, are found in.\<close>

definition counted_for :: "mod_comment \<Rightarrow> nat \<Rightarrow> mod_state \<Rightarrow> bool" where
  "counted_for c k s \<longleftrightarrow> tbl_get mcm_id (m_comments s) (mcm_id c) \<noteq> None
     \<and> map_option mpo_comments (tbl_get mpo_id (m_posts s) (mcm_post c)) = Some k"

lemma reply_removed:
  assumes "mcm_parent c = Some parent" "\<not> mcm_deleted c" "counted_for c k s"
  obtains t where "take_down_comment c s = Inr (True, t)" "counted_for c (k - 1) t" "reports t = reports s"
proof -
  let ?rows = "map (\<lambda>q. if Some (mcm_id q) = mcm_parent c then q\<lparr>mcm_replies := mcm_replies q - 1\<rparr> else q)
    (map (\<lambda>q. if mcm_id q = mcm_id c then q\<lparr>mcm_deleted := True\<rparr> else q) (m_comments s))"
  let ?t = "s\<lparr>m_comments := ?rows,
    m_posts := map (\<lambda>p. if mpo_id p = mcm_post c then p\<lparr>mpo_comments := mpo_comments p - 1\<rparr> else p) (m_posts s)\<rparr>"
  have "take_down_comment c s = Inr (True, ?t)"
    using assms by (simp add: take_down_comment_def saved_def counted_for_def Let_def)
  moreover have "counted_for c (k - 1) ?t"
  proof -
    obtain z where z: "tbl_get mpo_id (m_posts s) (mcm_post c) = Some z" "mpo_comments z = k"
      using assms(3) by (auto simp: counted_for_def)
    have "tbl_get mpo_id (m_posts ?t) (mcm_post c) = Some (z\<lparr>mpo_comments := k - 1\<rparr>)"
      using z tbl_get_key [OF z(1)] by (simp add: tbl_get_map)
    moreover have "tbl_get mcm_id (m_comments ?t) (mcm_id c) \<noteq> None"
      using assms(3) by (simp add: counted_for_def tbl_get_map)
    ultimately show ?thesis by (simp add: counted_for_def)
  qed
  ultimately show ?thesis using that by simp
qed

definition tracked :: "(report \<times> held option) list \<Rightarrow> mod_state \<Rightarrow> bool" where
  "tracked sel s \<longleftrightarrow> (\<forall>(r, h) \<in> set sel. report_open r \<and> tbl_get rp_id (reports s) (rp_id r) \<noteq> None)"

lemma settle_closes:
  assumes "report_open r" "tbl_get rp_id (reports s) (rp_id r) \<noteq> None"
  obtains t where "settle r h staff now action note s = Inr ((True, None), t)" "m_comments t = m_comments s"
    "m_posts t = m_posts s" "map rp_id (reports t) = map rp_id (reports s)"
proof -
  let ?f = "\<lambda>q. q\<lparr>rp_status := ActionTaken, rp_reviewed_by := Some staff, rp_reviewed_at := Some now, rp_action := action,
    rp_note := (if note \<noteq> '''' then note else rp_note q)\<rparr>"
  let ?u = "s\<lparr>reports := map (\<lambda>q. if rp_id q = rp_id r then ?f q else q) (reports s)\<rparr>"
  have "save_report (rp_id r) ?f s = Inr ?u"
    by (rule save_closing [OF assms(2)]) (simp add: report_open_def open_report_statuses_def)
  then have "settle r h staff now action note s
      = Inr ((True, None), resolve_siblings r h staff now ActionTaken action ?u)"
    using assms(1) by (simp add: settle_def resolve_report_def)
  moreover have "map rp_id (reports (resolve_siblings r h staff now ActionTaken action ?u)) = map rp_id (reports s)"
    by (cases h) (auto simp: resolve_siblings_def comp_def)
  ultimately show ?thesis using that by (cases h) (simp_all add: resolve_siblings_def)
qed

lemma ids_found: "map rp_id rows = map rp_id rows' \<Longrightarrow> tbl_get rp_id rows k = None \<longleftrightarrow> tbl_get rp_id rows' k = None"
  unfolding tbl_get_None_iff by (metis list.set_map)

lemma removals_count:
  assumes "mcm_parent c = Some parent" "\<not> mcm_deleted c"
  shows "counted_for c k s \<Longrightarrow> tracked sel s \<Longrightarrow> \<forall>(r, h) \<in> set sel. map_option h_row h = Some (CommentRow c) \<Longrightarrow>
    \<exists>t. each_report (\<lambda>r h. remove_content r h staff now note) sel s = (replicate (length sel) (True, None), None, t)
      \<and> counted_for c (k - length sel) t"
proof (induction sel arbitrary: k s)
  case (Cons x sel)
  obtain r h where x: "x = (r, h)" by (cases x)
  obtain hh where h: "h = Some hh" "h_row hh = CommentRow c" using Cons.prems(3) x by auto
  obtain u where u: "take_down_comment c s = Inr (True, u)" "counted_for c (k - 1) u" "reports u = reports s"
    using reply_removed [OF assms Cons.prems(1)] by blast
  have r: "report_open r" "tbl_get rp_id (reports u) (rp_id r) \<noteq> None"
    using Cons.prems(2) u(3) x by (auto simp: tracked_def)
  obtain t where t: "settle r h staff now ContentRemoved note u = Inr ((True, None), t)" "m_comments t = m_comments u"
      "m_posts t = m_posts u" "map rp_id (reports t) = map rp_id (reports u)"
    using settle_closes [OF r] by blast
  have step: "remove_content r h staff now note s = Inr ((True, None), t)"
    using t(1) u(1) h by (simp add: remove_content_def soft_delete_def)
  have "counted_for c (k - 1) t" using u(2) t(2,3) by (simp add: counted_for_def)
  moreover have "tracked sel t"
    using Cons.prems(2) ids_found [OF t(4)] u(3) unfolding tracked_def by auto
  ultimately obtain w where w: "each_report (\<lambda>r h. remove_content r h staff now note) sel t
      = (replicate (length sel) (True, None), None, w)" "counted_for c (k - 1 - length sel) w"
    using Cons.IH [of "k - 1" t] Cons.prems(3) by auto
  then show ?case using step x by simp
qed (simp add: tracked_def)

text \<open>
  Property C22. "Remove content" over \<open>n\<close> selected reports of one reply removes one reply and takes \<open>n\<close> off the
  comment count of its post, reporting \<open>n\<close> removals: every row of the selection carries the comment as it was
  loaded, not yet deleted, and the first removal, which closed all of them, is not seen by the others.
\<close>

theorem batch_removal_counts_every_row:
  assumes "tbl_get mcm_id (m_comments s) cid = Some c" "mcm_parent c = Some parent" "\<not> mcm_deleted c"
    "tbl_get mpo_id (m_posts s) (mcm_post c) = Some p"
    "\<forall>r \<in> set (reports s). rp_id r \<in> set ids \<longrightarrow> report_open r \<and> rp_target r = Some (TComment cid)"
  shows "\<exists>t. enforce_batch (\<lambda>r h. remove_content r h staff now note) ids s
      = (replicate (length (load_selection ids s)) (True, None), None, t)
    \<and> map_option mpo_comments (tbl_get mpo_id (m_posts t) (mcm_post c))
      = Some (mpo_comments p - length (load_selection ids s))"
proof -
  have "mcm_id c = cid" using assms(1) by (rule tbl_get_key)
  then have "counted_for c (mpo_comments p) s" using assms(1,4) by (simp add: counted_for_def)
  moreover have "tracked (load_selection ids s) s"
    using assms(5) by (auto simp: tracked_def load_selection_def tbl_get_None_iff)
  moreover have "\<forall>(r, h) \<in> set (load_selection ids s). map_option h_row h = Some (CommentRow c)"
    using assms(1,5) by (auto simp: load_selection_def load_target_def target_row_of_def)
  ultimately obtain t where "each_report (\<lambda>r h. remove_content r h staff now note) (load_selection ids s) s
      = (replicate (length (load_selection ids s)) (True, None), None, t)"
      "counted_for c (mpo_comments p - length (load_selection ids s)) t"
    using removals_count [OF assms(2,3)] by blast
  then show ?thesis unfolding enforce_batch_def counted_for_def by blast
qed

section \<open>Witnesses\<close>

definition queue_user :: "uid \<Rightarrow> string \<Rightarrow> mod_user" where
  "queue_user u name = \<lparr>mu_id = u, mu_username = Some name, mu_profile = None, mu_role = ''player'', mu_created = 0,
     mu_active = True, mu_staff = False, mu_superuser = False\<rparr>"

definition demo_reply :: mod_comment where
  "demo_reply = \<lparr>mcm_id = 21, mcm_author = UserId 2, mcm_text = ''rude'', mcm_post = 10, mcm_parent = Some 20,
     mcm_replies = 0, mcm_deleted = False, mcm_created = 0\<rparr>"

definition reported_post :: mod_post where
  "reported_post = \<lparr>mpo_id = 10, mpo_author = UserId 3, mpo_content = ''match day'', mpo_media = [],
     mpo_visibility = ''public'', mpo_comments = 7, mpo_deleted = False, mpo_created = 0\<rparr>"

definition queue0 :: mod_state where
  "queue0 = \<lparr>m_users = [queue_user 1 ''asha'', queue_user 2 ''bilal'', queue_user 3 ''chris''], m_orgs = [],
     m_posts = [reported_post],
     m_comments = [demo_reply\<lparr>mcm_id := 20, mcm_parent := None, mcm_replies := 1\<rparr>, demo_reply],
     m_messages = [\<lparr>mms_id = 30, mms_sender = UserId 2, mms_content = ''hi'', mms_media = '''', mms_type = ''text'',
       mms_thread = 5, mms_deleted = False, mms_created = 0\<rparr>],
     m_recruitments = [], m_threads = [\<lparr>th_id = 5, th_last = Some 30, th_last_at = Some 0\<rparr>],
     m_participants = [(5, UserId 2), (5, UserId 3)], outstanding_tokens = [], blacklisted_tokens = [], reports = [],
     next_report = 0, m_effects = []\<rparr>"

definition demo_settings :: mod_settings where
  "demo_settings = \<lparr>site_admin_base_url = '''', moderation_alert_email = ''safety@goatza.com''\<rparr>"

definition reply_held :: held where
  "reply_held = \<lparr>h_row = CommentRow demo_reply, h_user = Some (queue_user 2 ''bilal''), h_org = None\<rparr>"

definition file_demo :: "uid \<Rightarrow> report_category \<Rightarrow> mod_state \<Rightarrow> mod_state" where
  "file_demo u c s = (case create_report demo_settings (\<lambda>_. ''now'') (UserId u) reply_held c ''bad words'' s of
     Inl _ \<Rightarrow> s | Inr (_, t) \<Rightarrow> t)"

definition queue1 :: mod_state where "queue1 = file_demo 1 Harassment queue0"
definition queue2 :: mod_state where "queue2 = file_demo 3 SelfHarm queue1"

lemma queue_starts: "queue_start queue0"
  by (simp add: queue_start_def queue0_def)

lemma first_filed:
  "create_checked id demo_settings (\<lambda>_. ''now'') (Some (UserActor 1)) ''harassment'' ''bad words'' [reply_held] queue0
    = Inr (Filed 0 False Pending False, queue1)"
  by code_simp

lemma filing_steps: "mod_step queue0 queue1" "mod_step queue1 queue2"
proof -
  have "create_report demo_settings (\<lambda>_. ''now'') (UserId 1) reply_held Harassment ''bad words'' queue0
      = Inr (Filed 0 False Pending False, queue1)" by code_simp
  then show "mod_step queue0 queue1" by (rule File)
  have "create_report demo_settings (\<lambda>_. ''now'') (UserId 3) reply_held SelfHarm ''bad words'' queue1
      = Inr (Filed 1 False Pending True, queue2)" by code_simp
  then show "mod_step queue1 queue2" by (rule File)
qed

lemma queue_run: "mod_step\<^sup>*\<^sup>* queue0 queue2"
  using filing_steps by (meson converse_rtranclp_into_rtranclp rtranclp.rtrancl_refl)

lemma queue2_rows:
  "map rp_id (reports queue2) = [0, 1] \<and> list_all report_open (reports queue2)
   \<and> list_all (\<lambda>r. rp_target r = Some (TComment 21)) (reports queue2)"
  by code_simp

theorem one_open_report_witness: "length (open_by (UserId 1) (TComment 21) queue2) \<le> 1 \<and> open_by (UserId 1) (TComment 21) queue2 \<noteq> []"
proof -
  have "open_by (UserId 1) (TComment 21) queue2 \<noteq> []" by code_simp
  then show ?thesis using one_open_report [OF queue_starts queue_run] by blast
qed

lemma forgotten_rows:
  "map rp_id (reports (forget_target (TComment 21) queue2)) = [0, 1]"
  "map rp_id (reports (forget_target (TUser 1) (forget_target (TComment 21) queue2))) = [1]"
  "map (\<lambda>r. (rp_id r, rp_reporter r)) (reports queue1) = [(0, UserId 1)]"
  by code_simp+

theorem evidence_survives_witness:
  "(\<exists>q \<in> set (reports (forget_target (TComment 21) queue2)). filed_as (hd (reports queue1)) q)
   \<and> ((\<exists>ids. 0 \<in> set ids \<and> forget_target (TUser 1) (forget_target (TComment 21) queue2)
           = erase_reports ids (forget_target (TComment 21) queue2))
      \<or> (\<exists>tg. account_behind tg = Some (UserId 1) \<and> forget_target (TUser 1) (forget_target (TComment 21) queue2)
           = forget_target tg (forget_target (TComment 21) queue2)))"
proof -
  let ?r = "hd (reports queue1)" and ?t = "forget_target (TComment 21) queue2"
  have run: "mod_step\<^sup>*\<^sup>* queue0 queue1" "mod_step\<^sup>*\<^sup>* queue1 ?t"
    using filing_steps Forget by (meson converse_rtranclp_into_rtranclp rtranclp.rtrancl_refl)+
  have r: "?r \<in> set (reports queue1)" "rp_id ?r = 0" "rp_reporter ?r = UserId 1"
    using forgotten_rows(3) by (auto simp: map_eq_Cons_conv)
  obtain q where q: "q \<in> set (reports ?t)" "rp_id q = 0" 
    using forgotten_rows(1) by (metis imageE list.set_intros(1) list.set_map)
  have "0 \<notin> rp_id ` set (reports (forget_target (TUser 1) ?t))"
    unfolding set_map [symmetric] forgotten_rows(2) by simp
  then show ?thesis
    using evidence_survives [OF queue_starts run(1) r(1) run(2)] q r Forget [of ?t "TUser 1"] by auto
qed

theorem closing_clears_the_pile_witness:
  "resolve_report (hd (reports queue2)) (Some reply_held) 9 100 Dismissed NoAction '''' queue2 =
    Inr (True, queue2\<lparr>reports := map (\<lambda>q. if rp_target q = Some (TComment 21) \<and> report_open q
      then closed_as (hd (reports queue2)) 9 100 Dismissed NoAction '''' q else q) (reports queue2)\<rparr>)"
proof (rule closing_clears_the_pile [OF queue_starts queue_run])
  have "reports queue2 \<noteq> []" using queue2_rows by auto
  then show "hd (reports queue2) \<in> set (reports queue2)" "report_open (hd (reports queue2))"
      "rp_target (hd (reports queue2)) = Some (TComment 21)"
    using queue2_rows by (auto simp: list_all_iff)
  show "load_target queue2 (TComment 21) = Some reply_held" by code_simp
qed simp

theorem duplicate_report_is_answered_witness:
  "create_checked id demo_settings (\<lambda>_. ''now'') (Some (UserActor 1)) ''spam'' '''' [reply_held] queue1
      = Inr (Filed 0 True Pending False, queue1)
   \<and> create_checked (\<lambda>_. queue1) demo_settings (\<lambda>_. ''now'') (Some (UserActor 1)) ''spam'' '''' [reply_held] queue0
      = Inl TransactionManagementError"
proof -
  have "validate_report (Some (UserActor 1)) ''spam'' [reply_held] queue1 = Inr None"
    "validate_report (Some (UserActor 1)) ''spam'' [reply_held] queue0 = Inr None" by code_simp+
  then show ?thesis
    using duplicate_report_is_answered [OF queue_starts rtranclp.rtrancl_refl refl first_filed] by blast
qed

theorem no_report_oracle_witness:
  "create_by_target demo_settings (\<lambda>_. ''now'') (Some (UserActor 1)) ''spam'' ''x'' (TMessage 30) queue2
    = Inl target_not_found"
proof -
  have "hidden_from (identity_of (UserActor 1)) (TMessage 30) queue2" "report_form ''spam'' ''x'' = None"
    by code_simp+
  then show ?thesis using no_report_oracle [of "UserActor 1" "TMessage 30" queue2] by simp
qed

theorem batch_removal_counts_every_row_witness:
  "\<exists>t. enforce_batch (\<lambda>r h. remove_content r h 9 100 '''') [0, 1] queue2
      = ([(True, None), (True, None)], None, t) \<and> map_option mpo_comments (tbl_get mpo_id (m_posts t) 10) = Some 5"
proof -
  have "length (load_selection [0, 1] queue2) = 2" by code_simp
  moreover
  have "tbl_get mcm_id (m_comments queue2) 21 = Some demo_reply" "tbl_get mpo_id (m_posts queue2) (mcm_post demo_reply) = Some reported_post"
    by code_simp+
  moreover have "\<forall>r \<in> set (reports queue2). rp_id r \<in> set [0, 1] \<longrightarrow> report_open r \<and> rp_target r = Some (TComment 21)"
    using queue2_rows by (auto simp: list_all_iff)
  ultimately show ?thesis
    using batch_removal_counts_every_row [of queue2 21 demo_reply 20 reported_post "[0, 1]" 9 100 "''''"]
    by (simp add: demo_reply_def reported_post_def numeral_2_eq_2)
qed

end
