(* ===== verification/Messaging.thy ===== *)
theory Messaging
  imports Recruitment_Model Media_Model
begin

text \<open>
  Direct conversations: \<open>apps/messaging/services/conversation_service.py\<close>, \<open>message_service.py\<close>,
  \<open>share_service.py\<close>, the rules of \<open>selectors/share_selectors.py\<close>, and the recruitment side that writes into
  them, \<open>apps/recruitments/services/recruitment_message_service.py\<close>.

  The two nullable owner columns of a participant, a sender and a creator are an \<open>identity\<close>. A conversation's
  rows keep the order of their ids. What goes to sockets, push and the feed's affinity is a list of effects; one
  request reads one clock. The cache fill of a block lookup is left out here (\<open>Social_Laws\<close> has it exact).
\<close>

section \<open>Rows\<close>

datatype conversation_status = ActiveThread | RequestedThread | BlockedThread

record conversation =
  cv_id :: nat
  cv_direct :: bool
  cv_pair_key :: "string option"
  cv_status :: conversation_status
  cv_created_by :: identity
  cv_last :: "nat option"
  cv_last_at :: "instant option"

record participant =
  pt_conversation :: nat
  pt_who :: identity
  pt_accepted :: bool
  pt_read_at :: "instant option"

datatype message_type =
  TextMessage | ImageMessage | VideoMessage | SystemMessage | SharedPost | SharedRecruitment | SharedUserProfile
  | SharedOrgProfile

text \<open>The columns a type adds: what is shared, or the file.\<close>

record message_fields =
  mf_shared :: "(message_type \<times> nat) option"
  mf_url :: string
  mf_public_id :: string
  mf_thumbnail :: string
  mf_width :: "int option"
  mf_height :: "int option"
  mf_duration :: "int option"
  mf_size :: "int option"

definition no_fields :: message_fields where
  "no_fields = \<lparr>mf_shared = None, mf_url = '''', mf_public_id = '''', mf_thumbnail = '''', mf_width = None,
     mf_height = None, mf_duration = None, mf_size = None\<rparr>"

record chat_message =
  ms_id :: nat
  ms_conversation :: nat
  ms_sender :: identity
  ms_type :: message_type
  ms_content :: string
  ms_fields :: message_fields
  ms_deleted :: bool
  ms_created :: instant

record chat_user =
  cu_id :: uid
  cu_username :: "string option"
  cu_active :: bool
  cu_deletion_requested :: "instant option"

record chat_org =
  co_id :: oid
  co_active :: bool
  co_suspended :: bool

datatype post_visibility = PostPublic | PostFollowers

record shared_post =
  sp_id :: nat
  sp_author :: identity
  sp_visibility :: post_visibility
  sp_deleted :: bool

datatype chat_effect =
  ChatMessage nat nat
| ConversationUpdated identity nat
| MessageDeleted nat nat
| ConversationRead nat identity instant
| PushMessage nat
| MessageAffinity uid identity

record chat_state =
  chat_social :: social
  chat_users :: "chat_user list"
  chat_orgs :: "chat_org list"
  chat_posts :: "shared_post list"
  chat_recruitments :: "recruitment list"
  conversations :: "conversation list"
  next_conversation :: nat
  participants :: "participant list"
  messages :: "chat_message list"
  next_message :: nat
  chat_effects :: "chat_effect list"

definition members_of :: "nat \<Rightarrow> chat_state \<Rightarrow> participant list" where
  "members_of c s = filter (\<lambda>p. pt_conversation p = c) (participants s)"

section \<open>Opening a conversation\<close>

text \<open>Python's order of strings, by code points.\<close>

fun str_le :: "string \<Rightarrow> string \<Rightarrow> bool" where
  "str_le [] d = True"
| "str_le (a # c) [] = False"
| "str_le (a # c) (b # d) = (if a = b then str_le c d else (of_char a :: nat) < of_char b)"

definition actor_key :: "identity \<Rightarrow> string" where
  "actor_key i = (case i of UserId u \<Rightarrow> ''user:'' @ decimal u | OrgId oi \<Rightarrow> ''org:'' @ decimal oi)"

definition generate_pair_key :: "identity \<Rightarrow> identity \<Rightarrow> string" where
  "generate_pair_key a t =
     (let x = actor_key a; y = actor_key t in if str_le x y then x @ ''__'' @ y else y @ ''__'' @ x)"

definition existing_conversation :: "identity \<Rightarrow> identity \<Rightarrow> chat_state \<Rightarrow> conversation option" where
  "existing_conversation a t s =
     find (\<lambda>c. cv_direct c \<and> length (members_of (cv_id c) s) = 2
             \<and> a \<in> pt_who ` set (members_of (cv_id c) s) \<and> t \<in> pt_who ` set (members_of (cv_id c) s)) (conversations s)"

definition set_accepted :: "nat \<Rightarrow> identity \<Rightarrow> chat_state \<Rightarrow> chat_state" where
  "set_accepted c i s =
     s\<lparr>participants := map (\<lambda>p. if pt_conversation p = c \<and> pt_who p = i then p\<lparr>pt_accepted := True\<rparr> else p)
                          (participants s)\<rparr>"

definition set_active :: "nat \<Rightarrow> chat_state \<Rightarrow> chat_state" where
  "set_active c s =
     s\<lparr>conversations := map (\<lambda>x. if cv_id x = c then x\<lparr>cv_status := ActiveThread\<rparr> else x) (conversations s)\<rparr>"

definition lift_to_active :: "conversation \<Rightarrow> identity \<Rightarrow> chat_state \<Rightarrow> chat_state" where
  "lift_to_active c t s =
     (if cv_status c \<noteq> RequestedThread then s else set_accepted (cv_id c) t (set_active (cv_id c) s))"

definition create_participants :: "nat \<Rightarrow> identity \<Rightarrow> identity \<Rightarrow> bool \<Rightarrow> chat_state \<Rightarrow> chat_state" where
  "create_participants c a t is_active s =
     s\<lparr>participants := participants s @
         [\<lparr>pt_conversation = c, pt_who = a, pt_accepted = True, pt_read_at = None\<rparr>,
          \<lparr>pt_conversation = c, pt_who = t, pt_accepted = is_active, pt_read_at = None\<rparr>]\<rparr>"

definition create_conversation :: "identity \<Rightarrow> identity \<Rightarrow> bool \<Rightarrow> chat_state \<Rightarrow> nat \<times> chat_state" where
  "create_conversation a t force s =
     (let key = generate_pair_key a t
      in case find (\<lambda>c. cv_pair_key c = Some key) (conversations s) of
           Some c \<Rightarrow> (cv_id c, if force then lift_to_active c t s else s)
         | None \<Rightarrow>
             let is_active = (force \<or> is_mutual_follow (chat_social s) a t);
                 c = next_conversation s;
                 row = \<lparr>cv_id = c, cv_direct = True, cv_pair_key = Some key,
                        cv_status = (if is_active then ActiveThread else RequestedThread), cv_created_by = a,
                        cv_last = None, cv_last_at = None\<rparr>
             in (c, create_participants c a t is_active
                      (s\<lparr>conversations := tbl_insert row (conversations s), next_conversation := c + 1\<rparr>)))"

definition get_or_create_conversation ::
  "identity \<Rightarrow> identity \<Rightarrow> bool \<Rightarrow> chat_state \<Rightarrow> (nat \<times> bool \<times> chat_state) result" where
  "get_or_create_conversation a t force s =
     res_bind (require_not_blocked (chat_social s) (Some (as_actor a)) (Some t)) (\<lambda>_.
       case existing_conversation a t s of
         Some c \<Rightarrow> Inr (cv_id c, False, if force then lift_to_active c t s else s)
       | None \<Rightarrow> (case create_conversation a t force s of (c, s) \<Rightarrow> Inr (c, True, s)))"

definition is_participant :: "nat \<Rightarrow> identity \<Rightarrow> chat_state \<Rightarrow> bool" where
  "is_participant c i s \<longleftrightarrow> list_ex (\<lambda>p. pt_who p = i) (members_of c s)"

definition accept_conversation :: "nat \<Rightarrow> identity \<Rightarrow> chat_state \<Rightarrow> chat_state result" where
  "accept_conversation c a s =
     (if \<not> is_participant c a s then Inl (PyException ''Not a participant'')
      else Inr (set_active c (set_accepted c a s)))"

definition chat_emit :: "chat_effect list \<Rightarrow> chat_state \<Rightarrow> chat_state" where
  "chat_emit es s = s\<lparr>chat_effects := chat_effects s @ es\<rparr>"

definition mark_as_read :: "nat \<Rightarrow> identity \<Rightarrow> instant \<Rightarrow> chat_state \<Rightarrow> chat_state result" where
  "mark_as_read c a now s =
     (if \<not> is_participant c a s then Inl (PyException ''Participant not found'')
      else Inr (chat_emit [ConversationRead c a now]
        (s\<lparr>participants := map (\<lambda>p. if pt_conversation p = c \<and> pt_who p = a then p\<lparr>pt_read_at := Some now\<rparr> else p)
                             (participants s)\<rparr>)))"

section \<open>Who may see what\<close>

definition viewer_blocked :: "identity option \<Rightarrow> identity \<Rightarrow> chat_state \<Rightarrow> bool" where
  "viewer_blocked v i s =
     (let (users, orgs) = fst (blocked_ids (chat_social s) (map_option as_actor v))
      in case i of UserId u \<Rightarrow> u \<in> users | OrgId oi \<Rightarrow> oi \<in> orgs)"

definition viewer_follows :: "identity option \<Rightarrow> identity \<Rightarrow> chat_state \<Rightarrow> bool" where
  "viewer_follows v i s = (case v of None \<Rightarrow> False | Some a \<Rightarrow> (a, i) \<in> set (follow_rows (chat_social s)))"

definition org_is_reachable :: "chat_org option \<Rightarrow> bool" where
  "org_is_reachable x = (case x of None \<Rightarrow> False | Some x \<Rightarrow> co_active x \<and> \<not> co_suspended x)"

definition is_deleted_account :: "chat_user \<Rightarrow> bool" where
  "is_deleted_account u \<longleftrightarrow> cu_deletion_requested u \<noteq> None \<or> (\<not> cu_active u \<and> cu_username u \<in> {None, Some ''''})"

definition counterpart_unavailable_reason :: "identity \<Rightarrow> chat_state \<Rightarrow> string option" where
  "counterpart_unavailable_reason i s = (case i of
       UserId u \<Rightarrow> (case tbl_get cu_id (chat_users s) u of
           None \<Rightarrow> Some ''This account has been deleted.''
         | Some x \<Rightarrow> if is_deleted_account x then Some ''This account has been deleted.''
                     else if cu_active x then None else Some ''This account is no longer active.'')
     | OrgId oi \<Rightarrow> (case tbl_get co_id (chat_orgs s) oi of
           None \<Rightarrow> Some ''This account has been deleted.''
         | x \<Rightarrow> if org_is_reachable x then None else Some ''This organization is no longer active.''))"

definition is_post_shareable :: "shared_post option \<Rightarrow> identity option \<Rightarrow> chat_state \<Rightarrow> bool" where
  "is_post_shareable po v s = (case po of
       None \<Rightarrow> False
     | Some p \<Rightarrow>
         if sp_deleted p then False
         else if (case sp_author p of
                    UserId u \<Rightarrow> (case tbl_get cu_id (chat_users s) u of None \<Rightarrow> True | Some x \<Rightarrow> \<not> cu_active x)
                  | OrgId oi \<Rightarrow> \<not> org_is_reachable (tbl_get co_id (chat_orgs s) oi)) then False
         else if viewer_blocked v (sp_author p) s then False
         else (case sp_visibility p of
                 PostPublic \<Rightarrow> True
               | PostFollowers \<Rightarrow> v = Some (sp_author p) \<or> viewer_follows v (sp_author p) s))"

definition is_recruitment_visible_to :: "recruitment \<Rightarrow> identity option \<Rightarrow> chat_state \<Rightarrow> bool" where
  "is_recruitment_visible_to r v s =
     (let owner = OrgId (rec_org r)
      in if \<not> org_is_reachable (tbl_get co_id (chat_orgs s) (rec_org r)) then False
         else if viewer_blocked v owner s then False
         else if v = Some owner then True
         else (case rec_visibility r of Public \<Rightarrow> True | FollowersOnly \<Rightarrow> viewer_follows v owner s | Private \<Rightarrow> False))"

definition can_view_shared_recruitment :: "recruitment option \<Rightarrow> identity option \<Rightarrow> chat_state \<Rightarrow> bool" where
  "can_view_shared_recruitment ro v s = (case ro of
       None \<Rightarrow> False
     | Some r \<Rightarrow> \<not> rec_is_deleted r \<and> rec_status r \<in> {Active, Closed} \<and> is_recruitment_visible_to r v s)"

definition can_share_recruitment :: "instant \<Rightarrow> recruitment option \<Rightarrow> identity option \<Rightarrow> chat_state \<Rightarrow> bool" where
  "can_share_recruitment now ro v s = (case ro of
       None \<Rightarrow> False
     | Some r \<Rightarrow> \<not> rec_is_deleted r \<and> rec_status r = Active \<and> is_accepting_applications now r \<and> \<not> rec_trial_over now r
         \<and> is_recruitment_visible_to r v s)"

definition is_user_profile_shareable :: "chat_user option \<Rightarrow> identity option \<Rightarrow> chat_state \<Rightarrow> bool" where
  "is_user_profile_shareable x v s = (case x of
       None \<Rightarrow> False
     | Some u \<Rightarrow> cu_active u \<and> cu_username u \<notin> {None, Some ''''} \<and> \<not> viewer_blocked v (UserId (cu_id u)) s)"

definition is_org_profile_shareable :: "chat_org option \<Rightarrow> identity option \<Rightarrow> chat_state \<Rightarrow> bool" where
  "is_org_profile_shareable x v s = (case x of
       None \<Rightarrow> False | Some b \<Rightarrow> org_is_reachable x \<and> \<not> viewer_blocked v (OrgId (co_id b)) s)"

section \<open>Sending\<close>

definition validate_sender :: "nat \<Rightarrow> identity \<Rightarrow> chat_state \<Rightarrow> unit result" where
  "validate_sender c a s = (if is_participant c a s then Inr () else Inl (MessageError ''not_a_participant''))"

definition validate_counterpart_available :: "nat \<Rightarrow> identity \<Rightarrow> chat_state \<Rightarrow> unit result" where
  "validate_counterpart_available c a s =
     (let others = filter (\<lambda>p. pt_who p \<noteq> a) (members_of c s)
      in if others = [] \<or> list_ex (\<lambda>p. counterpart_unavailable_reason (pt_who p) s \<noteq> None) others
         then Inl (MessageError ''counterpart_unavailable'') else Inr ())"

definition validate_not_blocked :: "nat \<Rightarrow> identity \<Rightarrow> chat_state \<Rightarrow> unit result" where
  "validate_not_blocked c a s =
     (if list_ex (\<lambda>p. pt_who p \<noteq> a \<and> is_blocked (chat_social s) (Some (as_actor a)) (Some (pt_who p))) (members_of c s)
      then Inl (MessageError ''blocked'') else Inr ())"

definition update_conversation :: "nat \<Rightarrow> nat \<Rightarrow> instant \<Rightarrow> chat_state \<Rightarrow> chat_state" where
  "update_conversation c m now s =
     s\<lparr>conversations := map (\<lambda>x. if cv_id x = c then x\<lparr>cv_last := Some m, cv_last_at := Some now\<rparr> else x)
                          (conversations s)\<rparr>"

definition realtime_effects :: "nat \<Rightarrow> nat \<Rightarrow> chat_state \<Rightarrow> chat_effect list" where
  "realtime_effects c m s = ChatMessage c m # map (\<lambda>p. ConversationUpdated (pt_who p) c) (members_of c s)"

text \<open>Affinity is a person's; their own identity is skipped.\<close>

definition affinity_effects :: "nat \<Rightarrow> identity \<Rightarrow> chat_state \<Rightarrow> chat_effect list" where
  "affinity_effects c a s = (case a of
       OrgId _ \<Rightarrow> []
     | UserId u \<Rightarrow> map (\<lambda>p. MessageAffinity u (pt_who p)) (filter (\<lambda>p. pt_who p \<noteq> a) (members_of c s)))"

definition create_and_dispatch ::
  "instant \<Rightarrow> nat \<Rightarrow> identity \<Rightarrow> message_type \<Rightarrow> string \<Rightarrow> message_fields \<Rightarrow> chat_state \<Rightarrow> (nat \<times> chat_state) result" where
  "create_and_dispatch now c a kind content extra s =
     res_bind (validate_sender c a s) (\<lambda>_.
     res_bind (validate_counterpart_available c a s) (\<lambda>_.
     res_bind (validate_not_blocked c a s) (\<lambda>_.
       let m = next_message s;
           row = \<lparr>ms_id = m, ms_conversation = c, ms_sender = a, ms_type = kind, ms_content = content,
                  ms_fields = extra, ms_deleted = False, ms_created = now\<rparr>;
           s = update_conversation c m now (s\<lparr>messages := tbl_insert row (messages s), next_message := m + 1\<rparr>)
       in Inr (m, chat_emit (realtime_effects c m s @ [PushMessage m] @ affinity_effects c a s) s))))"

definition send_message :: "instant \<Rightarrow> nat \<Rightarrow> identity \<Rightarrow> string \<Rightarrow> message_type \<Rightarrow> chat_state \<Rightarrow> (nat \<times> chat_state) result" where
  "send_message now c a content kind s =
     (if kind = TextMessage \<and> py_strip content = '''' then Inl (MessageError ''empty_message'')
      else create_and_dispatch now c a kind content no_fields s)"

definition send_shared_post ::
  "instant \<Rightarrow> nat \<Rightarrow> identity \<Rightarrow> shared_post option \<Rightarrow> string \<Rightarrow> chat_state \<Rightarrow> (nat \<times> chat_state) result" where
  "send_shared_post now c a po note s =
     (if \<not> is_post_shareable po (Some a) s then Inl (MessageError ''content_unavailable'')
      else create_and_dispatch now c a SharedPost note
             (no_fields\<lparr>mf_shared := map_option (\<lambda>p. (SharedPost, sp_id p)) po\<rparr>) s)"

definition send_shared_recruitment ::
  "instant \<Rightarrow> nat \<Rightarrow> identity \<Rightarrow> recruitment option \<Rightarrow> string \<Rightarrow> chat_state \<Rightarrow> (nat \<times> chat_state) result" where
  "send_shared_recruitment now c a ro note s =
     (if \<not> can_view_shared_recruitment ro (Some a) s then Inl (MessageError ''content_unavailable'')
      else create_and_dispatch now c a SharedRecruitment note
             (no_fields\<lparr>mf_shared := map_option (\<lambda>r. (SharedRecruitment, rec_id r)) ro\<rparr>) s)"

definition send_shared_user_profile ::
  "instant \<Rightarrow> nat \<Rightarrow> identity \<Rightarrow> chat_user option \<Rightarrow> string \<Rightarrow> chat_state \<Rightarrow> (nat \<times> chat_state) result" where
  "send_shared_user_profile now c a uo note s =
     (if \<not> is_user_profile_shareable uo (Some a) s then Inl (MessageError ''content_unavailable'')
      else create_and_dispatch now c a SharedUserProfile note
             (no_fields\<lparr>mf_shared := map_option (\<lambda>u. (SharedUserProfile, cu_id u)) uo\<rparr>) s)"

definition send_shared_org_profile ::
  "instant \<Rightarrow> nat \<Rightarrow> identity \<Rightarrow> chat_org option \<Rightarrow> string \<Rightarrow> chat_state \<Rightarrow> (nat \<times> chat_state) result" where
  "send_shared_org_profile now c a oo note s =
     (if \<not> is_org_profile_shareable oo (Some a) s then Inl (MessageError ''content_unavailable'')
      else create_and_dispatch now c a SharedOrgProfile note
             (no_fields\<lparr>mf_shared := map_option (\<lambda>x. (SharedOrgProfile, co_id x)) oo\<rparr>) s)"

section \<open>Chat files\<close>

definition chat_image_extensions :: "string list" where "chat_image_extensions = [''jpg'', ''jpeg'', ''png'', ''webp'']"
definition chat_image_max_bytes :: int where "chat_image_max_bytes = 10 * 1024 * 1024"
definition chat_video_extensions :: "string list" where "chat_video_extensions = [''mp4'', ''webm'']"
definition chat_video_max_bytes :: int where "chat_video_max_bytes = 100 * 1024 * 1024"
definition chat_video_max_duration_ms :: int where "chat_video_max_duration_ms = 90 * 1000"

definition invalid_media :: error where "invalid_media = MessageError ''invalid_media''"

definition chat_media_prefix :: "identity \<Rightarrow> string" where
  "chat_media_prefix a = (case a of
       UserId u \<Rightarrow> ''chat/users/'' @ decimal u @ ''/'' | OrgId oi \<Rightarrow> ''chat/organizations/'' @ decimal oi @ ''/'')"

definition validate_chat_media_url :: "string \<Rightarrow> identity \<Rightarrow> string \<Rightarrow> string \<Rightarrow> string list \<Rightarrow> unit result" where
  "validate_chat_media_url base a url public_id allowed =
     (if url = '''' \<or> \<not> is_valid_media_url base url then Inl invalid_media
      else if is_source_key public_id then Inl invalid_media
      else case get_file_extension url of
        Inl e \<Rightarrow> Inl (ValueError e)
      | Inr ext \<Rightarrow>
          if ext \<notin> set allowed then Inl invalid_media
          else if public_id = '''' \<or> \<not> startswith public_id (chat_media_prefix a) then Inl invalid_media
          else if extract_key_from_url base url \<noteq> public_id then Inl invalid_media
          else Inr ())"

definition validate_chat_thumbnail :: "string \<Rightarrow> identity \<Rightarrow> string \<Rightarrow> string \<Rightarrow> unit result" where
  "validate_chat_thumbnail base a thumbnail public_id =
     res_bind (validate_chat_media_url base a thumbnail (extract_key_from_url base thumbnail) chat_image_extensions)
       (\<lambda>_. if \<not> same_storage_folder (extract_key_from_url base thumbnail) public_id then Inl invalid_media
            else Inr ())"

definition over :: "int option \<Rightarrow> int \<Rightarrow> bool" where
  "over v limit = (case v of None \<Rightarrow> False | Some n \<Rightarrow> n > limit)"

definition validate_chat_image :: "string \<Rightarrow> identity \<Rightarrow> string \<Rightarrow> string \<Rightarrow> int option \<Rightarrow> unit result" where
  "validate_chat_image base a url public_id bytes =
     res_bind (validate_chat_media_url base a url public_id chat_image_extensions)
       (\<lambda>_. if over bytes chat_image_max_bytes then Inl invalid_media else Inr ())"

definition validate_chat_video :: "string \<Rightarrow> identity \<Rightarrow> string \<Rightarrow> string \<Rightarrow> int option \<Rightarrow> int option \<Rightarrow> unit result" where
  "validate_chat_video base a url public_id bytes duration =
     res_bind (validate_chat_media_url base a url public_id chat_video_extensions)
       (\<lambda>_. if over bytes chat_video_max_bytes then Inl invalid_media
            else if over duration chat_video_max_duration_ms then Inl invalid_media else Inr ())"

record chat_upload =
  up_url :: string
  up_public_id :: string
  up_thumbnail :: string
  up_width :: "int option"
  up_height :: "int option"
  up_duration :: "int option"
  up_size :: "int option"
  up_caption :: string

definition upload_fields :: "chat_upload \<Rightarrow> message_fields" where
  "upload_fields up =
     \<lparr>mf_shared = None, mf_url = up_url up, mf_public_id = up_public_id up, mf_thumbnail = py_strip (up_thumbnail up),
      mf_width = clamp_int (up_width up) max_dimension, mf_height = clamp_int (up_height up) max_dimension,
      mf_duration = up_duration up, mf_size = up_size up\<rparr>"

definition send_image_message ::
  "string \<Rightarrow> instant \<Rightarrow> nat \<Rightarrow> identity \<Rightarrow> chat_upload \<Rightarrow> chat_state \<Rightarrow> (nat \<times> chat_state) result" where
  "send_image_message base now c a up s =
     res_bind (validate_chat_image base a (up_url up) (up_public_id up) (up_size up)) (\<lambda>_.
     res_bind (if py_strip (up_thumbnail up) = '''' then Inr ()
               else validate_chat_thumbnail base a (py_strip (up_thumbnail up)) (up_public_id up)) (\<lambda>_.
       create_and_dispatch now c a ImageMessage (up_caption up) ((upload_fields up)\<lparr>mf_duration := None\<rparr>) s))"

definition send_video_message ::
  "string \<Rightarrow> instant \<Rightarrow> nat \<Rightarrow> identity \<Rightarrow> chat_upload \<Rightarrow> chat_state \<Rightarrow> (nat \<times> chat_state) result" where
  "send_video_message base now c a up s =
     res_bind (validate_chat_video base a (up_url up) (up_public_id up) (up_size up) (up_duration up)) (\<lambda>_.
     res_bind (if py_strip (up_thumbnail up) = '''' then Inl invalid_media
               else validate_chat_thumbnail base a (py_strip (up_thumbnail up)) (up_public_id up)) (\<lambda>_.
       create_and_dispatch now c a VideoMessage (up_caption up) (upload_fields up) s))"

section \<open>Unsending\<close>

definition newest_message :: "nat \<Rightarrow> chat_message list \<Rightarrow> chat_message option" where
  "newest_message c rows =
     (case sort_key (\<lambda>m. - ms_created m) (filter (\<lambda>m. ms_conversation m = c \<and> \<not> ms_deleted m) rows) of
        [] \<Rightarrow> None | m # _ \<Rightarrow> Some m)"

definition apply_delete :: "chat_message \<Rightarrow> chat_state \<Rightarrow> chat_state" where
  "apply_delete m s =
     (let c = ms_conversation m;
          rows = map (\<lambda>x. if ms_id x = ms_id m then x\<lparr>ms_deleted := True\<rparr> else x) (messages s);
          previous = newest_message c rows;
          s = s\<lparr>messages := rows,
               conversations := map (\<lambda>x. if cv_id x = c \<and> cv_last x = Some (ms_id m)
                   then x\<lparr>cv_last := map_option ms_id previous, cv_last_at := map_option ms_created previous\<rparr> else x)
                 (conversations s)\<rparr>
      in chat_emit (MessageDeleted c (ms_id m) # map (\<lambda>p. ConversationUpdated (pt_who p) c) (members_of c s)) s)"

definition delete_message :: "nat \<Rightarrow> nat \<Rightarrow> identity \<Rightarrow> chat_state \<Rightarrow> (nat \<times> chat_state) result" where
  "delete_message c mid a s =
     (case find (\<lambda>m. ms_id m = mid \<and> ms_conversation m = c \<and> \<not> ms_deleted m) (messages s) of
        None \<Rightarrow> Inl (MessageError ''message_not_found'')
      | Some m \<Rightarrow> if ms_sender m \<noteq> a then Inl (MessageError ''not_message_sender'')
                  else Inr (mid, apply_delete m s))"

definition moderator_delete_message :: "chat_message \<Rightarrow> chat_state \<Rightarrow> bool \<times> chat_state" where
  "moderator_delete_message m s = (if ms_deleted m then (False, s) else (True, apply_delete m s))"

section \<open>Sharing with several\<close>

datatype share_object =
  ShPost shared_post | ShRecruitment recruitment | ShUser chat_user | ShOrg chat_org

datatype share_kind = KindPost | KindUser | KindOrganization | KindRecruitment

definition resolve_target :: "share_kind \<Rightarrow> nat \<Rightarrow> identity \<Rightarrow> chat_state \<Rightarrow> share_object result" where
  "resolve_target kind i a s = (case kind of
       KindPost \<Rightarrow> (case tbl_get sp_id (chat_posts s) i of
           Some p \<Rightarrow> if is_post_shareable (Some p) (Some a) s then Inr (ShPost p)
                     else Inl (MessageError ''content_unavailable'')
         | None \<Rightarrow> Inl (MessageError ''content_unavailable''))
     | KindUser \<Rightarrow> (case tbl_get cu_id (chat_users s) i of
           Some u \<Rightarrow> if is_user_profile_shareable (Some u) (Some a) s then Inr (ShUser u)
                     else Inl (MessageError ''content_unavailable'')
         | None \<Rightarrow> Inl (MessageError ''content_unavailable''))
     | KindOrganization \<Rightarrow> (case tbl_get co_id (chat_orgs s) i of
           Some x \<Rightarrow> if is_org_profile_shareable (Some x) (Some a) s then Inr (ShOrg x)
                     else Inl (MessageError ''content_unavailable'')
         | None \<Rightarrow> Inl (MessageError ''content_unavailable''))
     | KindRecruitment \<Rightarrow> (case tbl_get rec_id (chat_recruitments s) i of
           Some r \<Rightarrow> if is_recruitment_visible_to r (Some a) s then Inr (ShRecruitment r)
                     else Inl (MessageError ''content_unavailable'')
         | None \<Rightarrow> Inl (MessageError ''content_unavailable'')))"

definition share_send ::
  "instant \<Rightarrow> share_object \<Rightarrow> nat \<Rightarrow> identity \<Rightarrow> string \<Rightarrow> chat_state \<Rightarrow> (nat \<times> chat_state) result" where
  "share_send now x c a note s = (case x of
       ShPost p \<Rightarrow> send_shared_post now c a (Some p) note s
     | ShUser u \<Rightarrow> send_shared_user_profile now c a (Some u) note s
     | ShOrg b \<Rightarrow> send_shared_org_profile now c a (Some b) note s
     | ShRecruitment r \<Rightarrow> send_shared_recruitment now c a (Some r) note s)"

text \<open>What a share has done so far: sent threads, failures with their reasons, the threads seen.\<close>

datatype share_id = ThreadId nat | ActorId identity

record share_progress =
  sh_sent :: "nat list"
  sh_failed :: "(share_id \<times> string) list"
  sh_seen :: "nat list"

definition share_failed :: "share_id \<Rightarrow> string \<Rightarrow> share_progress \<Rightarrow> share_progress" where
  "share_failed i reason p = p\<lparr>sh_failed := sh_failed p @ [(i, reason)]\<rparr>"

text \<open>Every error of a shared send is a \<open>MessageError\<close>.\<close>

fun reason_of :: "error \<Rightarrow> string" where
  "reason_of (MessageError reason) = reason"
| "reason_of _ = ''error''"

definition deliver ::
  "instant \<Rightarrow> share_object \<Rightarrow> identity \<Rightarrow> string \<Rightarrow> nat \<Rightarrow> share_id \<Rightarrow> share_progress \<times> chat_state
     \<Rightarrow> share_progress \<times> chat_state" where
  "deliver now x a note c i ps = (case ps of (p, s) \<Rightarrow>
     if c \<in> set (sh_seen p) then (p, s)
     else let p = p\<lparr>sh_seen := sh_seen p @ [c]\<rparr>
          in case share_send now x c a note s of
               Inl e \<Rightarrow> (share_failed i (reason_of e) p, s)
             | Inr (_, s) \<Rightarrow> (p\<lparr>sh_sent := sh_sent p @ [c]\<rparr>, s))"

definition conversation_for_recipient :: "identity \<Rightarrow> identity \<Rightarrow> chat_state \<Rightarrow> (nat \<times> chat_state) result" where
  "conversation_for_recipient a t s =
     (let there = (case t of
            UserId u \<Rightarrow> (case tbl_get cu_id (chat_users s) u of None \<Rightarrow> False | Some x \<Rightarrow> cu_active x)
          | OrgId oi \<Rightarrow> org_is_reachable (tbl_get co_id (chat_orgs s) oi))
      in if \<not> there then Inl (MessageError ''recipient_not_found'')
         else if a = t then Inl (MessageError ''cannot_share_with_self'')
         else if is_blocked (chat_social s) (Some (as_actor a)) (Some t) then Inl (MessageError ''blocked'')
         else res_bind (get_or_create_conversation a t False s) (\<lambda>(c, _, s). Inr (c, s)))"

definition share_to_thread ::
  "instant \<Rightarrow> share_object \<Rightarrow> identity \<Rightarrow> string \<Rightarrow> nat \<Rightarrow> share_progress \<times> chat_state \<Rightarrow> share_progress \<times> chat_state" where
  "share_to_thread now x a note c ps = (case ps of (p, s) \<Rightarrow>
     if tbl_get cv_id (conversations s) c = None then (share_failed (ThreadId c) ''conversation_not_found'' p, s)
     else deliver now x a note c (ThreadId c) (p, s))"

definition share_to_recipient ::
  "instant \<Rightarrow> share_object \<Rightarrow> identity \<Rightarrow> string \<Rightarrow> identity \<Rightarrow> share_progress \<times> chat_state \<Rightarrow> share_progress \<times> chat_state" where
  "share_to_recipient now x a note t ps = (case ps of (p, s) \<Rightarrow>
     (case conversation_for_recipient a t s of
        Inl e \<Rightarrow> (share_failed (ActorId t) (reason_of e) p, s)
      | Inr (c, s) \<Rightarrow> deliver now x a note c (ActorId t) (p, s)))"

definition share ::
  "instant \<Rightarrow> identity \<Rightarrow> share_kind \<Rightarrow> nat \<Rightarrow> nat list \<Rightarrow> identity list \<Rightarrow> string \<Rightarrow> chat_state
     \<Rightarrow> (nat list \<times> (share_id \<times> string) list \<times> chat_state) result" where
  "share now a kind i threads recipients note s =
     res_bind (resolve_target kind i a s) (\<lambda>x.
       if (case x of ShRecruitment r \<Rightarrow> \<not> can_share_recruitment now (Some r) (Some a) s | _ \<Rightarrow> False)
       then Inr ([], map (\<lambda>c. (ThreadId c, ''not_shareable'')) threads
                     @ map (\<lambda>t. (ActorId t, ''not_shareable'')) recipients, s)
       else let ps = fold (share_to_thread now x a note) threads (\<lparr>sh_sent = [], sh_failed = [], sh_seen = []\<rparr>, s);
                ps = fold (share_to_recipient now x a note) recipients ps
            in Inr (sh_sent (fst ps), sh_failed (fst ps), snd ps))"

section \<open>Trial updates\<close>

definition assert_allowed :: "recruitment \<Rightarrow> application \<Rightarrow> unit result" where
  "assert_allowed r app =
     (if app_recruitment app \<noteq> rec_id r then Inl (PyException ''Application does not belong to this recruitment.'')
      else if app_status app = Withdrawn then Inl (PyException ''Applicant withdrew.'') else Inr ())"

definition send_one ::
  "instant \<Rightarrow> recruitment \<Rightarrow> string \<Rightarrow> bool \<Rightarrow> application \<Rightarrow> chat_state \<Rightarrow> (nat \<times> chat_state) result \<times> chat_state" where
  "send_one now r body as_card app s =
     (case assert_allowed r app of
        Inl e \<Rightarrow> (Inl e, s)
      | Inr _ \<Rightarrow> (case get_or_create_conversation (OrgId (rec_org r)) (UserId (app_applicant app)) True s of
          Inl e \<Rightarrow> (Inl e, s)
        | Inr (c, _, s) \<Rightarrow>
            (if as_card then send_shared_recruitment now c (OrgId (rec_org r)) (Some r) body s
             else send_message now c (OrgId (rec_org r)) body TextMessage s, s)))"

text \<open>A failed send leaves the thread it opened; the next applicant is tried all the same.\<close>

fun fan_out ::
  "instant \<Rightarrow> recruitment \<Rightarrow> string \<Rightarrow> bool \<Rightarrow> application list \<Rightarrow> chat_state
     \<Rightarrow> (nat \<times> nat) list \<times> (nat \<times> error) list \<times> chat_state" where
  "fan_out now r body as_card [] s = ([], [], s)"
| "fan_out now r body as_card (app # apps) s =
     (case send_one now r body as_card app s of
        (Inl e, s) \<Rightarrow> (case fan_out now r body as_card apps s of (sent, skipped, s) \<Rightarrow> (sent, (app_id app, e) # skipped, s))
      | (Inr (m, s), _) \<Rightarrow>
          (case fan_out now r body as_card apps s of (sent, skipped, s) \<Rightarrow> ((app_id app, m) # sent, skipped, s)))"

end
