(* ===== verification/Messaging_Laws.thy ===== *)
theory Messaging_Laws
  imports Messaging
begin

text \<open>
  The shape of a direct thread (its key, its two members, who has accepted), the last message a list shows, and
  that every operation keeps them.
\<close>

section \<open>Keys of pairs\<close>

lemma digit_not_separator: "is_digit_char c \<Longrightarrow> c \<noteq> CHR ''_'' \<and> c \<noteq> CHR '':''"
  by (auto simp: is_digit_char_def)

lemma actor_key_plain: "CHR ''_'' \<notin> set (actor_key i)"
  using decimal_digits digit_not_separator by (cases i) (auto simp: actor_key_def list_all_iff)

lemma actor_key_inj: "actor_key i = actor_key k \<Longrightarrow> i = k"
  by (cases i; cases k) (auto simp: actor_key_def dest: decimal_inj)

lemma split_at_separator:
  assumes "x @ ''__'' @ y = x' @ ''__'' @ y'" "CHR ''_'' \<notin> set x" "CHR ''_'' \<notin> set x'"
  shows "x = x' \<and> y = y'"
proof -
  have "takeWhile (\<lambda>c. c \<noteq> CHR ''_'') (z @ ''__'' @ w) = z" if "CHR ''_'' \<notin> set z" for z w
    using that by (induction z) auto
  then have "x = x'" using assms by metis
  then show ?thesis using assms(1) by simp
qed

lemma char_order_total: "(of_char a :: nat) < of_char b \<or> a = b \<or> (of_char b :: nat) < of_char a"
  using of_char_eq_iff [of a b, where ?'a = nat] by linarith

lemma str_le_total: "str_le x y \<or> str_le y x"
proof (induction x y rule: str_le.induct)
  case (3 a c b d)
  then show ?case using char_order_total [of a b] by auto
qed auto

lemma str_le_antisym: "str_le x y \<Longrightarrow> str_le y x \<Longrightarrow> x = y"
proof (induction x y rule: str_le.induct)
  case (3 a c b d)
  then show ?case by (cases "a = b") auto
next
  case (1 d)
  then show ?case by (cases d) auto
qed auto

lemma pair_key_sym: "generate_pair_key a t = generate_pair_key t a"
  using str_le_total [of "actor_key a" "actor_key t"] str_le_antisym [of "actor_key a" "actor_key t"]
  by (auto simp: generate_pair_key_def Let_def)

lemma pair_key_inj: "generate_pair_key a t = generate_pair_key b u \<longleftrightarrow> {a, t} = {b, u}"
proof
  assume eq: "generate_pair_key a t = generate_pair_key b u"
  have parts: "\<exists>x y. {x, y} = {i, k} \<and> generate_pair_key i k = actor_key x @ ''__'' @ actor_key y" for i k
    unfolding generate_pair_key_def Let_def
    by (cases "str_le (actor_key i) (actor_key k)") (simp_all, blast+)
  obtain x y where x: "{x, y} = {a, t}" "generate_pair_key a t = actor_key x @ ''__'' @ actor_key y"
    using parts [of a t] by (elim exE conjE)
  obtain v w where v: "{v, w} = {b, u}" "generate_pair_key b u = actor_key v @ ''__'' @ actor_key w"
    using parts [of b u] by (elim exE conjE)
  have "actor_key x = actor_key v \<and> actor_key y = actor_key w"
    by (rule split_at_separator) (use eq x(2) v(2) actor_key_plain in simp_all)
  then have "x = v" "y = w" using actor_key_inj by simp_all
  then show "{a, t} = {b, u}" using x(1) v(1) by simp
next
  assume "{a, t} = {b, u}"
  then show "generate_pair_key a t = generate_pair_key b u" unfolding doubleton_eq_iff by (elim disjE conjE) (simp_all only: pair_key_sym [of u b])
qed

section \<open>The invariant\<close>

text \<open>A thread: the creator's row, always accepted, and the other side's, accepted only in an active thread.\<close>

definition thread_ok :: "chat_state \<Rightarrow> conversation \<Rightarrow> bool" where
  "thread_ok s c \<longleftrightarrow> (\<exists>p q. members_of (cv_id c) s = [p, q] \<and> pt_who p = cv_created_by c \<and> pt_who q \<noteq> pt_who p
     \<and> cv_pair_key c = Some (generate_pair_key (pt_who p) (pt_who q)) \<and> pt_accepted p
     \<and> (pt_accepted q \<longrightarrow> cv_status c = ActiveThread)) \<and> cv_direct c \<and> cv_status c \<noteq> BlockedThread"

definition last_ok :: "chat_state \<Rightarrow> conversation \<Rightarrow> bool" where
  "last_ok s c \<longleftrightarrow> cv_last c = map_option ms_id (newest_message (cv_id c) (messages s))
     \<and> cv_last_at c = map_option ms_created (newest_message (cv_id c) (messages s))"

text \<open>The messages of one thread are in the order of their times.\<close>

definition in_order :: "nat \<Rightarrow> chat_message list \<Rightarrow> bool" where
  "in_order c rows \<longleftrightarrow> sorted_wrt (<) (map ms_created (filter (\<lambda>m. ms_conversation m = c) rows))"

definition chat_inv :: "chat_state \<Rightarrow> bool" where
  "chat_inv s \<longleftrightarrow> tbl_ok cv_id (conversations s) \<and> tbl_ok cv_pair_key (conversations s)
     \<and> (\<forall>c \<in> set (conversations s). cv_id c < next_conversation s \<and> thread_ok s c \<and> last_ok s c)
     \<and> (\<forall>p \<in> set (participants s). pt_conversation p < next_conversation s)
     \<and> tbl_ok ms_id (messages s) \<and> (\<forall>m \<in> set (messages s). ms_id m < next_message s)
     \<and> (\<forall>c. in_order c (messages s))
     \<and> (\<forall>m \<in> set (messages s). is_participant (ms_conversation m) (ms_sender m) s)"

text \<open>The clock has moved since the thread's last message.\<close>

definition later :: "nat \<Rightarrow> instant \<Rightarrow> chat_state \<Rightarrow> bool" where
  "later c now s \<longleftrightarrow> list_all (\<lambda>m. ms_conversation m = c \<longrightarrow> ms_created m < now) (messages s)"

definition same_threads :: "chat_state \<Rightarrow> chat_state \<Rightarrow> bool" where
  "same_threads s t \<longleftrightarrow> conversations t = conversations s \<and> next_conversation t = next_conversation s
     \<and> participants t = participants s \<and> messages t = messages s \<and> next_message t = next_message s"

inductive chat_step :: "chat_state \<Rightarrow> chat_state \<Rightarrow> bool" where
  Open: "a \<noteq> t \<Longrightarrow> get_or_create_conversation a t force s = Inr (c, created, u) \<Longrightarrow> chat_step s u"
| Accept: "accept_conversation c a s = Inr u \<Longrightarrow> chat_step s u"
| Read: "mark_as_read c a now s = Inr u \<Longrightarrow> chat_step s u"
| Send: "later c now s \<Longrightarrow> create_and_dispatch now c a kind content extra s = Inr (m, u) \<Longrightarrow> chat_step s u"
| Unsend: "delete_message c m a s = Inr (k, u) \<Longrightarrow> chat_step s u"
| Moderate: "m \<in> set (messages s) \<Longrightarrow> moderator_delete_message m s = (b, u) \<Longrightarrow> chat_step s u"
| Elsewhere: "same_threads s u \<Longrightarrow> chat_step s u"

section \<open>The newest message\<close>

lemma insort_largest: "(\<And>x. x \<in> set xs \<Longrightarrow> f x < f a) \<Longrightarrow> insort_key f a xs = xs @ [a]"
proof (induction xs)
  case (Cons b xs)
  then have "\<not> f a \<le> f b" by (simp add: not_le)
  with Cons show ?case by simp
qed simp

lemma sort_decreasing: "sorted_wrt (<) (map ms_created xs) \<Longrightarrow> sort_key (\<lambda>m. - ms_created m) xs = rev xs"
proof (induction xs)
  case (Cons m xs)
  then have "insort_key (\<lambda>m. - ms_created m) m (rev xs) = rev xs @ [m]" by (intro insort_largest) simp
  with Cons show ?case by simp
qed simp

definition live_in :: "nat \<Rightarrow> chat_message list \<Rightarrow> chat_message list" where
  "live_in c rows = filter (\<lambda>m. ms_conversation m = c \<and> \<not> ms_deleted m) rows"

lemma live_sorted:
  assumes "in_order c rows"
  shows "sorted_wrt (<) (map ms_created (live_in c rows))"
  using assms sorted_wrt_filter [of "\<lambda>m k. ms_created m < ms_created k"
      "filter (\<lambda>m. ms_conversation m = c) rows" "\<lambda>m. \<not> ms_deleted m"]
  by (simp add: in_order_def live_in_def sorted_wrt_map conj_commute)

lemma newest_is_last:
  assumes "in_order c rows"
  shows "newest_message c rows = (if live_in c rows = [] then None else Some (last (live_in c rows)))"
  using sort_decreasing [OF live_sorted [OF assms]]
  by (cases "live_in c rows" rule: rev_cases) (simp_all add: newest_message_def live_in_def)

lemma live_in_insert:
  "live_in c (tbl_insert m rows) = live_in c rows @ (if ms_conversation m = c \<and> \<not> ms_deleted m then [m] else [])"
  by (simp add: live_in_def tbl_insert_def)

abbreviation flag_deleted :: "chat_message \<Rightarrow> chat_message list \<Rightarrow> chat_message list" where
  "flag_deleted m rows \<equiv> map (\<lambda>x. if ms_id x = ms_id m then x\<lparr>ms_deleted := True\<rparr> else x) rows"

lemma live_in_flagged: "live_in c (flag_deleted m rows) = filter (\<lambda>x. ms_id x \<noteq> ms_id m) (live_in c rows)"
  by (induction rows) (simp_all add: live_in_def)

lemma flagged_columns:
  "map ms_id (flag_deleted m rows) = map ms_id rows" "in_order c (flag_deleted m rows) = in_order c rows"
proof -
  show "map ms_id (flag_deleted m rows) = map ms_id rows" by (induction rows) simp_all
  have "map ms_created (filter (\<lambda>m. ms_conversation m = c) (flag_deleted m rows))
      = map ms_created (filter (\<lambda>m. ms_conversation m = c) rows)" by (induction rows) simp_all
  then show "in_order c (flag_deleted m rows) = in_order c rows" by (simp add: in_order_def)
qed

lemma in_order_insert:
  "in_order c (tbl_insert m rows) \<longleftrightarrow>
     in_order c rows \<and> (ms_conversation m = c \<longrightarrow> (\<forall>k \<in> set rows. ms_conversation k = c \<longrightarrow> ms_created k < ms_created m))"
  by (auto simp: in_order_def tbl_insert_def sorted_wrt_append)

lemma last_filter: "xs \<noteq> [] \<Longrightarrow> P (last xs) \<Longrightarrow> filter P xs \<noteq> [] \<and> last (filter P xs) = last xs"
  by (cases xs rule: rev_cases) simp_all

section \<open>Rows of a thread\<close>

lemma thread_ok_cong:
  assumes "map (\<lambda>p. (pt_who p, pt_accepted p)) (members_of (cv_id c) t)
           = map (\<lambda>p. (pt_who p, pt_accepted p)) (members_of (cv_id c) s)"
  shows "thread_ok t c = thread_ok s c"
  using assms unfolding thread_ok_def
  by (auto simp: map_eq_Cons_conv Cons_eq_map_conv)

lemma is_participant_iff: "is_participant c a s \<longleftrightarrow> a \<in> pt_who ` set (members_of c s)"
  by (auto simp: is_participant_def list_ex_iff)

lemma thread_pair:
  "thread_ok s c \<Longrightarrow> a \<noteq> t \<Longrightarrow>
     (a \<in> pt_who ` set (members_of (cv_id c) s) \<and> t \<in> pt_who ` set (members_of (cv_id c) s))
       = (cv_pair_key c = Some (generate_pair_key a t))"
  unfolding thread_ok_def by (auto simp: pair_key_inj doubleton_eq_iff)

lemma existing_by_key:
  assumes "chat_inv s" "a \<noteq> t"
  shows "existing_conversation a t s = find (\<lambda>c. cv_pair_key c = Some (generate_pair_key a t)) (conversations s)"
proof -
  have "(cv_direct c \<and> length (members_of (cv_id c) s) = 2 \<and> a \<in> pt_who ` set (members_of (cv_id c) s)
          \<and> t \<in> pt_who ` set (members_of (cv_id c) s)) = (cv_pair_key c = Some (generate_pair_key a t))"
    if "c \<in> set (conversations s)" for c
  proof -
    have ok: "thread_ok s c" using assms that by (simp add: chat_inv_def)
    then have "cv_direct c" "length (members_of (cv_id c) s) = 2" by (auto simp: thread_ok_def)
    then show ?thesis using thread_pair [OF ok assms(2)] by simp
  qed
  then show ?thesis unfolding existing_conversation_def by (rule find_cong [OF refl])
qed

section \<open>Every operation keeps it\<close>

lemma filter_columns: "(\<And>p. P (f p) = P p) \<Longrightarrow> filter P (map f ps) = map f (filter P ps)"
  by (induction ps) simp_all

lemma members_mapped:
  assumes "participants t = map g (participants s)" "\<And>p. pt_conversation (g p) = pt_conversation p"
  shows "members_of c t = map g (members_of c s)"
  by (simp add: members_of_def assms filter_columns)

lemma participants_mapped:
  assumes "participants t = map g (participants s)"
    and "\<And>p. pt_conversation (g p) = pt_conversation p" "\<And>p. pt_who (g p) = pt_who p"
  shows "is_participant c a t = is_participant c a s"
  by (simp add: is_participant_iff members_mapped [OF assms(1,2)] image_image assms(3))

lemma chat_inv_mapped:
  assumes inv: "chat_inv s"
    and c: "conversations t = map f (conversations s)" "\<And>x. cv_id (f x) = cv_id x"
      "\<And>x. cv_pair_key (f x) = cv_pair_key x" "next_conversation t = next_conversation s"
    and p: "participants t = map g (participants s)" "\<And>p. pt_conversation (g p) = pt_conversation p"
      "\<And>p. pt_who (g p) = pt_who p"
    and ok: "\<And>x. x \<in> set (conversations s) \<Longrightarrow> thread_ok s x \<Longrightarrow> thread_ok t (f x)"
      "\<And>x. x \<in> set (conversations s) \<Longrightarrow> last_ok s x \<Longrightarrow> last_ok t (f x)"
    and m: "tbl_ok ms_id (messages t)" "\<forall>m \<in> set (messages t). ms_id m < next_message t"
      "\<forall>c. in_order c (messages t)"
      "\<forall>m \<in> set (messages t). is_participant (ms_conversation m) (ms_sender m) s"
  shows "chat_inv t"
proof -
  have "map cv_id (conversations t) = map cv_id (conversations s)"
       "map cv_pair_key (conversations t) = map cv_pair_key (conversations s)"
    by (simp_all add: c)
  then have keys: "tbl_ok cv_id (conversations t)" "tbl_ok cv_pair_key (conversations t)"
    using inv by (simp_all add: chat_inv_def tbl_ok_def)
  have rows: "\<forall>x \<in> set (conversations t). cv_id x < next_conversation t \<and> thread_ok t x \<and> last_ok t x"
    using inv ok by (simp add: chat_inv_def c)
  have ps: "\<forall>q \<in> set (participants t). pt_conversation q < next_conversation t"
    using inv by (simp add: chat_inv_def c p)
  have "\<forall>m \<in> set (messages t). is_participant (ms_conversation m) (ms_sender m) t"
    using m(4) by (simp add: participants_mapped [OF p])
  with keys rows ps m(1-3) show ?thesis by (simp add: chat_inv_def)
qed

lemmas same_messages = chat_inv_def [THEN iffD1, THEN conjunct2, THEN conjunct2, THEN conjunct2, THEN conjunct2]

lemma accepted_thread:
  assumes ok: "thread_ok s x"
  shows "thread_ok (set_active c (set_accepted c i s)) (if cv_id x = c then x\<lparr>cv_status := ActiveThread\<rparr> else x)"
proof -
  define g where "g = (\<lambda>p :: participant. if pt_conversation p = c \<and> pt_who p = i then p\<lparr>pt_accepted := True\<rparr> else p)"
  have ms: "members_of d (set_active c (set_accepted c i s)) = map g (members_of d s)" for d
    by (rule members_mapped) (simp_all add: set_active_def set_accepted_def g_def)
  obtain p q where pq: "members_of (cv_id x) s = [p, q]" using ok by (auto simp: thread_ok_def)
  then have "set (members_of (cv_id x) s) = {p, q}" by simp
  then have "pt_conversation p = cv_id x" "pt_conversation q = cv_id x" by (auto simp: members_of_def)
  then show ?thesis using ok pq by (auto simp: thread_ok_def ms g_def)
qed

lemma accept_keeps:
  assumes inv: "chat_inv s"
  shows "chat_inv (set_active c (set_accepted c i s))"
  by (rule chat_inv_mapped [OF inv,
        where f = "\<lambda>x. if cv_id x = c then x\<lparr>cv_status := ActiveThread\<rparr> else x"
          and g = "\<lambda>p. if pt_conversation p = c \<and> pt_who p = i then p\<lparr>pt_accepted := True\<rparr> else p"])
    (use same_messages [OF inv] in \<open>simp_all add: accepted_thread last_ok_def\<close>,
     simp_all add: set_active_def set_accepted_def)

lemma fresh_thread:
  assumes inv: "chat_inv s"
  shows "members_of (next_conversation s) s = []" "live_in (next_conversation s) (messages s) = []"
proof -
  have ps: "\<forall>p \<in> set (participants s). pt_conversation p < next_conversation s"
    and ms: "\<forall>m \<in> set (messages s). is_participant (ms_conversation m) (ms_sender m) s"
    using inv by (simp_all add: chat_inv_def)
  show none: "members_of (next_conversation s) s = []"
    using ps by (auto simp: members_of_def filter_empty_conv)
  have "ms_conversation m \<noteq> next_conversation s" if "m \<in> set (messages s)" for m
    using ms that none by (metis is_participant_iff image_empty empty_iff list.set(1))
  then show "live_in (next_conversation s) (messages s) = []" by (auto simp: live_in_def filter_empty_conv)
qed

lemma create_keeps:
  assumes inv: "chat_inv s" and ne: "a \<noteq> t" and none: "existing_conversation a t s = None"
    and made: "create_conversation a t force s = (c, u)"
  shows "chat_inv u \<and> c = next_conversation s"
proof -
  define act where "act = (force \<or> is_mutual_follow (chat_social s) a t)"
  define row where "row = \<lparr>cv_id = next_conversation s, cv_direct = True, cv_pair_key = Some (generate_pair_key a t),
      cv_status = (if act then ActiveThread else RequestedThread), cv_created_by = a, cv_last = None, cv_last_at = None\<rparr>"
  define pa where "pa = \<lparr>pt_conversation = next_conversation s, pt_who = a, pt_accepted = True, pt_read_at = None\<rparr>"
  define pb where "pb = \<lparr>pt_conversation = next_conversation s, pt_who = t, pt_accepted = act, pt_read_at = None\<rparr>"
  have nokey: "find (\<lambda>c. cv_pair_key c = Some (generate_pair_key a t)) (conversations s) = None"
    using none existing_by_key [OF inv ne] by simp
  have c: "c = next_conversation s"
    and u: "u = s\<lparr>conversations := tbl_insert row (conversations s), next_conversation := next_conversation s + 1,
                  participants := participants s @ [pa, pb]\<rparr>"
    using made nokey
    by (auto simp: create_conversation_def create_participants_def Let_def row_def pa_def pb_def act_def)
  have members: "members_of d u = members_of d s @ (if d = next_conversation s then [pa, pb] else [])" for d
    by (simp add: u members_of_def pa_def pb_def)
  have old: "cv_id x < next_conversation s" "thread_ok s x" "last_ok s x" if "x \<in> set (conversations s)" for x
    using inv that by (simp_all add: chat_inv_def)
  have same: "messages u = messages s" by (simp add: u)
  have new_row: "thread_ok u row" "last_ok u row"
    using fresh_thread [OF inv] same_messages [OF inv] ne
    by (simp_all add: thread_ok_def members row_def pa_def pb_def last_ok_def newest_is_last same)
  have old_rows: "thread_ok u x" "last_ok u x" if x: "x \<in> set (conversations s)" for x
    using old [OF x] thread_ok_cong [of x u s] by (simp_all add: members last_ok_def same)
  have "tbl_get cv_id (conversations s) (cv_id row) = None" "tbl_get cv_pair_key (conversations s) (cv_pair_key row) = None"
    using nokey by (auto simp: tbl_get_None_iff row_def find_None_iff dest: old(1))
  then have "tbl_ok cv_id (conversations u)" "tbl_ok cv_pair_key (conversations u)"
    using inv by (simp_all add: u chat_inv_def)
  moreover have "\<forall>x \<in> set (conversations u). cv_id x < next_conversation u \<and> thread_ok u x \<and> last_ok u x"
  proof
    fix x
    assume "x \<in> set (conversations u)"
    then consider "x = row" | "x \<in> set (conversations s)" by (auto simp: u tbl_insert_def)
    then show "cv_id x < next_conversation u \<and> thread_ok u x \<and> last_ok u x"
    proof cases
      case 1
      then show ?thesis using new_row by (simp add: u row_def)
    next
      case 2
      then show ?thesis using old(1) [OF 2] old_rows [OF 2] by (simp add: u)
    qed
  qed
  moreover have "\<forall>p \<in> set (participants u). pt_conversation p < next_conversation u"
    using inv by (auto simp: u pa_def pb_def chat_inv_def intro: less_SucI)
  moreover have "is_participant d i u" if "is_participant d i s" for d i
    using that unfolding is_participant_iff members by auto
  ultimately show ?thesis using same_messages [OF inv] by (simp add: chat_inv_def u c)
qed

lemma read_keeps:
  assumes inv: "chat_inv s" and ok: "mark_as_read c a now s = Inr u"
  shows "chat_inv u"
proof -
  define g where "g = (\<lambda>p :: participant. if pt_conversation p = c \<and> pt_who p = a then p\<lparr>pt_read_at := Some now\<rparr> else p)"
  have u: "participants u = map g (participants s)" "conversations u = conversations s" "messages u = messages s"
      "next_conversation u = next_conversation s" "next_message u = next_message s"
    using ok by (auto simp: mark_as_read_def chat_emit_def g_def split: if_splits)
  have members: "members_of d u = map g (members_of d s)" for d by (rule members_mapped) (simp_all add: u g_def)
  have "thread_ok u x = thread_ok s x" for x
    by (rule thread_ok_cong) (simp add: members g_def)
  moreover have "last_ok u x = last_ok s x" for x by (simp add: last_ok_def u)
  ultimately show ?thesis
    by (intro chat_inv_mapped [OF inv, where f = id and g = g]) (use same_messages [OF inv] u in \<open>simp_all add: g_def\<close>)
qed


lemma dispatched:
  assumes "create_and_dispatch now c a kind content extra s = Inr (m, u)"
  shows "m = next_message s" "is_participant c a s" "participants u = participants s"
    "next_conversation u = next_conversation s" "next_message u = next_message s + 1"
    "conversations u = map (\<lambda>x. if cv_id x = c then x\<lparr>cv_last := Some m, cv_last_at := Some now\<rparr> else x) (conversations s)"
    "messages u = tbl_insert \<lparr>ms_id = m, ms_conversation = c, ms_sender = a, ms_type = kind, ms_content = content,
        ms_fields = extra, ms_deleted = False, ms_created = now\<rparr> (messages s)"
  using assms
  by (auto simp: create_and_dispatch_def validate_sender_def Let_def chat_emit_def update_conversation_def
      res_bind_eq_Inr split: if_splits)

lemma send_keeps:
  assumes inv: "chat_inv s" and clock: "later c now s"
    and sent: "create_and_dispatch now c a kind content extra s = Inr (m, u)"
  shows "chat_inv u"
proof -
  define f where
    "f = (\<lambda>x :: conversation. if cv_id x = c then x\<lparr>cv_last := Some m, cv_last_at := Some now\<rparr> else x)"
  define row where "row = \<lparr>ms_id = m, ms_conversation = c, ms_sender = a, ms_type = kind, ms_content = content,
      ms_fields = extra, ms_deleted = False, ms_created = now\<rparr>"
  note d = dispatched [OF sent, folded f_def row_def]
  have s: "tbl_ok ms_id (messages s)" "\<forall>m \<in> set (messages s). ms_id m < next_message s"
      "\<And>c. in_order c (messages s)"
      "\<forall>m \<in> set (messages s). is_participant (ms_conversation m) (ms_sender m) s"
    using same_messages [OF inv] by simp_all
  have sorted: "in_order c (messages u)" for c
    using s(3) clock by (simp add: d in_order_insert later_def list_all_iff row_def)
  have "tbl_get ms_id (messages s) (ms_id row) = None"
    using s(2) by (auto simp: tbl_get_None_iff row_def d(1))
  then have ids: "tbl_ok ms_id (messages u)" using s(1) by (simp add: d)
  have less: "\<forall>m \<in> set (messages u). ms_id m < next_message u"
    using s(2) by (auto simp: d tbl_insert_def row_def intro: less_SucI)
  have senders: "\<forall>m \<in> set (messages u). is_participant (ms_conversation m) (ms_sender m) s"
    using s(4) d(2) by (simp add: d(7) tbl_insert_def row_def)
  have last: "last_ok u (f x)" if "last_ok s x" for x
    using that unfolding last_ok_def newest_is_last [OF sorted] newest_is_last [OF s(3)]
    by (simp add: d(7) live_in_insert f_def row_def)
  have "members_of d u = members_of d s" for d by (simp add: members_of_def d)
  then have "thread_ok u (f x) = thread_ok s x" for x by (simp add: thread_ok_def f_def)
  with ids less sorted senders last show ?thesis
    by (intro chat_inv_mapped [OF inv, where f = f and g = id]) (simp_all add: d f_def)
qed

lemma delete_keeps:
  assumes inv: "chat_inv s" and m: "m \<in> set (messages s)"
  shows "chat_inv (apply_delete m s)"
proof -
  define rows where "rows = flag_deleted m (messages s)"
  define top where "top = newest_message (ms_conversation m) rows"
  define f where "f = (\<lambda>x :: conversation. if cv_id x = ms_conversation m \<and> cv_last x = Some (ms_id m)
      then x\<lparr>cv_last := map_option ms_id top, cv_last_at := map_option ms_created top\<rparr> else x)"
  define u where "u = apply_delete m s"
  have u: "messages u = rows" "conversations u = map f (conversations s)" "participants u = participants s"
      "next_conversation u = next_conversation s" "next_message u = next_message s"
    by (simp_all add: u_def apply_delete_def Let_def chat_emit_def f_def top_def rows_def)
  have s: "tbl_ok ms_id (messages s)" "\<forall>m \<in> set (messages s). ms_id m < next_message s"
      "\<And>c. in_order c (messages s)"
      "\<forall>m \<in> set (messages s). is_participant (ms_conversation m) (ms_sender m) s"
    using same_messages [OF inv] by simp_all
  have sorted: "in_order c rows" and ids: "tbl_ok ms_id rows" for c
    using s(1,3) by (simp_all only: rows_def flagged_columns tbl_ok_def)
  have less: "\<forall>m \<in> set rows. ms_id m < next_message s"
    and senders: "\<forall>m \<in> set rows. is_participant (ms_conversation m) (ms_sender m) s"
    using s(2,4) by (auto simp: rows_def)
  have last: "last_ok u (f x)" if "last_ok s x" for x
  proof (cases "newest_message (cv_id x) (messages s) = Some m")
    case True
    then have "m \<in> set (live_in (cv_id x) (messages s))"
      using last_in_set by (auto simp: newest_is_last [OF s(3)] split: if_splits)
    then have "ms_conversation m = cv_id x" by (simp add: live_in_def)
    with True that show ?thesis by (simp add: last_ok_def f_def u top_def)
  next
    case False
    have live: "live_in (cv_id x) rows = filter (\<lambda>y. ms_id y \<noteq> ms_id m) (live_in (cv_id x) (messages s))"
      unfolding rows_def by (rule live_in_flagged)
    have other: "ms_id (last (live_in (cv_id x) (messages s))) \<noteq> ms_id m" if ne: "live_in (cv_id x) (messages s) \<noteq> []"
    proof
      assume eq: "ms_id (last (live_in (cv_id x) (messages s))) = ms_id m"
      have "last (live_in (cv_id x) (messages s)) \<in> set (messages s)"
        using last_in_set [OF ne] by (simp add: live_in_def)
      then have "last (live_in (cv_id x) (messages s)) = m"
        using eq s(1) m by (auto simp: tbl_ok_def distinct_map dest: inj_onD)
      with False ne show False by (simp add: newest_is_last [OF s(3)])
    qed
    have same: "newest_message (cv_id x) rows = newest_message (cv_id x) (messages s)"
      unfolding newest_is_last [OF sorted] newest_is_last [OF s(3)] live
      using other last_filter [of "live_in (cv_id x) (messages s)" "\<lambda>y. ms_id y \<noteq> ms_id m"] by simp
    have "cv_last x \<noteq> Some (ms_id m)"
      using that other by (simp add: last_ok_def newest_is_last [OF s(3)])
    then have "f x = x" by (simp add: f_def)
    with that same show ?thesis by (simp add: last_ok_def u)
  qed
  have "members_of d u = members_of d s" for d by (simp add: members_of_def u)
  then have "thread_ok u (f x) = thread_ok s x" for x by (simp add: thread_ok_def f_def)
  with ids less sorted senders last have "chat_inv u"
    by (intro chat_inv_mapped [OF inv, where f = f and g = id]) (simp_all add: u f_def)
  then show ?thesis by (simp add: u_def)
qed

lemma same_threads_keeps: "chat_inv s \<Longrightarrow> same_threads s u \<Longrightarrow> chat_inv u"
  by (simp add: chat_inv_def same_threads_def thread_ok_def last_ok_def members_of_def is_participant_def)


section \<open>The threads as a machine\<close>

lemma lift_keeps: "chat_inv s \<Longrightarrow> chat_inv (lift_to_active c t s)"
proof -
  have "set_accepted (cv_id c) t (set_active (cv_id c) s) = set_active (cv_id c) (set_accepted (cv_id c) t s)"
    by (simp add: set_accepted_def set_active_def)
  then show "chat_inv s \<Longrightarrow> chat_inv (lift_to_active c t s)" by (simp add: lift_to_active_def accept_keeps)
qed

lemma open_keeps:
  assumes inv: "chat_inv s" and ne: "a \<noteq> t" and ok: "get_or_create_conversation a t force s = Inr (c, created, u)"
  shows "chat_inv u"
proof (cases "existing_conversation a t s")
  case None
  then obtain c' where "create_conversation a t force s = (c', u)"
    using ok by (auto simp: get_or_create_conversation_def res_bind_eq_Inr split: prod.splits)
  then show ?thesis using create_keeps [OF inv ne None] by blast
next
  case (Some x)
  then show ?thesis
    using ok inv by (auto simp: get_or_create_conversation_def res_bind_eq_Inr lift_keeps)
qed

lemma deleted_message: "delete_message c mid a s = Inr (k, u) \<Longrightarrow> \<exists>m \<in> set (messages s). u = apply_delete m s"
  by (auto simp: delete_message_def find_Some_iff split: option.splits if_splits)

definition chat_init :: "chat_state \<Rightarrow> bool" where
  "chat_init s \<longleftrightarrow> conversations s = [] \<and> participants s = [] \<and> messages s = []"

interpretation chat: safe_machine chat_init chat_step chat_inv
proof unfold_locales
  show "chat_inv s" if "chat_init s" for s
    using that by (simp add: chat_init_def chat_inv_def tbl_ok_def in_order_def)
  show "chat_inv t" if inv: "chat_inv s" and step: "chat_step s t" for s t
    using step
  proof cases
    case (Accept c a)
    then show ?thesis using accept_keeps [OF inv] by (auto simp: accept_conversation_def split: if_splits)
  next
    case (Unsend c m a k)
    then show ?thesis using delete_keeps [OF inv] deleted_message by blast
  next
    case (Moderate m b)
    then show ?thesis using inv delete_keeps by (auto simp: moderator_delete_message_def split: if_splits)
  next
    case (Send now c a kind content extra m)
    then show ?thesis using send_keeps [OF inv] by blast
  next
    case Elsewhere
    then show ?thesis by (rule same_threads_keeps [OF inv])
  qed (use open_keeps [OF inv] read_keeps [OF inv] in blast)+
qed


lemmas chat_reachable = chat.inv_reachable
lemmas chat_runs_on = chat.inv_run

section \<open>Threads stay\<close>

definition thread_ids :: "chat_state \<Rightarrow> (string option \<times> nat) list" where
  "thread_ids s = map (\<lambda>x. (cv_pair_key x, cv_id x)) (conversations s)"

definition who_of :: "nat \<Rightarrow> chat_state \<Rightarrow> identity list" where
  "who_of c s = map pt_who (members_of c s)"

text \<open>A step appends threads at most, and leaves who is in the ones there.\<close>

definition grows :: "chat_state \<Rightarrow> chat_state \<Rightarrow> bool" where
  "grows s t \<longleftrightarrow> (\<exists>new. thread_ids t = thread_ids s @ new) \<and> (\<forall>c. who_of c s \<noteq> [] \<longrightarrow> who_of c t = who_of c s)"

lemma grows_refl: "grows s s" by (simp add: grows_def)

lemma grows_trans: "grows s t \<Longrightarrow> grows t u \<Longrightarrow> grows s u"
  unfolding grows_def by (metis append_assoc)

lemma grows_mapped:
  assumes "conversations t = map f (conversations s)" "\<And>x. cv_id (f x) = cv_id x"
    "\<And>x. cv_pair_key (f x) = cv_pair_key x" "participants t = map g (participants s)"
    "\<And>p. pt_conversation (g p) = pt_conversation p" "\<And>p. pt_who (g p) = pt_who p"
  shows "grows s t"
  using assms by (simp add: grows_def thread_ids_def who_of_def members_mapped [OF assms(4,5)] o_def)

lemma accept_grows: "grows s (set_active c (set_accepted c i s))"
  by (rule grows_mapped [where f = "\<lambda>x. if cv_id x = c then x\<lparr>cv_status := ActiveThread\<rparr> else x"
        and g = "\<lambda>p. if pt_conversation p = c \<and> pt_who p = i then p\<lparr>pt_accepted := True\<rparr> else p"])
    (simp_all add: set_active_def set_accepted_def)

lemma lift_grows: "grows s (lift_to_active c t s)"
proof -
  have "set_accepted (cv_id c) t (set_active (cv_id c) s) = set_active (cv_id c) (set_accepted (cv_id c) t s)"
    by (simp add: set_accepted_def set_active_def)
  then show ?thesis by (simp add: lift_to_active_def accept_grows grows_refl)
qed

lemma delete_grows: "grows s (apply_delete m s)"
  by (auto simp: grows_def apply_delete_def Let_def chat_emit_def thread_ids_def who_of_def members_of_def
      intro: exI [of _ "[]"])

lemma dispatch_grows: "create_and_dispatch now c a kind content extra s = Inr (m, u) \<Longrightarrow> grows s u"
  by (rule grows_mapped [OF dispatched(6), where g = id]) (simp_all add: dispatched(3))

text \<open>What opening answers: the pair's thread if there is one, else a new one.\<close>

lemma map_of_threads: "map_of (thread_ids s) k = map_option cv_id (find (\<lambda>x. cv_pair_key x = k) (conversations s))"
proof -
  have "map_of (map (\<lambda>x. (cv_pair_key x, cv_id x)) xs) k = map_option cv_id (find (\<lambda>x. cv_pair_key x = k) xs)" for xs
    by (induction xs) auto
  then show ?thesis by (simp add: thread_ids_def)
qed

lemma created_thread:
  assumes inv: "chat_inv s" and ne: "a \<noteq> t" and none: "existing_conversation a t s = None"
    and made: "create_conversation a t force s = (c, u)"
  shows "thread_ids u = thread_ids s @ [(Some (generate_pair_key a t), c)]"
    and "who_of d u = who_of d s @ (if d = c then [a, t] else [])" and "c = next_conversation s"
    and "messages u = messages s" and "next_message u = next_message s"
    and "members_of c u = [\<lparr>pt_conversation = c, pt_who = a, pt_accepted = True, pt_read_at = None\<rparr>,
           \<lparr>pt_conversation = c, pt_who = t, pt_accepted = force \<or> is_mutual_follow (chat_social s) a t, pt_read_at = None\<rparr>]"
  using made none fresh_thread [OF inv] unfolding existing_by_key [OF inv ne]
  by (auto simp: create_conversation_def create_participants_def Let_def thread_ids_def tbl_insert_def who_of_def
      members_of_def)

lemma opened_cases:
  assumes inv: "chat_inv s" and ne: "a \<noteq> t" and ok: "get_or_create_conversation a t force s = Inr (c, created, u)"
  obtains (old) x where "existing_conversation a t s = Some x" "c = cv_id x" "\<not> created"
      "u = (if force then lift_to_active x t s else s)"
    | (new) "existing_conversation a t s = None" "created" "create_conversation a t force s = (c, u)"
proof (cases "existing_conversation a t s")
  case None
  then show ?thesis
    using ok new by (auto simp: get_or_create_conversation_def res_bind_eq_Inr split: prod.splits)
next
  case (Some x)
  then show ?thesis
    using ok old by (simp add: get_or_create_conversation_def res_bind_eq_Inr)
qed

lemma thread_members:
  assumes "thread_ok s x" "cv_pair_key x = Some (generate_pair_key a t)"
  shows "set (who_of (cv_id x) s) = {a, t}"
proof -
  obtain p q where pq: "members_of (cv_id x) s = [p, q]" "cv_pair_key x = Some (generate_pair_key (pt_who p) (pt_who q))"
    using assms(1) unfolding thread_ok_def by blast
  then have "{pt_who p, pt_who q} = {a, t}" using assms(2) by (simp only: option.inject pair_key_inj)
  then show ?thesis by (simp add: who_of_def pq)
qed

lemma open_grows:
  assumes inv: "chat_inv s" and ne: "a \<noteq> t" and ok: "get_or_create_conversation a t force s = Inr (c, created, u)"
  shows "grows s u" "created \<longleftrightarrow> map_of (thread_ids s) (Some (generate_pair_key a t)) = None"
    "map_of (thread_ids u) (Some (generate_pair_key a t)) = Some c" "set (who_of c u) = {a, t}"
    "messages u = messages s"
proof -
  note key = map_of_threads [of s "Some (generate_pair_key a t)"]
  have "grows s u \<and> created = (map_of (thread_ids s) (Some (generate_pair_key a t)) = None)
      \<and> map_of (thread_ids u) (Some (generate_pair_key a t)) = Some c \<and> set (who_of c u) = {a, t}
      \<and> messages u = messages s"
  proof (cases rule: opened_cases [OF inv ne ok])
    case (1 x)
    note old = 1
    have found: "x \<in> set (conversations s)" "cv_pair_key x = Some (generate_pair_key a t)"
      using old(1) unfolding existing_by_key [OF inv ne] by (auto simp: find_Some_iff)
    have g: "grows s u" using old(4) lift_grows grows_refl by simp
    have "map_of (thread_ids s) (Some (generate_pair_key a t)) = Some c"
      using old(1,2) unfolding existing_by_key [OF inv ne] key by simp
    moreover from this g have "map_of (thread_ids u) (Some (generate_pair_key a t)) = Some c"
      by (auto simp: grows_def)
    moreover have "thread_ok s x" using inv found by (simp add: chat_inv_def)
    then have who: "set (who_of c s) = {a, t}" using thread_members [OF _ found(2)] old(2) by simp
    then have "set (who_of c u) = {a, t}" using g by (metis grows_def empty_not_insert list.set(1))
    moreover have "messages u = messages s"
      using old(4) by (simp add: lift_to_active_def set_active_def set_accepted_def)
    ultimately show ?thesis using g old(3) by simp
  next
    case 2
    note new = 2
    note made = created_thread [OF inv ne new(1,3)]
    have "who_of c s = []" using fresh_thread(1) [OF inv] made(3) by (simp add: who_of_def)
    moreover have "map_of (thread_ids s) (Some (generate_pair_key a t)) = None"
      using new(1) unfolding existing_by_key [OF inv ne] key by simp
    ultimately show ?thesis using made(1,2,4) new(2) by (simp add: grows_def map_add_def)
  qed
  then show "grows s u" "created \<longleftrightarrow> map_of (thread_ids s) (Some (generate_pair_key a t)) = None"
    "map_of (thread_ids u) (Some (generate_pair_key a t)) = Some c" "set (who_of c u) = {a, t}"
    "messages u = messages s" by simp_all
qed

lemma step_grows: "chat_inv s \<Longrightarrow> chat_step s t \<Longrightarrow> grows s t"
proof (erule chat_step.cases, goal_cases)
  case (1 a t' s' force c created u)
  then show ?case using open_grows(1) by blast
next
  case (3 c a now s' u)
  then show ?case
    by (intro grows_mapped [where f = id
          and g = "\<lambda>p. if pt_conversation p = c \<and> pt_who p = a then p\<lparr>pt_read_at := Some now\<rparr> else p"])
      (auto simp: mark_as_read_def chat_emit_def split: if_splits)
next
  case (7 s' u)
  then show ?case by (simp add: same_threads_def grows_def thread_ids_def who_of_def members_of_def)
qed (auto simp: accept_conversation_def moderator_delete_message_def accept_grows dispatch_grows delete_grows grows_refl
    dest: deleted_message split: if_splits)

lemma run_grows: "chat_step\<^sup>*\<^sup>* s t \<Longrightarrow> chat_inv s \<Longrightarrow> grows s t"
proof (induction rule: rtranclp_induct)
  case base
  show ?case by (rule grows_refl)
next
  case (step t u)
  then show ?case using step_grows [OF chat_runs_on [OF step(1)]] grows_trans by blast
qed


end
