(* ===== verification/Messaging_Share.thy ===== *)
theory Messaging_Share
  imports Messaging_Laws
begin

text \<open>
  A share to several targets as a run of openings and sends: what is known after each target, folded over the list.
\<close>

section \<open>One send of a share\<close>

lemma share_send_dispatches:
  assumes "share_send now x c a note s = Inr (m, u)"
  shows "\<exists>kind extra. create_and_dispatch now c a kind note extra s = Inr (m, u)"
  using assms
  by (cases x) (auto simp: share_send_def send_shared_post_def send_shared_user_profile_def send_shared_org_profile_def
      send_shared_recruitment_def split: if_splits)

abbreviation failed_ids :: "share_progress \<Rightarrow> share_id set" where
  "failed_ids p \<equiv> fst ` set (sh_failed p)"

definition progressed :: "share_progress \<Rightarrow> share_progress \<Rightarrow> bool" where
  "progressed p q \<longleftrightarrow> set (sh_sent p) \<subseteq> set (sh_sent q) \<and> failed_ids p \<subseteq> failed_ids q"

lemma progressed_refl: "progressed p p" by (simp add: progressed_def)

lemma progressed_trans: "progressed p q \<Longrightarrow> progressed q r \<Longrightarrow> progressed p r" unfolding progressed_def by (elim conjE) (intro conjI; erule subset_trans, assumption)

lemma progressed_sent: "progressed p q \<Longrightarrow> c \<in> set (sh_sent p) \<Longrightarrow> c \<in> set (sh_sent q)"
  unfolding progressed_def by (drule conjunct1) (erule (1) subsetD)

lemma progressed_failed: "progressed p q \<Longrightarrow> i \<in> failed_ids p \<Longrightarrow> i \<in> failed_ids q"
  unfolding progressed_def by (drule conjunct2) (erule (1) subsetD)

definition answered :: "identity \<Rightarrow> identity set \<Rightarrow> share_progress \<times> chat_state \<Rightarrow> nat \<Rightarrow> bool" where
  "answered a R ps c \<longleftrightarrow> c \<in> set (sh_sent (fst ps)) \<or> ThreadId c \<in> failed_ids (fst ps)
     \<or> (\<exists>t \<in> R. ActorId t \<in> failed_ids (fst ps) \<and> set (who_of c (snd ps)) = {a, t})"

definition new_messages :: "chat_state \<Rightarrow> instant \<Rightarrow> identity \<Rightarrow> string \<Rightarrow> nat list \<Rightarrow> chat_state \<Rightarrow> bool" where
  "new_messages s0 now a note cs s \<longleftrightarrow> (\<exists>new. messages s = messages s0 @ new \<and> map ms_conversation new = cs
     \<and> (\<forall>m \<in> set new. ms_sender m = a \<and> ms_content m = note \<and> \<not> ms_deleted m \<and> ms_created m = now))"

definition share_ok ::
  "chat_state \<Rightarrow> instant \<Rightarrow> identity \<Rightarrow> string \<Rightarrow> identity set \<Rightarrow> share_progress \<times> chat_state \<Rightarrow> bool" where
  "share_ok s0 now a note R ps \<longleftrightarrow> chat_step\<^sup>*\<^sup>* s0 (snd ps) \<and> distinct (sh_sent (fst ps))
     \<and> set (sh_sent (fst ps)) \<subseteq> set (sh_seen (fst ps)) \<and> (\<forall>c \<in> set (sh_seen (fst ps)). answered a R ps c)
     \<and> new_messages s0 now a note (sh_sent (fst ps)) (snd ps)"

lemma answered_grows:
  assumes "answered a R (p, s) c" "progressed p q" "grows s u"
  shows "answered a R (q, u) c"
proof -
  have m: "set (sh_sent p) \<subseteq> set (sh_sent q)" "failed_ids p \<subseteq> failed_ids q" using assms(2) by (simp_all add: progressed_def)
  consider "c \<in> set (sh_sent p)" | "ThreadId c \<in> failed_ids p"
    | t where "t \<in> R" "ActorId t \<in> failed_ids p" "set (who_of c s) = {a, t}"
    using assms(1) unfolding answered_def fst_conv snd_conv by (elim disjE bexE conjE)
  then show ?thesis
  proof cases
    case 1
    then have "c \<in> set (sh_sent q)" using m(1) by (rule subsetD [rotated])
    then show ?thesis by (simp add: answered_def)
  next
    case 2
    then have "ThreadId c \<in> failed_ids q" using m(2) by (rule subsetD [rotated])
    then show ?thesis by (simp add: answered_def)
  next
    case (3 t)
    then have "who_of c s \<noteq> []" by auto
    then have "set (who_of c u) = {a, t}" using assms(3) 3(3) by (simp add: grows_def)
    moreover have "ActorId t \<in> failed_ids q" using m(2) 3(2) by (rule subsetD)
    ultimately show ?thesis using 3(1) unfolding answered_def fst_conv snd_conv by (intro disjI2 bexI conjI)
  qed
qed

lemma new_messages_send:
  assumes "new_messages s0 now a note cs s" "create_and_dispatch now c a kind note extra s = Inr (m, u)"
  shows "new_messages s0 now a note (cs @ [c]) u"
  using assms(1) unfolding new_messages_def dispatched(7) [OF assms(2)]
  by (auto simp: tbl_insert_def)

lemma later_unsent:
  assumes "new_messages s0 now a note cs s" "c \<notin> set cs" "\<forall>m \<in> set (messages s0). ms_created m < now"
  shows "later c now s"
  using assms by (auto simp: new_messages_def later_def list_all_iff)

lemma deliver_step:
  assumes inv: "chat_inv s0" and clock: "\<forall>m \<in> set (messages s0). ms_created m < now"
    and ok: "share_ok s0 now a note R (p, s)"
    and i: "i = ThreadId c \<or> (\<exists>t \<in> R. i = ActorId t \<and> set (who_of c s) = {a, t})"
    and d: "deliver now x a note c i (p, s) = (q, u)"
  shows "share_ok s0 now a note R (q, u) \<and> progressed p q \<and> chat_step\<^sup>*\<^sup>* s u \<and> answered a R (q, u) c"
proof (cases "c \<in> set (sh_seen p)")
  case True
  then have "(q, u) = (p, s)" using d by (simp add: deliver_def)
  then show ?thesis using ok True progressed_refl by (auto simp: share_ok_def)
next
  case False
  have run: "chat_step\<^sup>*\<^sup>* s0 s" and unsent: "c \<notin> set (sh_sent p)"
    and new: "new_messages s0 now a note (sh_sent p) s" and seen: "\<forall>c \<in> set (sh_seen p). answered a R (p, s) c"
    using ok False by (auto simp: share_ok_def)
  have s: "chat_inv s" by (rule chat_runs_on [OF run inv])
  show ?thesis
  proof (cases "share_send now x c a note s")
    case (Inl e)
    then have qu: "q = p\<lparr>sh_seen := sh_seen p @ [c], sh_failed := sh_failed p @ [(i, reason_of e)]\<rparr>" "u = s"
      using d False by (simp_all add: deliver_def share_failed_def)
    have m: "progressed p q" by (auto simp: progressed_def qu)
    have "answered a R (q, u) c" using i by (auto simp: answered_def qu)
    moreover have "\<forall>d \<in> set (sh_seen p). answered a R (q, u) d"
      using seen answered_grows [OF _ m grows_refl] qu(2) by blast
    ultimately show ?thesis using ok m by (auto simp: share_ok_def qu)
  next
    case (Inr r)
    then obtain m where m: "share_send now x c a note s = Inr (m, u)"
        "q = p\<lparr>sh_seen := sh_seen p @ [c], sh_sent := sh_sent p @ [c]\<rparr>"
      using d False by (cases r) (simp add: deliver_def)
    then obtain kind extra where send: "create_and_dispatch now c a kind note extra s = Inr (m, u)"
      using share_send_dispatches by blast
    have step: "chat_step s u" by (rule chat_step.Send [OF later_unsent [OF new unsent clock] send])
    have progressed: "progressed p q" by (auto simp: progressed_def m)
    have "answered a R (q, u) c" by (simp add: answered_def m)
    moreover have "\<forall>d \<in> set (sh_seen p). answered a R (q, u) d"
      using seen answered_grows [OF _ progressed step_grows [OF s step]] by blast
    moreover have "new_messages s0 now a note (sh_sent q) u" using new_messages_send [OF new send] by (simp add: m)
    moreover have "chat_step\<^sup>*\<^sup>* s0 u" using run step by simp
    ultimately show ?thesis
      using ok progressed step unsent by (auto simp: share_ok_def m)
  qed
qed

section \<open>The whole share\<close>

definition named_threads_answered :: "nat list \<Rightarrow> share_progress \<Rightarrow> bool" where
  "named_threads_answered cs p \<longleftrightarrow> (\<forall>c \<in> set cs. c \<in> set (sh_sent p) \<or> ThreadId c \<in> failed_ids p)"

definition recipient_answered :: "identity \<Rightarrow> share_progress \<times> chat_state \<Rightarrow> identity \<Rightarrow> bool" where
  "recipient_answered a ps t \<longleftrightarrow> ActorId t \<in> failed_ids (fst ps)
     \<or> (\<exists>c. set (who_of c (snd ps)) = {a, t} \<and> (c \<in> set (sh_sent (fst ps)) \<or> ThreadId c \<in> failed_ids (fst ps)))"

lemma recipient_answered_grows:
  assumes "recipient_answered a (p, s) t" "progressed p q" "grows s u"
  shows "recipient_answered a (q, u) t"
proof -
  note m = progressed_sent [OF assms(2)] progressed_failed [OF assms(2)]
  consider "ActorId t \<in> failed_ids p" | c where "set (who_of c s) = {a, t}"
      "c \<in> set (sh_sent p) \<or> ThreadId c \<in> failed_ids p"
    using assms(1) unfolding recipient_answered_def fst_conv snd_conv by (elim disjE exE conjE) blast+
  then show ?thesis
  proof cases
    case 1
    then show ?thesis using m by (simp add: recipient_answered_def)
  next
    case (2 c)
    then have "who_of c s \<noteq> []" by auto
    then have "set (who_of c u) = {a, t}" using assms(3) 2(1) by (simp add: grows_def)
    moreover have "c \<in> set (sh_sent q) \<or> ThreadId c \<in> failed_ids q" using 2(2) m by (elim disjE) simp_all
    ultimately show ?thesis unfolding recipient_answered_def fst_conv snd_conv
      by - (rule disjI2, rule exI, rule conjI, assumption+)
  qed
qed

lemma threads_fold:
  assumes inv: "chat_inv s0" and clock: "\<forall>m \<in> set (messages s0). ms_created m < now"
  shows "share_ok s0 now a note {} ps \<Longrightarrow> fold (share_to_thread now x a note) cs ps = qs
    \<Longrightarrow> share_ok s0 now a note {} qs \<and> progressed (fst ps) (fst qs) \<and> named_threads_answered cs (fst qs)"
proof (induction cs arbitrary: ps)
  case Nil
  then show ?case by (simp add: progressed_refl named_threads_answered_def)
next
  case (Cons c cs)
  obtain p s where ps: "ps = (p, s)" by fastforce
  obtain q u where qu: "share_to_thread now x a note c ps = (q, u)" by fastforce
  have one: "share_ok s0 now a note {} (q, u) \<and> progressed p q \<and> (c \<in> set (sh_sent q) \<or> ThreadId c \<in> failed_ids q)"
  proof (cases "tbl_get cv_id (conversations s) c = None")
    case True
    then have "q = p\<lparr>sh_failed := sh_failed p @ [(ThreadId c, ''conversation_not_found'')]\<rparr>" "u = s"
      using qu by (simp_all add: ps share_to_thread_def share_failed_def)
    then show ?thesis using Cons.prems(1) by (auto simp: share_ok_def ps progressed_def answered_def)
  next
    case False
    then have "deliver now x a note c (ThreadId c) (p, s) = (q, u)" 
      using qu by (simp only: ps share_to_thread_def prod.case False if_False)
    from deliver_step [OF inv clock Cons.prems(1) [unfolded ps] _ this] show ?thesis by (simp add: answered_def)
  qed
  have rest: "share_ok s0 now a note {} qs \<and> progressed q (fst qs) \<and> named_threads_answered cs (fst qs)"
    using Cons.IH [of "(q, u)"] one Cons.prems(2) qu by simp
  then have "progressed p (fst qs)" using one progressed_trans by blast
  moreover have "c \<in> set (sh_sent (fst qs)) \<or> ThreadId c \<in> failed_ids (fst qs)"
    using one rest progressed_sent [of q] progressed_failed [of q] by (elim conjE disjE) simp_all
  ultimately show ?case using rest by (simp add: ps named_threads_answered_def)
qed


lemma recipient_thread:
  assumes inv: "chat_inv s" and ok: "conversation_for_recipient a t s = Inr (c, u)"
  shows "chat_step s u \<and> set (who_of c u) = {a, t} \<and> messages u = messages s"
proof -
  obtain created where ne: "a \<noteq> t" and o: "get_or_create_conversation a t False s = Inr (c, created, u)"
    using ok by (auto simp: conversation_for_recipient_def Let_def res_bind_eq_Inr split: if_splits)
  then show ?thesis using open_grows(4,5) [OF inv ne o] chat_step.Open [OF ne o] by simp
qed

lemma recipients_fold:
  assumes inv: "chat_inv s0" and clock: "\<forall>m \<in> set (messages s0). ms_created m < now"
  shows "share_ok s0 now a note R ps \<Longrightarrow> set ts \<subseteq> R \<Longrightarrow> fold (share_to_recipient now x a note) ts ps = qs
    \<Longrightarrow> share_ok s0 now a note R qs \<and> progressed (fst ps) (fst qs) \<and> chat_step\<^sup>*\<^sup>* (snd ps) (snd qs)
      \<and> (\<forall>t \<in> set ts. recipient_answered a qs t)"
proof (induction ts arbitrary: ps)
  case Nil
  then show ?case by (simp add: progressed_refl)
next
  case (Cons t ts)
  obtain p s where ps: "ps = (p, s)" by fastforce
  obtain q u where qu: "share_to_recipient now x a note t ps = (q, u)" by fastforce
  have s: "chat_inv s" using chat_runs_on [OF _ inv] Cons.prems(1) by (simp add: share_ok_def ps)
  have one: "share_ok s0 now a note R (q, u) \<and> progressed p q \<and> chat_step\<^sup>*\<^sup>* s u \<and> recipient_answered a (q, u) t"
  proof (cases "conversation_for_recipient a t s")
    case (Inl e)
    then have "q = p\<lparr>sh_failed := sh_failed p @ [(ActorId t, reason_of e)]\<rparr>" "u = s"
      using qu by (simp_all add: ps share_to_recipient_def share_failed_def)
    moreover from this have "progressed p q" by (auto simp: progressed_def)
    moreover have "\<forall>d \<in> set (sh_seen p). answered a R (q, u) d"
      using Cons.prems(1) answered_grows [OF _ calculation(3) grows_refl] calculation(2) by (simp add: share_ok_def ps)
    ultimately show ?thesis using Cons.prems(1) by (simp add: share_ok_def ps recipient_answered_def)
  next
    case (Inr r)
    then obtain c v where r: "conversation_for_recipient a t s = Inr (c, v)" by (cases r) simp
    note opened = recipient_thread [OF s r]
    have d: "deliver now x a note c (ActorId t) (p, v) = (q, u)" using qu r by (simp add: ps share_to_recipient_def)
    have "\<forall>d \<in> set (sh_seen p). answered a R (p, v) d"
      using Cons.prems(1) answered_grows [OF _ progressed_refl step_grows [OF s]] opened by (simp add: share_ok_def ps)
    then have ok: "share_ok s0 now a note R (p, v)"
      using Cons.prems(1) opened by (auto simp: share_ok_def ps new_messages_def)
    have t: "t \<in> R" using Cons.prems(2) by simp
    have del: "share_ok s0 now a note R (q, u)" "progressed p q" "chat_step\<^sup>*\<^sup>* v u" "answered a R (q, u) c"
      using deliver_step [OF inv clock ok _ d] t opened by blast+
    have "chat_inv v" using chat_runs_on [of s v] s opened by blast
    then have "grows v u" using run_grows del(3) by blast
    moreover have "who_of c v \<noteq> []" using opened by auto
    ultimately have who: "set (who_of c u) = {a, t}" using opened by (simp add: grows_def)
    have ne: "a \<noteq> t" using r by (auto simp: conversation_for_recipient_def Let_def split: if_splits)
    have "recipient_answered a (q, u) t"
      using del(4) who ne unfolding answered_def recipient_answered_def fst_conv snd_conv
      by (elim disjE bexE conjE) (auto simp: doubleton_eq_iff)
    then show ?thesis using del opened by (auto intro: converse_rtranclp_into_rtranclp)
  qed
  have rest: "share_ok s0 now a note R qs \<and> progressed q (fst qs) \<and> chat_step\<^sup>*\<^sup>* u (snd qs)
      \<and> (\<forall>t \<in> set ts. recipient_answered a qs t)"
    using Cons.IH [of "(q, u)"] one Cons.prems(2,3) qu by simp
  have "chat_inv u" using chat_runs_on [of s u] s one by blast
  then have "grows u (snd qs)" using run_grows rest by blast
  then have "recipient_answered a qs t"
    using recipient_answered_grows [of a q u t "fst qs" "snd qs"] one rest by simp
  moreover have "progressed p (fst qs)" "chat_step\<^sup>*\<^sup>* s (snd qs)" using one rest progressed_trans by auto
  ultimately show ?case using rest by (simp add: ps)
qed


end
