(* ===== verification/Messaging_Properties.thy ===== *)
theory Messaging_Properties
  imports Messaging_Share
begin

text \<open>
  What holds of direct conversations on every state the operations reach, and what a share and a trial update do.
\<close>

section \<open>A small world\<close>

definition chat_social0 :: social where
  "chat_social0 = \<lparr>follow_rows = [], counts = (\<lambda>_. None), block_rows = [], blocked_cache = (\<lambda>_. None), sent_notes = []\<rparr>"

definition chat0 :: chat_state where
  "chat0 = \<lparr>chat_social = chat_social0,
     chat_users = [\<lparr>cu_id = 1, cu_username = Some ''ana'', cu_active = True, cu_deletion_requested = None\<rparr>,
                   \<lparr>cu_id = 2, cu_username = Some ''ben'', cu_active = True, cu_deletion_requested = None\<rparr>],
     chat_orgs = [\<lparr>co_id = 5, co_active = True, co_suspended = False\<rparr>],
     chat_posts = [\<lparr>sp_id = 7, sp_author = UserId 1, sp_visibility = PostPublic, sp_deleted = False\<rparr>],
     chat_recruitments = [], conversations = [], next_conversation = 0, participants = [], messages = [],
     next_message = 0, chat_effects = []\<rparr>"

text \<open>Ben writes to the club: a request. The club answers nothing.\<close>

definition chat1 :: chat_state where
  "chat1 = chat0\<lparr>conversations := [\<lparr>cv_id = 0, cv_direct = True,
        cv_pair_key = Some (generate_pair_key (UserId 2) (OrgId 5)), cv_status = RequestedThread,
        cv_created_by = UserId 2, cv_last = None, cv_last_at = None\<rparr>],
     next_conversation := 1,
     participants := [\<lparr>pt_conversation = 0, pt_who = UserId 2, pt_accepted = True, pt_read_at = None\<rparr>,
                      \<lparr>pt_conversation = 0, pt_who = OrgId 5, pt_accepted = False, pt_read_at = None\<rparr>]\<rparr>"

lemmas chat_eval = chat0_def chat1_def chat_social0_def get_or_create_conversation_def require_not_blocked_def
  is_blocked_def is_blocked_between_def identity_of_def as_actor_def existing_conversation_def members_of_def
  create_conversation_def create_participants_def is_mutual_follow_def tbl_insert_def Let_def

lemma chat0_init: "chat_init chat0"
  by (simp add: chat_init_def chat0_def)

lemma chat1_opened: "get_or_create_conversation (UserId 2) (OrgId 5) False chat0 = Inr (0, True, chat1)"
  by (simp add: chat_eval)

lemma chat1_reached: "chat_step\<^sup>*\<^sup>* chat0 chat1"
  using chat_step.Open [OF _ chat1_opened] by (simp add: r_into_rtranclp)

section \<open>Threads\<close>

text \<open>
  Property C32. One thread for two identities. Once a pair has opened a conversation, every later opening, from either
  side, forced or not, and whatever messages, acceptances and other threads came in between, answers the same thread
  and creates none; no other thread joins the two.
\<close>

theorem thread_is_shared:
  assumes "chat_init s0" and "chat_step\<^sup>*\<^sup>* s0 s" and "a \<noteq> t"
    and "get_or_create_conversation a t f s = Inr (c, b, u)"
    and "chat_step\<^sup>*\<^sup>* u v" and "(x, y) \<in> {(a, t), (t, a)}"
    and "get_or_create_conversation x y g v = Inr (d, created, w)"
  shows "d = c \<and> \<not> created
    \<and> (\<forall>k \<in> set (conversations w). pt_who ` set (members_of (cv_id k) w) = {a, t} \<longrightarrow> cv_id k = c)"
proof -
  have s: "chat_inv s" using assms(1,2) by (rule chat_reachable)
  have u: "chat_inv u" by (rule open_keeps [OF s assms(3,4)])
  have v: "chat_inv v" using assms(5) u by (rule chat_runs_on)
  have xy: "x \<noteq> y" "generate_pair_key x y = generate_pair_key a t" using assms(3,6) pair_key_sym by auto
  have w: "chat_inv w" by (rule open_keeps [OF v xy(1) assms(7)])
  have "map_of (thread_ids v) (Some (generate_pair_key a t)) = Some c"
    using open_grows(3) [OF s assms(3,4)] run_grows [OF assms(5) u] by (auto simp: grows_def)
  then have here: "\<not> created" "map_of (thread_ids w) (Some (generate_pair_key a t)) = Some c"
    using open_grows(1,2) [OF v xy(1) assms(7)] by (auto simp: xy grows_def)
  then have d: "d = c" using open_grows(3) [OF v xy(1) assms(7)] by (simp add: xy)
  have "cv_id k = c" if k: "k \<in> set (conversations w)" and who: "pt_who ` set (members_of (cv_id k) w) = {a, t}" for k
  proof -
    have "thread_ok w k" "tbl_ok cv_pair_key (conversations w)" using w k by (simp_all add: chat_inv_def)
    then have "cv_pair_key k = Some (generate_pair_key a t)"
      using thread_pair [of w k a t] assms(3) by (simp add: who)
    then have "(Some (generate_pair_key a t), cv_id k) \<in> set (thread_ids w)"
      using k by (force simp: thread_ids_def)
    moreover have "distinct (map fst (thread_ids w))"
      using \<open>tbl_ok cv_pair_key (conversations w)\<close> by (simp add: thread_ids_def tbl_ok_def o_def)
    ultimately show ?thesis using here(2) by simp
  qed
  with d here show ?thesis by blast
qed

theorem thread_is_shared_witness:
  "\<exists>d created w. get_or_create_conversation (OrgId 5) (UserId 2) True chat1 = Inr (d, created, w)
     \<and> d = 0 \<and> \<not> created
     \<and> (\<forall>k \<in> set (conversations w). pt_who ` set (members_of (cv_id k) w) = {UserId 2, OrgId 5} \<longrightarrow> cv_id k = 0)"
proof -
  obtain w where e: "get_or_create_conversation (OrgId 5) (UserId 2) True chat1 = Inr (0, False, w)"
    by (simp add: chat_eval)
  have "0 = (0 :: nat) \<and> \<not> False
     \<and> (\<forall>k \<in> set (conversations w). pt_who ` set (members_of (cv_id k) w) = {UserId 2, OrgId 5} \<longrightarrow> cv_id k = 0)"
    by (rule thread_is_shared [OF chat0_init rtranclp.rtrancl_refl _ chat1_opened rtranclp.rtrancl_refl _ e]) simp_all
  with e show ?thesis by blast
qed

text \<open>
  The preview of a thread. On every reachable state a thread's last message is empty exactly when no
  message of it survives; else it is a surviving message of the thread, stored with its time, and every other
  survivor is older - after unsends and take-downs as after sends.
\<close>

theorem last_message_is_newest:
  assumes "chat_init s0" and "chat_step\<^sup>*\<^sup>* s0 s" and "c \<in> set (conversations s)"
  shows "case cv_last c of
      None \<Rightarrow> cv_last_at c = None \<and> (\<forall>m \<in> set (messages s). ms_conversation m = cv_id c \<longrightarrow> ms_deleted m)
    | Some k \<Rightarrow> \<exists>m \<in> set (messages s). ms_id m = k \<and> ms_conversation m = cv_id c \<and> \<not> ms_deleted m
        \<and> cv_last_at c = Some (ms_created m)
        \<and> (\<forall>n \<in> set (messages s). ms_conversation n = cv_id c \<and> \<not> ms_deleted n \<and> n \<noteq> m \<longrightarrow> ms_created n < ms_created m)"
proof -
  have inv: "chat_inv s" using assms(1,2) by (rule chat_reachable)
  then have ok: "last_ok s c" "in_order (cv_id c) (messages s)" using assms(3) by (simp_all add: chat_inv_def)
  have live: "m \<in> set (live_in (cv_id c) (messages s)) \<longleftrightarrow>
      m \<in> set (messages s) \<and> ms_conversation m = cv_id c \<and> \<not> ms_deleted m" for m
    by (simp add: live_in_def)
  show ?thesis
  proof (cases "live_in (cv_id c) (messages s)" rule: rev_cases)
    case Nil
    then have "cv_last c = None" "cv_last_at c = None" using ok(1) by (simp_all add: last_ok_def newest_is_last [OF ok(2)])
    then show ?thesis using live Nil by auto
  next
    case (snoc ys m)
    have "sorted_wrt (<) (map ms_created (live_in (cv_id c) (messages s)))" by (rule live_sorted [OF ok(2)])
    then have "\<forall>n \<in> set ys. ms_created n < ms_created m" by (simp add: snoc sorted_wrt_append)
    moreover have "cv_last c = Some (ms_id m)" "cv_last_at c = Some (ms_created m)"
      using ok(1) snoc by (simp_all add: last_ok_def newest_is_last [OF ok(2)])
    moreover have "n \<in> set ys" if "n \<in> set (live_in (cv_id c) (messages s))" "n \<noteq> m" for n
      using that by (simp add: snoc)
    moreover have "m \<in> set (live_in (cv_id c) (messages s))" by (simp add: snoc)
    ultimately show ?thesis using live by auto
  qed
qed

theorem last_message_is_newest_witness:
  "\<exists>m s. create_and_dispatch 9 0 (UserId 2) TextMessage ''hi'' no_fields chat1 = Inr (m, s)
     \<and> (\<forall>c \<in> set (conversations s). cv_last c = Some m)
     \<and> (\<exists>x \<in> set (messages s). ms_id x = m \<and> \<not> ms_deleted x
          \<and> (\<forall>n \<in> set (messages s). ms_conversation n = 0 \<and> \<not> ms_deleted n \<and> n \<noteq> x \<longrightarrow> ms_created n < ms_created x))"
proof -
  obtain m s where s: "create_and_dispatch 9 0 (UserId 2) TextMessage ''hi'' no_fields chat1 = Inr (m, s)"
      "\<exists>c. conversations s = [c] \<and> cv_id c = 0 \<and> cv_last c = Some m"
    by (simp add: chat_eval create_and_dispatch_def validate_sender_def validate_counterpart_available_def
        validate_not_blocked_def is_participant_def counterpart_unavailable_reason_def is_deleted_account_def
        org_is_reachable_def tbl_get_def update_conversation_def chat_emit_def)
  have "later 0 9 chat1" by (simp add: later_def chat1_def chat0_def)
  then have run: "chat_step\<^sup>*\<^sup>* chat0 s" by (rule rtranclp.rtrancl_into_rtrancl [OF chat1_reached chat_step.Send [OF _ s(1)]])
  obtain c where c: "conversations s = [c]" "cv_id c = 0" "cv_last c = Some m" using s(2) by blast
  have "c \<in> set (conversations s)" by (simp add: c)
  from last_message_is_newest [OF chat0_init run this] s(1) c show ?thesis by auto
qed

text \<open>
  A forced opening of a thread (the trial update's) does not always leave both sides accepted: after it
  the thread is active, but everyone has accepted only when it is new, or they all had, or it was a request of the
  sender's own. A request the recipient had sent to the club becomes active with the club still not accepted.
\<close>

theorem forced_open_accepts_iff:
  assumes "chat_init s0" and "chat_step\<^sup>*\<^sup>* s0 s" and "a \<noteq> t"
    and "get_or_create_conversation a t True s = Inr (c, created, u)"
  shows "(\<forall>x \<in> set (conversations u). cv_id x = c \<longrightarrow> cv_status x = ActiveThread)
    \<and> (list_all pt_accepted (members_of c u) \<longleftrightarrow> created \<or> list_all pt_accepted (members_of c s)
         \<or> (\<exists>x \<in> set (conversations s). cv_id x = c \<and> cv_status x = RequestedThread \<and> cv_created_by x = a))"
proof -
  have inv: "chat_inv s" using assms(1,2) by (rule chat_reachable)
  have inv': "chat_inv u" by (rule open_keeps [OF inv assms(3,4)])
  show ?thesis
  proof (cases rule: opened_cases [OF inv assms(3,4)])
    case (1 x)
    then have x: "x \<in> set (conversations s)" "cv_pair_key x = Some (generate_pair_key a t)"
      unfolding existing_by_key [OF inv assms(3)] by (auto simp: find_Some_iff)
    have one: "y = x" if "y \<in> set (conversations s)" "cv_id y = c" for y
      using inv that x(1) 1(2) by (auto simp: chat_inv_def tbl_ok_def distinct_map dest: inj_onD)
    obtain p q where pq: "members_of c s = [p, q]" "pt_who p = cv_created_by x" "pt_who q \<noteq> pt_who p"
        "cv_pair_key x = Some (generate_pair_key (pt_who p) (pt_who q))" "pt_accepted p"
        "pt_accepted q \<longrightarrow> cv_status x = ActiveThread" "cv_status x \<noteq> BlockedThread"
      using inv x(1) 1(2) unfolding chat_inv_def thread_ok_def by blast
    have sides: "{pt_who p, pt_who q} = {a, t}" using x(2) pq(4) by (simp only: option.inject pair_key_inj)
    show ?thesis
    proof (cases "cv_status x = RequestedThread")
      case False
      then have "u = s" "cv_status x = ActiveThread"
        using 1(4) pq(7) by (cases "cv_status x"; simp add: lift_to_active_def)+
      then show ?thesis using one 1(3) by auto
    next
      case True
      define g where "g = (\<lambda>r :: participant. if pt_conversation r = c \<and> pt_who r = t then r\<lparr>pt_accepted := True\<rparr> else r)"
      have u: "conversations u = map (\<lambda>y. if cv_id y = c then y\<lparr>cv_status := ActiveThread\<rparr> else y) (conversations s)"
          "participants u = map g (participants s)"
        using 1(2,4) True by (simp_all add: lift_to_active_def set_accepted_def set_active_def g_def)
      have "members_of c u = map g (members_of c s)" by (rule members_mapped [OF u(2)]) (simp add: g_def)
      then have mem: "members_of c u = [g p, g q]" by (simp add: pq(1))
      have "set (members_of c s) = {p, q}" by (simp add: pq(1))
      then have "pt_conversation p = c" "pt_conversation q = c" by (auto simp: members_of_def)
      moreover have "\<not> pt_accepted q" using pq(6) True by auto
      ultimately have all: "list_all pt_accepted (members_of c u) \<longleftrightarrow> pt_who q = t" "\<not> list_all pt_accepted (members_of c s)"
        using pq(5) by (simp_all add: mem g_def pq(1))
      have "pt_who q = t \<longleftrightarrow> cv_created_by x = a" using sides pq(2,3) assms(3) by (auto simp: doubleton_eq_iff)
      moreover have "(\<exists>y \<in> set (conversations s). cv_id y = c \<and> cv_status y = RequestedThread \<and> cv_created_by y = a)
          \<longleftrightarrow> cv_created_by x = a"
        using one x(1) 1(2) True by auto
      moreover have "\<forall>y \<in> set (conversations u). cv_id y = c \<longrightarrow> cv_status y = ActiveThread" unfolding u(1) set_map by (rule ballI, elim imageE) simp
      ultimately show ?thesis using all 1(3) by (simp only: simp_thms)
    qed
  next
    case 2
    note made = created_thread [OF inv assms(3) 2(1,3)]
    have "\<forall>y \<in> set (conversations s). cv_id y \<noteq> c" using inv made(3) by (auto simp: chat_inv_def)
    moreover obtain row where "conversations u = conversations s @ [row]" "cv_status row = ActiveThread"
      using 2(1,3) unfolding existing_by_key [OF inv assms(3)]
      by (auto simp: create_conversation_def create_participants_def Let_def tbl_insert_def)
    ultimately show ?thesis using made(6) 2(2) by (simp add: ball_Un)
  qed
qed

theorem forced_open_accepts_iff_witness:
  "\<exists>u. get_or_create_conversation (OrgId 5) (UserId 2) True chat1 = Inr (0, False, u)
     \<and> (\<forall>x \<in> set (conversations u). cv_id x = 0 \<longrightarrow> cv_status x = ActiveThread)
     \<and> \<not> list_all pt_accepted (members_of 0 u)"
proof -
  obtain u where u: "get_or_create_conversation (OrgId 5) (UserId 2) True chat1 = Inr (0, False, u)"
    by (simp add: chat_eval)
  have "(\<forall>x \<in> set (conversations u). cv_id x = 0 \<longrightarrow> cv_status x = ActiveThread)
    \<and> (list_all pt_accepted (members_of 0 u) \<longleftrightarrow> False \<or> list_all pt_accepted (members_of 0 chat1)
         \<or> (\<exists>x \<in> set (conversations chat1). cv_id x = 0 \<and> cv_status x = RequestedThread \<and> cv_created_by x = OrgId 5))"
    by (rule forced_open_accepts_iff [OF chat0_init chat1_reached _ u]) simp
  with u show ?thesis by (simp add: chat1_def chat0_def members_of_def)
qed

section \<open>Shares\<close>

lemma share_result:
  assumes inv: "chat_inv s" and clock: "\<forall>m \<in> set (messages s). ms_created m < now"
    and ok: "share now a kind i threads recipients note s = Inr (sent, failed, u)"
  shows "chat_step\<^sup>*\<^sup>* s u \<and> distinct sent \<and> new_messages s now a note sent u
    \<and> (\<forall>c \<in> set threads. c \<in> set sent \<or> ThreadId c \<in> fst ` set failed)
    \<and> (\<forall>t \<in> set recipients. ActorId t \<in> fst ` set failed
         \<or> (\<exists>c. set (who_of c u) = {a, t} \<and> (c \<in> set sent \<or> ThreadId c \<in> fst ` set failed)))"
proof -
  obtain x where x: "resolve_target kind i a s = Inr x" using ok by (auto simp: share_def res_bind_eq_Inr)
  show ?thesis
  proof (cases "case x of ShRecruitment r \<Rightarrow> \<not> can_share_recruitment now (Some r) (Some a) s | _ \<Rightarrow> False")
    case True
    then have "sent = []" "failed = map (\<lambda>c. (ThreadId c, ''not_shareable'')) threads
        @ map (\<lambda>t. (ActorId t, ''not_shareable'')) recipients" "u = s"
      using ok x by (simp_all add: share_def split: share_object.splits)
    then show ?thesis by (simp add: new_messages_def image_Un image_image)
  next
    case False
    define p0 where "p0 = (\<lparr>sh_sent = [], sh_failed = [], sh_seen = []\<rparr>, s)"
    define p1 where "p1 = fold (share_to_thread now x a note) threads p0"
    define p2 where "p2 = fold (share_to_recipient now x a note) recipients p1"
    have r: "sent = sh_sent (fst p2)" "failed = sh_failed (fst p2)" "u = snd p2"
      using ok x False by (simp_all add: share_def p0_def p1_def p2_def Let_def split: share_object.splits)
    have "share_ok s now a note {} p0" by (simp add: share_ok_def p0_def new_messages_def)
    from threads_fold [OF inv clock this p1_def [symmetric]]
    have one: "share_ok s now a note {} p1" "named_threads_answered threads (fst p1)" by simp_all
    have "answered a (set recipients) p1 c" if "answered a {} p1 c" for c
      using that unfolding answered_def by (elim disjE) simp_all
    then have "share_ok s now a note (set recipients) p1" using one(1) by (simp add: share_ok_def)
    from recipients_fold [OF inv clock this subset_refl p2_def [symmetric]]
    have two: "share_ok s now a note (set recipients) p2" "progressed (fst p1) (fst p2)"
        "\<forall>t \<in> set recipients. recipient_answered a p2 t" by simp_all
    have "named_threads_answered threads (fst p2)"
      using one(2) progressed_sent [OF two(2)] progressed_failed [OF two(2)]
      unfolding named_threads_answered_def by meson
    then show ?thesis
      using two(1,3) by (simp add: r share_ok_def named_threads_answered_def recipient_answered_def)
  qed
qed

text \<open>
  A share answers for every target, once. It writes one message from the sender, with the note, into each
  thread it reports as sent and no other, in that order and never twice; every requested thread is reported sent or
  failed, and every recipient failed or reached in the thread the two share - however many requested ids lead to it.
\<close>

theorem share_answers_every_target:
  assumes "chat_init s0" and "chat_step\<^sup>*\<^sup>* s0 s" and "\<forall>m \<in> set (messages s). ms_created m < now"
    and "share now a kind i threads recipients note s = Inr (sent, failed, u)"
  shows "distinct sent
    \<and> (\<exists>new. messages u = messages s @ new \<and> map ms_conversation new = sent
         \<and> (\<forall>m \<in> set new. ms_sender m = a \<and> ms_content m = note \<and> \<not> ms_deleted m))
    \<and> (\<forall>c \<in> set threads. c \<in> set sent \<or> ThreadId c \<in> fst ` set failed)
    \<and> (\<forall>t \<in> set recipients. ActorId t \<in> fst ` set failed
         \<or> (\<exists>c. pt_who ` set (members_of c u) = {a, t} \<and> (c \<in> set sent \<or> ThreadId c \<in> fst ` set failed)))"
proof -
  have "chat_inv s" using assms(1,2) by (rule chat_reachable)
  from share_result [OF this assms(3,4)] show ?thesis
    unfolding new_messages_def who_of_def set_map by blast
qed

lemma demo_share:
  "case share 9 (UserId 2) KindPost 7 [0, 3] [OrgId 5, UserId 1] ''look'' chat1 of
     Inl _ \<Rightarrow> False
   | Inr (sent, failed, u) \<Rightarrow> sent = [0, 1] \<and> failed = [(ThreadId 3, ''conversation_not_found'')]"
  by code_simp

theorem share_answers_every_target_witness:
  "\<exists>u new. share 9 (UserId 2) KindPost 7 [0, 3] [OrgId 5, UserId 1] ''look'' chat1
       = Inr ([0, 1], [(ThreadId 3, ''conversation_not_found'')], u)
     \<and> messages u = new \<and> map ms_conversation new = [0, 1] \<and> (\<forall>m \<in> set new. ms_sender m = UserId 2)"
proof -
  obtain u where u: "share 9 (UserId 2) KindPost 7 [0, 3] [OrgId 5, UserId 1] ''look'' chat1
      = Inr ([0, 1], [(ThreadId 3, ''conversation_not_found'')], u)"
    using demo_share by (auto split: sum.splits)
  have none: "messages chat1 = []" by (simp add: chat1_def chat0_def)
  then have "\<forall>m \<in> set (messages chat1). ms_created m < 9" by simp
  from share_answers_every_target [OF chat0_init chat1_reached this u] none u show ?thesis by auto
qed

end
