(* ===== verification/Trial_Updates.thy ===== *)
theory Trial_Updates
  imports Messaging_Properties Application_Properties
begin

text \<open>
  A recruitment's updates sent as direct messages: whom the fan-out reaches, and what it leaves of the others.
\<close>

definition org_messages :: "chat_state \<Rightarrow> oid \<Rightarrow> string \<Rightarrow> nat list \<Rightarrow> chat_state \<Rightarrow> bool" where
  "org_messages s oi body ms u \<longleftrightarrow> (\<exists>new. messages u = messages s @ new \<and> map ms_id new = ms
     \<and> (\<forall>m \<in> set new. ms_sender m = OrgId oi \<and> ms_content m = body))"

lemma org_messages_trans:
  "org_messages s oi body ms t \<Longrightarrow> org_messages t oi body ns u \<Longrightarrow> org_messages s oi body (ms @ ns) u"
  unfolding org_messages_def by (elim exE conjE) (simp, blast)

lemma dispatch_org_message:
  assumes "create_and_dispatch now c (OrgId oi) kind body extra s = Inr (m, u)"
  shows "org_messages s oi body [m] u" "chat_social u = chat_social s"
proof -
  show "org_messages s oi body [m] u" unfolding org_messages_def dispatched(7) [OF assms] by (simp add: tbl_insert_def)
  show "chat_social u = chat_social s"
    using assms by (auto simp: create_and_dispatch_def Let_def chat_emit_def update_conversation_def res_bind_eq_Inr)
qed

lemma open_leaves:
  assumes "get_or_create_conversation a t force s = Inr (c, created, u)"
  shows "messages u = messages s" "chat_social u = chat_social s" "\<not> is_blocked_between (chat_social s) a t"
  using assms
  by (auto simp: get_or_create_conversation_def create_conversation_def create_participants_def lift_to_active_def
      set_active_def set_accepted_def require_not_blocked_def is_blocked_def identity_of_def as_actor_def Let_def
      res_bind_eq_Inr split: option.splits if_splits identity.splits)

text \<open>Who cannot be reached by a trial update.\<close>

definition unreachable_applicant :: "recruitment \<Rightarrow> application \<Rightarrow> social \<Rightarrow> bool" where
  "unreachable_applicant r app g \<longleftrightarrow> app_status app = Withdrawn \<or> app_recruitment app \<noteq> rec_id r
     \<or> is_blocked_between g (OrgId (rec_org r)) (UserId (app_applicant app))"

lemma send_one_cases:
  assumes "send_one now r body as_card app s = (res, s1)"
  shows "(case res of
      Inl e \<Rightarrow> org_messages s (rec_org r) body [] s1 \<and> chat_social s1 = chat_social s
    | Inr (m, u) \<Rightarrow> org_messages s (rec_org r) body [m] u \<and> chat_social u = chat_social s
        \<and> \<not> unreachable_applicant r app (chat_social s))"
proof (cases "assert_allowed r app")
  case (Inl e)
  then show ?thesis using assms by (auto simp: send_one_def org_messages_def)
next
  case (Inr x)
  then have live: "app_recruitment app = rec_id r" "app_status app \<noteq> Withdrawn"
    by (auto simp: assert_allowed_def split: if_splits)
  show ?thesis
  proof (cases "get_or_create_conversation (OrgId (rec_org r)) (UserId (app_applicant app)) True s")
    case (Inl e)
    then show ?thesis using assms Inr by (auto simp: send_one_def org_messages_def)
  next
    case opened: (Inr y)
    then obtain c created t where
      o: "get_or_create_conversation (OrgId (rec_org r)) (UserId (app_applicant app)) True s = Inr (c, created, t)"
      by (cases y) simp
    note same = open_leaves [OF o]
    have res: "s1 = t" "res = (if as_card then send_shared_recruitment now c (OrgId (rec_org r)) (Some r) body t
        else send_message now c (OrgId (rec_org r)) body TextMessage t)"
      using assms Inr o by (simp_all add: send_one_def)
    show ?thesis
    proof (cases res)
      case (Inl e)
      then show ?thesis using same by (simp add: res(1) org_messages_def)
    next
      case (Inr z)
      then obtain m u where z: "res = Inr (m, u)" by (cases z) simp
      then obtain kind extra where "create_and_dispatch now c (OrgId (rec_org r)) kind body extra t = Inr (m, u)"
        using res(2) by (auto simp: send_shared_recruitment_def send_message_def split: if_splits)
      from dispatch_org_message [OF this] show ?thesis
        using same live by (simp add: z org_messages_def unreachable_applicant_def)
    qed
  qed
qed

text \<open>
  A trial update answers for every applicant: each one it is given ends up exactly once among the
  messaged or the skipped; the messages written are one from the club, with the body, per messaged applicant and
  none else; who withdrew, belongs to another recruitment or stands in a block with the club is skipped, and ends
  nobody else's send.
\<close>

theorem trial_update_answers_every_applicant:
  assumes "fan_out now r body as_card apps s = (sent, skipped, u)"
  shows "mset (map fst sent) + mset (map fst skipped) = mset (map app_id apps)
    \<and> (\<exists>new. messages u = messages s @ new \<and> map ms_id new = map snd sent
         \<and> (\<forall>m \<in> set new. ms_sender m = OrgId (rec_org r) \<and> ms_content m = body))
    \<and> (\<forall>app \<in> set apps. unreachable_applicant r app (chat_social s) \<longrightarrow> app_id app \<in> fst ` set skipped)"
proof -
  have "mset (map fst sent) + mset (map fst skipped) = mset (map app_id apps)
    \<and> org_messages s (rec_org r) body (map snd sent) u
    \<and> (\<forall>app \<in> set apps. unreachable_applicant r app (chat_social s) \<longrightarrow> app_id app \<in> fst ` set skipped)"
    using assms
  proof (induction apps arbitrary: s sent skipped)
    case Nil
    then show ?case by (simp add: org_messages_def)
  next
    case (Cons app apps)
    obtain res s1 where one: "send_one now r body as_card app s = (res, s1)" by fastforce
    note c = send_one_cases [OF one]
    show ?case
    proof (cases res)
      case (Inl e)
      obtain sent' skipped' u' where rest: "fan_out now r body as_card apps s1 = (sent', skipped', u')"
        by (metis prod_cases3)
      then have "sent = sent'" "skipped = (app_id app, e) # skipped'" "u = u'"
        using Cons.prems one Inl by simp_all
      with Cons.IH [of s1 sent' skipped'] rest c Inl show ?thesis
        using org_messages_trans [of s "rec_org r" body "[]" s1] by simp
    next
      case (Inr z)
      obtain m t where z: "z = (m, t)" by fastforce
      obtain sent' skipped' u' where rest: "fan_out now r body as_card apps t = (sent', skipped', u')"
        by (metis prod_cases3)
      then have "sent = (app_id app, m) # sent'" "skipped = skipped'" "u = u'"
        using Cons.prems one Inr z by simp_all
      with Cons.IH [of t sent' skipped'] rest c Inr z show ?thesis
        using org_messages_trans [of s "rec_org r" body "[m]" t] by simp
    qed
  qed
  then show ?thesis by (simp add: org_messages_def)
qed

definition updates_world :: chat_state where
  "updates_world = chat0\<lparr>chat_orgs := [\<lparr>co_id = 1, co_active = True, co_suspended = False\<rparr>]\<rparr>"

lemma demo_updates:
  "case fan_out 9 trial ''Moved to pitch 2'' False [entry 4 1 Shortlisted '''', entry 5 2 Withdrawn ''''] updates_world of
     (sent, skipped, u) \<Rightarrow> sent = [(4, 0)] \<and> map fst skipped = [5]"
  by code_simp

theorem trial_update_answers_every_applicant_witness:
  "\<exists>skipped u. fan_out 9 trial ''Moved to pitch 2'' False [entry 4 1 Shortlisted '''', entry 5 2 Withdrawn ''''] updates_world
       = ([(4, 0)], skipped, u)
     \<and> map ms_id (messages u) = [0] \<and> (\<forall>m \<in> set (messages u). ms_sender m = OrgId (rec_org trial))"
proof -
  obtain skipped u where u: "fan_out 9 trial ''Moved to pitch 2'' False
      [entry 4 1 Shortlisted '''', entry 5 2 Withdrawn ''''] updates_world = ([(4, 0)], skipped, u)"
    using demo_updates by (auto split: prod.splits)
  have "messages updates_world = []" by (simp add: updates_world_def chat0_def)
  with trial_update_answers_every_applicant [OF u] u show ?thesis by auto
qed

end
