(* ===== verification/Spec2Isabelle.thy ===== *)
theory Spec2Isabelle
  imports Org_Properties Recruitment_Properties Edit_Properties Guardian_Properties
    Media_Properties Upload_Properties Username_Properties Report_Properties
    Trial_Updates
begin

text \<open>
  A verification library for the Goatza backend: a Django service where organizations post trials and
  recruitments, players apply, and both follow, block and manage memberships.

  The program. Views under \<open>src/apps/*/views\<close> parse a request, resolve the actor (\<open>core/actor.py\<close>) and
  call a service method; every writing method runs in one database transaction. The model is of the
  services: a call is a function from its arguments and the database state to an error or an answer and a
  new state. An exception rolls the transaction back, so an error carries no state. What is sent after
  commit (notifications, e-mails, deferred deletions) is a list of effects in the state.

  The theories, in the order of their imports.

  \<open>Goatza_Prelude\<close>: identifiers, instants, the exceptions, Python strings, tables as lists of rows; the
  interface \<open>row_store\<close> of a table (lookup after write, how a write moves the number of rows with a
  property, which is what every stored counter is about) and the interface \<open>safe_machine\<close> of a component
  with an invariant.

  \<open>Actors\<close>: users, organizations, memberships and invites, the permission rules
  (\<open>apps/organization/permissions.py\<close>, \<open>core/actor.py\<close>).

  \<open>Social_Graph\<close>, \<open>Social_Laws\<close>: follows and blocks
  (\<open>apps/connections/services/follow_services.py\<close>, \<open>apps/moderation/services\<close>). Counters agree with the
  rows, a block excludes follows, the cached id sets are exact.

  \<open>Org_Members\<close>, \<open>Org_Laws\<close>, \<open>Org_Properties\<close>: the membership service
  (\<open>apps/organization/services/organization_member_service.py\<close>): inviting, answering, claiming, changing
  roles, removing, leaving. Unique rows, caps, a usable owner, settled invites.

  \<open>Trial_Calendar\<close>: zones and the trial window (\<open>utils/timezones.py\<close>, \<open>trial_window.py\<close>,
  \<open>legacy_status.py\<close>). \<open>Recruitment_Model\<close>: the rows of \<open>apps/recruitments/models.py\<close> and the rules that
  read one row. \<open>Pass_Code\<close>: booking references. \<open>Applications\<close>: \<open>application_service.py\<close>.
  \<open>Recruitment_Edit\<close>: \<open>recruitment_service.py\<close>. \<open>Trial_Feedback\<close>: \<open>trial_feedback_service.py\<close>.

  \<open>Application_Laws\<close>, \<open>Recruitment_Laws\<close>: one lemma per operation: what it does, taken apart by case,
  and that it keeps the invariant (counters, cap, unique rows, unique codes). \<open>Recruitment_Machine\<close>: the
  step relation of recruiting, the trail of statuses, the life of a pass code. \<open>Recruitment_Demo\<close>: a
  concrete run. \<open>Recruitment_Properties\<close>: what holds on every reachable state.
  \<open>Application_Properties\<close>, \<open>Pipeline_Properties\<close>, \<open>Edit_Properties\<close>: what single calls guarantee.

  \<open>Age_Gate\<close>: who is a minor and who may sign up (\<open>apps/accounts/constants.py\<close>,
  \<open>age_service.py\<close>). \<open>Guardian_Consent\<close>: parental consent (\<open>apps/guardians\<close>): the consent service, the
  gate, the screens, the sweep. \<open>Guardian_Laws\<close>: its step relation and invariant: the stored status is what
  the newest event says, a link is asked once and answered once. \<open>Guardian_Properties\<close>: what holds on
  every run, and a demo exchange.

  \<open>Storage_Paths\<close>, \<open>Storage_Validators\<close>: the keys of stored objects and the checks a file id and a URL
  must pass (\<open>services/storage/paths.py\<close>, \<open>validators.py\<close>). \<open>Media_Model\<close>: the rows of
  \<open>apps/media/models.py\<close>, posts and their media, and the create path of a post
  (\<open>apps/posts/services/post_service.py\<close>). \<open>Highlights\<close>: the clip rail
  (\<open>apps/highlights/services/highlight_services.py\<close>, \<open>highlight_selectors.py\<close>). \<open>Media_Jobs\<close>: uploads
  converted on a worker and posts held while they convert (\<open>apps/media/services\<close>, \<open>apps/media/tasks.py\<close>).

  \<open>Media_Laws\<close>, \<open>Highlight_Laws\<close>, \<open>Publication_Laws\<close>: what each operation may change, by cases: \<open>touches\<close>
  for jobs, \<open>rail_inv\<close> for rails, \<open>pubs_move\<close> for publications. \<open>Media_Machine\<close>: the interface
  \<open>publishing\<close>, a relation between states that every operation of worker and sweeper respects because
  publishing and expiring do, and its interpretations. \<open>Media_Steps\<close>: the step relation: requests, claims,
  runs that end, are killed or are lost, sweeps, restarts, with a queue the broker may reorder.
  \<open>Media_Liveness\<close>: what one sweep achieves. \<open>Media_Demo\<close>: an upload from its job to a post and a clip.
  \<open>Media_Properties\<close>: what holds on every run. \<open>Upload_Laws\<close>, \<open>Upload_Properties\<close>: whose a file is, from its
  key to the post that shows it, and what deleting a post deletes.

  \<open>Usernames\<close>: the one namespace of handles (\<open>apps/usernames/services/username_service.py\<close>, the format rules
  of \<open>utils/validations.py\<close>): claiming, releasing, resolving through the cache, generating. \<open>Username_Laws\<close>:
  what a valid handle is and why generated ones are. \<open>Username_Machine\<close>: registry, display columns and cache
  say the same after every step. \<open>Username_Properties\<close>: the shared namespace, the transparent cache, the end
  of the generator's loop, availability, and a rename over a stale row.

  \<open>Reports\<close>: filing a report, the moderators' decisions and the batch actions of their queue
  (\<open>apps/moderation/services/report_services.py\<close>, \<open>apps/moderation/admin.py\<close>), with the takedowns they call.
  \<open>Report_Laws\<close>: no operation rewrites what was filed, only an admin's deletion and the deletion of the account
  that filed it drop a row, and the unique index holds. \<open>Report_Properties\<close>:
  one open report, surviving evidence, one decision for a pile, duplicates and their race, batches, no oracle.

  \<open>Messaging\<close>: direct conversations, the messages in them, shares to several targets and a recruitment's updates
  (\<open>apps/messaging/services\<close>, \<open>selectors/share_selectors.py\<close>,
  \<open>apps/recruitments/services/recruitment_message_service.py\<close>). \<open>Messaging_Laws\<close>: keys of pairs, the invariant of
  threads and previews, and that every step keeps it and the threads there. \<open>Messaging_Share\<close>: a share as a run of
  openings and sends. \<open>Messaging_Properties\<close>, \<open>Trial_Updates\<close>: one thread for two identities, the preview is the
  newest survivor, whom a forced opening leaves unaccepted, a share and an update answer for every target.

  How the state corresponds to the code. A table is a list of records whose fields are the columns the
  modelled code reads or writes; foreign keys are ids. A recruitment owns its child rows (dates, age
  categories, questions and so on) as lists inside it. A method that reads a row it was handed by the view
  takes that row as an argument beside the state, so that a stale row can be spoken of; a method that
  re-reads under a lock looks the row up. Instants are microseconds since the epoch, days are numbers.

  Parameters. The clock, the random source of pass codes and of handles, the interpreter's time zone data, the location
  lookup, hashing, UUID parsing and e-mail validation are arguments; so are the storage validators in the
  recruitment service, where only their verdict matters. What storage and the converter answer to a run is
  the run's environment. A wish of the
  code about them is a hypothesis where it is used: a clock at most twelve hours behind UTC, a hash.

  Bounds. The five draws of a pass code are a bounded recursion that ends in the code's own
  \<open>RuntimeError\<close>. The loop that draws a free handle has no bound: it is a partial function, and
  \<open>generated_handle_terminates\<close> says when it ends. Every other loop is structural. Counters are unsigned columns: naturals, where the
  organization and follow services refuse to go below zero with an error.

  Not modelled. Of messaging: the lists, the search, the unread counts, the serializers and the socket consumers.
  Views, serializers and selectors beyond the rules named above; rating averages (floating
  point); announcements, exports and the discover lists; and the applications listed in the manifest as
  not modelled. Interleavings inside one transaction are not modelled: row locks serialise the methods
  that take them, and what a method without a lock does with a row that has moved is the subject of
  separate theorems (\<open>edit_writes_back_what_it_loaded\<close>, \<open>stale_request_reopens_cancelled\<close>).
\<close>

end
